(* ===== verification/Prelude.thy ===== *)
theory Prelude
  imports Main "HOL-Library.Word"
begin

text \<open>
  Shared vocabulary of the development: the fixed-width integers of the C sources, pointers
  that may be NULL, byte buffers, the big- and little-endian field codecs that the wire formats
  use, and the three interfaces (locales) that several components share.

  Conventions. A C \<^verbatim>\<open>uintN_t\<close> is an \<open>N word\<close>; \<^verbatim>\<open>int\<close> used as a truth value is \<open>bool\<close>. The
  target is a 68k Amiga, so \<^verbatim>\<open>unsigned\<close>, \<^verbatim>\<open>unsigned long\<close> and \<^verbatim>\<open>size_t\<close> are 32 bits wide. A pointer
  argument whose NULL guard is part of the code is an \<open>option\<close>; an object the code
  mutates through such a pointer is returned updated.
\<close>

unbundle bit_operations_syntax

type_synonym u8 = "8 word"
type_synonym u16 = "16 word"
type_synonym u32 = "32 word"
type_synonym u64 = "64 word"
type_synonym bytes = "u8 list"

named_theorems op_defs \<open>defining equations of the operations of a component\<close>
named_theorems inv_defs \<open>definitions of invariants\<close>

section \<open>Pointers\<close>

text \<open>
  \<open>on_ptr d f p\<close> is the shape of a C function that returns \<open>d\<close> at once when its object
  pointer is NULL and otherwise runs on the object.
\<close>

definition on_ptr :: "'r \<Rightarrow> ('a \<Rightarrow> 'r \<times> 'a) \<Rightarrow> 'a option \<Rightarrow> 'r \<times> 'a option" where
  "on_ptr d f p = (case p of None \<Rightarrow> (d, None) | Some x \<Rightarrow> map_prod id Some (f x))"

lemma on_ptr_simps [simp]:
  "on_ptr d f None = (d, None)"
  "on_ptr d f (Some x) = (fst (f x), Some (snd (f x)))"
  by (simp_all add: on_ptr_def map_prod_def split_beta)

section \<open>Byte buffers\<close>

text \<open>\<open>blit off src dst\<close>: \<^verbatim>\<open>memcpy(dst + off, src, n)\<close> for a source that fits.\<close>

definition blit :: "nat \<Rightarrow> 'a list \<Rightarrow> 'a list \<Rightarrow> 'a list" where
  "blit off src dst = take off dst @ src @ drop (off + length src) dst"

lemma length_blit [simp]:
  "off + length src \<le> length dst \<Longrightarrow> length (blit off src dst) = length dst"
  by (simp add: blit_def)

lemma nth_blit:
  assumes "off + length src \<le> length dst" "i < length dst"
  shows "blit off src dst ! i =
    (if off \<le> i \<and> i < off + length src then src ! (i - off) else dst ! i)"
  using assms by (auto simp: blit_def nth_append min_def)

lemma take_drop_blit [simp]:
  "off + length src \<le> length dst \<Longrightarrow> take (length src) (drop off (blit off src dst)) = src"
  by (simp add: blit_def)

text \<open>\<open>sub_at off n xs\<close>: the \<open>n\<close> elements of a buffer from \<open>off\<close> on.\<close>

definition sub_at :: "nat \<Rightarrow> nat \<Rightarrow> 'a list \<Rightarrow> 'a list" where
  "sub_at off n xs = take n (drop off xs)"

lemma length_sub_at [simp]: "off + n \<le> length xs \<Longrightarrow> length (sub_at off n xs) = n"
  by (simp add: sub_at_def)

section \<open>Endian codecs\<close>

text \<open>
  \<^verbatim>\<open>read_be16\<close>, \<^verbatim>\<open>write_be16\<close> and their relatives exist in several translation units with the
  same text; each component maps its own copy to these shared definitions.
\<close>

definition be16_of :: "u8 \<Rightarrow> u8 \<Rightarrow> u16" where
  "be16_of a b = (push_bit 8 (ucast a)) OR ucast b"

definition be32_of :: "u8 \<Rightarrow> u8 \<Rightarrow> u8 \<Rightarrow> u8 \<Rightarrow> u32" where
  "be32_of a b c d =
     push_bit 24 (ucast a) OR push_bit 16 (ucast b) OR push_bit 8 (ucast c) OR ucast d"

definition be16_bytes :: "u16 \<Rightarrow> bytes" where
  "be16_bytes v = [ucast (drop_bit 8 v), ucast v]"

definition be32_bytes :: "u32 \<Rightarrow> bytes" where
  "be32_bytes v =
     [ucast (drop_bit 24 v), ucast (drop_bit 16 v), ucast (drop_bit 8 v), ucast v]"

lemma length_be_bytes [simp]: "length (be16_bytes v) = 2" "length (be32_bytes w) = 4"
  by (simp_all add: be16_bytes_def be32_bytes_def)

lemma be16_of_bytes [simp]: "be16_of (ucast (drop_bit 8 v)) (ucast v) = v"
  unfolding be16_of_def
  by (rule bit_word_eqI) (auto simp: bit_simps)

lemma be32_of_bytes [simp]:
  "be32_of (ucast (drop_bit 24 v)) (ucast (drop_bit 16 v)) (ucast (drop_bit 8 v)) (ucast v) = v"
  unfolding be32_of_def
proof (rule bit_word_eqI)
  fix n assume "n < LENGTH(32)"
  consider "n < 8" | "8 \<le> n" "n < 16" | "16 \<le> n" "n < 24" | "24 \<le> n" by linarith
  then show "bit (push_bit 24 (ucast (ucast (drop_bit 24 v) :: u8))
      OR push_bit 16 (ucast (ucast (drop_bit 16 v) :: u8))
      OR push_bit 8 (ucast (ucast (drop_bit 8 v) :: u8)) OR (ucast (ucast v :: u8) :: u32)) n = bit v n"
    using \<open>n < LENGTH(32)\<close> by cases (auto simp: bit_simps)
qed

section \<open>Shared interfaces\<close>

text \<open>
  A component driven by events: each step keeps the invariant, so every run does. \<open>step\<close> is
  the component's operation seen as a state transformer.
\<close>

locale invariant_machine =
  fixes step :: "'e \<Rightarrow> 's \<Rightarrow> 's"
    and inv :: "'s \<Rightarrow> bool"
  assumes step_inv: "inv s \<Longrightarrow> inv (step e s)"
begin

lemma run_inv: "inv s \<Longrightarrow> inv (fold step es s)"
  by (induction es arbitrary: s) (auto intro: step_inv)

end

text \<open>
  A streaming consumer: input may arrive in any pieces. Clients use that the split of the
  input does not matter.
\<close>

locale stream_consumer =
  fixes feed :: "'a list \<Rightarrow> 's \<Rightarrow> 's"
  assumes feed_nil: "feed [] s = s"
    and feed_append: "feed (xs @ ys) s = feed ys (feed xs s)"
begin

lemma feed_pieces: "fold feed xss s = feed (concat xss) s"
  by (induction xss arbitrary: s) (simp_all add: feed_nil feed_append)

lemma feed_resplit: "concat xss = concat yss \<Longrightarrow> fold feed xss s = fold feed yss s"
  by (simp add: feed_pieces)

lemma feed_elements: "feed xs s = fold (\<lambda>x. feed [x]) xs s"
proof (induction xs arbitrary: s)
  case Nil
  show ?case by (simp add: feed_nil)
next
  case (Cons x xs)
  have "feed (x # xs) s = feed xs (feed [x] s)"
    using feed_append [of "[x]" xs s] by simp
  with Cons.IH show ?case by simp
qed

end

text \<open>A field codec: decoding what was encoded gives the value back.\<close>

locale codec =
  fixes enc :: "'a \<Rightarrow> 'b"
    and dec :: "'b \<Rightarrow> 'c option"
    and view :: "'a \<Rightarrow> 'c"
    and valid :: "'a \<Rightarrow> bool"
  assumes dec_enc: "valid x \<Longrightarrow> dec (enc x) = Some (view x)"
begin

lemma enc_inject: "valid x \<Longrightarrow> valid y \<Longrightarrow> enc x = enc y \<Longrightarrow> view x = view y"
  by (metis dec_enc option.inject)

end

section \<open>Words and lists\<close>

lemma unat_plus_nowrap:
  fixes a b :: "'n::len word"
  shows "unat a + unat b < 2 ^ LENGTH('n) \<Longrightarrow> unat (a + b) = unat a + unat b"
  by (simp add: unat_word_ariths)

lemma unat_minus_le:
  fixes a b :: "'n::len word"
  shows "b \<le> a \<Longrightarrow> unat (a - b) = unat a - unat b"
  by (simp add: unat_sub_if_size word_le_nat_alt)

lemma unat_lt: "unat (x :: 'n::len word) < 2 ^ LENGTH('n)"
  by (rule unsigned_less)

lemma unat_ucast_down:
  "unat (x :: 'a::len word) < 2 ^ LENGTH('b::len) \<Longrightarrow> unat (ucast x :: 'b word) = unat x"
  by (simp add: unsigned_ucast_eq take_bit_nat_eq_self)

lemma unat_ucast_up [simp]:
  "LENGTH('a::len) \<le> LENGTH('b::len) \<Longrightarrow> unat (ucast (x :: 'a word) :: 'b word) = unat x"
  by (rule unat_ucast_down)
    (rule less_le_trans [OF unat_lt], simp add: power_increasing)

lemma ucast_of_unat: "(ucast (x :: 'a::len word) :: 'b::len word) = of_nat (unat x)"
  by simp

end
