(* ===== verification/UsbEngine.thy ===== *)
theory UsbEngine
  imports Prelude
begin

text \<open>
  The Poseidon USB request engine (\<^verbatim>\<open>usb-poseidon/zzusb_engine.c\<close>): the life cycle of one
  request, shared by the driver task, AbortIO and the poll task, and the diagnostic ring that
  every transition writes to.

  The critical-section hooks are function pointers the driver installs; calling one is recorded
  in \<open>crit_log\<close>. Diagnostic counters are addressed by their enum value (a \<open>nat\<close>), because
  the code range-checks that value.
\<close>

section \<open>Data\<close>

datatype req_state = Req_Free | Req_Queued | Req_Dispatching | Req_In_Flight | Req_Retiring
  | Req_Terminal

fun req_state_code :: "req_state \<Rightarrow> u32" where
  "req_state_code Req_Free = 0"
| "req_state_code Req_Queued = 1"
| "req_state_code Req_Dispatching = 2"
| "req_state_code Req_In_Flight = 3"
| "req_state_code Req_Retiring = 4"
| "req_state_code Req_Terminal = 5"

datatype term_result = Result_None | Result_Ok | Result_IO_Error | Result_Aborted
  | Result_Timeout

fun term_result_code :: "term_result \<Rightarrow> u32" where
  "term_result_code Result_None = 0"
| "term_result_code Result_Ok = 1"
| "term_result_code Result_IO_Error = 2"
| "term_result_code Result_Aborted = 3"
| "term_result_code Result_Timeout = 4"

datatype usb_error = Err_None | Err_Timeout | Err_Nak | Err_Stall | Err_Offline | Err_Crc
  | Err_Babble | Err_Overflow | Err_Underflow | Err_Cancelled | Err_Host | Err_Bad_Parameter
  | Err_No_Memory | Err_Unsupported

record engine_request =
  request_id :: u32
  controller_epoch :: u32
  transport_status :: u16
  rq_state :: req_state
  terminal_result :: term_result
  abort_requested :: bool
  reply_claimed :: bool
  buffer_released :: bool
  observer :: bool

record diag_event =
  ev_sequence :: u32
  ev_request_id :: u32
  ev_epoch :: u32
  ev_detail :: u32
  ev_timestamp :: u32
  ev_type :: u16
  ev_status :: u16
  ev_address :: u16
  ev_topology :: u16
  ev_endpoint :: u8
  ev_direction :: u8
  ev_schedule :: u16

datatype crit_call = Crit_Enter | Crit_Leave

record engine_diag =
  next_sequence :: u32
  lost_events :: u32
  mutation_generation :: u32
  counters :: "u32 list"
  events :: "diag_event list"
  crit_enter_set :: bool
  crit_leave_set :: bool
  crit_log :: "crit_call list"

abbreviation "DIAG_EVENT_COUNT \<equiv> (64 :: nat)"
abbreviation "DIAG_COUNTER_COUNT \<equiv> (16 :: nat)"

abbreviation "COUNT_REQUEST \<equiv> (0 :: nat)"
abbreviation "COUNT_COMPLETION \<equiv> (1 :: nat)"
abbreviation "COUNT_TIMEOUT \<equiv> (2 :: nat)"
abbreviation "COUNT_LATE_COMPLETION \<equiv> (3 :: nat)"
abbreviation "COUNT_CANCELLATION \<equiv> (4 :: nat)"
abbreviation "COUNT_HOST_ERROR \<equiv> (6 :: nat)"
abbreviation "COUNT_QUEUE_HIGH_WATER \<equiv> (9 :: nat)"

abbreviation "EVENT_REQUEST \<equiv> (1 :: u16)"
abbreviation "EVENT_COMPLETION \<equiv> (2 :: u16)"
abbreviation "EVENT_TIMEOUT \<equiv> (3 :: u16)"
abbreviation "EVENT_LATE_COMPLETION \<equiv> (4 :: u16)"
abbreviation "EVENT_CANCELLATION \<equiv> (5 :: u16)"

abbreviation "STATUS_OK \<equiv> (0x00 :: u16)"
abbreviation "STATUS_PENDING \<equiv> (0x01 :: u16)"
abbreviation "STATUS_ERROR \<equiv> (0xff :: u16)"
abbreviation "STATUS_TIMEOUT \<equiv> (0xfe :: u16)"
abbreviation "STATUS_CANCELLED \<equiv> (0xf3 :: u16)"
abbreviation "STATUS_HOSTERROR \<equiv> (0xf2 :: u16)"

definition zero_event :: diag_event where
  "zero_event = \<lparr>ev_sequence = 0, ev_request_id = 0, ev_epoch = 0, ev_detail = 0,
     ev_timestamp = 0, ev_type = 0, ev_status = 0, ev_address = 0, ev_topology = 0,
     ev_endpoint = 0, ev_direction = 0, ev_schedule = 0\<rparr>"

section \<open>Diagnostics\<close>

definition diag_set_critical :: "bool \<Rightarrow> bool \<Rightarrow> engine_diag \<Rightarrow> engine_diag" where
  "diag_set_critical enter leave g = g\<lparr>crit_enter_set := enter, crit_leave_set := leave\<rparr>"

text \<open>The generation handed to \<open>diag_mutation_end\<close> is only kept in a local variable.\<close>

definition diag_mutation_begin :: "engine_diag \<Rightarrow> u32 \<times> engine_diag" where
  "diag_mutation_begin g =
     (mutation_generation g + 1,
      if crit_enter_set g then g\<lparr>crit_log := crit_log g @ [Crit_Enter]\<rparr> else g)"

definition diag_mutation_end :: "u32 \<Rightarrow> engine_diag \<Rightarrow> engine_diag" where
  "diag_mutation_end gen g =
     (let g1 = g\<lparr>mutation_generation := gen + 1\<rparr>
      in if crit_leave_set g1 then g1\<lparr>crit_log := crit_log g1 @ [Crit_Leave]\<rparr> else g1)"

definition diag_reset :: "engine_diag \<Rightarrow> engine_diag" where
  "diag_reset g =
     (let (gen, g1) = diag_mutation_begin g;
          g2 = g1\<lparr>next_sequence := 0, lost_events := 0,
                  counters := replicate DIAG_COUNTER_COUNT 0,
                  events := replicate DIAG_EVENT_COUNT zero_event\<rparr>
      in diag_mutation_end gen g2)"

definition diag_count :: "nat \<Rightarrow> engine_diag \<Rightarrow> engine_diag" where
  "diag_count counter g =
     (if counter < DIAG_COUNTER_COUNT
      then let (gen, g1) = diag_mutation_begin g;
               g2 = g1\<lparr>counters := (counters g1)[counter := counters g1 ! counter + 1]\<rparr>
           in diag_mutation_end gen g2
      else g)"

definition diag_high_water :: "u32 \<Rightarrow> engine_diag \<Rightarrow> bool \<times> engine_diag" where
  "diag_high_water depth g =
     (let (gen, g1) = diag_mutation_begin g
      in if depth \<le> counters g1 ! COUNT_QUEUE_HIGH_WATER
         then (False, diag_mutation_end gen g1)
         else (True, diag_mutation_end gen
                (g1\<lparr>counters := (counters g1)[COUNT_QUEUE_HIGH_WATER := depth]\<rparr>)))"

text \<open>
  \<open>diag_record\<close> takes the event to store; the argument's own sequence field is overwritten,
  as the code assigns every field. The slot is \<open>(sequence - 1) % 64\<close> in 32-bit arithmetic.
\<close>

definition diag_record :: "diag_event \<Rightarrow> engine_diag \<Rightarrow> engine_diag" where
  "diag_record ev g =
     (let (gen, g1) = diag_mutation_begin g;
          sequence = next_sequence g1 + 1;
          slot = unat ((sequence - 1) mod 64);
          g2 = g1\<lparr>next_sequence := sequence,
                  lost_events := (if sequence > 64 then lost_events g1 + 1
                                  else lost_events g1)\<rparr>;
          g3 = g2\<lparr>events := (events g2)[slot := ev\<lparr>ev_sequence := 0\<rparr>]\<rparr>;
          g4 = g3\<lparr>events := (events g3)[slot := (events g3 ! slot)\<lparr>ev_sequence := sequence\<rparr>]\<rparr>
      in diag_mutation_end gen g4)"

text \<open>The calls of the request engine pass zero for address, endpoint, schedule and time.\<close>

definition engine_event :: "u16 \<Rightarrow> u16 \<Rightarrow> u32 \<Rightarrow> u32 \<Rightarrow> u32 \<Rightarrow> diag_event" where
  "engine_event ty st rid ep det = zero_event\<lparr>ev_type := ty, ev_status := st,
     ev_request_id := rid, ev_epoch := ep, ev_detail := det\<rparr>"

record diag_snapshot =
  sn_magic :: u32
  sn_generation :: u32
  sn_version :: u16
  sn_event_count :: u16
  sn_next_sequence :: u32
  sn_lost_events :: u32
  sn_capabilities :: u32
  sn_epoch :: u32
  sn_counters :: "u32 list"
  sn_events :: "diag_event list"

definition zero_snapshot :: diag_snapshot where
  "zero_snapshot = \<lparr>sn_magic = 0, sn_generation = 0, sn_version = 0, sn_event_count = 0,
     sn_next_sequence = 0, sn_lost_events = 0, sn_capabilities = 0, sn_epoch = 0,
     sn_counters = replicate DIAG_COUNTER_COUNT 0,
     sn_events = replicate DIAG_EVENT_COUNT zero_event\<rparr>"

text \<open>
  The reader runs while other tasks record. \<open>mem t\<close> is the shared memory at the reader's
  \<open>t\<close>-th access; the accesses are numbered in program order: the generation, the next
  sequence, the lost count, the sixteen counters, then two per event (its sequence, then its
  copy), then the generation again. The events accepted are written to the front of the
  snapshot's array, which the code zeroes first.
\<close>

fun snapshot_events :: "(nat \<Rightarrow> engine_diag) \<Rightarrow> nat \<Rightarrow> u32 \<Rightarrow> nat \<Rightarrow> diag_event list" where
  "snapshot_events mem t sequence 0 = []"
| "snapshot_events mem t sequence (Suc n) =
     (let slot = unat ((sequence - 1) mod 64)
      in if ev_sequence (events (mem t) ! slot) \<noteq> sequence
         then snapshot_events mem (t + 2) (sequence + 1) n
         else events (mem (Suc t)) ! slot # snapshot_events mem (t + 2) (sequence + 1) n)"

definition snapshot_attempt ::
    "(nat \<Rightarrow> engine_diag) \<Rightarrow> u32 \<Rightarrow> u32 \<Rightarrow> nat \<Rightarrow> diag_snapshot option \<times> nat" where
  "snapshot_attempt mem caps epoch t =
     (let before = mutation_generation (mem t)
      in if before AND 1 \<noteq> 0 then (None, Suc t) else
      let next = next_sequence (mem (t + 1));
          count = (if next < 64 then next else 64);
          first = (if count \<noteq> 0 then next - count + 1 else 0);
          lost = lost_events (mem (t + 2));
          cs = map (\<lambda>i. counters (mem (t + 3 + i)) ! i) [0..<DIAG_COUNTER_COUNT];
          evs = snapshot_events mem (t + 19) first (unat count);
          last = t + 19 + 2 * unat count;
          sn = zero_snapshot\<lparr>sn_magic := 0x5a554444, sn_version := 1, sn_next_sequence := next,
                 sn_lost_events := lost, sn_capabilities := caps, sn_epoch := epoch,
                 sn_counters := cs, sn_events := blit 0 evs (sn_events zero_snapshot),
                 sn_event_count := of_nat (length evs)\<rparr>
      in if before = mutation_generation (mem last)
         then (Some (sn\<lparr>sn_generation := before\<rparr>), Suc last) else (None, Suc last))"

text \<open>\<open>None\<close> is the return value 0 (with the caller's snapshot zeroed).\<close>

fun engine_diag_snapshot :: "(nat \<Rightarrow> engine_diag) \<Rightarrow> u32 \<Rightarrow> u32 \<Rightarrow> nat \<Rightarrow> nat \<Rightarrow> diag_snapshot option" where
  "engine_diag_snapshot mem caps epoch 0 t = None"
| "engine_diag_snapshot mem caps epoch (Suc retries) t =
     (case snapshot_attempt mem caps epoch t of
        (Some sn, _) \<Rightarrow> Some sn
      | (None, t') \<Rightarrow> engine_diag_snapshot mem caps epoch retries t')"

section \<open>Requests\<close>

text \<open>
  Every operation takes the request pointer and the diagnostics, and returns the C result, the
  updated request and the updated diagnostics.
\<close>

type_synonym engine_res = "bool \<times> engine_request option \<times> engine_diag"

definition on_request ::
    "(engine_request \<Rightarrow> engine_diag \<Rightarrow> bool \<times> engine_request \<times> engine_diag) \<Rightarrow>
     engine_request option \<Rightarrow> engine_diag \<Rightarrow> engine_res" where
  "on_request f p g = (case p of None \<Rightarrow> (False, None, g)
     | Some r \<Rightarrow> (case f r g of (b, r', g') \<Rightarrow> (b, Some r', g')))"

definition zero_request :: engine_request where
  "zero_request = \<lparr>request_id = 0, controller_epoch = 0, transport_status = 0,
     rq_state = Req_Free, terminal_result = Result_None, abort_requested = False,
     reply_claimed = False, buffer_released = False, observer = False\<rparr>"

definition unobserved ::
    "engine_request \<Rightarrow> (engine_diag \<Rightarrow> engine_diag) \<Rightarrow> engine_diag \<Rightarrow> engine_diag" where
  "unobserved r f g = (if \<not> observer r then f g else g)"

definition make_terminal :: "term_result \<Rightarrow> u16 \<Rightarrow> engine_request \<Rightarrow> bool \<times> engine_request" where
  "make_terminal result status r =
     (if rq_state r = Req_Free \<or> rq_state r = Req_Terminal then (False, r)
      else (True, r\<lparr>transport_status := status,
                    terminal_result := (if abort_requested r then Result_Aborted else result),
                    rq_state := Req_Terminal\<rparr>))"

definition engine_init :: "engine_request option \<Rightarrow> engine_request option" where
  "engine_init p = map_option (\<lambda>r. zero_request) p"

definition engine_queue :: "engine_request option \<Rightarrow> engine_diag \<Rightarrow> engine_res" where
  "engine_queue = on_request (\<lambda>r g.
     if rq_state r \<noteq> Req_Free then (False, r, g)
     else (True, r\<lparr>rq_state := Req_Queued\<rparr>, g))"

definition engine_dispatch :: "engine_request option \<Rightarrow> engine_diag \<Rightarrow> engine_res" where
  "engine_dispatch = on_request (\<lambda>r g.
     if rq_state r \<noteq> Req_Queued then (False, r, g)
     else (True, r\<lparr>rq_state := Req_Dispatching\<rparr>, g))"

definition engine_begin ::
    "u32 \<Rightarrow> u32 \<Rightarrow> engine_request option \<Rightarrow> engine_diag \<Rightarrow> engine_res" where
  "engine_begin rid ep = on_request (\<lambda>r g.
     if rq_state r \<noteq> Req_Dispatching \<or> rid = 0 then (False, r, g)
     else let r1 = r\<lparr>request_id := rid, controller_epoch := ep, rq_state := Req_In_Flight\<rparr>
          in (True, r1, unobserved r1
                (\<lambda>g. diag_record (engine_event EVENT_REQUEST STATUS_PENDING rid ep 0)
                       (diag_count COUNT_REQUEST g)) g))"

definition engine_retry :: "u16 \<Rightarrow> engine_request option \<Rightarrow> engine_diag \<Rightarrow> engine_res" where
  "engine_retry status = on_request (\<lambda>r g.
     if rq_state r \<noteq> Req_In_Flight \<or> abort_requested r then (False, r, g)
     else (True,
           r\<lparr>request_id := 0, controller_epoch := 0, transport_status := status,
             terminal_result := Result_None, rq_state := Req_Queued\<rparr>,
           unobserved r (\<lambda>g. diag_record
                (engine_event EVENT_COMPLETION status (request_id r) (controller_epoch r) 0)
                (diag_count COUNT_COMPLETION g)) g))"

definition engine_abort :: "engine_request option \<Rightarrow> engine_diag \<Rightarrow> engine_res" where
  "engine_abort = on_request (\<lambda>r g.
     if rq_state r = Req_Free \<or> rq_state r = Req_Terminal \<or> abort_requested r
     then (False, r, g)
     else let r1 = r\<lparr>abort_requested := True\<rparr>;
              g1 = unobserved r1 (\<lambda>g. diag_record
                     (engine_event EVENT_CANCELLATION STATUS_CANCELLED (request_id r1)
                        (controller_epoch r1) (req_state_code (rq_state r1)))
                     (diag_count COUNT_CANCELLATION g)) g
          in if rq_state r1 = Req_Queued
             then (case make_terminal Result_Aborted STATUS_CANCELLED r1 of
                     (b, r2) \<Rightarrow> (b, r2, g1))
             else (False, r1, g1))"

definition engine_timeout :: "engine_request option \<Rightarrow> engine_diag \<Rightarrow> engine_res" where
  "engine_timeout = on_request (\<lambda>r g.
     if rq_state r \<noteq> Req_In_Flight then (False, r, g)
     else let r1 = r\<lparr>rq_state := Req_Retiring\<rparr>
          in (True, r1, unobserved r1 (\<lambda>g. diag_record
                (engine_event EVENT_TIMEOUT STATUS_TIMEOUT (request_id r1)
                   (controller_epoch r1) (req_state_code (rq_state r1)))
                (diag_count COUNT_TIMEOUT g)) g))"

definition engine_complete ::
    "u32 \<Rightarrow> u32 \<Rightarrow> u16 \<Rightarrow> engine_request option \<Rightarrow> engine_diag \<Rightarrow> engine_res" where
  "engine_complete rid ep status = on_request (\<lambda>r g.
     if (rq_state r \<noteq> Req_In_Flight \<and> rq_state r \<noteq> Req_Retiring) \<or>
        rid \<noteq> request_id r \<or> ep \<noteq> controller_epoch r
     then (False, r, unobserved r (\<lambda>g. diag_record
             (engine_event EVENT_LATE_COMPLETION status rid ep (req_state_code (rq_state r)))
             (diag_count COUNT_LATE_COMPLETION g)) g)
     else let result = (if status = STATUS_OK then Result_Ok else Result_IO_Error);
              g1 = unobserved r (\<lambda>g.
                     let g2 = diag_count COUNT_COMPLETION g;
                         g3 = (if status = STATUS_ERROR \<or> status = STATUS_HOSTERROR
                               then diag_count COUNT_HOST_ERROR g2 else g2)
                     in diag_record (engine_event EVENT_COMPLETION status rid ep
                          (if abort_requested r then 1 else 0)) g3) g
          in (case make_terminal result status r of (b, r2) \<Rightarrow> (b, r2, g1)))"

definition engine_retire ::
    "term_result \<Rightarrow> u16 \<Rightarrow> engine_request option \<Rightarrow> engine_diag \<Rightarrow> engine_res" where
  "engine_retire result status = on_request (\<lambda>r g.
     if rq_state r \<noteq> Req_Dispatching \<and> rq_state r \<noteq> Req_In_Flight \<and>
        rq_state r \<noteq> Req_Retiring
     then (False, r, g)
     else let g1 = unobserved r (\<lambda>g. diag_record
                (engine_event EVENT_COMPLETION status (request_id r) (controller_epoch r)
                   (term_result_code result))
                (diag_count COUNT_COMPLETION g)) g
          in (case make_terminal result status r of (b, r2) \<Rightarrow> (b, r2, g1)))"

definition engine_claim_reply :: "engine_request option \<Rightarrow> engine_diag \<Rightarrow> engine_res" where
  "engine_claim_reply = on_request (\<lambda>r g.
     if rq_state r \<noteq> Req_Terminal \<or> reply_claimed r then (False, r, g)
     else (True, r\<lparr>reply_claimed := True\<rparr>, g))"

definition engine_release_buffer :: "engine_request option \<Rightarrow> engine_diag \<Rightarrow> engine_res" where
  "engine_release_buffer = on_request (\<lambda>r g.
     if rq_state r \<noteq> Req_Terminal \<or> buffer_released r then (False, r, g)
     else (True, r\<lparr>buffer_released := True\<rparr>, g))"

definition classify_status :: "u16 \<Rightarrow> usb_error" where
  "classify_status status =
     (if status = 0x00 then Err_None
      else if status = 0xfe then Err_Timeout
      else if status = 0xfc then Err_Nak
      else if status = 0xfd then Err_Stall
      else if status = 0xf7 then Err_Offline
      else if status = 0xfb then Err_Crc
      else if status = 0xfa then Err_Babble
      else if status = 0xf9 then Err_Overflow
      else if status = 0xf8 then Err_Underflow
      else if status = 0xf3 then Err_Cancelled
      else if status = 0xf6 then Err_Bad_Parameter
      else if status = 0xf0 then Err_No_Memory
      else if status = 0xf5 then Err_Unsupported
      else Err_Host)"

lemmas engine_defs [op_defs] = engine_queue_def engine_dispatch_def engine_begin_def
  engine_retry_def engine_abort_def engine_timeout_def engine_complete_def engine_retire_def
  engine_claim_reply_def engine_release_buffer_def on_request_def make_terminal_def Let_def

end
