(* ===== verification/UsbRequest_Correct.thy ===== *)
theory UsbRequest_Correct
  imports UsbEngine
begin

text \<open>
  Correctness of the request life cycle of \<^verbatim>\<open>zzusb_engine.c\<close>: the legal transitions, the
  well-formedness invariant, and the exactly-once disciplines (one terminal result, one reply,
  one buffer release) over arbitrary interleavings of driver, AbortIO and poll-task calls.
\<close>

section \<open>Runs\<close>

datatype engine_op = Op_Queue | Op_Dispatch | Op_Begin u32 u32 | Op_Retry u16 | Op_Abort
  | Op_Timeout | Op_Complete u32 u32 u16 | Op_Retire term_result u16 | Op_Claim | Op_Release

fun engine_op_call :: "engine_op \<Rightarrow> engine_request option \<Rightarrow> engine_diag \<Rightarrow> engine_res" where
  "engine_op_call Op_Queue = engine_queue"
| "engine_op_call Op_Dispatch = engine_dispatch"
| "engine_op_call (Op_Begin rid ep) = engine_begin rid ep"
| "engine_op_call (Op_Retry st) = engine_retry st"
| "engine_op_call Op_Abort = engine_abort"
| "engine_op_call Op_Timeout = engine_timeout"
| "engine_op_call (Op_Complete rid ep st) = engine_complete rid ep st"
| "engine_op_call (Op_Retire res st) = engine_retire res st"
| "engine_op_call Op_Claim = engine_claim_reply"
| "engine_op_call Op_Release = engine_release_buffer"

text \<open>The request after one call; the diagnostics never influence it.\<close>

definition engine_next :: "engine_op \<Rightarrow> engine_request \<Rightarrow> engine_diag \<Rightarrow> engine_request" where
  "engine_next op r g = the (fst (snd (engine_op_call op (Some r) g)))"

definition engine_result :: "engine_op \<Rightarrow> engine_request \<Rightarrow> engine_diag \<Rightarrow> bool" where
  "engine_result op r g = fst (engine_op_call op (Some r) g)"

fun engine_run ::
    "engine_op list \<Rightarrow> engine_request \<Rightarrow> engine_diag \<Rightarrow>
     (engine_op \<times> bool) list \<times> engine_request \<times> engine_diag" where
  "engine_run [] r g = ([], r, g)"
| "engine_run (op # ops) r g =
     (case engine_op_call op (Some r) g of
        (b, p, g') \<Rightarrow> (case engine_run ops (the p) g' of
           (log, r', g'') \<Rightarrow> ((op, b) # log, r', g'')))"

lemmas engine_step_defs = engine_next_def engine_result_def engine_defs

lemma on_request_Some:
  "on_request f (Some r) g = (fst (f r g), Some (fst (snd (f r g))), snd (snd (f r g)))"
  by (simp add: on_request_def split_beta)

lemma engine_op_on_request: "\<exists>f. engine_op_call op = on_request f"
  by (cases op)
    (auto simp: engine_queue_def engine_dispatch_def engine_begin_def engine_retry_def
      engine_abort_def engine_timeout_def engine_complete_def engine_retire_def
      engine_claim_reply_def engine_release_buffer_def)

lemma engine_op_call_Some:
  "engine_op_call op (Some r) g =
     (engine_result op r g, Some (engine_next op r g), snd (snd (engine_op_call op (Some r) g)))"
proof -
  obtain f where "engine_op_call op = on_request f"
    using engine_op_on_request by blast
  then show ?thesis
    by (simp add: engine_next_def engine_result_def on_request_Some)
qed

lemma engine_next_diag_indep: "engine_next op r g = engine_next op r g'"
  by (cases op; cases "rq_state r") (simp_all add: engine_step_defs)

lemma engine_result_diag_indep: "engine_result op r g = engine_result op r g'"
  by (cases op) (simp_all add: engine_step_defs)

lemma engine_run_Cons:
  "engine_run (op # ops) r g =
     (let g' = snd (snd (engine_op_call op (Some r) g));
          (log, r', g'') = engine_run ops (engine_next op r g) g'
      in ((op, engine_result op r g) # log, r', g''))"
  by (subst engine_run.simps, subst engine_op_call_Some) (simp add: Let_def)

declare engine_run.simps(2) [simp del]

section \<open>Legal transitions\<close>

inductive req_edge :: "req_state \<Rightarrow> req_state \<Rightarrow> bool" where
  queue: "req_edge Req_Free Req_Queued"
| dispatch: "req_edge Req_Queued Req_Dispatching"
| abort_queued: "req_edge Req_Queued Req_Terminal"
| begin_flight: "req_edge Req_Dispatching Req_In_Flight"
| retire_dispatching: "req_edge Req_Dispatching Req_Terminal"
| retry: "req_edge Req_In_Flight Req_Queued"
| timeout: "req_edge Req_In_Flight Req_Retiring"
| finish: "req_edge Req_In_Flight Req_Terminal"
| finish_retiring: "req_edge Req_Retiring Req_Terminal"

code_pred req_edge .

inductive_simps req_edge_simps [simp]:
  "req_edge Req_Free t" "req_edge Req_Queued t" "req_edge Req_Dispatching t"
  "req_edge Req_In_Flight t" "req_edge Req_Retiring t" "req_edge Req_Terminal t"

lemma engine_next_edge:
  "rq_state (engine_next op r g) = rq_state r \<or> req_edge (rq_state r) (rq_state (engine_next op r g))"
  by (cases op; cases "rq_state r") (simp_all add: engine_step_defs)

text \<open>A call that reports failure leaves the state alone.\<close>

lemma engine_fail_state:
  "\<not> engine_result op r g \<Longrightarrow> rq_state (engine_next op r g) = rq_state r"
  by (cases op; cases "rq_state r") (auto simp: engine_step_defs split: if_splits)

section \<open>Well-formed requests\<close>

definition req_wf :: "engine_request \<Rightarrow> bool" where
  "req_wf r \<longleftrightarrow>
     (reply_claimed r \<longrightarrow> rq_state r = Req_Terminal) \<and>
     (buffer_released r \<longrightarrow> rq_state r = Req_Terminal) \<and>
     (rq_state r = Req_In_Flight \<or> rq_state r = Req_Retiring \<longrightarrow> request_id r \<noteq> 0) \<and>
     (rq_state r = Req_Free \<or> rq_state r = Req_Queued \<longrightarrow> \<not> abort_requested r) \<and>
     (rq_state r \<noteq> Req_Terminal \<longrightarrow> terminal_result r = Result_None) \<and>
     (rq_state r = Req_Terminal \<and> abort_requested r \<longrightarrow> terminal_result r = Result_Aborted)"

lemma req_wf_zero [simp]: "req_wf zero_request"
  by (simp add: req_wf_def zero_request_def)

lemma req_wf_next: "req_wf r \<Longrightarrow> req_wf (engine_next op r g)"
  by (cases op; cases "rq_state r") (simp_all add: req_wf_def engine_step_defs)

interpretation engine_request: invariant_machine "\<lambda>op r. engine_next op r g" req_wf
  by unfold_locales (rule req_wf_next)

lemma engine_run_request:
  "fst (snd (engine_run ops r g)) = fold (\<lambda>op r. engine_next op r g0) ops r"
proof (induction ops arbitrary: r g)
  case Nil
  then show ?case by simp
next
  case (Cons op ops)
  then show ?case
    by (simp add: engine_run_Cons Let_def split_beta engine_next_diag_indep [of op r g g0])
qed

lemma engine_run_wf: "req_wf r \<Longrightarrow> req_wf (fst (snd (engine_run ops r g)))"
  using engine_request.run_inv [where s = r and es = ops and g = g]
  by (simp add: engine_run_request [where ?g0.0 = g])

section \<open>Terminal requests stay as they are\<close>

definition same_outcome :: "engine_request \<Rightarrow> engine_request \<Rightarrow> bool" where
  "same_outcome r r' \<longleftrightarrow> rq_state r' = rq_state r \<and> terminal_result r' = terminal_result r \<and>
     transport_status r' = transport_status r \<and> request_id r' = request_id r \<and>
     controller_epoch r' = controller_epoch r \<and> abort_requested r' = abort_requested r"

lemma terminal_next:
  "rq_state r = Req_Terminal \<Longrightarrow> same_outcome r (engine_next op r g)"
  by (cases op) (simp_all add: same_outcome_def engine_step_defs)

lemma terminal_run:
  "rq_state r = Req_Terminal \<Longrightarrow> same_outcome r (fst (snd (engine_run ops r g)))"
proof (induction ops arbitrary: r g)
  case Nil
  then show ?case by (simp add: same_outcome_def)
next
  case (Cons op ops)
  from terminal_next [OF Cons.prems, of op g] have a: "same_outcome r (engine_next op r g)" .
  with Cons.prems have "rq_state (engine_next op r g) = Req_Terminal"
    by (simp add: same_outcome_def)
  from Cons.IH [OF this] a show ?case
    by (simp add: engine_run_Cons Let_def split_beta same_outcome_def)
qed

section \<open>Exactly-once claims\<close>

definition successes :: "engine_op \<Rightarrow> (engine_op \<times> bool) list \<Rightarrow> nat" where
  "successes op log = length (filter (\<lambda>(o', b). o' = op \<and> b) log)"

lemma successes_simps [simp]:
  "successes op [] = 0"
  "successes op ((o', b) # log) = (if o' = op \<and> b then 1 else 0) + successes op log"
  by (simp_all add: successes_def)

lemma claim_next:
  "reply_claimed (engine_next op r g) \<longleftrightarrow>
     reply_claimed r \<or> (op = Op_Claim \<and> engine_result op r g)"
  "engine_result Op_Claim r g \<Longrightarrow> \<not> reply_claimed r \<and> rq_state r = Req_Terminal"
  by (cases op; simp add: engine_step_defs) (simp add: engine_step_defs split: if_splits)

lemma release_next:
  "buffer_released (engine_next op r g) \<longleftrightarrow>
     buffer_released r \<or> (op = Op_Release \<and> engine_result op r g)"
  "engine_result Op_Release r g \<Longrightarrow> \<not> buffer_released r \<and> rq_state r = Req_Terminal"
  by (cases op; simp add: engine_step_defs) (simp add: engine_step_defs split: if_splits)

lemma claims_run:
  "successes Op_Claim (fst (engine_run ops r g)) \<le> (if reply_claimed r then 0 else 1)"
proof (induction ops arbitrary: r g)
  case Nil
  then show ?case by simp
next
  case (Cons op ops)
  let ?g = "snd (snd (engine_op_call op (Some r) g))"
  from Cons.IH [of "engine_next op r g" ?g] claim_next(1) [of op r g] claim_next(2) [of r g]
  show ?case
    by (cases "op = Op_Claim \<and> engine_result op r g")
      (auto simp: engine_run_Cons Let_def split_beta split: if_splits)
qed

lemma releases_run:
  "successes Op_Release (fst (engine_run ops r g)) \<le> (if buffer_released r then 0 else 1)"
proof (induction ops arbitrary: r g)
  case Nil
  then show ?case by simp
next
  case (Cons op ops)
  let ?g = "snd (snd (engine_op_call op (Some r) g))"
  from Cons.IH [of "engine_next op r g" ?g] release_next(1) [of op r g] release_next(2) [of r g]
  show ?case
    by (cases "op = Op_Release \<and> engine_result op r g")
      (auto simp: engine_run_Cons Let_def split_beta split: if_splits)
qed

lemma claim_granted:
  "rq_state r = Req_Terminal \<Longrightarrow> engine_result Op_Claim r g = (\<not> reply_claimed r)"
  by (simp add: engine_step_defs)

lemma claims_some:
  "rq_state r = Req_Terminal \<Longrightarrow> \<not> reply_claimed r \<Longrightarrow> Op_Claim \<in> set ops \<Longrightarrow>
     1 \<le> successes Op_Claim (fst (engine_run ops r g))"
proof (induction ops arbitrary: r g)
  case Nil
  then show ?case by simp
next
  case (Cons op ops)
  let ?g = "snd (snd (engine_op_call op (Some r) g))"
  show ?case
  proof (cases "op = Op_Claim")
    case True
    with claim_granted [OF Cons.prems(1), of g] Cons.prems(2) show ?thesis
      by (simp add: engine_run_Cons Let_def split_beta)
  next
    case False
    have "rq_state (engine_next op r g) = Req_Terminal"
      using terminal_next [OF Cons.prems(1), of op g] Cons.prems(1) by (simp add: same_outcome_def)
    moreover from False Cons.prems(2) have "\<not> reply_claimed (engine_next op r g)"
      using claim_next(1) [of op r g] by simp
    moreover from False Cons.prems(3) have "Op_Claim \<in> set ops" by auto
    ultimately have "1 \<le> successes Op_Claim (fst (engine_run ops (engine_next op r g) ?g))"
      by (rule Cons.IH)
    with False show ?thesis by (simp add: engine_run_Cons Let_def split_beta)
  qed
qed

section \<open>Properties\<close>

text \<open>C1: from an initialised request, any sequence of calls by any task yields a well-formed
  request, and every change of state along it is one of the nine legal transitions.\<close>

theorem engine_request_invariant:
  "req_wf (fst (snd (engine_run ops zero_request g))) \<and>
   (let r = fst (snd (engine_run ops zero_request g)) in
      rq_state (engine_next op r g') = rq_state r \<or>
      req_edge (rq_state r) (rq_state (engine_next op r g')))"
  by (simp add: engine_run_wf engine_next_edge Let_def)

text \<open>C2: a request is answered at most once and its buffer is released at most once, whatever
  sequence of calls the driver task, AbortIO and the poll task make; its outcome (state,
  result, status, identity) never changes after it became terminal; and once a request that has not
  been answered is terminal, calls that include a claim answer it exactly once.\<close>

theorem engine_reply_exactly_once:
  "successes Op_Claim (fst (engine_run ops r g)) \<le> 1 \<and>
   successes Op_Release (fst (engine_run ops r g)) \<le> 1 \<and>
   (rq_state r = Req_Terminal \<longrightarrow>
      same_outcome r (fst (snd (engine_run ops r g))) \<and>
      (\<not> reply_claimed r \<and> Op_Claim \<in> set ops \<longrightarrow>
         successes Op_Claim (fst (engine_run ops r g)) = 1))"
proof -
  have c: "successes Op_Claim (fst (engine_run ops r g)) \<le> 1"
    using claims_run [of ops r g] by (simp split: if_splits)
  moreover have "successes Op_Release (fst (engine_run ops r g)) \<le> 1"
    using releases_run [of ops r g] by (simp split: if_splits)
  moreover have "successes Op_Claim (fst (engine_run ops r g)) = 1"
    if "rq_state r = Req_Terminal" "\<not> reply_claimed r" "Op_Claim \<in> set ops"
    using claims_some [OF that, of g] c by linarith
  ultimately show ?thesis using terminal_run [of r ops g] by blast
qed

definition sample_terminal :: engine_request where
  "sample_terminal = zero_request\<lparr>rq_state := Req_Terminal, terminal_result := Result_Ok\<rparr>"

theorem engine_reply_exactly_once_witness:
  "\<forall>g. successes Op_Claim (fst (engine_run [Op_Claim, Op_Abort, Op_Claim] sample_terminal g)) = 1"
proof
  fix g
  have "rq_state sample_terminal = Req_Terminal" "\<not> reply_claimed sample_terminal"
    by (simp_all add: sample_terminal_def zero_request_def)
  then show "successes Op_Claim
      (fst (engine_run [Op_Claim, Op_Abort, Op_Claim] sample_terminal g)) = 1"
    using engine_reply_exactly_once [of "[Op_Claim, Op_Abort, Op_Claim]" sample_terminal g]
    by simp
qed

text \<open>a completion is accepted exactly when the request is in flight or retiring and both the
  request id and the controller epoch match; it then ends the request, with the result Aborted
  if AbortIO came first, and a late completion leaves the request unchanged.\<close>

theorem engine_complete_identity:
  "let (b, p, g') = engine_complete rid ep st (Some r) g in
     b = ((rq_state r = Req_In_Flight \<or> rq_state r = Req_Retiring) \<and>
          rid = request_id r \<and> ep = controller_epoch r) \<and>
     p = Some (if b then r\<lparr>transport_status := st,
                  terminal_result := (if abort_requested r then Result_Aborted
                                      else if st = STATUS_OK then Result_Ok else Result_IO_Error),
                  rq_state := Req_Terminal\<rparr> else r)"
  by (auto simp: engine_defs Let_def split: prod.splits if_splits)

end
