(* ===== verification/UsbDiag_Correct.thy ===== *)
theory UsbDiag_Correct
  imports UsbEngine
begin

text \<open>
  Correctness of the diagnostic ring of \<^verbatim>\<open>zzusb_engine.c\<close>: it refines an unbounded event
  history of which it holds the last 64, and a snapshot that the generation check accepts is the
  snapshot of one memory state even though other tasks record while it is taken.
\<close>

section \<open>Operations\<close>

datatype diag_op = Diag_Count nat | Diag_High u32 | Diag_Record diag_event | Diag_Reset

fun diag_apply :: "diag_op \<Rightarrow> engine_diag \<Rightarrow> engine_diag" where
  "diag_apply (Diag_Count c) = diag_count c"
| "diag_apply (Diag_High n) = (\<lambda>g. snd (diag_high_water n g))"
| "diag_apply (Diag_Record ev) = diag_record ev"
| "diag_apply Diag_Reset = diag_reset"

lemmas diag_defs [op_defs] = diag_mutation_begin_def diag_mutation_end_def diag_reset_def
  diag_count_def diag_high_water_def diag_record_def Let_def

section \<open>Generation and critical sections\<close>

lemma diag_apply_generation:
  "diag_apply op g = g \<or> mutation_generation (diag_apply op g) = mutation_generation g + 2"
  by (cases op) (auto simp: diag_defs)

lemma diag_run_generation:
  "\<exists>k \<le> length ops. mutation_generation (fold diag_apply ops g) =
      mutation_generation g + 2 * of_nat k \<and> (k = 0 \<longrightarrow> fold diag_apply ops g = g)"
proof (induction ops arbitrary: g)
  case Nil
  show ?case by simp
next
  case (Cons op ops)
  obtain k where k: "k \<le> length ops" "mutation_generation (fold diag_apply ops (diag_apply op g)) =
      mutation_generation (diag_apply op g) + 2 * of_nat k"
      "k = 0 \<longrightarrow> fold diag_apply ops (diag_apply op g) = diag_apply op g"
    using Cons.IH by blast
  show ?case
  proof (cases "diag_apply op g = g")
    case True
    with k show ?thesis by (intro exI [of _ k]) auto
  next
    case False
    with diag_apply_generation [of op g] k show ?thesis
      by (intro exI [of _ "Suc k"]) (auto simp: algebra_simps)
  qed
qed

text \<open>Every mutation enters and leaves the critical section once, in that order.\<close>

definition crit_pairs :: "nat \<Rightarrow> crit_call list" where
  "crit_pairs n = concat (replicate n [Crit_Enter, Crit_Leave])"

lemma crit_pairs_snoc: "crit_pairs n @ [Crit_Enter, Crit_Leave] = crit_pairs (Suc n)"
  by (induction n) (simp_all add: crit_pairs_def)

definition diag_guarded :: "engine_diag \<Rightarrow> bool" where
  "diag_guarded g \<longleftrightarrow> crit_enter_set g \<and> crit_leave_set g \<and> (\<exists>n. crit_log g = crit_pairs n) \<and>
     mutation_generation g AND 1 = 0 \<and> length (counters g) = DIAG_COUNTER_COUNT \<and>
     length (events g) = DIAG_EVENT_COUNT"

lemma and_one_zero: "(x :: 'n::len word) AND 1 = 0 \<longleftrightarrow> even x"
  by (simp only: and_one_eq even_iff_mod_2_eq_zero)

lemma and_one_plus_two: "(a :: 'n::len word) AND 1 = 0 \<Longrightarrow> (2 + a) AND 1 = 0"
  by (simp add: and_one_zero)

lemma diag_guarded_apply: "diag_guarded g \<Longrightarrow> diag_guarded (diag_apply op g)"
  by (cases op)
    (auto simp: diag_guarded_def diag_defs and_one_plus_two crit_pairs_snoc intro: exI)

interpretation diag_ring: invariant_machine diag_apply diag_guarded
  by unfold_locales (rule diag_guarded_apply)

section \<open>Refinement of the event history\<close>

definition stamped :: "diag_event list \<Rightarrow> nat \<Rightarrow> diag_event" where
  "stamped hist j = (hist ! j)\<lparr>ev_sequence := of_nat (Suc j)\<rparr>"

definition ring_refines :: "diag_event list \<Rightarrow> engine_diag \<Rightarrow> bool" where
  "ring_refines hist g \<longleftrightarrow> length (events g) = DIAG_EVENT_COUNT \<and>
     length hist < 2 ^ 32 \<and> next_sequence g = of_nat (length hist) \<and>
     lost_events g = of_nat (length hist - DIAG_EVENT_COUNT) \<and>
     (\<forall>j < length hist. length hist \<le> j + DIAG_EVENT_COUNT \<longrightarrow>
        events g ! (j mod DIAG_EVENT_COUNT) = stamped hist j)"

lemma slot_of_sequence:
  "n < 2 ^ 32 \<Longrightarrow> unat ((of_nat (Suc n) - 1 :: u32) mod 64) = n mod 64"
  by (simp add: unat_mod unat_of_nat)

lemma of_nat_gt_64: "n < 2 ^ 32 \<Longrightarrow> ((of_nat n :: u32) > 64) = (n > 64)"
  by (simp add: word_less_nat_alt unat_of_nat)

lemma ring_refines_reset: "ring_refines [] (diag_reset g)"
  by (simp add: ring_refines_def diag_defs)

lemma diag_record_fields:
  assumes "ring_refines hist g" "Suc (length hist) < 2 ^ 32"
  shows "events (diag_record ev g) =
      (events g)[length hist mod 64 := ev\<lparr>ev_sequence := of_nat (Suc (length hist))\<rparr>]"
    and "next_sequence (diag_record ev g) = of_nat (Suc (length hist))"
    and "lost_events (diag_record ev g) = of_nat (Suc (length hist) - DIAG_EVENT_COUNT)"
proof -
  let ?n = "length hist"
  have seq: "next_sequence g + 1 = of_nat (Suc ?n)"
    using assms by (simp add: ring_refines_def)
  have slot: "unat ((next_sequence g + 1 - 1) mod 64) = ?n mod 64"
    using assms slot_of_sequence [of ?n] unfolding seq by simp
  have len: "?n mod 64 < length (events g)"
    using assms by (simp add: ring_refines_def)
  show "events (diag_record ev g) =
      (events g)[?n mod 64 := ev\<lparr>ev_sequence := of_nat (Suc ?n)\<rparr>]"
    using slot len seq by (simp add: diag_defs add.commute)
  show "next_sequence (diag_record ev g) = of_nat (Suc ?n)"
    using seq by (simp add: diag_defs)
  have "lost_events (diag_record ev g) =
      (if Suc ?n > 64 then lost_events g + 1 else lost_events g)"
    using of_nat_gt_64 [of "Suc ?n"] assms(2) seq by (simp add: diag_defs add.commute)
  then show "lost_events (diag_record ev g) = of_nat (Suc ?n - DIAG_EVENT_COUNT)"
    using assms(1) by (simp add: ring_refines_def Suc_diff_le)
qed

lemma mod_eq_within:
  assumes "j < n" "n < j + m + 1" "j mod m = n mod m" shows "(n::nat) = j + m"
proof -
  from assms(3) assms(1) have "m dvd n - j"
    by (metis mod_eq_dvd_iff_nat less_imp_le)
  then obtain c where "n - j = m * c" by (elim dvdE)
  with assms show ?thesis
    by (cases c; cases "c - 1") (auto simp: algebra_simps)
qed

lemma ring_refines_record:
  assumes ref: "ring_refines hist g" and room: "Suc (length hist) < 2 ^ 32"
  shows "ring_refines (hist @ [ev]) (diag_record ev g)"
  unfolding ring_refines_def
proof (intro conjI allI impI)
  note f = diag_record_fields [OF ref room, of ev]
  show "length (events (diag_record ev g)) = DIAG_EVENT_COUNT"
    using ref by (simp add: f ring_refines_def)
  show "length (hist @ [ev]) < 2 ^ 32" using room by simp
  show "next_sequence (diag_record ev g) = of_nat (length (hist @ [ev]))"
    by (simp add: f)
  show "lost_events (diag_record ev g) = of_nat (length (hist @ [ev]) - DIAG_EVENT_COUNT)"
    by (simp add: f)
  fix j assume j: "j < length (hist @ [ev])" "length (hist @ [ev]) \<le> j + DIAG_EVENT_COUNT"
  let ?n = "length hist"
  have len: "length (events g) = 64" using ref by (simp add: ring_refines_def)
  show "events (diag_record ev g) ! (j mod DIAG_EVENT_COUNT) = stamped (hist @ [ev]) j"
  proof (cases "j = ?n")
    case True
    then show ?thesis using len by (simp add: f stamped_def)
  next
    case False
    with j have "j < ?n" by simp
    moreover from this j have "j mod 64 \<noteq> ?n mod 64"
      using mod_eq_within [of j ?n 64] by auto
    ultimately show ?thesis
      using ref j len by (simp add: f ring_refines_def stamped_def nth_append)
  qed
qed

lemma ring_refines_other:
  "ring_refines hist g \<Longrightarrow> ring_refines hist (diag_apply (Diag_Count c) g)"
  "ring_refines hist g \<Longrightarrow> ring_refines hist (diag_apply (Diag_High d) g)"
  by (auto simp: ring_refines_def diag_defs)

text \<open>The history a run of operations leaves: a reset forgets it.\<close>

fun history :: "diag_op list \<Rightarrow> diag_event list \<Rightarrow> diag_event list" where
  "history [] hist = hist"
| "history (Diag_Record ev # ops) hist = history ops (hist @ [ev])"
| "history (Diag_Reset # ops) hist = history ops []"
| "history (_ # ops) hist = history ops hist"

lemma ring_refines_run:
  assumes "ring_refines hist g" "length hist + length ops < 2 ^ 32"
  shows "ring_refines (history ops hist) (fold diag_apply ops g)"
  using assms
proof (induction ops arbitrary: hist g)
  case Nil
  then show ?case by simp
next
  case (Cons op ops)
  then show ?case
    by (cases op)
      (simp_all add: ring_refines_record ring_refines_reset
        ring_refines_other [unfolded diag_apply.simps])
qed

section \<open>Snapshots of a still memory\<close>

lemma snapshot_events_still:
  assumes "ring_refines hist g" "j + k \<le> length hist" "length hist \<le> j + DIAG_EVENT_COUNT"
  shows "snapshot_events (\<lambda>_. g) t (of_nat (Suc j)) k = map (stamped hist) [j..<j + k]"
  using assms(2,3)
proof (induction k arbitrary: j t)
  case 0
  then show ?case by simp
next
  case (Suc k)
  from Suc.prems assms(1) have n: "j < length hist" "j < 2 ^ 32"
    by (auto simp: ring_refines_def)
  then have slot: "events g ! unat ((of_nat (Suc j) - 1 :: u32) mod 64) = stamped hist j"
    using assms(1) Suc.prems slot_of_sequence [of j] by (simp add: ring_refines_def)
  have seq: "of_nat (Suc j) + 1 = (of_nat (Suc (Suc j)) :: u32)" by simp
  have "snapshot_events (\<lambda>_. g) t (of_nat (Suc j)) (Suc k) =
      stamped hist j # snapshot_events (\<lambda>_. g) (t + 2) (of_nat (Suc (Suc j))) k"
    using slot by (simp only: snapshot_events.simps Let_def seq) (simp add: stamped_def)
  also have "\<dots> = stamped hist j # map (stamped hist) [Suc j..<Suc j + k]"
    using Suc.IH [of "Suc j" "t + 2"] Suc.prems by simp
  also have "\<dots> = map (stamped hist) [j..<j + Suc k]"
    by (simp add: upt_conv_Cons del: upt_Suc)
  finally show ?case .
qed

text \<open>What a snapshot reports of a history: its last 64 events, oldest first.\<close>

definition recent :: "diag_event list \<Rightarrow> diag_event list" where
  "recent hist = map (stamped hist) [length hist - DIAG_EVENT_COUNT..<length hist]"

definition snapshot_reports :: "diag_event list \<Rightarrow> diag_snapshot \<Rightarrow> bool" where
  "snapshot_reports hist sn \<longleftrightarrow>
     unat (sn_event_count sn) = min (length hist) DIAG_EVENT_COUNT \<and>
     take (min (length hist) DIAG_EVENT_COUNT) (sn_events sn) = recent hist \<and>
     sn_next_sequence sn = of_nat (length hist) \<and>
     sn_lost_events sn = of_nat (length hist - DIAG_EVENT_COUNT)"

lemma snapshot_count:
  assumes "ring_refines hist g"
  shows "unat (if next_sequence g < 64 then next_sequence g else 64) =
      min (length hist) DIAG_EVENT_COUNT"
  using assms by (auto simp: ring_refines_def word_less_nat_alt unat_of_nat)

lemma snapshot_first:
  assumes "ring_refines hist g" "hist \<noteq> []"
  shows "next_sequence g - (if next_sequence g < 64 then next_sequence g else 64) + 1 =
      of_nat (Suc (length hist - DIAG_EVENT_COUNT))"
  using assms
  by (cases "length hist \<le> 64") (auto simp: ring_refines_def word_less_nat_alt unat_of_nat)

lemma snapshot_events_recent:
  assumes "ring_refines hist g"
  defines "count \<equiv> (if next_sequence g < 64 then next_sequence g else 64)"
  shows "snapshot_events (\<lambda>_. g) t (if count \<noteq> 0 then next_sequence g - count + 1 else 0)
      (unat count) = recent hist"
proof (cases "hist = []")
  case True
  then have "unat count = 0" using snapshot_count [OF assms(1)] by (simp add: count_def)
  then show ?thesis using True by (simp add: recent_def)
next
  case False
  have c: "unat count = min (length hist) DIAG_EVENT_COUNT"
    using snapshot_count [OF assms(1)] by (simp add: count_def)
  with False have "count \<noteq> 0" by (metis length_0_conv min_0L min.commute min_def numeral_eq_iff
    unat_0 zero_neq_numeral)
  then have "(if count \<noteq> 0 then next_sequence g - count + 1 else 0) =
      of_nat (Suc (length hist - DIAG_EVENT_COUNT))"
    using snapshot_first [OF assms(1) False] unfolding count_def [symmetric] by simp
  moreover have "snapshot_events (\<lambda>_. g) t (of_nat (Suc (length hist - DIAG_EVENT_COUNT)))
      (min (length hist) DIAG_EVENT_COUNT) = recent hist"
    using snapshot_events_still [OF assms(1), of "length hist - 64" "min (length hist) 64" t]
    by (simp add: recent_def min_def split: if_splits)
  ultimately show ?thesis by (simp only: c)
qed

lemma length_recent: "length (recent hist) = min (length hist) DIAG_EVENT_COUNT"
  by (simp add: recent_def)

lemma snapshot_attempt_still:
  assumes ref: "ring_refines hist g"
    and sn: "fst (snapshot_attempt (\<lambda>_. g) caps ep t) = Some sn"
  shows "snapshot_reports hist sn"
proof -
  note ev = snapshot_events_recent [OF ref]
  have len: "length (recent hist) \<le> 64" by (simp add: length_recent)
  from sn have "sn_events sn = blit 0 (recent hist) (sn_events zero_snapshot)"
    and "sn_event_count sn = of_nat (length (recent hist))"
    and "sn_next_sequence sn = next_sequence g" and "sn_lost_events sn = lost_events g"
    by (auto simp: snapshot_attempt_def Let_def ev split: if_splits)
  with ref len show ?thesis
    by (simp add: snapshot_reports_def ring_refines_def length_recent unat_of_nat blit_def)
qed

section \<open>Snapshots taken while other tasks record\<close>

lemma mem_window_generation:
  assumes mem: "\<And>i. mem (Suc i) = fold diag_apply (ops i) (mem i)"
  shows "\<exists>k \<le> (\<Sum>i<n. length (ops (t + i))).
     mutation_generation (mem (t + n)) = mutation_generation (mem t) + 2 * of_nat k \<and>
     (k = 0 \<longrightarrow> (\<forall>i\<le>n. mem (t + i) = mem t))"
proof (induction n)
  case 0
  show ?case by simp
next
  case (Suc n)
  then obtain k where k: "k \<le> (\<Sum>i<n. length (ops (t + i)))"
      "mutation_generation (mem (t + n)) = mutation_generation (mem t) + 2 * of_nat k"
      "k = 0 \<longrightarrow> (\<forall>i\<le>n. mem (t + i) = mem t)"
    by blast
  obtain l where l: "l \<le> length (ops (t + n))"
      "mutation_generation (mem (t + Suc n)) = mutation_generation (mem (t + n)) + 2 * of_nat l"
      "l = 0 \<longrightarrow> mem (t + Suc n) = mem (t + n)"
    using diag_run_generation [of "ops (t + n)" "mem (t + n)"] mem [of "t + n"] by auto
  have "\<forall>i\<le>Suc n. mem (t + i) = mem t" if "k + l = 0"
    using that k(3) l(3) by (auto simp: le_Suc_eq)
  with k l show ?case
    by (intro exI [of _ "k + l"]) (auto simp: algebra_simps)
qed

lemma twice_of_nat_zero:
  assumes "2 * of_nat k = (0 :: u32)" "k < 2 ^ 31"
  shows "k = 0"
proof -
  from assms(1) have "of_nat (2 * k) = (0 :: u32)" by simp
  then have "2 ^ 32 dvd 2 * k" by (simp only: word_of_nat_eq_0_iff) simp
  with assms(2) show ?thesis by (auto dest: dvd_imp_le)
qed

lemma snapshot_events_window:
  "(\<And>i. i < 2 * n \<Longrightarrow> mem (t + i) = g) \<Longrightarrow>
     snapshot_events mem t s n = snapshot_events (\<lambda>_. g) t s n"
proof (induction n arbitrary: t s)
  case 0
  then show ?case by simp
next
  case (Suc n)
  have m: "mem t = g" "mem (Suc t) = g"
    using Suc.prems [of 0] Suc.prems [of 1] by simp_all
  have "mem (t + 2 + i) = g" if "i < 2 * n" for i
    using Suc.prems [of "2 + i"] that by (simp add: add.assoc)
  then have ih: "snapshot_events mem (t + 2) (s + 1) n =
      snapshot_events (\<lambda>_. g) (t + 2) (s + 1) n"
    by (rule Suc.IH)
  show ?case by (simp only: snapshot_events.simps m ih)
qed

text \<open>An attempt makes at most 147 further accesses after its first; the hypothesis bounds the
  mutations other tasks may squeeze in between them by the period of the generation counter.\<close>

lemma snapshot_attempt_consistent:
  assumes mem: "\<And>i. mem (Suc i) = fold diag_apply (ops i) (mem i)"
    and few: "(\<Sum>i<147. length (ops (t + i))) < 2 ^ 31"
    and sn: "fst (snapshot_attempt mem caps ep t) = Some sn"
  shows "fst (snapshot_attempt (\<lambda>_. mem t) caps ep t) = Some sn"
proof -
  let ?next = "next_sequence (mem (t + 1))"
  let ?count = "if ?next < 64 then ?next else 64 :: u32"
  let ?n = "19 + 2 * unat ?count"
  have cnt: "unat ?count \<le> 64" by (auto simp: word_less_nat_alt)
  have gen: "mutation_generation (mem (t + ?n)) = mutation_generation (mem t)"
    using sn by (auto simp: snapshot_attempt_def Let_def add.assoc split: if_splits)
  obtain k where k: "k \<le> (\<Sum>i<?n. length (ops (t + i)))"
      "mutation_generation (mem (t + ?n)) = mutation_generation (mem t) + 2 * of_nat k"
      "k = 0 \<longrightarrow> (\<forall>i\<le>?n. mem (t + i) = mem t)"
    using mem_window_generation [of mem ops, OF mem, where n = ?n and t = t]
    by (elim exE conjE) (rule that)
  have "(\<Sum>i<?n. length (ops (t + i))) \<le> (\<Sum>i<147. length (ops (t + i)))"
    by (rule sum_mono2) (use cnt in auto)
  with k(1) few have "k < 2 ^ 31" by linarith
  moreover from gen k(2) have "2 * of_nat k = (0 :: u32)" by simp
  ultimately have "k = 0" by (intro twice_of_nat_zero)
  with k(3) have still: "mem (t + i) = mem t" if "i \<le> ?n" for i using that by blast
  have next': "?next = next_sequence (mem t)" using still [of 1] by simp
  have evs: "snapshot_events mem (t + 19) s (unat ?count) =
      snapshot_events (\<lambda>_. mem t) (t + 19) s (unat ?count)" for s
    by (rule snapshot_events_window) (use still [of "19 + _"] in \<open>simp add: add.assoc\<close>)
  have cs: "map (\<lambda>i. counters (mem (t + 3 + i)) ! i) [0..<16] = map (\<lambda>i. counters (mem t) ! i) [0..<16]"
    by (rule map_cong) (use still [of "3 + _"] in \<open>simp_all add: add.assoc\<close>)
  have lost: "mem (t + 2) = mem t" using still [of 2] by simp
  show ?thesis
    using sn gen unfolding snapshot_attempt_def Let_def
    by (simp only: evs [unfolded next'] cs lost next') (simp add: add.assoc split: if_splits)
qed

section \<open>Properties\<close>

text \<open>C3: the ring refines the event history: after any fewer than 2^32 operations from a reset
  (counting, high-water marks, records, further resets) it holds the last 64 events recorded
  since the last reset, each with its sequence number, and the lost count is the excess.\<close>

theorem diag_ring_refines_history:
  "length ops < 2 ^ 32 \<Longrightarrow>
     ring_refines (history ops []) (fold diag_apply ops (diag_reset g))"
  using ring_refines_run [OF ring_refines_reset] by simp

theorem diag_ring_refines_history_witness:
  "\<forall>g. ring_refines [zero_event] (fold diag_apply [Diag_Record zero_event] (diag_reset g))"
proof
  fix g
  show "ring_refines [zero_event] (fold diag_apply [Diag_Record zero_event] (diag_reset g))"
    using diag_ring_refines_history [of "[Diag_Record zero_event]" g] by simp
qed

text \<open>C4: a snapshot accepted while other tasks record is consistent. When the shared memory
  evolves by whole operations between the reader's accesses (what the critical-section hooks
  provide), in fewer than 2^31 mutations, an accepted attempt returns the snapshot of the memory
  as it was at its first access, and so exactly the last 64 events of the history there.\<close>

theorem diag_snapshot_consistent:
  assumes "\<And>i. mem (Suc i) = fold diag_apply (ops i) (mem i)"
    and "(\<Sum>i<147. length (ops (t + i))) < 2 ^ 31"
    and "ring_refines hist (mem t)"
    and "fst (snapshot_attempt mem caps ep t) = Some sn"
  shows "fst (snapshot_attempt (\<lambda>_. mem t) caps ep t) = Some sn \<and> snapshot_reports hist sn"
  using snapshot_attempt_consistent [OF assms(1,2,4)] snapshot_attempt_still [OF assms(3)]
  by blast

definition fresh_diag :: engine_diag where
  "fresh_diag = \<lparr>next_sequence = 0, lost_events = 0, mutation_generation = 0,
     counters = replicate DIAG_COUNTER_COUNT 0, events = replicate DIAG_EVENT_COUNT zero_event,
     crit_enter_set = True, crit_leave_set = True, crit_log = []\<rparr>"

text \<open>The witness: one task records an event between the reader's first and second access, so
  the first attempt is refused, and the second, from access 20 on, is accepted.\<close>

definition busy_mem :: "nat \<Rightarrow> engine_diag" where
  "busy_mem i = (if i = 0 then fresh_diag else diag_record zero_event fresh_diag)"

theorem diag_snapshot_consistent_witness:
  "\<exists>sn. fst (snapshot_attempt busy_mem 0 0 30) = Some sn \<and> snapshot_reports [zero_event] sn \<and>
     fst (snapshot_attempt busy_mem 0 0 0) = None"
proof -
  define ops where "ops i = (if i = 0 then [Diag_Record zero_event] else [])" for i :: nat
  have mem: "busy_mem (Suc i) = fold diag_apply (ops i) (busy_mem i)" for i
    by (simp add: busy_mem_def ops_def)
  have few: "(\<Sum>i<147. length (ops (30 + i))) < 2 ^ 31"
    by (simp add: ops_def)
  have "ring_refines [] fresh_diag"
    by (simp add: ring_refines_def fresh_diag_def)
  then have ref: "ring_refines [zero_event] (busy_mem 30)"
    using ring_refines_record [of "[]" fresh_diag zero_event] by (simp add: busy_mem_def)
  have gen: "mutation_generation (busy_mem (Suc i)) = 2" for i
    by (simp add: busy_mem_def diag_defs fresh_diag_def)
  have gen': "mutation_generation (busy_mem i) = 2" if "i \<noteq> 0" for i
    using gen [of "i - 1"] that by simp
  obtain sn where sn: "fst (snapshot_attempt busy_mem 0 0 30) = Some sn"
    by (simp add: snapshot_attempt_def Let_def gen')
  have "fst (snapshot_attempt busy_mem 0 0 0) = None"
    by (simp add: snapshot_attempt_def Let_def gen') (simp add: busy_mem_def fresh_diag_def)
  with diag_snapshot_consistent [OF mem few ref sn] sn show ?thesis by blast
qed

text \<open>The operations that enter the critical section: all but a count of a number that is no counter.\<close>

definition diag_mutates :: "diag_op \<Rightarrow> bool" where
  "diag_mutates op = (case op of Diag_Count c \<Rightarrow> c < DIAG_COUNTER_COUNT | _ \<Rightarrow> True)"

lemma diag_apply_section:
  assumes "crit_enter_set g" "crit_leave_set g"
  shows "crit_log (diag_apply op g) = crit_log g @ (if diag_mutates op then [Crit_Enter, Crit_Leave] else [])"
    "mutation_generation (diag_apply op g) = mutation_generation g + (if diag_mutates op then 2 else 0)"
    "crit_enter_set (diag_apply op g)" "crit_leave_set (diag_apply op g)"
  using assms by (cases op; auto simp: diag_defs diag_mutates_def)+

lemma diag_run_sections:
  "crit_enter_set g \<Longrightarrow> crit_leave_set g \<Longrightarrow>
    crit_log (fold diag_apply ops g) = crit_log g @ crit_pairs (length (filter diag_mutates ops)) \<and>
    mutation_generation (fold diag_apply ops g) = mutation_generation g + 2 * of_nat (length (filter diag_mutates ops))"
proof (induction ops arbitrary: g)
  case (Cons op ops)
  from Cons.IH [OF diag_apply_section(3,4) [OF Cons.prems]] diag_apply_section(1,2) [OF Cons.prems, of op] show ?case
    by (simp add: crit_pairs_def algebra_simps)
qed (simp add: crit_pairs_def)

text \<open>C5: with the critical-section hooks installed, a run of diagnostic operations calls the hooks exactly as often as it mutates the diagnostics: each
  operation enters and leaves once, in that order and never nested, and an out-of-range counter does not enter at all. Each mutation
  adds exactly two to the stored generation, and what is stored while the section is open is still the old, even value: readers never see an odd generation.\<close>

theorem diag_generation_never_odd:
  assumes "crit_enter_set g" "crit_leave_set g" "mutation_generation g AND 1 = 0"
  shows "crit_log (fold diag_apply ops g) = crit_log g @ crit_pairs (length (filter diag_mutates ops)) \<and>
     mutation_generation (fold diag_apply ops g) = mutation_generation g + 2 * of_nat (length (filter diag_mutates ops)) \<and>
     mutation_generation (fold diag_apply ops g) AND 1 = 0 \<and>
     mutation_generation (snd (diag_mutation_begin (fold diag_apply ops g))) = mutation_generation (fold diag_apply ops g)"
proof -
  have "even (mutation_generation g + 2 * of_nat k)" for k
    using assms(3) by (simp add: and_one_zero)
  with diag_run_sections [OF assms(1,2), of ops] show ?thesis
    by (simp add: and_one_zero) (simp add: diag_mutation_begin_def)
qed

theorem diag_generation_never_odd_witness:
  "crit_log (fold diag_apply [Diag_Count 0, Diag_Count 99, Diag_Reset] fresh_diag) = [Crit_Enter, Crit_Leave, Crit_Enter, Crit_Leave]"
proof -
  have "crit_enter_set fresh_diag" "crit_leave_set fresh_diag" "mutation_generation fresh_diag AND 1 = 0" "crit_log fresh_diag = []"
    by (simp_all add: fresh_diag_def)
  with diag_generation_never_odd [of fresh_diag "[Diag_Count 0, Diag_Count 99, Diag_Reset]"] show ?thesis
    by (simp add: diag_mutates_def crit_pairs_def numeral_2_eq_2)
qed

end
