(* ===== verification/UsbIso.thy ===== *)
theory UsbIso
  imports Prelude
begin

text \<open>
  Isochronous USB transfers (\<^verbatim>\<open>usb-poseidon/zzusb_iso.c\<close>): packet planning, the wire format of
  a batch (built for the queue command, parsed from the reap command), and the life cycle of a
  real-time stream. Buffers are byte lists whose length is the C length argument; output arrays
  are returned, with their unwritten tail unchanged.
\<close>

abbreviation "ISO_MAGIC \<equiv> (0x5a49534f :: u32)"
abbreviation "ISO_HEADER_SIZE \<equiv> (32 :: nat)"
abbreviation "ISO_PACKET_SIZE \<equiv> (16 :: nat)"
abbreviation "ISO_MAX_PACKETS \<equiv> (32 :: nat)"
abbreviation "ISO_DATA_MAX \<equiv> (15840 :: nat)"
abbreviation "ISO_PIPELINE_DEPTH \<equiv> (4 :: nat)"
abbreviation "PACKET_BABBLE \<equiv> (9 :: u16)"

section \<open>Byte accessors\<close>

definition read_be16 :: "bytes \<Rightarrow> nat \<Rightarrow> u16" where
  "read_be16 b off = be16_of (b ! off) (b ! (off + 1))"

definition read_be32 :: "bytes \<Rightarrow> nat \<Rightarrow> u32" where
  "read_be32 b off = be32_of (b ! off) (b ! (off + 1)) (b ! (off + 2)) (b ! (off + 3))"

definition write_be16 :: "nat \<Rightarrow> u16 \<Rightarrow> bytes \<Rightarrow> bytes" where
  "write_be16 off v b = b[off := ucast (drop_bit 8 v), off + 1 := ucast v]"

definition write_be32 :: "nat \<Rightarrow> u32 \<Rightarrow> bytes \<Rightarrow> bytes" where
  "write_be32 off v b = b[off := ucast (drop_bit 24 v), off + 1 := ucast (drop_bit 16 v),
     off + 2 := ucast (drop_bit 8 v), off + 3 := ucast v]"

section \<open>Packet planning\<close>

definition iso_topology_supported :: "bool \<Rightarrow> bool \<Rightarrow> bool" where
  "iso_topology_supported high_speed split = (high_speed \<or> split)"

definition iso_payload_size :: "u16 \<Rightarrow> u16" where
  "iso_payload_size enc =
     (let base = enc AND 0x07ff; multiplier = 1 + (drop_bit 11 enc AND 3)
      in if base = 0 \<or> base > 1024 \<or> multiplier > 3 \<or> enc AND 0xe000 \<noteq> 0 then 0
         else base * multiplier)"

text \<open>
  The packet-length array is given by its capacity; \<open>None\<close> for the pointer is NULL. The loop
  writes the first \<open>count\<close> entries, which is the list returned.
\<close>

fun plan_simple_loop :: "nat \<Rightarrow> u32 \<Rightarrow> u16 \<Rightarrow> u16 list" where
  "plan_simple_loop 0 remaining payload = []"
| "plan_simple_loop (Suc n) remaining payload =
     (let len = (if remaining > ucast payload then payload else ucast remaining)
      in len # plan_simple_loop n (remaining - ucast len) payload)"

definition iso_plan_simple :: "u32 \<Rightarrow> u16 \<Rightarrow> bool \<Rightarrow> nat \<Rightarrow> u16 list" where
  "iso_plan_simple tot enc have_array capacity =
     (let payload = iso_payload_size enc
      in if \<not> have_array \<or> capacity = 0 \<or> payload = 0 \<or> unat tot > ISO_DATA_MAX then []
         else let count = (if tot \<noteq> 0 then unat ((tot + ucast payload - 1) div ucast payload)
                           else 1)
              in if count > capacity \<or> count > ISO_MAX_PACKETS then []
                 else plan_simple_loop count tot payload)"

text \<open>Returns the lengths and the duration in microframes; the code returns the count.\<close>

definition iso_plan_realtime ::
    "u16 \<Rightarrow> u16 \<Rightarrow> bool \<Rightarrow> bool \<Rightarrow> nat \<Rightarrow> bool \<Rightarrow> (u16 list \<times> u32) option" where
  "iso_plan_realtime enc interval high_speed have_array capacity have_duration =
     (let payload = iso_payload_size enc
      in if \<not> have_array \<or> \<not> have_duration \<or> capacity = 0 \<or> payload = 0 \<or> interval = 0 \<or>
            unat payload > ISO_DATA_MAX then None
         else if interval > 32768 \<or> interval AND (interval - 1) \<noteq> 0 then None
         else let step = (if high_speed then unat interval else unat interval * 8);
                  limit0 = (if step > 32768 then 1 else 32768 div step);
                  time_limit = (if limit0 = 0 then 1 else limit0);
                  c0 = (if step < 32 then (32 + step - 1) div step else 1);
                  c1 = min c0 (ISO_DATA_MAX div unat payload);
                  c2 = min c1 ISO_MAX_PACKETS;
                  c3 = min c2 capacity;
                  count = min c3 time_limit
              in if count = 0 then None
                 else Some (replicate count payload, of_nat (count * step)))"

fun limit_loop :: "u16 list \<Rightarrow> nat \<Rightarrow> nat \<Rightarrow> nat \<Rightarrow> nat" where
  "limit_loop [] capacity tot count = count"
| "limit_loop (l # ls) capacity tot count =
     (let tot' = tot + unat l
      in if ISO_HEADER_SIZE + (count + 1) * ISO_PACKET_SIZE + tot' > capacity then count
         else limit_loop ls capacity tot' (count + 1))"

definition iso_limit_packet_count :: "u16 list option \<Rightarrow> nat \<Rightarrow> nat \<Rightarrow> nat" where
  "iso_limit_packet_count lens count capacity =
     (case lens of None \<Rightarrow> 0
      | Some ls \<Rightarrow> if count > ISO_MAX_PACKETS then 0 else limit_loop (take count ls) capacity 0 0)"

section \<open>Building a batch\<close>

fun sum_lengths :: "u16 list \<Rightarrow> nat \<Rightarrow> nat option" where
  "sum_lengths [] tot = Some tot"
| "sum_lengths (l # ls) tot =
     (if tot + unat l > ISO_DATA_MAX then None else sum_lengths ls (tot + unat l))"

fun write_entries :: "u16 list \<Rightarrow> nat \<Rightarrow> u32 \<Rightarrow> bytes \<Rightarrow> bytes" where
  "write_entries [] index tot wire = wire"
| "write_entries (l # ls) index tot wire =
     (let entry = ISO_HEADER_SIZE + index * ISO_PACKET_SIZE
      in write_entries ls (Suc index) (tot + ucast l)
           (write_be32 (entry + 8) tot (write_be16 (entry + 0) l wire)))"

text \<open>
  \<open>wire\<close> is the caller's buffer of \<open>capacity\<close> bytes. The result is the wire size with the
  buffer, 0 and the buffer untouched when the code refuses.
\<close>

definition iso_build_queue ::
    "bytes option \<Rightarrow> u32 \<Rightarrow> u16 \<Rightarrow> u16 \<Rightarrow> u8 \<Rightarrow> u16 list option \<Rightarrow> bytes option \<Rightarrow> bool \<Rightarrow>
     nat \<times> bytes option" where
  "iso_build_queue wire batch_id flags start_frame start_uframe lens payload dir_in =
     (case (wire, lens) of
        (Some w, Some ls) \<Rightarrow>
          if batch_id = 0 \<or> ls = [] \<or> length ls > ISO_MAX_PACKETS \<or> start_uframe > 7
          then (0, wire)
          else (case sum_lengths ls 0 of None \<Rightarrow> (0, wire)
            | Some tot \<Rightarrow>
              let metadata_size = ISO_HEADER_SIZE + length ls * ISO_PACKET_SIZE;
                  wire_size = metadata_size + (if dir_in then 0 else tot)
              in if wire_size > length w \<or> (\<not> dir_in \<and> tot \<noteq> 0 \<and> payload = None)
                 then (0, wire)
                 else let w0 = blit 0 (replicate wire_size 0) w;
                          w1 = write_be32 0 ISO_MAGIC w0;
                          w2 = write_be16 4 1 w1;
                          w3 = write_be16 6 flags w2;
                          w4 = write_be32 8 batch_id w3;
                          w5 = write_be16 12 (start_frame AND 0x07ff) w4;
                          w6 = write_be16 14 (of_nat (length ls)) w5;
                          w7 = write_be32 16 (of_nat tot) w6;
                          w8 = w7[20 := start_uframe];
                          w9 = write_entries ls 0 0 w8
                      in (wire_size, Some (if \<not> dir_in \<and> tot \<noteq> 0
                            then blit metadata_size (take tot (the payload)) w9 else w9)))
      | _ \<Rightarrow> (0, wire))"

section \<open>Parsing a reaped batch\<close>

record iso_packet =
  pk_offset :: u32
  pk_requested :: u16
  pk_actual :: u16
  pk_frame :: u16
  pk_microframe :: u8
  pk_status :: u8

record iso_batch =
  bt_id :: u32
  bt_total :: u32
  bt_start_frame :: u16
  bt_start_microframe :: u8
  bt_packet_count :: u8
  bt_metadata_size :: nat

definition parse_packet :: "bytes \<Rightarrow> nat \<Rightarrow> iso_packet" where
  "parse_packet wire entry =
     \<lparr>pk_offset = read_be32 wire (entry + 8), pk_requested = read_be16 wire (entry + 0),
      pk_actual = read_be16 wire (entry + 2),
      pk_frame = read_be16 wire (entry + 6) AND 0x07ff,
      pk_microframe = wire ! (entry + 12),
      pk_status = ucast (read_be16 wire (entry + 4))\<rparr>"

text \<open>The loop of \<^verbatim>\<open>zzusb_iso_parse_reap\<close>: \<open>n\<close> packets are left from \<open>index\<close> on.\<close>

fun parse_packets :: "bytes \<Rightarrow> u32 \<Rightarrow> nat \<Rightarrow> nat \<Rightarrow> u32 \<Rightarrow> (iso_packet list \<times> u32) option" where
  "parse_packets wire tot index 0 expected = Some ([], expected)"
| "parse_packets wire tot index (Suc n) expected =
     (let entry = ISO_HEADER_SIZE + index * ISO_PACKET_SIZE;
          p = parse_packet wire entry
      in if read_be16 wire (entry + 4) > PACKET_BABBLE then None
         else if pk_offset p \<noteq> expected \<or> pk_actual p > pk_requested p \<or>
                 pk_offset p + ucast (pk_requested p) > tot \<or> pk_microframe p > 7
         then None
         else (case parse_packets wire tot (Suc index) n (expected + ucast (pk_requested p)) of
                 None \<Rightarrow> None
               | Some (ps, e) \<Rightarrow> Some (p # ps, e)))"

text \<open>
  \<open>None\<close> is the return value 0. The packets returned are what the code stored; the C code also
  fills the batch before it returns whether the batch id is non-zero.
\<close>

definition iso_parse_reap ::
    "bytes option \<Rightarrow> bool \<Rightarrow> bool \<Rightarrow> bool \<Rightarrow> nat \<Rightarrow> (iso_batch \<times> iso_packet list) option" where
  "iso_parse_reap wire_p dir_in have_batch have_packets capacity =
     (case wire_p of None \<Rightarrow> None | Some wire \<Rightarrow>
       if \<not> have_batch \<or> \<not> have_packets \<or> length wire < ISO_HEADER_SIZE \<or>
          read_be32 wire 0 \<noteq> ISO_MAGIC \<or> read_be16 wire 4 \<noteq> 1
       then None
       else let packet_count = unat (read_be16 wire 14); tot = read_be32 wire 16
            in if packet_count = 0 \<or> packet_count > ISO_MAX_PACKETS \<or> packet_count > capacity \<or>
                  unat tot > ISO_DATA_MAX \<or> wire ! 20 > 7
               then None
               else let metadata_size = ISO_HEADER_SIZE + packet_count * ISO_PACKET_SIZE;
                        expected_size = metadata_size + (if dir_in then unat tot else 0)
                    in if length wire \<noteq> expected_size then None
                       else (case parse_packets wire tot 0 packet_count 0 of
                               None \<Rightarrow> None
                             | Some (ps, e) \<Rightarrow>
                                 if e \<noteq> tot then None
                                 else if read_be32 wire 8 = 0 then None
                                 else Some (\<lparr>bt_id = read_be32 wire 8, bt_total = tot,
                                        bt_start_frame = read_be16 wire 12 AND 0x07ff,
                                        bt_start_microframe = wire ! 20,
                                        bt_packet_count = of_nat packet_count,
                                        bt_metadata_size = metadata_size\<rparr>, ps)))"

definition iso_layout_matches ::
    "iso_batch option \<Rightarrow> iso_packet list option \<Rightarrow> u16 list option \<Rightarrow> nat \<Rightarrow> bool" where
  "iso_layout_matches batch packets lens count =
     (case (batch, packets, lens) of
        (Some b, Some ps, Some ls) \<Rightarrow>
          unat (bt_packet_count b) = count \<and>
          list_all (\<lambda>i. pk_requested (ps ! i) = ls ! i) [0..<count]
      | _ \<Rightarrow> False)"

definition iso_status_flags :: "u8 \<Rightarrow> u16" where
  "iso_status_flags status =
     (if status = 0 \<or> status = 2 then 0
      else if status = 3 then 0x1000 OR 0x8000
      else if status = 4 then 0x4000 OR 0x8000
      else if status = 5 \<or> status = 9 then 0x2000 OR 0x8000
      else 0x8000)"

section \<open>Real-time stream life cycle\<close>

datatype rt_state = Rt_Free | Rt_Added | Rt_Running | Rt_Stopping | Rt_Stopped

record rt_lifecycle =
  queued_ids :: "u32 list"
  next_batch_id :: u32
  rt_st :: rt_state
  in_flight :: nat
  remove_pending :: bool
  stop_ack_pending :: bool

definition zero_ids :: "u32 list" where
  "zero_ids = replicate ISO_PIPELINE_DEPTH 0"

definition zero_lifecycle :: rt_lifecycle where
  "zero_lifecycle = \<lparr>queued_ids = zero_ids, next_batch_id = 0, rt_st = Rt_Free, in_flight = 0,
     remove_pending = False, stop_ack_pending = False\<rparr>"

definition rt_init :: "rt_lifecycle option \<Rightarrow> rt_lifecycle option" where
  "rt_init p = map_option (\<lambda>l. zero_lifecycle) p"

definition rt_add :: "rt_lifecycle option \<Rightarrow> bool \<times> rt_lifecycle option" where
  "rt_add = on_ptr False (\<lambda>l. if rt_st l \<noteq> Rt_Free then (False, l)
     else (True, l\<lparr>rt_st := Rt_Added, next_batch_id := 1\<rparr>))"

definition rt_start :: "rt_lifecycle option \<Rightarrow> bool \<times> rt_lifecycle option" where
  "rt_start = on_ptr False (\<lambda>l.
     if stop_ack_pending l \<or> (rt_st l \<noteq> Rt_Added \<and> rt_st l \<noteq> Rt_Stopped) then (False, l)
     else (True, l\<lparr>queued_ids := zero_ids, in_flight := 0, rt_st := Rt_Running,
                   stop_ack_pending := True\<rparr>))"

text \<open>\<open>next_batch_id\<close> skips 0 when the 32-bit counter wraps.\<close>

definition rt_queue :: "rt_lifecycle option \<Rightarrow> u32 \<times> rt_lifecycle option" where
  "rt_queue = on_ptr 0 (\<lambda>l.
     if rt_st l \<noteq> Rt_Running \<or> in_flight l \<ge> ISO_PIPELINE_DEPTH then (0, l)
     else let (batch_id, next) =
                (if next_batch_id l = 0 then (1, 2) else (next_batch_id l, next_batch_id l + 1))
          in (batch_id, l\<lparr>next_batch_id := next,
                queued_ids := (queued_ids l)[in_flight l := batch_id],
                in_flight := in_flight l + 1\<rparr>))"

text \<open>The two loops of \<^verbatim>\<open>zzusb_rt_complete\<close>: find the id, then close the gap.\<close>

fun find_id :: "u32 list \<Rightarrow> u32 \<Rightarrow> nat \<Rightarrow> nat \<Rightarrow> nat" where
  "find_id ids b i 0 = i"
| "find_id ids b i (Suc n) = (if ids ! i = b then i else find_id ids b (Suc i) n)"

fun shift_down :: "nat \<Rightarrow> nat \<Rightarrow> u32 list \<Rightarrow> u32 list" where
  "shift_down i 0 ids = ids"
| "shift_down i (Suc n) ids = shift_down (Suc i) n (ids[i := ids ! (i + 1)])"

definition rt_complete :: "u32 \<Rightarrow> rt_lifecycle option \<Rightarrow> bool \<times> rt_lifecycle option" where
  "rt_complete batch_id = on_ptr False (\<lambda>l.
     if batch_id = 0 \<or> rt_st l \<noteq> Rt_Running then (False, l)
     else let index = find_id (queued_ids l) batch_id 0 (in_flight l)
          in if index = in_flight l then (False, l)
             else let ids = shift_down index (in_flight l - 1 - index) (queued_ids l)
                  in (True, l\<lparr>queued_ids := ids[in_flight l - 1 := 0],
                              in_flight := in_flight l - 1\<rparr>))"

definition rt_begin_stop :: "rt_lifecycle option \<Rightarrow> bool \<times> rt_lifecycle option" where
  "rt_begin_stop = on_ptr False (\<lambda>l. if rt_st l \<noteq> Rt_Running then (False, l)
     else (True, l\<lparr>rt_st := Rt_Stopping\<rparr>))"

definition rt_ack_stop :: "rt_lifecycle option \<Rightarrow> bool \<times> rt_lifecycle option" where
  "rt_ack_stop = on_ptr False (\<lambda>l.
     if \<not> stop_ack_pending l then (False, l)
     else let l1 = (if rt_st l = Rt_Running then the (snd (rt_begin_stop (Some l))) else l)
          in if rt_st l = Rt_Running \<and> \<not> fst (rt_begin_stop (Some l)) then (False, l1)
             else if rt_st l \<noteq> Rt_Running \<and> rt_st l \<noteq> Rt_Stopping \<and> rt_st l \<noteq> Rt_Stopped
             then (False, l1)
             else (True, l1\<lparr>stop_ack_pending := False\<rparr>))"

definition rt_finish_stop :: "rt_lifecycle option \<Rightarrow> bool \<times> rt_lifecycle option" where
  "rt_finish_stop = on_ptr False (\<lambda>l. if rt_st l \<noteq> Rt_Stopping then (False, l)
     else let l1 = l\<lparr>queued_ids := zero_ids, in_flight := 0, rt_st := Rt_Stopped\<rparr>
          in (True, if remove_pending l then the (rt_init (Some l1)) else l1))"

definition rt_remove :: "rt_lifecycle option \<Rightarrow> bool \<times> rt_lifecycle option" where
  "rt_remove = on_ptr False (\<lambda>l. if rt_st l \<noteq> Rt_Added \<and> rt_st l \<noteq> Rt_Stopped then (False, l)
     else (True, the (rt_init (Some l))))"

definition rt_request_remove :: "rt_lifecycle option \<Rightarrow> bool \<times> rt_lifecycle option" where
  "rt_request_remove = on_ptr False (\<lambda>l.
     if rt_st l = Rt_Added \<or> rt_st l = Rt_Stopped
     then (fst (rt_remove (Some l)), the (snd (rt_remove (Some l))))
     else let (ok, l1) = (if rt_st l = Rt_Running
                          then (fst (rt_begin_stop (Some l)), the (snd (rt_begin_stop (Some l))))
                          else (True, l))
          in if rt_st l = Rt_Running \<and> \<not> ok then (False, l1)
             else if rt_st l1 \<noteq> Rt_Stopping then (False, l1)
             else (True, l1\<lparr>remove_pending := True\<rparr>))"

end
