(* ===== verification/UsbIso_Correct.thy ===== *)
theory UsbIso_Correct
  imports UsbIso
begin

text \<open>
  Correctness of isochronous transfers: the plans cover the data, the wire format round-trips
  between the queue builder and the reap parser, an accepted reap describes a contiguous layout
  inside the buffer, and the stream life cycle keeps at most four batches in flight, each of
  which is completed or dropped exactly once.
\<close>

section \<open>Planning\<close>

lemma length_plan_simple_loop [simp]: "length (plan_simple_loop n r p) = n"
  by (induction n r p rule: plan_simple_loop.induct) (simp_all add: Let_def)

lemma plan_step:
  fixes r :: u32 and p :: u16
  defines "len \<equiv> if r > ucast p then p else ucast r"
  shows "unat len = min (unat r) (unat p)" "unat (r - ucast len) = unat r - unat p"
proof -
  have small: "unat (ucast r :: u16) = unat r" if "unat r \<le> unat p"
    using that unat_lt [of p] by (intro unat_ucast_down) simp
  show len: "unat len = min (unat r) (unat p)"
    using small by (auto simp: len_def word_less_nat_alt)
  have "ucast len \<le> r" using len by (simp add: word_le_nat_alt)
  then show "unat (r - ucast len) = unat r - unat p"
    using len by (simp add: unat_minus_le)
qed

lemma plan_simple_loop_sum:
  "unat r \<le> n * unat p \<Longrightarrow> sum_list (map unat (plan_simple_loop n r p)) = unat r"
proof (induction n r p rule: plan_simple_loop.induct)
  case (1 r p)
  then show ?case by simp
next
  case (2 n r p)
  let ?len = "if r > ucast p then p else ucast r :: u16"
  have "sum_list (map unat (plan_simple_loop n (r - ucast ?len) p)) = unat (r - ucast ?len)"
    by (rule "2.IH") (use "2.prems" plan_step [where r = r and p = p] in auto)
  then show ?case using plan_step [where r = r and p = p] by (simp add: Let_def)
qed

lemma plan_simple_loop_bound: "l \<in> set (plan_simple_loop n r p) \<Longrightarrow> unat l \<le> unat p"
proof (induction n r p rule: plan_simple_loop.induct)
  case (1 r p)
  then show ?case by simp
next
  case (2 n r p)
  then show ?case using plan_step [where r = r and p = p] by (auto simp: Let_def)
qed

lemma ceil_div:
  assumes "unat (t :: u32) \<le> ISO_DATA_MAX" "p \<noteq> (0 :: u16)"
  shows "unat ((t + ucast p - 1) div ucast p) = (unat t + unat p - 1) div unat p"
proof -
  have p: "0 < unat p" using assms(2) by (simp add: unat_gt_0)
  have lt: "unat p < 65536" using unat_lt [of p] by simp
  have s: "unat (t + ucast p) = unat t + unat p"
    using assms(1) lt by (simp add: unat_plus_nowrap)
  have "(1 :: u32) \<le> t + ucast p" using p s by (simp add: word_le_nat_alt)
  then have "unat (t + ucast p - 1) = unat t + unat p - 1" using s by (simp add: unat_minus_le)
  then show ?thesis by (simp add: unat_div)
qed

lemma ceil_div_covers: "0 < p \<Longrightarrow> (t :: nat) \<le> ((t + p - 1) div p) * p"
  using div_mult_mod_eq [of "t + p - 1" p] mod_less_divisor [of p "t + p - 1"] by linarith

section \<open>Reads after writes\<close>

lemma length_writes [simp]:
  "length (write_be16 off v b) = length b" "length (write_be32 off w b) = length b"
  by (simp_all add: write_be16_def write_be32_def)

lemma nth_write_be16:
  "j \<noteq> off \<Longrightarrow> j \<noteq> off + 1 \<Longrightarrow> write_be16 off v b ! j = b ! j"
  by (simp add: write_be16_def)

lemma nth_write_be32:
  "j < off \<or> off + 4 \<le> j \<Longrightarrow> write_be32 off v b ! j = b ! j"
  by (auto simp: write_be32_def)

lemma read_write_be16 [simp]:
  "off + 1 < length b \<Longrightarrow> read_be16 (write_be16 off v b) off = v"
  by (simp add: read_be16_def write_be16_def)

lemma read_write_be32 [simp]:
  "off + 3 < length b \<Longrightarrow> read_be32 (write_be32 off v b) off = v"
  by (simp add: read_be32_def write_be32_def)

lemma read16_frame:
  "b' ! off = b ! off \<Longrightarrow> b' ! Suc off = b ! Suc off \<Longrightarrow> read_be16 b' off = read_be16 b off"
  by (simp add: read_be16_def)

lemma read32_frame:
  assumes "\<And>i. i < 4 \<Longrightarrow> b' ! (off + i) = b ! (off + i)"
  shows "read_be32 b' off = read_be32 b off"
  using assms [of 0] assms [of 1] assms [of 2] assms [of 3] by (simp add: read_be32_def)

lemma be_zero [simp]: "be16_of 0 0 = 0" "be32_of 0 0 0 0 = 0"
  by (simp_all add: be16_of_def be32_of_def)

section \<open>Packet entries\<close>

lemma length_write_entries [simp]: "length (write_entries ls i t w) = length w"
  by (induction ls i t w rule: write_entries.induct) (simp_all add: Let_def)

lemma write_entries_frame:
  "j < 32 + i * 16 \<or> 32 + (i + length ls) * 16 \<le> j \<Longrightarrow> write_entries ls i t w ! j = w ! j"
  by (induction ls i t w rule: write_entries.induct)
    (auto simp: Let_def nth_write_be16 nth_write_be32)

fun laid_out :: "u16 list \<Rightarrow> u32 \<Rightarrow> iso_packet list" where
  "laid_out [] off = []"
| "laid_out (l # ls) off = \<lparr>pk_offset = off, pk_requested = l, pk_actual = 0, pk_frame = 0,
     pk_microframe = 0, pk_status = 0\<rparr> # laid_out ls (off + ucast l)"

lemma length_laid_out [simp]: "length (laid_out ls off) = length ls"
  by (induction ls off rule: laid_out.induct) simp_all

lemma requested_laid_out: "map pk_requested (laid_out ls off) = ls"
  by (induction ls off rule: laid_out.induct) simp_all

definition total16 :: "u16 list \<Rightarrow> nat" where
  "total16 ls = sum_list (map unat ls)"

lemma total16_simps [simp]: "total16 [] = 0" "total16 (l # ls) = unat l + total16 ls"
  by (simp_all add: total16_def)

lemma parse_packets_cong:
  assumes "\<And>j. j < 32 + (i + n) * 16 \<Longrightarrow> w ! j = w' ! j"
  shows "parse_packets w tot i n e = parse_packets w' tot i n e"
  using assms
proof (induction n arbitrary: i e)
  case 0
  then show ?case by simp
next
  case (Suc n)
  have w: "w ! (32 + i * 16 + k) = w' ! (32 + i * 16 + k)" if "k < 16" for k
    using Suc.prems that by simp
  have b16: "read_be16 w (32 + i * 16 + k) = read_be16 w' (32 + i * 16 + k)" if "k < 15" for k
    using that w [of k] w [of "Suc k"] by (intro read16_frame) simp_all
  have b32: "read_be32 w (32 + i * 16 + 8) = read_be32 w' (32 + i * 16 + 8)"
    using w [of "8 + _"] by (intro read32_frame) (simp add: add.assoc)
  have p: "parse_packet w (32 + i * 16) = parse_packet w' (32 + i * 16)"
    using b16 [of 0] b16 [of 2] b16 [of 4] b16 [of 6] b32 w [of 12]
    by (simp only: parse_packet_def)
  have "w ! j = w' ! j" if "j < 32 + (Suc i + n) * 16" for j
    using Suc.prems [of j] that by simp
  note ih = Suc.IH [of "Suc i", OF this]
  have four: "read_be16 w (32 + i * 16 + 4) = read_be16 w' (32 + i * 16 + 4)"
    by (rule b16) simp
  show ?case
    by (simp only: parse_packets.simps Let_def four p ih)
qed

lemma parse_written_entries:
  assumes "32 + (i + length ls) * 16 \<le> length w"
    and "\<And>j. 32 + i * 16 \<le> j \<Longrightarrow> j < 32 + (i + length ls) * 16 \<Longrightarrow> w ! j = 0"
    and "unat t + total16 ls \<le> unat tot"
  shows "parse_packets (write_entries ls i t w) tot i (length ls) t =
     Some (laid_out ls t, t + of_nat (total16 ls))"
  using assms
proof (induction ls arbitrary: i t w)
  case Nil
  then show ?case by simp
next
  case (Cons l ls)
  let ?e = "32 + i * 16"
  let ?w1 = "write_be32 (?e + 8) t (write_be16 (?e + 0) l w)"
  let ?wf = "write_entries ls (Suc i) (t + ucast l) ?w1"
  have len: "?e + 16 \<le> length w" using Cons.prems(1) by simp
  have z: "w ! (?e + k) = 0" if "k < 16" for k using Cons.prems(2) that by simp
  have frame: "?wf ! (?e + k) = ?w1 ! (?e + k)" if "k < 16" for k
    using that by (intro write_entries_frame) simp
  have w1z: "?w1 ! (?e + k) = 0" if "2 \<le> k" "k < 8 \<or> 12 \<le> k" "k < 16" for k
    using z [of k] that by (auto simp: nth_write_be32 nth_write_be16)
  have r16z: "read_be16 ?wf (?e + k) = 0" if "2 \<le> k" "k < 7" for k
    using frame [of k] frame [of "Suc k"] w1z [of k] w1z [of "Suc k"] that
    by (simp add: read_be16_def)
  have req: "read_be16 ?wf (?e + 0) = l"
  proof -
    have "read_be16 ?wf (?e + 0) = read_be16 (write_be16 (?e + 0) l w) (?e + 0)"
      using frame [of 0] frame [of 1] by (intro read16_frame) (simp_all add: nth_write_be32)
    then show ?thesis using len by simp
  qed
  have off: "read_be32 ?wf (?e + 8) = t"
  proof -
    have "read_be32 ?wf (?e + 8) = read_be32 ?w1 (?e + 8)"
      by (rule read32_frame) (use frame [of "8 + _"] in \<open>simp add: add.assoc\<close>)
    then show ?thesis using len by simp
  qed
  have p: "parse_packet ?wf ?e = \<lparr>pk_offset = t, pk_requested = l, pk_actual = 0, pk_frame = 0,
      pk_microframe = 0, pk_status = 0\<rparr>"
    using r16z [of 2] r16z [of 4] r16z [of 6] req off frame [of 12] w1z [of 12]
    by (simp add: parse_packet_def)
  have bound: "unat t + unat l \<le> unat tot" using Cons.prems(3) by simp
  have tl: "unat (t + ucast l) = unat t + unat l"
    by (subst unat_plus_nowrap) (use bound unat_lt [of tot] in simp_all)
  then have le: "t + ucast l \<le> tot" using bound by (simp add: word_le_nat_alt)
  have ih: "parse_packets ?wf tot (Suc i) (length ls) (t + ucast l) =
      Some (laid_out ls (t + ucast l), (t + ucast l) + of_nat (total16 ls))"
  proof (rule Cons.IH)
    show "32 + (Suc i + length ls) * 16 \<le> length ?w1" using Cons.prems(1) by simp
    show "unat (t + ucast l) + total16 ls \<le> unat tot" using Cons.prems(3) tl by simp
    fix j assume j: "32 + Suc i * 16 \<le> j" "j < 32 + (Suc i + length ls) * 16"
    then have "?w1 ! j = w ! j" by (simp add: nth_write_be32 nth_write_be16)
    also have "w ! j = 0" using Cons.prems(2) [of j] j by simp
    finally show "?w1 ! j = 0" .
  qed
  have four: "read_be16 ?wf (?e + 4) = 0" by (rule r16z) simp_all
  have wr: "write_entries (l # ls) i t w = ?wf" by (simp only: write_entries.simps Let_def)
  show ?case
    unfolding wr length_Cons parse_packets.simps Let_def four p iso_packet.simps ih
    using le by (simp add: not_less add.assoc)
qed

section \<open>Round trip of a whole batch\<close>

lemma sum_lengths_total:
  "sum_lengths ls n = Some tot \<Longrightarrow>
     tot = n + total16 ls \<and> (n \<le> ISO_DATA_MAX \<longrightarrow> tot \<le> ISO_DATA_MAX)"
  by (induction ls n rule: sum_lengths.induct) (auto split: if_splits)

text \<open>The buffer after the header writes, over zeroes.\<close>

definition header_bytes :: "u32 \<Rightarrow> u16 \<Rightarrow> u16 \<Rightarrow> u8 \<Rightarrow> nat \<Rightarrow> nat \<Rightarrow> bytes \<Rightarrow> bytes" where
  "header_bytes bid flags frame uframe n tot w =
     (write_be32 16 (of_nat tot) (write_be16 14 (of_nat n) (write_be16 12 frame
       (write_be32 8 bid (write_be16 6 flags (write_be16 4 1 (write_be32 0 ISO_MAGIC w)))))))
     [20 := uframe]"

lemma length_header_bytes [simp]: "length (header_bytes b f fr u n t w) = length w"
  by (simp add: header_bytes_def)

lemma header_bytes_beyond: "32 \<le> j \<Longrightarrow> header_bytes b f fr u n t w ! j = w ! j"
  by (simp add: header_bytes_def nth_write_be32 nth_write_be16)

lemma magic_bytes: "be32_of 90 23113 5917011 1514754895 = ISO_MAGIC" "be16_of 0 1 = 1"
  by (simp_all add: be32_of_def be16_of_def)

lemma header_bytes_reads:
  fixes b :: u32 and f fr :: u16 and u :: u8 and n t :: nat
  assumes "32 \<le> length w"
  defines "h \<equiv> header_bytes b f fr u n t w"
  shows "read_be32 h 0 = ISO_MAGIC" "read_be16 h 4 = 1" "read_be32 h 8 = b" "read_be16 h 12 = fr"
    "read_be16 h 14 = of_nat n" "read_be32 h 16 = of_nat t" "h ! 20 = u"
  using assms(1) less_le_trans [of 0 32 "length w"]
  by (simp_all add: h_def header_bytes_def read_be32_def read_be16_def write_be32_def
      write_be16_def magic_bytes)

lemma build_queue_built:
  fixes ls :: "u16 list" and bid :: u32 and flags sf :: u16 and su :: u8
  assumes b: "iso_build_queue (Some w) bid flags sf su (Some ls) payload d = (n, Some w')"
    and n: "n \<noteq> 0"
  defines "meta \<equiv> 32 + length ls * 16"
  defines "body \<equiv> write_entries ls 0 0 (header_bytes bid flags (sf AND 0x07ff) su (length ls)
      (total16 ls) (blit 0 (replicate n 0) w))"
  shows "bid \<noteq> 0" "ls \<noteq> []" "length ls \<le> 32" "su \<le> 7" "total16 ls \<le> ISO_DATA_MAX"
    "n = meta + (if d then 0 else total16 ls)" "n \<le> length w"
    "w' = (if \<not> d \<and> total16 ls \<noteq> 0 then blit meta (take (total16 ls) (the payload)) body else body)"
  using b n sum_lengths_total [of ls 0]
  by (auto simp: iso_build_queue_def Let_def header_bytes_def meta_def body_def not_less
      split: if_splits option.splits)

lemma reads_agree:
  assumes "\<And>j. j < m \<Longrightarrow> b' ! j = b ! j"
  shows "off + 4 \<le> m \<Longrightarrow> read_be32 b' off = read_be32 b off"
    "off + 2 \<le> m \<Longrightarrow> read_be16 b' off = read_be16 b off"
  by (intro read32_frame read16_frame assms; simp)+

text \<open>The wire image that is parsed: everything up to the payload is the built metadata.\<close>

lemma parse_built:
  assumes m: "meta = 32 + length ls * 16"
    and agree: "\<And>j. j < meta \<Longrightarrow> wire ! j = write_entries ls 0 0 (header_bytes bid flags
      (sf AND 0x07ff) su (length ls) (total16 ls) z) ! j"
    and z: "meta \<le> length z" "\<And>j. j < meta \<Longrightarrow> z ! j = 0"
    and wire: "length wire = meta + (if dir then total16 ls else 0)"
    and ok: "bid \<noteq> 0" "ls \<noteq> []" "length ls \<le> 32" "su \<le> 7" "total16 ls \<le> ISO_DATA_MAX"
    and cap: "length ls \<le> capacity"
  shows "iso_parse_reap (Some wire) dir True True capacity =
     Some (\<lparr>bt_id = bid, bt_total = of_nat (total16 ls), bt_start_frame = sf AND 0x07ff,
            bt_start_microframe = su, bt_packet_count = of_nat (length ls),
            bt_metadata_size = meta\<rparr>, laid_out ls 0)"
proof -
  let ?h = "header_bytes bid flags (sf AND 0x07ff) su (length ls) (total16 ls) z"
  let ?b = "write_entries ls 0 0 ?h"
  have low: "wire ! j = ?h ! j" if "j < 32" for j
    using agree [of j] that m by (simp add: write_entries_frame)
  have z32: "32 \<le> length z" using z(1) m by simp
  note rd = header_bytes_reads [OF z32, of bid flags "sf AND 0x07ff" su "length ls" "total16 ls"]
  have hdr: "read_be32 wire 0 = ISO_MAGIC" "read_be16 wire 4 = 1" "read_be32 wire 8 = bid"
    "read_be16 wire 12 = sf AND 0x07ff" "read_be16 wire 14 = of_nat (length ls)"
    "read_be32 wire 16 = of_nat (total16 ls)" "wire ! 20 = su"
    using reads_agree [of 32 wire ?h, OF low] rd low [of 20] by simp_all
  have cnt: "unat (of_nat (length ls) :: u16) = length ls"
    using ok(3) by (simp add: unat_of_nat)
  have tot: "unat (of_nat (total16 ls) :: u32) = total16 ls"
    using ok(5) by (simp add: unat_of_nat)
  have "parse_packets wire (of_nat (total16 ls)) 0 (length ls) 0 =
      parse_packets ?b (of_nat (total16 ls)) 0 (length ls) 0"
    by (rule parse_packets_cong) (use agree m in simp)
  also have "\<dots> = Some (laid_out ls 0, 0 + of_nat (total16 ls))"
  proof (rule parse_written_entries)
    show "32 + (0 + length ls) * 16 \<le> length ?h" using z(1) m by simp
    show "unat (0 :: u32) + total16 ls \<le> unat (of_nat (total16 ls) :: u32)" using tot by simp
    show "?h ! j = 0" if "32 + 0 * 16 \<le> j" "j < 32 + (0 + length ls) * 16" for j
      using that z(2) [of j] m by (simp add: header_bytes_beyond)
  qed
  finally have pk: "parse_packets wire (of_nat (total16 ls)) 0 (length ls) 0 =
      Some (laid_out ls 0, of_nat (total16 ls))" by simp
  have l32: "\<not> length wire < 32" using wire m by simp
  show ?thesis
    using l32 wire ok cap m
    by (simp add: iso_parse_reap_def Let_def hdr cnt tot pk not_less)
qed

lemma build_parse:
  assumes b: "iso_build_queue (Some w) bid flags sf su (Some ls) payload d = (n, Some w')"
    and n: "n \<noteq> 0" and cap: "length ls \<le> capacity"
    and pay: "\<not> d \<longrightarrow> total16 ls \<le> length (the payload)"
  shows "iso_parse_reap (Some (take n w')) (\<not> d) True True capacity =
     Some (\<lparr>bt_id = bid, bt_total = of_nat (total16 ls), bt_start_frame = sf AND 0x07ff,
            bt_start_microframe = su, bt_packet_count = of_nat (length ls),
            bt_metadata_size = 32 + length ls * 16\<rparr>, laid_out ls 0)"
proof -
  note bb = build_queue_built [OF b n]
  let ?meta = "32 + length ls * 16"
  let ?z = "blit 0 (replicate n 0) w :: bytes"
  let ?body = "write_entries ls 0 0 (header_bytes bid flags (sf AND 0x07ff) su (length ls)
      (total16 ls) ?z)"
  have lz: "length ?z = length w" using bb(7) by simp
  have lw: "length w' = length w"
    using bb(6-8) lz pay by (auto simp: min_def split: if_splits)
  show ?thesis
  proof (rule parse_built [where z = ?z and flags = flags])
    show "?meta = 32 + length ls * 16" ..
    show "?meta \<le> length ?z" using bb(6,7) lz by simp
    show "?z ! j = 0" if "j < ?meta" for j
      using that bb(6,7) by (simp add: nth_blit)
    show "length (take n w') = ?meta + (if \<not> d then total16 ls else 0)"
      using bb(6,7) lw by simp
    fix j assume j: "j < ?meta"
    then have "take n w' ! j = w' ! j" using bb(6) by simp
    also have "w' ! j = ?body ! j"
      using j bb(6-8) lz pay by (auto simp: nth_blit min_def)
    finally show "take n w' ! j = ?body ! j" .
  qed (use bb cap in simp_all)
qed

section \<open>What an accepted reap guarantees\<close>

text \<open>Contiguous packets: each starts where the previous one ends, and fits.\<close>

fun contiguous :: "nat \<Rightarrow> iso_packet list \<Rightarrow> nat \<Rightarrow> bool" where
  "contiguous start [] end' = (start = end')"
| "contiguous start (p # ps) end' = (unat (pk_offset p) = start \<and> pk_actual p \<le> pk_requested p \<and>
     pk_microframe p \<le> 7 \<and> pk_status p \<le> 9 \<and>
     contiguous (start + unat (pk_requested p)) ps end')"

lemma status_small: "x \<le> (9 :: u16) \<Longrightarrow> (ucast x :: u8) \<le> 9"
  by (simp add: word_le_nat_alt unat_ucast_down)

lemma parse_packets_contiguous:
  assumes "parse_packets w tot i n e = Some (ps, e')" "unat e + 65535 < 2 ^ 32"
    "unat tot + 65535 < 2 ^ 32"
  shows "length ps = n \<and> contiguous (unat e) ps (unat e')"
  using assms
proof (induction w tot i n e arbitrary: ps rule: parse_packets.induct)
  case (1 w tot i e)
  then show ?case by simp
next
  case (2 w tot i n e)
  let ?p = "parse_packet w (32 + i * 16)"
  from "2.prems"(1) obtain qs where
    rec: "parse_packets w tot (Suc i) n (e + ucast (pk_requested ?p)) = Some (qs, e')"
    and ps: "ps = ?p # qs" and st: "read_be16 w (32 + i * 16 + 4) \<le> 9"
    and p: "pk_offset ?p = e" "pk_actual ?p \<le> pk_requested ?p" "pk_microframe ?p \<le> 7"
      "e + ucast (pk_requested ?p) \<le> tot"
    by (auto simp: Let_def not_less split: if_splits option.splits)
  have u: "unat (e + ucast (pk_requested ?p)) = unat e + unat (pk_requested ?p)"
    by (subst unat_plus_nowrap) (use "2.prems"(2) unat_lt [of "pk_requested ?p"] in simp_all)
  have "unat e + unat (pk_requested ?p) \<le> unat tot" using p(4) u by (simp add: word_le_nat_alt)
  then have small: "unat (e + ucast (pk_requested ?p)) + 65535 < 2 ^ 32"
    using u "2.prems"(3) by simp
  have "length qs = n \<and> contiguous (unat (e + ucast (pk_requested ?p))) qs (unat e')"
    by (rule "2.IH" [OF refl refl _ _ rec small "2.prems"(3)]) (use st p in \<open>auto simp: not_less\<close>)
  moreover have "pk_status ?p \<le> 9"
    using status_small [OF st] by (simp add: parse_packet_def)
  ultimately show ?case using ps p u by simp
qed

lemma parse_reap_accepts:
  assumes "iso_parse_reap (Some wire) d True True capacity = Some (b, ps)"
  shows "contiguous 0 ps (unat (bt_total b)) \<and> length ps = unat (bt_packet_count b) \<and>
     length ps \<le> capacity \<and> 0 < length ps \<and> length ps \<le> 32 \<and> bt_id b \<noteq> 0 \<and>
     bt_metadata_size b = 32 + length ps * 16 \<and>
     length wire = bt_metadata_size b + (if d then unat (bt_total b) else 0)"
proof -
  let ?n = "unat (read_be16 wire 14)" and ?t = "read_be32 wire 16"
  from assms obtain e where
    pk: "parse_packets wire ?t 0 ?n 0 = Some (ps, e)" and e: "e = ?t"
    and n: "?n \<noteq> 0" "?n \<le> 32" "?n \<le> capacity" and t: "unat ?t \<le> 15840"
    and b: "bt_id b = read_be32 wire 8" "read_be32 wire 8 \<noteq> 0" "bt_total b = ?t"
      "bt_packet_count b = of_nat ?n" "bt_metadata_size b = 32 + ?n * 16"
    and w: "length wire = 32 + ?n * 16 + (if d then unat ?t else 0)"
    by (auto simp: iso_parse_reap_def Let_def not_less split: if_splits option.splits)
  have "length ps = ?n \<and> contiguous (unat (0 :: u32)) ps (unat e)"
    by (rule parse_packets_contiguous [OF pk]) (use t in simp_all)
  moreover have "unat (of_nat ?n :: u8) = ?n"
    unfolding unat_of_nat using n by (intro mod_less) simp
  ultimately show ?thesis using n b w e by simp
qed

end
