(* ===== verification/Pipeline.thy ===== *)
theory Pipeline
  imports Prelude "HOL-Library.Multiset"
begin

text \<open>
  A bounded pipeline of numbered jobs: \<open>push\<close> issues a new job or refuses, \<open>finish\<close> retires a
  job by its number or reports that it is not outstanding. Clients use the conservation law:
  over any run, the jobs issued are exactly those finished and those still in the pipeline.
\<close>

datatype 'i pipe_op = Pipe_Push | Pipe_Finish 'i

fun pipe_run ::
    "('s \<Rightarrow> 'i option \<times> 's) \<Rightarrow> ('i \<Rightarrow> 's \<Rightarrow> bool \<times> 's) \<Rightarrow> 'i pipe_op list \<Rightarrow> 's \<Rightarrow>
     'i list \<times> 'i list \<times> 's" where
  "pipe_run push finish [] s = ([], [], s)"
| "pipe_run push finish (Pipe_Push # ops) s =
     (case push s of (r, s1) \<Rightarrow> case pipe_run push finish ops s1 of (iss, fin, s2) \<Rightarrow>
        ((case r of None \<Rightarrow> iss | Some i \<Rightarrow> i # iss), fin, s2))"
| "pipe_run push finish (Pipe_Finish i # ops) s =
     (case finish i s of (b, s1) \<Rightarrow> case pipe_run push finish ops s1 of (iss, fin, s2) \<Rightarrow>
        (iss, (if b then i # fin else fin), s2))"

locale bounded_pipeline =
  fixes content :: "'s \<Rightarrow> 'i list"
    and depth :: nat
    and wf :: "'s \<Rightarrow> bool"
    and push :: "'s \<Rightarrow> 'i option \<times> 's"
    and finish :: "'i \<Rightarrow> 's \<Rightarrow> bool \<times> 's"
  assumes push_wf: "wf s \<Longrightarrow> push s = (r, s') \<Longrightarrow> wf s'"
    and push_full: "wf s \<Longrightarrow> push s = (None, s') \<Longrightarrow> content s' = content s"
    and push_new: "wf s \<Longrightarrow> push s = (Some i, s') \<Longrightarrow> content s' = content s @ [i]"
    and finish_wf: "wf s \<Longrightarrow> finish i s = (b, s') \<Longrightarrow> wf s'"
    and finish_content: "wf s \<Longrightarrow> finish i s = (b, s') \<Longrightarrow>
      b = (i \<in> set (content s)) \<and> content s' = remove1 i (content s)"
    and content_bound: "wf s \<Longrightarrow> length (content s) \<le> depth"
begin

lemma push_step:
  "wf s \<Longrightarrow> push s = (r, s') \<Longrightarrow>
     wf s' \<and> mset (content s') = mset (content s) + (case r of None \<Rightarrow> {#} | Some i \<Rightarrow> {#i#})"
  by (cases r) (auto dest: push_wf push_full push_new)

lemma finish_step:
  "wf s \<Longrightarrow> finish i s = (b, s') \<Longrightarrow>
     wf s' \<and> mset (content s) = mset (content s') + (if b then {#i#} else {#})"
  using finish_content [of s i b s'] finish_wf [of s i b s'] by (auto simp: remove1_idem)

lemma run_conserves:
  "wf s \<Longrightarrow> pipe_run push finish ops s = (iss, fin, s') \<Longrightarrow>
     wf s' \<and> mset (content s) + mset iss = mset fin + mset (content s') \<and>
     length (content s') \<le> depth"
proof (induction ops arbitrary: s iss fin s')
  case Nil
  then show ?case by (auto dest: content_bound)
next
  case (Cons op ops)
  show ?case
  proof (cases op)
    case Pipe_Push
    obtain r s1 where p: "push s = (r, s1)" by fastforce
    obtain iss' fin' s2 where run: "pipe_run push finish ops s1 = (iss', fin', s2)"
      by (metis prod_cases3)
    from push_step [OF Cons.prems(1) p] Cons.IH [OF _ run] Cons.prems(2) p run Pipe_Push
    show ?thesis by (auto split: option.splits)
  next
    case (Pipe_Finish i)
    obtain b s1 where p: "finish i s = (b, s1)" by fastforce
    obtain iss' fin' s2 where run: "pipe_run push finish ops s1 = (iss', fin', s2)"
      by (metis prod_cases3)
    from finish_step [OF Cons.prems(1) p] Cons.IH [OF _ run] Cons.prems(2) p run Pipe_Finish
    show ?thesis by (auto split: if_splits)
  qed
qed

end

end
