(* ===== verification/UsbStream_Correct.thy ===== *)
theory UsbStream_Correct
  imports UsbIso_Correct Pipeline
begin

text \<open>
  The real-time stream life cycle of \<^verbatim>\<open>zzusb_iso.c\<close>: its invariant, the pipeline of at most
  four batches it implements (an interpretation of \<^verbatim>\<open>bounded_pipeline\<close>), and removal; and the
  properties of the isochronous component.
\<close>

section \<open>Operations and invariant\<close>

datatype rt_op = Rt_Add | Rt_Start | Rt_Queue | Rt_Complete u32 | Rt_Begin_Stop | Rt_Ack_Stop
  | Rt_Finish_Stop | Rt_Remove | Rt_Request_Remove

definition rt_next :: "rt_op \<Rightarrow> rt_lifecycle \<Rightarrow> rt_lifecycle" where
  "rt_next op l = the (case op of
       Rt_Add \<Rightarrow> snd (rt_add (Some l)) | Rt_Start \<Rightarrow> snd (rt_start (Some l))
     | Rt_Queue \<Rightarrow> snd (rt_queue (Some l)) | Rt_Complete b \<Rightarrow> snd (rt_complete b (Some l))
     | Rt_Begin_Stop \<Rightarrow> snd (rt_begin_stop (Some l)) | Rt_Ack_Stop \<Rightarrow> snd (rt_ack_stop (Some l))
     | Rt_Finish_Stop \<Rightarrow> snd (rt_finish_stop (Some l)) | Rt_Remove \<Rightarrow> snd (rt_remove (Some l))
     | Rt_Request_Remove \<Rightarrow> snd (rt_request_remove (Some l)))"

lemmas rt_defs [op_defs] = rt_init_def rt_add_def rt_start_def rt_queue_def rt_complete_def
  rt_begin_stop_def rt_ack_stop_def rt_finish_stop_def rt_remove_def rt_request_remove_def Let_def

definition rt_wf :: "rt_lifecycle \<Rightarrow> bool" where
  "rt_wf l \<longleftrightarrow> length (queued_ids l) = ISO_PIPELINE_DEPTH \<and> in_flight l \<le> ISO_PIPELINE_DEPTH \<and>
     0 \<notin> set (take (in_flight l) (queued_ids l)) \<and>
     drop (in_flight l) (queued_ids l) = replicate (ISO_PIPELINE_DEPTH - in_flight l) 0 \<and>
     (rt_st l \<noteq> Rt_Running \<and> rt_st l \<noteq> Rt_Stopping \<longrightarrow> in_flight l = 0) \<and>
     (remove_pending l \<longrightarrow> rt_st l = Rt_Stopping) \<and>
     (rt_st l = Rt_Running \<longrightarrow> stop_ack_pending l) \<and>
     (rt_st l = Rt_Free \<or> rt_st l = Rt_Added \<longrightarrow> \<not> stop_ack_pending l)"

definition rt_pending :: "rt_lifecycle \<Rightarrow> u32 list" where
  "rt_pending l = take (in_flight l) (queued_ids l)"

text \<open>The search loop finds the first occurrence, the shift loop closes its gap.\<close>

lemma find_id_spec:
  fixes b :: u32
  assumes "i + n \<le> length ids"
  defines "j \<equiv> find_id ids b i n"
  shows "i \<le> j \<and> j \<le> i + n \<and> (\<forall>k. i \<le> k \<and> k < j \<longrightarrow> ids ! k \<noteq> b) \<and>
     (j < i + n \<longrightarrow> ids ! j = b)"
  using assms(1) unfolding j_def
proof (induction ids b i n rule: find_id.induct)
  case (1 ids b i)
  then show ?case by auto
next
  case (2 ids b i n)
  show ?case
  proof (cases "ids ! i = b")
    case True
    then show ?thesis by auto
  next
    case False
    then have "Suc i \<le> find_id ids b (Suc i) n \<and> find_id ids b (Suc i) n \<le> Suc i + n \<and>
        (\<forall>k. Suc i \<le> k \<and> k < find_id ids b (Suc i) n \<longrightarrow> ids ! k \<noteq> b) \<and>
        (find_id ids b (Suc i) n < Suc i + n \<longrightarrow> ids ! find_id ids b (Suc i) n = b)"
      using "2.IH" [OF False] "2.prems" by simp
    with False show ?thesis by (simp add: Suc_le_eq) (metis le_neq_implies_less)
  qed
qed

lemma shift_down_eq:
  "i + n < length ids \<Longrightarrow>
     shift_down i n ids = take i ids @ take n (drop (Suc i) ids) @ drop (i + n) ids"
proof (induction n arbitrary: i ids)
  case 0
  then show ?case by simp
next
  case (Suc n)
  have "shift_down i (Suc n) ids =
      take (Suc i) (ids[i := ids ! (i + 1)]) @ take n (drop (Suc (Suc i)) ids) @ drop (Suc i + n) ids"
    using Suc.IH [of "Suc i" "ids[i := ids ! (i + 1)]"] Suc.prems by simp
  also have "take (Suc i) (ids[i := ids ! (i + 1)]) = take i ids @ [ids ! Suc i]"
    using Suc.prems by (simp add: take_Suc_conv_app_nth)
  also have "(take i ids @ [ids ! Suc i]) @ take n (drop (Suc (Suc i)) ids) @ drop (Suc i + n) ids =
      take i ids @ take (Suc n) (drop (Suc i) ids) @ drop (i + Suc n) ids"
    using Suc.prems by (simp add: Cons_nth_drop_Suc [symmetric])
  finally show ?case .
qed

lemma find_shift:
  fixes b :: u32 and ids :: "u32 list"
  assumes len: "n \<le> length ids"
  defines "i \<equiv> find_id ids b 0 n"
  defines "ids' \<equiv> (shift_down i (n - 1 - i) ids)[n - 1 := 0]"
  shows "(i = n) = (b \<notin> set (take n ids))"
    and "i \<noteq> n \<Longrightarrow> take (n - 1) ids' = remove1 b (take n ids) \<and>
      drop (n - 1) ids' = 0 # drop n ids \<and> length ids' = length ids \<and> 0 < n"
proof -
  have sp: "i \<le> n" "\<And>k. k < i \<Longrightarrow> ids ! k \<noteq> b" "i < n \<Longrightarrow> ids ! i = b"
    using find_id_spec [of 0 n ids b] len by (auto simp: i_def)
  show "(i = n) = (b \<notin> set (take n ids))"
  proof (cases "i = n")
    case True
    then show ?thesis using sp(2) len by (auto simp: in_set_conv_nth)
  next
    case False
    with sp(1) have i: "i < n" by simp
    then have "take n ids ! i = b" "i < length (take n ids)" using sp(3) len by simp_all
    then have "b \<in> set (take n ids)" by (metis nth_mem)
    with False show ?thesis by simp
  qed
  assume "i \<noteq> n"
  with sp(1) have i: "i < n" by simp
  let ?m = "n - 1 - i"
  have sh: "shift_down i ?m ids = take i ids @ take ?m (drop (Suc i) ids) @ drop (n - 1) ids"
    using shift_down_eq [of i ?m ids] i len by simp
  have l1: "length (take i ids @ take ?m (drop (Suc i) ids)) = n - 1"
    using i len by simp
  have d: "drop (n - 1) ids = ids ! (n - 1) # drop n ids"
    using i len by (simp add: Cons_nth_drop_Suc [symmetric])
  have ids': "ids' = (take i ids @ take ?m (drop (Suc i) ids)) @ 0 # drop n ids"
    unfolding ids'_def sh using l1 d
    by (metis append.assoc list_update_length)
  have tk: "take n ids = take i ids @ b # take ?m (drop (Suc i) ids)"
  proof -
    have "take n ids = take i ids @ take (n - i) (drop i ids)"
      using i by (simp add: take_add [symmetric])
    also have "drop i ids = b # drop (Suc i) ids"
      using sp(3) [OF i] i len by (simp add: Cons_nth_drop_Suc [symmetric])
    also have "n - i = Suc ?m" using i by simp
    finally show ?thesis by simp
  qed
  have "b \<notin> set (take i ids)"
    using sp(2) by (auto simp: in_set_conv_nth)
  then have "remove1 b (take n ids) = take i ids @ take ?m (drop (Suc i) ids)"
    by (simp add: tk remove1_append)
  then show "take (n - 1) ids' = remove1 b (take n ids) \<and>
      drop (n - 1) ids' = 0 # drop n ids \<and> length ids' = length ids \<and> 0 < n"
    using l1 i len by (simp add: ids')
qed

lemma rt_wf_complete:
  assumes wf: "rt_wf l" and run: "rt_st l = Rt_Running"
    and step: "rt_complete b (Some l) = (ok, Some l')"
  shows "ok = (b \<in> set (rt_pending l)) \<and> rt_wf l' \<and> rt_st l' = Rt_Running \<and>
     rt_pending l' = remove1 b (rt_pending l)"
proof (cases "b = 0")
  case True
  with wf step run show ?thesis
    by (auto simp: rt_defs rt_wf_def rt_pending_def remove1_idem)
next
  case False
  let ?n = "in_flight l" and ?ids = "queued_ids l"
  have w: "length ?ids = 4" "?n \<le> 4" "drop ?n ?ids = replicate (4 - ?n) 0"
    "0 \<notin> set (take ?n ?ids)" "stop_ack_pending l" "\<not> remove_pending l"
    using wf run by (auto simp: rt_wf_def)
  note fs = find_shift [of ?n ?ids b]
  have sub: "0 \<notin> set (remove1 b (take ?n ?ids))"
    using w(4) set_remove1_subset by fastforce
  show ?thesis
  proof (cases "find_id ?ids b 0 ?n = ?n")
    case True
    with step run False fs(1) wf w show ?thesis
      by (auto simp: rt_defs rt_pending_def remove1_idem)
  next
    case ne: False
    with step run False have l': "ok" "l' = l\<lparr>queued_ids :=
        (shift_down (find_id ?ids b 0 ?n) (?n - 1 - find_id ?ids b 0 ?n) ?ids)[?n - 1 := 0],
        in_flight := ?n - 1\<rparr>"
      by (auto simp: rt_defs)
    show ?thesis
    proof -
      have "?n \<le> length ?ids" using w by simp
      note f1 = fs(1) [OF this] and f2 = fs(2) [OF this ne]
      have "0 # replicate (4 - ?n) 0 = replicate (4 - (?n - 1)) (0 :: u32)"
        using f2 w(2) by (cases ?n) (simp_all add: Suc_diff_le [symmetric] flip: replicate_Suc)
      with f1 f2 ne sub w run show ?thesis
        by (simp add: l' rt_wf_def rt_pending_def)
    qed
  qed
qed

lemma rt_wf_queue:
  assumes wf: "rt_wf l" and step: "rt_queue (Some l) = (b, Some l')"
  shows "rt_wf l' \<and> rt_st l' = rt_st l \<and>
     (if b = 0 then l' = l else rt_pending l' = rt_pending l @ [b])"
proof (cases "rt_st l \<noteq> Rt_Running \<or> in_flight l \<ge> 4")
  case True
  with step wf show ?thesis by (auto simp: rt_defs)
next
  case False
  let ?n = "in_flight l"
  have w: "length (queued_ids l) = 4" "?n \<le> 4" "drop ?n (queued_ids l) = replicate (4 - ?n) 0"
    "0 \<notin> set (take ?n (queued_ids l))" "stop_ack_pending l" "\<not> remove_pending l"
    using wf False by (auto simp: rt_wf_def)
  from False step have b: "b \<noteq> 0" "queued_ids l' = (queued_ids l)[?n := b]"
      "in_flight l' = ?n + 1" "rt_st l' = rt_st l" "stop_ack_pending l' = stop_ack_pending l"
      "remove_pending l' = remove_pending l"
    by (auto simp: rt_defs split: if_splits)
  have t: "take (?n + 1) ((queued_ids l)[?n := b]) = take ?n (queued_ids l) @ [b]"
    using w False by (simp add: take_Suc_conv_app_nth)
  have d: "drop (?n + 1) ((queued_ids l)[?n := b]) = replicate (4 - (?n + 1)) 0"
  proof -
    have "drop (?n + 1) ((queued_ids l)[?n := b]) = drop 1 (drop ?n (queued_ids l))" by simp
    also have "\<dots> = replicate (4 - (?n + 1)) 0" unfolding w(3) using False by simp
    finally show ?thesis .
  qed
  show ?thesis
    using b t d w False by (auto simp: rt_wf_def rt_pending_def)
qed

lemma rt_wf_other:
  assumes "rt_wf l" "op \<notin> {Rt_Queue} \<union> range Rt_Complete"
  shows "rt_wf (rt_next op l)"
  using assms
  by (cases op; cases "rt_st l")
    (auto simp: rt_next_def rt_wf_def rt_defs zero_lifecycle_def zero_ids_def)

lemma rt_wf_next: "rt_wf l \<Longrightarrow> rt_wf (rt_next op l)"
proof (cases op)
  case Rt_Queue
  moreover assume "rt_wf l"
  ultimately show ?thesis
    using rt_wf_queue [of l "fst (rt_queue (Some l))" "rt_next op l"]
    by (simp add: rt_next_def rt_queue_def)
next
  case (Rt_Complete b)
  moreover assume "rt_wf l"
  ultimately show ?thesis
    using rt_wf_complete [of l b "fst (rt_complete b (Some l))" "rt_next op l"]
    by (cases "rt_st l = Rt_Running") (simp_all add: rt_next_def rt_complete_def)
qed (auto intro: rt_wf_other)

interpretation rt_stream: invariant_machine rt_next rt_wf
  by unfold_locales (rule rt_wf_next)

lemma rt_wf_zero: "rt_wf zero_lifecycle"
  by (simp add: rt_wf_def zero_lifecycle_def zero_ids_def)

section \<open>The pipeline\<close>

definition rt_push :: "rt_lifecycle \<Rightarrow> u32 option \<times> rt_lifecycle" where
  "rt_push l = (case rt_queue (Some l) of (b, p) \<Rightarrow> (if b = 0 then None else Some b, the p))"

definition rt_finish :: "u32 \<Rightarrow> rt_lifecycle \<Rightarrow> bool \<times> rt_lifecycle" where
  "rt_finish b l = (case rt_complete b (Some l) of (ok, p) \<Rightarrow> (ok, the p))"

definition rt_running :: "rt_lifecycle \<Rightarrow> bool" where
  "rt_running l \<longleftrightarrow> rt_wf l \<and> rt_st l = Rt_Running"

lemma rt_push_step:
  "rt_running l \<Longrightarrow> rt_push l = (r, l') \<Longrightarrow>
     rt_running l' \<and> (case r of None \<Rightarrow> l' = l | Some b \<Rightarrow> rt_pending l' = rt_pending l @ [b])"
  using rt_wf_queue [of l "fst (rt_queue (Some l))" l']
  by (auto simp: rt_push_def rt_running_def rt_queue_def split: if_splits)

lemma rt_finish_step:
  "rt_running l \<Longrightarrow> rt_finish b l = (ok, l') \<Longrightarrow>
     rt_running l' \<and> ok = (b \<in> set (rt_pending l)) \<and> rt_pending l' = remove1 b (rt_pending l)"
  using rt_wf_complete [of l b ok l']
  by (auto simp: rt_finish_def rt_running_def rt_complete_def)

interpretation rt_pipe: bounded_pipeline rt_pending ISO_PIPELINE_DEPTH rt_running rt_push rt_finish
proof unfold_locales
  show "length (rt_pending l) \<le> ISO_PIPELINE_DEPTH" if "rt_running l" for l
    using that by (simp add: rt_running_def rt_wf_def rt_pending_def)
qed (auto dest: rt_push_step rt_finish_step)

section \<open>Properties\<close>

text \<open>a plan for a non-periodic transfer that is not refused covers the data exactly: the
  packet lengths sum to the transfer length, none exceeds the endpoint's payload size, and the
  number of packets fits both the caller's array and the 32-packet batch.\<close>

theorem iso_plan_simple_covers:
  "iso_plan_simple tot enc have_array capacity = ls \<Longrightarrow> ls \<noteq> [] \<Longrightarrow>
     total16 ls = unat tot \<and> length ls \<le> capacity \<and> length ls \<le> ISO_MAX_PACKETS \<and>
     (\<forall>l \<in> set ls. unat l \<le> unat (iso_payload_size enc))"
proof -
  assume ls: "iso_plan_simple tot enc have_array capacity = ls" "ls \<noteq> []"
  let ?p = "iso_payload_size enc"
  let ?c = "if tot \<noteq> 0 then unat ((tot + ucast ?p - 1) div ucast ?p) else 1"
  from ls have ok: "?p \<noteq> 0" "unat tot \<le> ISO_DATA_MAX" "?c \<le> capacity" "?c \<le> 32"
    "ls = plan_simple_loop ?c tot ?p"
    by (auto simp: iso_plan_simple_def Let_def not_less split: if_splits)
  have "unat tot \<le> ?c * unat ?p"
    using ok(1,2) ceil_div_covers [of "unat ?p" "unat tot"]
    by (simp add: ceil_div unat_gt_0 del: unat_div)
  then have "total16 ls = unat tot"
    unfolding ok(5) total16_def by (rule plan_simple_loop_sum)
  moreover have "length ls = ?c" unfolding ok(5) by simp
  ultimately show ?thesis
    using ok(3,4) plan_simple_loop_bound [of _ ?c tot ?p] unfolding ok(5) by simp
qed

theorem iso_plan_simple_covers_witness:
  "iso_plan_simple 2500 1024 True 8 = [1024, 1024, 452] \<and> total16 [1024, 1024, 452] = 2500"
proof -
  have e: "iso_plan_simple 2500 1024 True 8 = [1024, 1024, 452]" by code_simp
  from iso_plan_simple_covers [OF e] e show ?thesis by simp
qed

text \<open>C6: the wire format round-trips: whatever batch the queue builder lays down, the reap
  parser reads back (with the direction reversed, so that it expects the data the builder
  appended): the same id, frame and count, and the packets with their requested lengths at
  consecutive offsets, which the layout check then accepts.\<close>

theorem iso_wire_roundtrip:
  "iso_build_queue (Some w) bid flags sf su (Some ls) payload d = (n, Some w') \<Longrightarrow> n \<noteq> 0 \<Longrightarrow>
   length ls \<le> capacity \<Longrightarrow> \<not> d \<longrightarrow> total16 ls \<le> length (the payload) \<Longrightarrow>
   \<exists>b. iso_parse_reap (Some (take n w')) (\<not> d) True True capacity = Some (b, laid_out ls 0) \<and>
     bt_id b = bid \<and> unat (bt_total b) = total16 ls \<and> bt_start_frame b = sf AND 0x07ff \<and>
     bt_start_microframe b = su \<and>
     iso_layout_matches (Some b) (Some (laid_out ls 0)) (Some ls) (length ls)"
proof -
  assume a: "iso_build_queue (Some w) bid flags sf su (Some ls) payload d = (n, Some w')"
    "n \<noteq> 0" "length ls \<le> capacity" "\<not> d \<longrightarrow> total16 ls \<le> length (the payload)"
  note bb = build_queue_built [OF a(1,2)]
  have "unat (of_nat (length ls) :: u8) = length ls" "unat (of_nat (total16 ls) :: u32) = total16 ls"
    using bb(3,5) by (simp_all add: unat_of_nat)
  moreover have "pk_requested (laid_out ls 0 ! i) = ls ! i" if "i < length ls" for i
    using that nth_map [of i "laid_out ls 0" pk_requested] by (simp add: requested_laid_out)
  ultimately show ?thesis
    using build_parse [OF a]
    by (simp add: iso_layout_matches_def list_all_iff)
qed

theorem iso_wire_roundtrip_witness:
  "\<exists>b w'. iso_parse_reap (Some w') False True True 4 = Some (b, laid_out [3, 7] 0) \<and> bt_id b = 9"
proof -
  let ?r = "iso_build_queue (Some (replicate 64 0)) 9 1 5 2 (Some [3, 7]) None True"
  have r: "?r = (64, Some (the (snd ?r)))"
    by (simp add: iso_build_queue_def Let_def)
  show ?thesis
    using iso_wire_roundtrip [OF r, of 4] by fastforce
qed

text \<open>C7: an accepted reap is safe to use: the packets tile the data area without gaps, each
  actual length is within the requested one, the packet count fits the caller's array, and the
  metadata and data fill the wire buffer exactly.\<close>

theorem iso_reap_layout_safe:
  "iso_parse_reap (Some wire) d True True capacity = Some (b, ps) \<Longrightarrow>
     contiguous 0 ps (unat (bt_total b)) \<and> length ps = unat (bt_packet_count b) \<and>
     length ps \<le> capacity \<and> 0 < length ps \<and> length ps \<le> ISO_MAX_PACKETS \<and> bt_id b \<noteq> 0 \<and>
     length wire = ISO_HEADER_SIZE + length ps * ISO_PACKET_SIZE +
       (if d then unat (bt_total b) else 0)"
proof -
  assume "iso_parse_reap (Some wire) d True True capacity = Some (b, ps)"
  from parse_reap_accepts [OF this] show ?thesis by metis
qed

text \<open>The wire bytes of a batch with one packet of three bytes requested, two of them filled.\<close>

definition sample_reap :: bytes where
  "sample_reap = [0x5a, 0x49, 0x53, 0x4f, 0, 1, 0, 0, 0, 0, 0, 9, 0, 5, 0, 1, 0, 0, 0, 3, 2]
     @ replicate 11 0 @ [0, 3, 0, 2] @ replicate 12 0 @ [0xaa, 0xbb, 0]"

theorem iso_reap_layout_safe_witness:
  "\<exists>b ps. iso_parse_reap (Some sample_reap) True True True 4 = Some (b, ps) \<and>
     contiguous 0 ps 3 \<and> length ps = 1"
proof -
  have e: "iso_parse_reap (Some sample_reap) True True True 4 =
      Some (\<lparr>bt_id = 9, bt_total = 3, bt_start_frame = 5, bt_start_microframe = 2,
        bt_packet_count = 1, bt_metadata_size = 48\<rparr>,
       [\<lparr>pk_offset = 0, pk_requested = 3, pk_actual = 2, pk_frame = 0, pk_microframe = 0,
         pk_status = 0\<rparr>])"
    by code_simp
  from iso_reap_layout_safe [OF e] e show ?thesis by auto
qed

text \<open>C8: the stream pipeline loses and duplicates nothing: over any sequence of queue and
  completion calls on a running stream, the batch ids issued are exactly the ids completed plus
  the ids still in flight, and never more than four are in flight.\<close>

theorem rt_pipeline_conserves:
  "rt_running l \<Longrightarrow> pipe_run rt_push rt_finish ops l = (issued, done, l') \<Longrightarrow>
     rt_running l' \<and>
     mset (rt_pending l) + mset issued = mset done + mset (rt_pending l') \<and>
     length (rt_pending l') \<le> ISO_PIPELINE_DEPTH"
  by (rule rt_pipe.run_conserves)

definition running_stream :: rt_lifecycle where
  "running_stream = rt_next Rt_Start (rt_next Rt_Add zero_lifecycle)"

theorem rt_pipeline_conserves_witness:
  "rt_running running_stream \<and>
   (\<exists>l'. pipe_run rt_push rt_finish [Pipe_Push, Pipe_Push, Pipe_Finish 1] running_stream =
        ([1, 2], [1], l') \<and> mset [1, 2] = mset [1] + mset (rt_pending l'))"
proof -
  have st: "running_stream = zero_lifecycle\<lparr>rt_st := Rt_Running, next_batch_id := 1,
      stop_ack_pending := True\<rparr>"
    by (simp add: running_stream_def rt_next_def rt_defs zero_lifecycle_def)
  then have run: "rt_running running_stream"
    unfolding st by (simp add: rt_running_def rt_wf_def zero_lifecycle_def zero_ids_def)
  let ?r = "pipe_run rt_push rt_finish [Pipe_Push, Pipe_Push, Pipe_Finish 1] running_stream"
  have r: "?r = ([1, 2], [1], snd (snd ?r))"
    unfolding st by code_simp
  have "rt_pending running_stream = []"
    by (simp add: st rt_pending_def zero_lifecycle_def)
  with rt_pipeline_conserves [OF run r] run r show ?thesis by auto
qed

text \<open>C9: removal always completes: in every state of a stream that exists, a removal request
  succeeds, and either frees it at once or leaves it stopping, and then the end of the stop
  frees it (to the all-zero state).\<close>

theorem rt_removal_completes:
  "rt_st l \<noteq> Rt_Free \<Longrightarrow>
     fst (rt_request_remove (Some l)) \<and>
     (let l1 = rt_next Rt_Request_Remove l in
        l1 = zero_lifecycle \<or>
        (rt_st l1 = Rt_Stopping \<and> rt_finish_stop (Some l1) = (True, Some zero_lifecycle)))"
  by (cases "rt_st l") (simp_all add: rt_next_def rt_defs)

theorem rt_removal_completes_witness:
  "rt_st running_stream \<noteq> Rt_Free \<and> fst (rt_request_remove (Some running_stream))"
proof -
  have "rt_st running_stream \<noteq> Rt_Free"
    by (simp add: running_stream_def rt_next_def rt_defs zero_lifecycle_def)
  then show ?thesis using rt_removal_completes by blast
qed

end
