(* ===== verification/UsbPolicy.thy ===== *)
theory UsbPolicy
  imports Prelude
begin

text \<open>
  Decisions of the USB driver that need no hardware (\<^verbatim>\<open>usb-poseidon/zzusb_policy.c\<close> and
  \<^verbatim>\<open>zzusb_interrupt.h\<close>): the worker's retry timer, request matching, the resume window of a
  partly completed bulk transfer, and the interrupt-endpoint policy.
\<close>

section \<open>Worker timer\<close>

record worker_timer =
  delay_us :: u32
  wt_pending :: bool

definition worker_timer_init :: "worker_timer option \<Rightarrow> worker_timer option" where
  "worker_timer_init p = map_option (\<lambda>t. t\<lparr>delay_us := 0, wt_pending := False\<rparr>) p"

definition worker_timer_arm :: "u32 \<Rightarrow> worker_timer option \<Rightarrow> bool \<times> worker_timer option" where
  "worker_timer_arm d = on_ptr False (\<lambda>t.
     if wt_pending t \<or> d = 0 then (False, t)
     else (True, t\<lparr>delay_us := d, wt_pending := True\<rparr>))"

definition worker_timer_expire :: "bool \<Rightarrow> worker_timer option \<Rightarrow> u32 \<times> worker_timer option" where
  "worker_timer_expire signaled = on_ptr 0 (\<lambda>t.
     if \<not> wt_pending t \<or> \<not> signaled then (0, t)
     else (delay_us t, t\<lparr>delay_us := 0, wt_pending := False\<rparr>))"

definition worker_timer_cancel :: "worker_timer option \<Rightarrow> worker_timer option" where
  "worker_timer_cancel p = map_option (\<lambda>t. t\<lparr>delay_us := 0, wt_pending := False\<rparr>) p"

definition worker_timer_elapsed :: "u64 \<Rightarrow> u64 \<Rightarrow> u32 \<Rightarrow> u32" where
  "worker_timer_elapsed started now d =
     (if started = 0 \<or> now < started then 0
      else let elapsed = now - started
           in if elapsed > ucast d then d else ucast elapsed)"

definition worker_timer_remaining :: "u32 \<Rightarrow> u32 \<Rightarrow> u32" where
  "worker_timer_remaining d elapsed = (if elapsed < d then d - elapsed else 0)"

definition worker_timer_account_elapsed ::
    "u32 \<Rightarrow> worker_timer option \<Rightarrow> u32 \<times> worker_timer option" where
  "worker_timer_account_elapsed elapsed = on_ptr 0 (\<lambda>t.
     if \<not> wt_pending t \<or> elapsed = 0 \<or> elapsed \<ge> delay_us t then (0, t)
     else (elapsed, t\<lparr>delay_us := delay_us t - elapsed\<rparr>))"

section \<open>Request policy\<close>

definition periodic_endpoint_matches :: "u8 \<Rightarrow> u8 \<Rightarrow> u8 \<Rightarrow> u8 \<Rightarrow> u8 \<Rightarrow> u8 \<Rightarrow> bool" where
  "periodic_endpoint_matches old_addr old_ep old_dir new_addr new_ep new_dir =
     (old_addr = new_addr \<and> old_ep AND 0x0f = new_ep AND 0x0f \<and> old_dir = new_dir)"

definition completion_needs_reply :: "bool \<Rightarrow> bool" where
  "completion_needs_reply quick = (\<not> quick)"

text \<open>The two output pointers are given by whether they are non-NULL.\<close>

definition bulk_resume_window :: "u32 \<Rightarrow> u32 \<Rightarrow> bool \<Rightarrow> bool \<Rightarrow> (u32 \<times> u32) option" where
  "bulk_resume_window requested completed have_offset have_remaining =
     (if \<not> have_offset \<or> \<not> have_remaining \<or> completed > requested then None
      else Some (completed, requested - completed))"

definition mailbox_timer_available :: "bool \<Rightarrow> bool \<Rightarrow> bool \<Rightarrow> bool \<Rightarrow> bool \<Rightarrow> bool" where
  "mailbox_timer_available worker_request worker_mask foreground_request foreground_mask
     foreground_owned =
     ((worker_request \<and> worker_mask) \<or>
      (foreground_request \<and> foreground_mask \<and> foreground_owned))"

definition sync_command_timer_available :: "bool \<Rightarrow> bool \<Rightarrow> bool" where
  "sync_command_timer_available foreground_opened foreground_owned =
     (foreground_opened \<and> foreground_owned)"

definition negotiation_complete :: "bool \<Rightarrow> int \<Rightarrow> bool" where
  "negotiation_complete complete attempt_result = (complete \<or> attempt_result \<ge> 0)"

definition sideband_publish_available :: "bool \<Rightarrow> bool \<Rightarrow> bool" where
  "sideband_publish_available quarantined maintenance_quarantined =
     (\<not> quarantined \<and> \<not> maintenance_quarantined)"

definition quickio_available :: "bool \<Rightarrow> bool \<Rightarrow> bool \<Rightarrow> bool" where
  "quickio_available poll_task worker_request worker_mask =
     (poll_task \<and> worker_request \<and> worker_mask)"

definition is_audio_rate_set_cur :: "u8 \<Rightarrow> u8 \<Rightarrow> u16 \<Rightarrow> u16 \<Rightarrow> u32 \<Rightarrow> bool" where
  "is_audio_rate_set_cur request_type request val len data_len =
     (request_type = 0x22 \<and> request = 0x01 \<and> drop_bit 8 val = 0x01 \<and> len = 3 \<and> data_len = 3)"

definition audio_rate_matches :: "bytes option \<Rightarrow> bytes option \<Rightarrow> u32 \<Rightarrow> bool" where
  "audio_rate_matches requested current len =
     (case (requested, current) of
        (Some r, Some c) \<Rightarrow> len = 3 \<and> take 3 r = take 3 c | _ \<Rightarrow> False)"

definition audio_rate_input_index :: "u16 \<Rightarrow> bool \<Rightarrow> bool \<Rightarrow> u16 option" where
  "audio_rate_input_index index known_input have_out =
     (if \<not> known_input \<or> \<not> have_out \<or> index = 0 \<or> index AND 0xfff0 \<noteq> 0 then None
      else Some (index OR 0x0080))"

section \<open>Interrupt endpoints\<close>

datatype interrupt_action = Interrupt_Keep_Pending | Interrupt_Complete | Interrupt_Fail

definition event_interrupt_pending :: "u16 \<Rightarrow> bool" where
  "event_interrupt_pending status = (status AND 16 \<noteq> 0)"

definition interrupt_classify :: "u16 \<Rightarrow> u32 \<Rightarrow> bool \<Rightarrow> bool \<Rightarrow> interrupt_action" where
  "interrupt_classify status actual is_in zero_report =
     (if status = 0xfc then Interrupt_Keep_Pending
      else if status \<noteq> 0x00 then Interrupt_Fail
      else if is_in \<and> (actual = 0 \<or> zero_report) then Interrupt_Keep_Pending
      else Interrupt_Complete)"

definition interrupt_rearm_on_replace :: "bool \<Rightarrow> bool \<Rightarrow> bool \<Rightarrow> bool" where
  "interrupt_rearm_on_replace armed is_in parameters_changed =
     (armed \<and> (\<not> is_in \<or> parameters_changed))"

definition interrupt_retain_endpoint :: "bool \<Rightarrow> bool" where
  "interrupt_retain_endpoint is_in = is_in"

definition interrupt_abort_after_retire :: "bool \<Rightarrow> bool \<Rightarrow> bool" where
  "interrupt_abort_after_retire armed arm_in_progress = (armed \<and> \<not> arm_in_progress)"

definition interrupt_abort_reply_ready :: "bool \<Rightarrow> bool \<Rightarrow> bool" where
  "interrupt_abort_reply_ready abort_waiting armed = (abort_waiting \<and> \<not> armed)"

definition interrupt_next_slot :: "u32 \<Rightarrow> u32 \<Rightarrow> u32" where
  "interrupt_next_slot current slot_count =
     (if slot_count \<noteq> 0 then (current + 1) mod slot_count else 0)"

section \<open>Timer accounting\<close>

text \<open>
  The worker wakes early (another signal arrives), accounts the part of the delay that has
  passed, and goes back to sleep: a run of early wake-ups followed by the expiry.
\<close>

fun account_run :: "u32 list \<Rightarrow> worker_timer option \<Rightarrow> u32 list \<times> worker_timer option" where
  "account_run [] t = ([], t)"
| "account_run (e # es) t =
     (case worker_timer_account_elapsed e t of (a, t1) \<Rightarrow>
        case account_run es t1 of (as, t2) \<Rightarrow> (a # as, t2))"

lemma account_step:
  assumes "wt_pending t" "delay_us t \<noteq> 0"
  obtains a t' where "worker_timer_account_elapsed e (Some t) = (a, Some t')" "wt_pending t'"
    "delay_us t' \<noteq> 0" "unat a + unat (delay_us t') = unat (delay_us t)"
proof (cases "e = 0 \<or> e \<ge> delay_us t")
  case True
  with assms show ?thesis by (intro that [of 0 t]) (auto simp: worker_timer_account_elapsed_def)
next
  case False
  then have "e \<le> delay_us t" "e < delay_us t" by auto
  then have "unat (delay_us t - e) = unat (delay_us t) - unat e" "unat e < unat (delay_us t)"
    by (simp_all add: unat_minus_le word_less_nat_alt)
  with assms False show ?thesis
    by (intro that [of e "t\<lparr>delay_us := delay_us t - e\<rparr>"])
      (auto simp: worker_timer_account_elapsed_def unat_eq_0 [symmetric] unat_gt_0 [symmetric])
qed

lemma account_run_sum:
  "wt_pending t \<Longrightarrow> delay_us t \<noteq> 0 \<Longrightarrow> account_run es (Some t) = (as, p) \<Longrightarrow>
     \<exists>t'. p = Some t' \<and> wt_pending t' \<and> delay_us t' \<noteq> 0 \<and>
       sum_list (map unat as) + unat (delay_us t') = unat (delay_us t)"
proof (induction es arbitrary: t as p)
  case Nil
  then show ?case by auto
next
  case (Cons e es)
  obtain a t1 where s: "worker_timer_account_elapsed e (Some t) = (a, Some t1)" "wt_pending t1"
      "delay_us t1 \<noteq> 0" "unat a + unat (delay_us t1) = unat (delay_us t)"
    using account_step [OF Cons.prems(1,2)] by blast
  obtain bs q where r: "account_run es (Some t1) = (bs, q)" by fastforce
  from Cons.IH [OF s(2,3) r] Cons.prems(3) s(1,4) r show ?case by auto
qed

definition same_object :: "worker_timer \<Rightarrow> worker_timer \<Rightarrow> bool" where
  "same_object t u \<longleftrightarrow> u = t\<lparr>delay_us := delay_us u, wt_pending := wt_pending u\<rparr>"

lemma account_frame:
  "same_object t u \<Longrightarrow>
     \<exists>a v. worker_timer_account_elapsed e (Some u) = (a, Some v) \<and> same_object t v"
  by (cases t; cases u) (auto simp: worker_timer_account_elapsed_def same_object_def)

lemma account_run_frame:
  "same_object t u \<Longrightarrow> account_run es (Some u) = (as, p) \<Longrightarrow> \<exists>v. p = Some v \<and> same_object t v"
proof (induction es arbitrary: u as p)
  case Nil
  then show ?case by auto
next
  case (Cons e es)
  from account_frame [OF Cons.prems(1)] obtain a v where
    v: "worker_timer_account_elapsed e (Some u) = (a, Some v)" "same_object t v" by blast
  obtain bs q where r: "account_run es (Some v) = (bs, q)" by fastforce
  from Cons.IH [OF v(2) r] Cons.prems(2) v(1) r show ?case by simp
qed

text \<open>the worker timer neither loses nor invents time: when a timer armed for a delay is
  woken early any number of times and then expires, the times accounted for the early wake-ups
  and the time reported at expiry add up to exactly the delay, and the timer is free again.\<close>

theorem worker_timer_time_conserved:
  "worker_timer_arm d (Some t) = (True, t0) \<Longrightarrow> account_run es t0 = (as, t1) \<Longrightarrow>
     sum_list (map unat as) + unat (fst (worker_timer_expire True t1)) = unat d \<and>
     snd (worker_timer_expire True t1) = Some (t\<lparr>delay_us := 0, wt_pending := False\<rparr>)"
proof -
  assume a: "worker_timer_arm d (Some t) = (True, t0)" "account_run es t0 = (as, t1)"
  from a(1) have t0: "t0 = Some (t\<lparr>delay_us := d, wt_pending := True\<rparr>)" "d \<noteq> 0"
    by (auto simp: worker_timer_arm_def split: if_splits)
  have "same_object t (t\<lparr>delay_us := d, wt_pending := True\<rparr>)"
    by (simp add: same_object_def)
  from account_run_frame [OF this a(2) [unfolded t0(1)]] obtain v where
    v: "t1 = Some v" "v = t\<lparr>delay_us := delay_us v, wt_pending := wt_pending v\<rparr>"
    unfolding same_object_def by blast
  define d' b where "d' = delay_us v" and "b = wt_pending v"
  have t1: "t1 = Some (t\<lparr>delay_us := d', wt_pending := b\<rparr>)"
    using v unfolding d'_def b_def by simp
  with account_run_sum [of "t\<lparr>delay_us := d, wt_pending := True\<rparr>" es as t1] a(2) t0 show ?thesis
    by (auto simp: worker_timer_expire_def)
qed

theorem worker_timer_time_conserved_witness:
  "sum_list (map unat [30, 0, 20 :: u32]) + unat (50 :: u32) = unat (100 :: u32)"
proof -
  define z :: worker_timer where "z = \<lparr>delay_us = 0, wt_pending = False\<rparr>"
  have arm: "worker_timer_arm 100 (Some z) = (True, Some \<lparr>delay_us = 100, wt_pending = True\<rparr>)"
    by (simp add: worker_timer_arm_def z_def)
  have run: "account_run [30, 90, 20] (Some \<lparr>delay_us = 100, wt_pending = True\<rparr>) =
      ([30, 0, 20], Some \<lparr>delay_us = 50, wt_pending = True\<rparr>)"
    by (simp add: worker_timer_account_elapsed_def)
  from worker_timer_time_conserved [OF arm run] show ?thesis
    by (simp add: worker_timer_expire_def)
qed

end
