(* ===== verification/NetRx.thy ===== *)
theory NetRx
  imports Prelude
begin

text \<open>
  Receive side of the network driver (\<^verbatim>\<open>net/rx.c\<close>): classification of the presented backlog
  slot, gap accounting on the 16-bit serial, and the framer's drain budget. The two register
  reads the model is given (\<^verbatim>\<open>struct zznet_rx_io\<close>) are functions on an abstract world, so two
  reads of the same register may differ.
\<close>

section \<open>Slot classification\<close>

abbreviation "RX_STATUS_READY \<equiv> (0x00ff :: u16)"
abbreviation "RX_STATUS_MIN_FW \<equiv> (0x0201 :: u16)"
abbreviation "RX_SERIAL_SKIP_MIN_FW \<equiv> (0x0208 :: u16)"
abbreviation "RX_LEN_OFFSET2 \<equiv> (0x8000 :: u16)"
abbreviation "RX_MIN_FRAME \<equiv> (14 :: u16)"
abbreviation "RX_MAX_FRAME \<equiv> (1518 :: u16)"

datatype rx_action = Rx_Wait | Rx_Drop | Rx_Deliver

record rx_state =
  old_serial :: u16
  have_baseline :: bool
  ready_valid :: bool

record rx_decision =
  rx_act :: rx_action
  rx_empty :: bool
  rx_bad_data :: bool
  rx_overruns :: u16
  rx_size :: u16
  rx_serial :: u16
  rx_offset2 :: bool

record 'w rx_io =
  read_header :: "'w \<Rightarrow> u32 \<times> 'w"
  rx_status :: "'w \<Rightarrow> u16 \<times> 'w"

definition rx_reset :: "u16 \<Rightarrow> rx_state" where
  "rx_reset fw_version =
     \<lparr>old_serial = 0, have_baseline = False, ready_valid = (fw_version \<ge> RX_STATUS_MIN_FW)\<rparr>"

definition rx_header_split :: "(nat \<Rightarrow> 'w \<Rightarrow> u16 \<times> 'w) \<Rightarrow> 'w \<Rightarrow> u32 \<times> 'w" where
  "rx_header_split read16 w =
     (case read16 2 w of (serial, w1) \<Rightarrow>
        if serial = 0 then (0, w1)
        else case read16 0 w1 of (len, w2) \<Rightarrow>
          (push_bit 16 (ucast len) OR ucast serial, w2))"

definition rx_serial_first :: "u16 \<Rightarrow> bool" where
  "rx_serial_first fw_version = (fw_version \<ge> RX_SERIAL_SKIP_MIN_FW)"

text \<open>
  The conjunction of tests on a header that repeats the acked serial; the C operators are
  evaluated left to right and stop at the first that decides, so the registers are read only
  when they are needed.
\<close>

definition rx_repeat_stale ::
    "'w rx_io \<Rightarrow> rx_state \<Rightarrow> u32 \<Rightarrow> u16 \<Rightarrow> 'w \<Rightarrow> bool \<times> 'w" where
  "rx_repeat_stale io s header serial w =
     (if serial \<noteq> old_serial s then (False, w)
      else if serial = 0 \<or> \<not> ready_valid s then (True, w)
      else case rx_status io w of (st, w1) \<Rightarrow>
        if st AND RX_STATUS_READY = 0 then (True, w1)
        else case read_header io w1 of (h2, w2) \<Rightarrow> (h2 \<noteq> header, w2))"

text \<open>Overruns and the bad-data flag from the distance to the last acked serial.\<close>

definition rx_gap :: "rx_state \<Rightarrow> u16 \<Rightarrow> u16 \<times> bool" where
  "rx_gap s serial =
     (if have_baseline s then
        let delta0 = serial - old_serial s;
            delta = (if serial < old_serial s then delta0 - 2 else delta0)
        in if 1 < delta \<and> delta \<le> 128 then (delta - 1, False)
           else if delta > 128 then (0, True) else (0, False)
      else (0, False))"

definition rx_next :: "'w rx_io \<Rightarrow> rx_state \<Rightarrow> 'w \<Rightarrow> rx_decision \<times> rx_state \<times> 'w" where
  "rx_next io s w =
     (case read_header io w of (header, w1) \<Rightarrow>
        let hi = ucast (drop_bit 16 header) :: u16;
            d = \<lparr>rx_act = Rx_Wait, rx_empty = False, rx_bad_data = False, rx_overruns = 0,
                 rx_size = hi AND NOT RX_LEN_OFFSET2, rx_serial = ucast header,
                 rx_offset2 = (drop_bit 16 header AND ucast RX_LEN_OFFSET2 \<noteq> 0)\<rparr>
        in if rx_size d = 0 \<and> rx_serial d = 0 then (d\<lparr>rx_empty := True\<rparr>, s, w1)
           else case rx_repeat_stale io s header (rx_serial d) w1 of (stale, w2) \<Rightarrow>
             if stale then (d, s, w2)
             else if rx_size d < RX_MIN_FRAME \<or> rx_size d > RX_MAX_FRAME then
               (d\<lparr>rx_act := Rx_Drop, rx_bad_data := True\<rparr>,
                s\<lparr>have_baseline := True, old_serial := rx_serial d\<rparr>, w2)
             else case rx_gap s (rx_serial d) of (missed, bad) \<Rightarrow>
               (d\<lparr>rx_overruns := missed, rx_bad_data := bad, rx_act := Rx_Deliver\<rparr>,
                s\<lparr>have_baseline := True, old_serial := rx_serial d\<rparr>, w2))"

section \<open>Drain budget\<close>

abbreviation "FRAMER_PRI \<equiv> (10 :: int)"
abbreviation "FRAMER_YIELD_PRI \<equiv> (0 :: int)"
abbreviation "RX_DRAIN_BUDGET \<equiv> (64 :: u16)"
abbreviation "RX_PRI_KEEP \<equiv> (- 128 :: int)"

record rx_drain =
  drain_left :: u16
  drain_lowered :: bool

definition rx_drain_reset :: "rx_drain \<Rightarrow> int \<times> rx_drain" where
  "rx_drain_reset dr =
     (if drain_lowered dr then FRAMER_PRI else RX_PRI_KEEP,
      dr\<lparr>drain_left := RX_DRAIN_BUDGET, drain_lowered := False\<rparr>)"

definition rx_drain_frame :: "rx_drain \<Rightarrow> int \<times> rx_drain" where
  "rx_drain_frame dr =
     (let left = drain_left dr - 1
      in if left \<noteq> 0 then (RX_PRI_KEEP, dr\<lparr>drain_left := left\<rparr>)
         else let lowered = (\<not> drain_lowered dr)
              in (if lowered then FRAMER_YIELD_PRI else FRAMER_PRI,
                  dr\<lparr>drain_left := RX_DRAIN_BUDGET, drain_lowered := lowered\<rparr>))"

section \<open>The card's serial numbers\<close>

text \<open>
  Firmware from 2.8 gives consecutive frames consecutive serials and skips 0 and 1 on the wrap
  of the 16-bit counter. \<open>serial_after n s\<close> is the serial \<open>n\<close> frames later.
\<close>

definition serial_succ :: "u16 \<Rightarrow> u16" where
  "serial_succ s = (if s = 0xffff then 2 else s + 1)"

definition serial_after :: "nat \<Rightarrow> u16 \<Rightarrow> u16" where
  "serial_after n s = (serial_succ ^^ n) s"

lemma unat_serial_succ:
  "unat (serial_succ s) = (if unat s = 65535 then 2 else unat s + 1)"
proof (cases "unat s = 65535")
  case True
  then have "s = 0xffff" by (simp add: word_unat_eq_iff)
  then show ?thesis by (simp add: serial_succ_def)
next
  case False
  then have "s \<noteq> 0xffff" by auto
  moreover have "unat s < 65536" using unat_lt [of s] by simp
  ultimately show ?thesis
    using False by (simp add: serial_succ_def unat_plus_nowrap)
qed

lemma unat_serial_after:
  "n \<le> 65533 \<Longrightarrow> unat (serial_after n s) =
     (if unat s + n \<le> 65535 then unat s + n else unat s + n - 65534)"
proof (induction n)
  case 0
  have "unat s < 65536" using unat_lt [of s] by simp
  then show ?case by (simp add: serial_after_def)
next
  case (Suc n)
  have "unat s < 65536" using unat_lt [of s] by simp
  have "serial_after (Suc n) s = serial_succ (serial_after n s)"
    by (simp add: serial_after_def)
  with Suc \<open>unat s < 65536\<close> show ?case
    by (auto simp: unat_serial_succ)
qed

lemma rx_gap_exact:
  assumes base: "have_baseline s" and n: "1 \<le> n" "n \<le> 128"
  shows "rx_gap s (serial_after n (old_serial s)) = (of_nat (n - 1), False)"
proof -
  let ?o = "old_serial s" and ?d = "serial_after n (old_serial s)"
  let ?delta = "if ?d < ?o then ?d - ?o - 2 else ?d - ?o"
  have o: "unat ?o < 65536" using unat_lt [of ?o] by simp
  have d: "unat ?d = (if unat ?o + n \<le> 65535 then unat ?o + n else unat ?o + n - 65534)"
    using n by (intro unat_serial_after) simp
  have "?delta = of_nat n"
  proof (cases "unat ?o + n \<le> 65535")
    case True
    with d have "?d \<ge> ?o" by (simp add: word_le_nat_alt)
    have "?d = of_nat (unat ?d)" by simp
    also have "\<dots> = of_nat (unat ?o + n)" using d True by simp
    finally have "?d = ?o + of_nat n" by simp
    with \<open>?d \<ge> ?o\<close> show ?thesis by simp
  next
    case False
    with d o n have "?d < ?o" by (simp add: word_less_nat_alt)
    have "?d + of_nat 65534 = of_nat (unat ?d + 65534)" by simp
    also have "\<dots> = of_nat (unat ?o + n)" using d False by simp
    finally have "?d + 65534 = ?o + of_nat n" by (simp add: add.commute)
    moreover have "(65534 :: u16) = - 2" by simp
    ultimately have "?d - 2 = ?o + of_nat n"
      by (metis add_uminus_conv_diff)
    then have "?d - ?o - 2 = of_nat n"
      by (simp add: algebra_simps)
    with \<open>?d < ?o\<close> show ?thesis by simp
  qed
  moreover have "(1 < (of_nat n :: u16)) = (1 < n)" "((of_nat n :: u16) \<le> 128) = (n \<le> 128)"
    "(128 < (of_nat n :: u16)) = (128 < n)"
    using n by (simp_all add: word_less_nat_alt word_le_nat_alt unat_of_nat)
  ultimately show ?thesis
    using base n by (auto simp: rx_gap_def Let_def of_nat_diff)
qed

end
