(* ===== verification/NetRx_Correct.thy ===== *)
theory NetRx_Correct
  imports NetRx
begin

text \<open>
  What the receive classification guarantees: when the framer may deliver, drop or sleep, that a
  backlog is delivered frame by frame with every missed frame counted across any number of serial
  wraps when the firmware skips the serials 0 and 1 (older firmware: \<open>rx_gap_old_wrap\<close>), and the fairness of the drain budget.
\<close>

section \<open>A backlog of frames\<close>

text \<open>
  The card as the framer sees it between two interrupts: a list of waiting slots; the first is
  presented, an acknowledged one is gone, an exhausted backlog presents an empty slot.
\<close>

definition backlog_io :: "u32 list rx_io" where
  "backlog_io = \<lparr>read_header = (\<lambda>hs. (case hs of [] \<Rightarrow> 0 | h # _ \<Rightarrow> h, hs)),
                 rx_status = (\<lambda>hs. (of_nat (length hs) AND 0xff, hs))\<rparr>"

fun rx_drain_backlog :: "rx_state \<Rightarrow> u32 list \<Rightarrow> rx_decision list \<times> rx_state" where
  "rx_drain_backlog s [] = ([], s)"
| "rx_drain_backlog s (h # hs) =
     (case rx_next backlog_io s (h # hs) of (d, s', _) \<Rightarrow>
        if rx_act d = Rx_Wait then ([d], s')
        else case rx_drain_backlog s' hs of (ds, s'') \<Rightarrow> (d # ds, s''))"

text \<open>A frame: how many frames the firmware lost before it, its length, its alignment flag.\<close>

record rx_frame =
  fr_missed :: nat
  fr_len :: u16
  fr_off2 :: bool

definition rx_frame_ok :: "rx_frame \<Rightarrow> bool" where
  "rx_frame_ok f \<longleftrightarrow> fr_missed f \<le> 127 \<and> RX_MIN_FRAME \<le> fr_len f \<and> fr_len f \<le> RX_MAX_FRAME"

definition rx_header :: "rx_frame \<Rightarrow> u16 \<Rightarrow> u32" where
  "rx_header f serial =
     push_bit 16 (ucast (fr_len f OR (if fr_off2 f then RX_LEN_OFFSET2 else 0))) OR ucast serial"

fun rx_headers :: "u16 \<Rightarrow> rx_frame list \<Rightarrow> u32 list" where
  "rx_headers s [] = []"
| "rx_headers s (f # fs) =
     (let s' = serial_after (fr_missed f + 1) s in rx_header f s' # rx_headers s' fs)"

lemma header_hi:
  "(ucast (drop_bit 16 (push_bit 16 (ucast (a :: u16)) OR ucast (b :: u16) :: u32)) :: u16) = a"
  by (rule bit_word_eqI) (auto simp: bit_simps dest: bit_imp_le_length)

lemma header_lo:
  "(ucast (push_bit 16 (ucast (a :: u16)) OR ucast (b :: u16) :: u32) :: u16) = b"
  by (rule bit_word_eqI) (auto simp: bit_simps dest: bit_imp_le_length)

lemma header_flag:
  "drop_bit 16 (push_bit 16 (ucast (a :: u16)) OR ucast (b :: u16) :: u32) = ucast a"
  by (rule bit_word_eqI) (auto simp: bit_simps dest: bit_imp_le_length)

lemma len_no_flag:
  assumes "(l :: u16) \<le> 1518"
  shows "l AND 0x7fff = l" "l AND 0x8000 = 0"
proof -
  have "l < 2 ^ 15" using assms by (simp add: word_le_nat_alt word_less_nat_alt)
  then have "l AND mask 15 = l" by (rule less_mask_eq)
  then show a: "l AND 0x7fff = l" by (simp add: mask_eq_exp_minus_1)
  have "l AND 0x8000 = (l AND 0x7fff) AND 0x8000" using a by simp
  also have "\<dots> = l AND (0x7fff AND 0x8000)" by (simp only: and.assoc)
  also have "\<dots> = 0" by simp
  finally show "l AND 0x8000 = 0" .
qed

lemma header_len:
  assumes "(l :: u16) \<le> 1518"
  shows "(l OR (if b then 0x8000 else 0)) AND NOT 0x8000 = l"
    "((l OR (if b then 0x8000 else 0)) AND 0x8000 \<noteq> 0) = b"
proof -
  have m: "NOT (0x8000 :: u16) = 0x7fff" by simp
  show "(l OR (if b then 0x8000 else 0)) AND NOT 0x8000 = l"
    unfolding m using len_no_flag [OF assms] by (simp add: bit.conj_disj_distrib2)
  show "((l OR (if b then 0x8000 else 0)) AND 0x8000 \<noteq> 0) = b"
    using len_no_flag [OF assms] by (simp add: bit.conj_disj_distrib2)
qed

lemma serial_after_neq:
  assumes "1 \<le> n" "n \<le> 128"
  shows "serial_after n s \<noteq> s"
proof
  assume "serial_after n s = s"
  then have "unat (serial_after n s) = unat s" by simp
  with unat_serial_after [of n s] assms show False by (auto split: if_splits)
qed

lemma rx_next_frame:
  assumes ok: "rx_frame_ok f" and base: "have_baseline s"
  defines "n \<equiv> serial_after (fr_missed f + 1) (old_serial s)"
  shows "rx_next backlog_io s (rx_header f n # hs) =
    (\<lparr>rx_act = Rx_Deliver, rx_empty = False, rx_bad_data = False,
      rx_overruns = of_nat (fr_missed f), rx_size = fr_len f, rx_serial = n,
      rx_offset2 = fr_off2 f\<rparr>, s\<lparr>old_serial := n\<rparr>, rx_header f n # hs)"
proof -
  have len: "fr_len f \<le> 1518" "14 \<le> fr_len f" and g: "fr_missed f \<le> 127"
    using ok by (auto simp: rx_frame_ok_def)
  from len(2) have nz: "fr_len f \<noteq> 0" by auto
  have ne: "n \<noteq> old_serial s"
    unfolding n_def using g by (intro serial_after_neq) auto
  have gap: "rx_gap s n = (of_nat (fr_missed f), False)"
    using rx_gap_exact [OF base, of "fr_missed f + 1"] g by (simp add: n_def)
  have hi: "ucast (drop_bit 16 (rx_header f n)) AND NOT (0x8000 :: u16) = fr_len f"
    unfolding rx_header_def header_hi by (rule header_len(1) [OF len(1)])
  have lo: "ucast (rx_header f n) = n"
    unfolding rx_header_def by (rule header_lo)
  have flag: "(drop_bit 16 (rx_header f n) AND ucast (0x8000 :: u16) \<noteq> 0) = fr_off2 f"
  proof -
    have "(ucast (x :: u16) AND ucast (0x8000 :: u16) :: u32) = ucast (x AND 0x8000)" for x
      by (simp add: unsigned_and_eq)
    moreover have "(ucast (y :: u16) = (0 :: u32)) = (y = 0)" for y
      by (simp add: word_unat_eq_iff)
    ultimately show ?thesis
      using header_len(2) [OF len(1), of "fr_off2 f"] unfolding rx_header_def header_flag by simp
  qed
  show ?thesis
    using len nz ne base gap hi lo flag
    by (cases s) (simp add: rx_next_def backlog_io_def rx_repeat_stale_def Let_def not_less)
qed

lemma serial_after_add: "serial_after (m + n) s = serial_after m (serial_after n s)"
  by (simp add: serial_after_def funpow_add)

lemma rx_backlog_run:
  "list_all rx_frame_ok fs \<Longrightarrow> have_baseline s \<Longrightarrow>
     rx_drain_backlog s (rx_headers (old_serial s) fs) = (ds, s') \<Longrightarrow>
     list_all2 (\<lambda>f d. rx_act d = Rx_Deliver \<and> rx_size d = fr_len f \<and> rx_offset2 d = fr_off2 f \<and>
       unat (rx_overruns d) = fr_missed f \<and> \<not> rx_bad_data d) fs ds \<and>
     have_baseline s' \<and> old_serial s' = serial_after (sum_list (map fr_missed fs) + length fs) (old_serial s)"
proof (induction fs arbitrary: s ds)
  case Nil
  then show ?case by (simp add: serial_after_def)
next
  case (Cons f fs)
  define n where "n = serial_after (fr_missed f + 1) (old_serial s)"
  obtain es q where r: "rx_drain_backlog (s\<lparr>old_serial := n\<rparr>) (rx_headers n fs) = (es, q)"
    by fastforce
  have f: "rx_frame_ok f" using Cons.prems(1) by simp
  have "unat (of_nat (fr_missed f) :: u16) = fr_missed f"
    using f by (simp add: rx_frame_ok_def unat_of_nat)
  moreover have "ds = \<lparr>rx_act = Rx_Deliver, rx_empty = False, rx_bad_data = False,
      rx_overruns = of_nat (fr_missed f), rx_size = fr_len f, rx_serial = n,
      rx_offset2 = fr_off2 f\<rparr> # es" "s' = q"
    using Cons.prems(3) r rx_next_frame [OF f Cons.prems(2)]
    by (simp_all add: Let_def n_def)
  moreover have "have_baseline (s\<lparr>old_serial := n\<rparr>)" "list_all rx_frame_ok fs"
    using Cons.prems by simp_all
  ultimately show ?case
    using Cons.IH [of "s\<lparr>old_serial := n\<rparr>" es] r
    by (simp add: n_def serial_after_add [symmetric] add_ac)
qed

section \<open>Properties\<close>

text \<open>C10: Once a first frame has been seen, and on firmware whose serial counter skips 0 and 1 when it wraps
  (2.8 and later), a backlog of frames with plausible headers is delivered completely and in order: every frame with its
  length and alignment flag, and with exactly the number of frames the card lost before it (up to 127 in a row) reported as
  overruns, across any number of wraps of the 16-bit serial, with no frame reported as bad data. On older firmware, which
  numbers a frame 0 as well, the count at a wrap is wrong (lemma \<open>rx_gap_old_wrap\<close>).\<close>

theorem rx_backlog_exact:
  assumes "list_all rx_frame_ok fs" "have_baseline s"
    and "rx_drain_backlog s (rx_headers (old_serial s) fs) = (ds, s')"
  shows "map rx_act ds = replicate (length fs) Rx_Deliver \<and> map rx_size ds = map fr_len fs \<and>
     map rx_offset2 ds = map fr_off2 fs \<and> map (unat \<circ> rx_overruns) ds = map fr_missed fs \<and>
     list_all (\<lambda>d. \<not> rx_bad_data d) ds \<and>
     old_serial s' = serial_after (sum_list (map fr_missed fs) + length fs) (old_serial s)"
proof -
  from rx_backlog_run [OF assms] have
    l: "list_all2 (\<lambda>f d. rx_act d = Rx_Deliver \<and> rx_size d = fr_len f \<and> rx_offset2 d = fr_off2 f \<and>
       unat (rx_overruns d) = fr_missed f \<and> \<not> rx_bad_data d) fs ds"
    and o: "old_serial s' = serial_after (sum_list (map fr_missed fs) + length fs) (old_serial s)"
    by blast+
  from l have "map rx_act ds = replicate (length fs) Rx_Deliver \<and> map rx_size ds = map fr_len fs \<and>
     map rx_offset2 ds = map fr_off2 fs \<and> map (unat \<circ> rx_overruns) ds = map fr_missed fs \<and>
     list_all (\<lambda>d. \<not> rx_bad_data d) ds"
    by (induction rule: list_all2_induct) auto
  with o show ?thesis by blast
qed

theorem rx_backlog_exact_witness:
  "let fs = [\<lparr>fr_missed = 0, fr_len = 64, fr_off2 = True\<rparr>, \<lparr>fr_missed = 3, fr_len = 1518, fr_off2 = False\<rparr>];
       s = \<lparr>old_serial = 0xfffe, have_baseline = True, ready_valid = True\<rparr>
   in map (unat \<circ> rx_overruns) (fst (rx_drain_backlog s (rx_headers 0xfffe fs))) = [0, 3] \<and>
      old_serial (snd (rx_drain_backlog s (rx_headers 0xfffe fs))) = 5"
proof -
  define fs where "fs = [\<lparr>fr_missed = 0, fr_len = 64, fr_off2 = True\<rparr>,
    \<lparr>fr_missed = 3, fr_len = 1518, fr_off2 = False\<rparr>]"
  define s where "s = \<lparr>old_serial = 0xfffe, have_baseline = True, ready_valid = True\<rparr>"
  obtain ds s' where r: "rx_drain_backlog s (rx_headers (old_serial s) fs) = (ds, s')" by fastforce
  have "list_all rx_frame_ok fs" "have_baseline s"
    by (simp_all add: fs_def s_def rx_frame_ok_def)
  moreover have "serial_after 5 0xfffe = 5"
    by (simp add: word_unat_eq_iff unat_serial_after)
  ultimately show ?thesis
    using rx_backlog_exact [of fs s ds s'] r by (simp add: fs_def s_def)
qed

text \<open>the classification is safe for the card's slot protocol: a wait leaves the driver's
  state alone (the slot is not acknowledged); any other decision records the serial it
  acknowledges; only complete Ethernet frames are delivered, everything else of a bad size is
  dropped; and a header repeating the acknowledged serial is taken only when its serial is not
  0, the firmware reports waiting frames, and a second read returns the same header.\<close>

theorem rx_next_safe:
  assumes "rx_next io s w = (d, s', w')"
  shows "(rx_act d = Rx_Wait \<longrightarrow> s' = s \<and> rx_overruns d = 0 \<and> \<not> rx_bad_data d) \<and>
    (rx_act d \<noteq> Rx_Wait \<longrightarrow> s' = s\<lparr>old_serial := rx_serial d, have_baseline := True\<rparr> \<and>
       \<not> (rx_size d = 0 \<and> rx_serial d = 0)) \<and>
    (rx_act d \<noteq> Rx_Wait \<longrightarrow>
       (rx_act d = Rx_Deliver) = (RX_MIN_FRAME \<le> rx_size d \<and> rx_size d \<le> RX_MAX_FRAME)) \<and>
    unat (rx_overruns d) \<le> 127 \<and>
    (rx_act d \<noteq> Rx_Wait \<and> rx_serial d = old_serial s \<longrightarrow>
       rx_serial d \<noteq> 0 \<and> ready_valid s \<and>
       (\<exists>h w1 st w2. read_header io w = (h, w1) \<and> rx_status io w1 = (st, w2) \<and>
          st AND RX_STATUS_READY \<noteq> 0 \<and> read_header io w2 = (h, w')))"
proof -
  obtain h w1 where h: "read_header io w = (h, w1)" by fastforce
  obtain stale w2 where st: "rx_repeat_stale io s h (ucast h) w1 = (stale, w2)" by fastforce
  obtain m b where g: "rx_gap s (ucast h) = (m, b)" by fastforce
  have m: "unat m \<le> 127"
  proof (cases "m = 0")
    case False
    then have "m + 1 \<le> 128" "m + 1 \<noteq> 0"
      using g by (auto simp: rx_gap_def Let_def split: if_splits)
    then show ?thesis by unat_arith
  qed simp
  have rep: "rx_repeat_stale io s h (ucast h) w1 = (False, w2) \<Longrightarrow> ucast h = old_serial s \<Longrightarrow>
      (ucast h :: u16) \<noteq> 0 \<and> ready_valid s \<and>
      (\<exists>st w3. rx_status io w1 = (st, w3) \<and> st AND RX_STATUS_READY \<noteq> 0 \<and>
         read_header io w3 = (h, w2))"
    by (auto simp: rx_repeat_stale_def split: if_splits prod.splits)
  show ?thesis
  proof (cases "rx_act d = Rx_Wait")
    case True
    with assms h st g show ?thesis
      by (auto simp: rx_next_def Let_def split: if_splits)
  next
    case False
    with assms h st g have "\<not> stale" and w: "w' = w2" and d: "rx_serial d = ucast h"
      and s': "s' = s\<lparr>old_serial := rx_serial d, have_baseline := True\<rparr>"
      and z: "\<not> (rx_size d = 0 \<and> rx_serial d = 0)"
      and act: "(rx_act d = Rx_Deliver) = (RX_MIN_FRAME \<le> rx_size d \<and> rx_size d \<le> RX_MAX_FRAME)"
      and ov: "rx_overruns d = m \<or> rx_overruns d = 0"
      by (auto simp: rx_next_def Let_def not_less split: if_splits)
    moreover from ov m have "unat (rx_overruns d) \<le> 127" by auto
    ultimately show ?thesis using False rep st h by auto
  qed
qed

theorem rx_next_safe_witness:
  "let h = push_bit 16 (64 :: u32) OR 7;
       s = \<lparr>old_serial = 7, have_baseline = True, ready_valid = True\<rparr>
   in rx_act (fst (rx_next backlog_io s [h])) = Rx_Deliver \<and>
      fst (snd (rx_next backlog_io s [h])) = s \<and>
      rx_act (fst (rx_next backlog_io s [])) = Rx_Wait"
proof -
  define s where "s = \<lparr>old_serial = 7, have_baseline = True, ready_valid = True\<rparr>"
  define h where "h = push_bit 16 (64 :: u32) OR 7"
  have e: "rx_act (fst (rx_next backlog_io s [h])) = Rx_Deliver"
    "rx_serial (fst (rx_next backlog_io s [h])) = 7"
    "rx_act (fst (rx_next backlog_io s [])) = Rx_Wait"
    unfolding s_def h_def by code_simp+
  obtain d s' w' where r: "rx_next backlog_io s [h] = (d, s', w')" by (metis prod_cases3)
  from rx_next_safe [OF r] e r have "s' = s" by (simp add: s_def)
  with r e show ?thesis unfolding Let_def s_def [symmetric] h_def [symmetric] by simp
qed

text \<open>The priority the framer runs at after a sequence of drain calls.\<close>

definition apply_pri :: "int \<Rightarrow> int \<Rightarrow> int" where
  "apply_pri old new = (if new = RX_PRI_KEEP then old else new)"

fun rx_drain_frames :: "nat \<Rightarrow> int \<times> rx_drain \<Rightarrow> int \<times> rx_drain" where
  "rx_drain_frames 0 pd = pd"
| "rx_drain_frames (Suc n) pd =
     (case rx_drain_frames n pd of (p, dr) \<Rightarrow>
        case rx_drain_frame dr of (q, dr') \<Rightarrow> (apply_pri p q, dr'))"

lemma drain_frames_state:
  "drain_left dr = RX_DRAIN_BUDGET \<Longrightarrow> \<not> drain_lowered dr \<Longrightarrow>
     rx_drain_frames n (FRAMER_PRI, dr) =
       (if odd (n div 64) then FRAMER_YIELD_PRI else FRAMER_PRI,
        dr\<lparr>drain_left := of_nat (64 - n mod 64), drain_lowered := odd (n div 64)\<rparr>)"
proof (induction n)
  case 0
  then show ?case by (cases dr) simp
next
  case (Suc n)
  have left: "(of_nat (64 - n mod 64) :: u16) - 1 = of_nat (63 - n mod 64)"
    by (simp add: of_nat_diff Suc_leI less_imp_le)
  have z: "((of_nat (63 - n mod 64) :: u16) = 0) = (n mod 64 = 63)"
  proof -
    have k: "unat (of_nat k :: u16) = k" if "k < 64" for k
      using that by (simp add: unat_of_nat)
    have "unat (of_nat (63 - n mod 64) :: u16) = 63 - n mod 64" by (rule k) simp
    moreover have "n mod 64 < 64" by simp
    ultimately show ?thesis by (simp only: word_unat_eq_iff) auto
  qed
  have "rx_drain_frames (Suc n) (FRAMER_PRI, dr) =
     (case rx_drain_frame (dr\<lparr>drain_left := of_nat (64 - n mod 64), drain_lowered := odd (n div 64)\<rparr>)
      of (q, dr') \<Rightarrow> (apply_pri (if odd (n div 64) then FRAMER_YIELD_PRI else FRAMER_PRI) q, dr'))"
    by (simp only: rx_drain_frames.simps Suc.IH [OF Suc.prems] prod.case)
  also have "\<dots> = (if n mod 64 = 63
      then (if odd (n div 64) then FRAMER_PRI else FRAMER_YIELD_PRI,
            dr\<lparr>drain_left := 64, drain_lowered := even (n div 64)\<rparr>)
      else (if odd (n div 64) then FRAMER_YIELD_PRI else FRAMER_PRI,
            dr\<lparr>drain_left := of_nat (63 - n mod 64), drain_lowered := odd (n div 64)\<rparr>))"
    using left z by (cases "n mod 64 = 63"; cases "odd (n div 64)")
      (simp_all add: rx_drain_frame_def Let_def apply_pri_def del: of_nat_diff)
  also have "\<dots> = (if odd (Suc n div 64) then FRAMER_YIELD_PRI else FRAMER_PRI,
      dr\<lparr>drain_left := of_nat (64 - Suc n mod 64), drain_lowered := odd (Suc n div 64)\<rparr>)"
  proof (cases "n mod 64 = 63")
    case True
    then have "Suc n div 64 = Suc (n div 64)" "Suc n mod 64 = 0"
      by (simp_all add: div_Suc mod_Suc)
    then show ?thesis by (simp only: True) simp
  next
    case False
    then have "Suc n div 64 = n div 64" "Suc n mod 64 = Suc (n mod 64)"
      by (simp_all add: div_Suc mod_Suc)
    moreover have "63 - n mod 64 = 64 - Suc (n mod 64)" by simp
    ultimately show ?thesis using False by (simp only: if_False)
  qed
  finally show ?case .
qed

text \<open>the framer cannot starve the machine: after waking at its own priority it handles 64
  frames there, then 64 frames at the yielding priority, and so on; the priority is restored
  by the reset before every sleep, whatever the state of the budget.\<close>

theorem rx_drain_alternates:
  "(drain_left dr = RX_DRAIN_BUDGET \<and> \<not> drain_lowered dr \<longrightarrow>
     fst (rx_drain_frames n (FRAMER_PRI, dr)) =
       (if odd (n div 64) then FRAMER_YIELD_PRI else FRAMER_PRI) \<and>
     (case rx_drain_frames n (FRAMER_PRI, dr) of (p, dr') \<Rightarrow>
        apply_pri p (fst (rx_drain_reset dr')) = FRAMER_PRI)) \<and>
   drain_left (snd (rx_drain_reset dr)) = RX_DRAIN_BUDGET \<and> \<not> drain_lowered (snd (rx_drain_reset dr))"
  using drain_frames_state [of dr n] by (auto simp: rx_drain_reset_def apply_pri_def)

theorem rx_drain_alternates_witness:
  "fst (rx_drain_frames 100 (FRAMER_PRI, \<lparr>drain_left = 64, drain_lowered = False\<rparr>)) = 0"
  using rx_drain_alternates [of "\<lparr>drain_left = 64, drain_lowered = False\<rparr>" 100] by simp

section \<open>Firmware before 2.8\<close>

text \<open>
  Older firmware wraps its serial through 0, but the discount of the two skipped serials is
  applied on every wrap: the frame after serial \<open>0xffff\<close> arrives without a gap and is counted
  as bad data (it is still delivered).
\<close>

lemma rx_gap_old_wrap:
  "have_baseline s \<Longrightarrow> old_serial s = 0xffff \<Longrightarrow> rx_gap s 0 = (0, True) \<and> rx_gap s 1 = (0, False)"
proof -
  assume s: "have_baseline s" "old_serial s = 0xffff"
  then have "rx_gap s n = rx_gap \<lparr>old_serial = 0xffff, have_baseline = True, ready_valid = False\<rparr> n"
    for n by (simp add: rx_gap_def)
  moreover have
    "rx_gap \<lparr>old_serial = 0xffff, have_baseline = True, ready_valid = False\<rparr> 0 = (0, True)"
    "rx_gap \<lparr>old_serial = 0xffff, have_baseline = True, ready_valid = False\<rparr> 1 = (0, False)"
    by code_simp+
  ultimately show ?thesis by simp
qed

end
