(* ===== verification/NetTx.thy ===== *)
theory NetTx
  imports Prelude
begin

text \<open>
  Asynchronous transmit slots of the network driver (\<^verbatim>\<open>net/tx.c\<close>): four slots that the card
  retires in order and reports through a 15-bit running count. The theory also states what the
  driver relies on as a small transition system (driver, card and status reads in any order) and
  proves that a slot handed out is never one the card's DMA may still read.
\<close>

section \<open>Slot accounting\<close>

abbreviation "TX_ASYNC \<equiv> (0x8000 :: u16)"
abbreviation "TX_LEN_MASK \<equiv> (0x07ff :: u16)"
abbreviation "TX_SLOTS \<equiv> (4 :: u8)"
abbreviation "TX_STATUS_PRESENT \<equiv> (0x8000 :: u16)"
abbreviation "TX_STATUS_COUNT \<equiv> (0x7fff :: u16)"

record tx_state =
  tx_done :: u16
  tx_next :: u8
  tx_inuse :: u8

definition tx_reset :: "u16 \<Rightarrow> bool \<times> tx_state" where
  "tx_reset status =
     (status AND TX_STATUS_PRESENT \<noteq> 0,
      \<lparr>tx_done = status AND TX_STATUS_COUNT, tx_next = 0, tx_inuse = 0\<rparr>)"

definition tx_reclaim :: "u16 \<Rightarrow> tx_state \<Rightarrow> u16 \<times> tx_state" where
  "tx_reclaim status s =
     (let now = status AND TX_STATUS_COUNT;
          n = (now - tx_done s) AND TX_STATUS_COUNT;
          s1 = s\<lparr>tx_done := now\<rparr>
      in if tx_inuse s1 = 0 then (0, s1)
         else let n' = (if n > ucast (tx_inuse s1) then ucast (tx_inuse s1) else n)
              in (n', s1\<lparr>tx_inuse := ucast (ucast (tx_inuse s1) - n')\<rparr>))"

definition tx_slot :: "tx_state \<Rightarrow> int" where
  "tx_slot s = (if tx_inuse s \<ge> TX_SLOTS then - 1 else uint (tx_next s AND (TX_SLOTS - 1)))"

definition tx_word :: "int \<Rightarrow> u16 \<Rightarrow> u16" where
  "tx_word slot len =
     ucast (ucast TX_ASYNC OR push_bit 11 (word_of_int slot :: u32) OR ucast (len AND TX_LEN_MASK))"

definition tx_submitted :: "tx_state \<Rightarrow> tx_state" where
  "tx_submitted s = s\<lparr>tx_next := tx_next s + 1, tx_inuse := tx_inuse s + 1\<rparr>"

text \<open>The loop of \<^verbatim>\<open>zznet_tx_drain\<close>; its bound \<open>max_reads\<close> is the recursion's.\<close>

fun tx_drain_loop :: "('w \<Rightarrow> u16 \<times> 'w) \<Rightarrow> nat \<Rightarrow> tx_state \<Rightarrow> 'w \<Rightarrow> tx_state \<times> 'w" where
  "tx_drain_loop read_status 0 s w = (s, w)"
| "tx_drain_loop read_status (Suc k) s w =
     (if tx_inuse s = 0 then (s, w)
      else case read_status w of (st, w1) \<Rightarrow>
        tx_drain_loop read_status k (snd (tx_reclaim st s)) w1)"

definition tx_drain :: "('w \<Rightarrow> u16 \<times> 'w) \<Rightarrow> nat \<Rightarrow> tx_state \<Rightarrow> 'w \<Rightarrow> bool \<times> tx_state \<times> 'w" where
  "tx_drain read_status max_reads s w =
     (case tx_drain_loop read_status max_reads s w of (s1, w1) \<Rightarrow> (tx_inuse s1 = 0, s1, w1))"

section \<open>The card\<close>

text \<open>
  What the card promises (\<^verbatim>\<open>net/tx.h\<close>): it retires submissions in order, and the low 15 bits of
  the status are the number retired so far. \<open>submitted\<close> and \<open>retired\<close> are the true numbers;
  submission \<open>i\<close> sits in slot \<open>i mod 4\<close>, and the card may read slots of the submissions
  \<open>retired \<le> i < submitted\<close>.
\<close>

record tx_system =
  driver :: tx_state
  submitted :: nat
  retired :: nat

datatype tx_event = Tx_Send | Tx_Retire | Tx_Poll

definition tx_status :: "nat \<Rightarrow> u16" where
  "tx_status r = TX_STATUS_PRESENT OR of_nat (r mod 2 ^ 15)"

definition tx_step :: "tx_event \<Rightarrow> tx_system \<Rightarrow> tx_system" where
  "tx_step e y = (case e of
     Tx_Send \<Rightarrow> (if tx_slot (driver y) < 0 then y
       else y\<lparr>driver := tx_submitted (driver y), submitted := submitted y + 1\<rparr>)
   | Tx_Retire \<Rightarrow> (if retired y < submitted y then y\<lparr>retired := retired y + 1\<rparr> else y)
   | Tx_Poll \<Rightarrow> y\<lparr>driver := snd (tx_reclaim (tx_status (retired y)) (driver y))\<rparr>)"

definition tx_boot :: tx_system where
  "tx_boot = \<lparr>driver = snd (tx_reset (tx_status 0)), submitted = 0, retired = 0\<rparr>"

text \<open>\<open>polled\<close> is the retired count at the last status read.\<close>

definition tx_inv :: "tx_system \<Rightarrow> bool" where
  "tx_inv y \<longleftrightarrow> (\<exists>polled. polled \<le> retired y \<and> retired y \<le> submitted y \<and>
     submitted y - polled \<le> 4 \<and> unat (tx_inuse (driver y)) = submitted y - polled \<and>
     unat (tx_done (driver y)) = polled mod 2 ^ 15 \<and>
     unat (tx_next (driver y)) = submitted y mod 256)"

lemma status_count: "unat (tx_status r AND TX_STATUS_COUNT) = r mod 2 ^ 15"
proof -
  have "tx_status r AND TX_STATUS_COUNT = of_nat (r mod 2 ^ 15) AND mask 15"
    by (simp add: tx_status_def bit.conj_disj_distrib2 mask_eq_exp_minus_1)
  also have "\<dots> = (of_nat (r mod 2 ^ 15) :: u16)"
  proof (rule less_mask_eq)
    have "unat (of_nat (r mod 2 ^ 15) :: u16) = r mod 2 ^ 15"
      by (simp add: unat_of_nat mod_mod_cancel)
    then show "(of_nat (r mod 2 ^ 15) :: u16) < 2 ^ 15"
      by (simp add: word_less_nat_alt)
  qed
  finally show ?thesis by (simp add: unat_of_nat)
qed

lemma count_diff:
  fixes a b :: u16
  assumes "unat a = q mod 2 ^ 15" "unat b = p mod 2 ^ 15" "p \<le> q" "q - p < 2 ^ 15"
  shows "unat ((a - b) AND TX_STATUS_COUNT) = q - p"
proof -
  have u: "uint a = int q mod 2 ^ 15" "uint b = int p mod 2 ^ 15"
    using assms(1,2) by (simp_all add: uint_nat zmod_int)
  have "(a - b) AND TX_STATUS_COUNT = take_bit 15 (a - b)"
    by (simp add: take_bit_eq_mask mask_eq_exp_minus_1)
  then have "uint ((a - b) AND TX_STATUS_COUNT) = take_bit 15 (uint (a - b))"
    by (simp only: unsigned_take_bit_eq)
  also have "\<dots> = (uint a - uint b) mod 2 ^ 16 mod 2 ^ 15"
    by (simp add: uint_word_ariths take_bit_eq_mod)
  also have "\<dots> = (uint a - uint b) mod 2 ^ 15"
    by (rule mod_mod_cancel) simp
  also have "\<dots> = (int q - int p) mod 2 ^ 15"
    unfolding u by (rule mod_diff_eq)
  also have "\<dots> = int (q - p) mod 2 ^ 15"
    using assms(3) by (simp only: of_nat_diff)
  also have "\<dots> = int (q - p)"
  proof -
    have "int (q - p) mod 2 ^ 15 = int ((q - p) mod 2 ^ 15)"
      by (simp only: zmod_int of_nat_power of_nat_numeral)
    also have "(q - p) mod 2 ^ 15 = q - p" using assms(4) by (rule mod_less)
    finally show ?thesis .
  qed
  finally have "int (unat ((a - b) AND TX_STATUS_COUNT)) = int (q - p)"
    by (simp only: uint_nat)
  then show ?thesis by (simp only: of_nat_eq_iff)
qed

lemma reclaim_exact:
  assumes d: "unat (tx_done s) = p mod 2 ^ 15" and i: "unat (tx_inuse s) = n"
    and r: "p \<le> r" "r - p \<le> n" "n \<le> 4"
  shows "tx_reclaim (tx_status r) s =
    (of_nat (r - p), s\<lparr>tx_done := tx_status r AND TX_STATUS_COUNT, tx_inuse := of_nat (n - (r - p))\<rparr>)"
proof -
  let ?now = "tx_status r AND TX_STATUS_COUNT"
  have u: "unat ((?now - tx_done s) AND TX_STATUS_COUNT) = r - p"
    using r by (intro count_diff status_count d) auto
  have sm: "unat (of_nat k :: u16) = k" "unat (of_nat k :: u8) = k" if "k \<le> 4" for k
    using that by (simp_all add: unat_of_nat)
  have e: "(?now - tx_done s) AND TX_STATUS_COUNT = of_nat (r - p)"
    unfolding word_unat_eq_iff using u r sm(1) [of "r - p"] by simp
  have c: "(ucast (tx_inuse s) :: u16) = of_nat n"
    unfolding word_unat_eq_iff using i r sm(1) [of n] by simp
  show ?thesis
  proof (cases "n = 0")
    case True
    with i r show ?thesis by (simp add: tx_reclaim_def Let_def unat_eq_0)
  next
    case False
    then have "tx_inuse s \<noteq> 0" using i by auto
    moreover have "\<not> of_nat (r - p) > (of_nat n :: u16)"
      unfolding word_less_nat_alt using r sm(1) [of n] sm(1) [of "r - p"] by simp
    moreover have "(of_nat n :: u16) - of_nat (r - p) = of_nat (n - (r - p))"
      using r(2) by (rule of_nat_diff [symmetric])
    moreover have "ucast (of_nat (n - (r - p)) :: u16) = (of_nat (n - (r - p)) :: u8)"
      unfolding word_unat_eq_iff using r sm [of "n - (r - p)"]
      by (simp add: unat_ucast_down del: of_nat_diff)
    ultimately show ?thesis
      unfolding tx_reclaim_def Let_def e by (simp add: c del: of_nat_diff)
  qed
qed

section \<open>Safety of the hand-over\<close>

lemma tx_slot_nonneg: "tx_slot s \<ge> 0 \<longleftrightarrow> unat (tx_inuse s) < 4"
  by (simp add: tx_slot_def not_le word_less_nat_alt word_le_nat_alt)

lemma tx_slot_mod:
  assumes "unat (tx_next s) = n mod 256" "tx_slot s \<ge> 0"
  shows "tx_slot s = int (n mod 4)"
proof -
  have "tx_next s AND 3 = take_bit 2 (tx_next s)"
    by (simp add: take_bit_eq_mask mask_eq_exp_minus_1)
  then have "unat (tx_next s AND 3) = take_bit 2 (unat (tx_next s))"
    by (simp only: unsigned_take_bit_eq)
  also have "\<dots> = n mod 256 mod 4" by (simp add: assms(1) take_bit_eq_mod)
  also have "\<dots> = n mod 4" by (simp add: mod_mod_cancel)
  finally show ?thesis using assms(2) by (auto simp: tx_slot_def uint_nat split: if_splits)
qed

lemma tx_inv_boot: "tx_inv tx_boot"
  unfolding tx_inv_def tx_boot_def tx_reset_def
  by (rule exI [of _ 0]) (simp add: tx_status_def)

lemma tx_inv_step: "tx_inv y \<Longrightarrow> tx_inv (tx_step e y)"
proof (cases e)
  case Tx_Send
  assume "tx_inv y"
  then obtain p where p: "p \<le> retired y" "retired y \<le> submitted y" "submitted y - p \<le> 4"
      "unat (tx_inuse (driver y)) = submitted y - p" "unat (tx_done (driver y)) = p mod 2 ^ 15"
      "unat (tx_next (driver y)) = submitted y mod 256"
    unfolding tx_inv_def by blast
  show ?thesis
  proof (cases "tx_slot (driver y) < 0")
    case True
    with Tx_Send \<open>tx_inv y\<close> show ?thesis by (simp add: tx_step_def)
  next
    case False
    then have i: "unat (tx_inuse (driver y)) < 4" by (simp flip: tx_slot_nonneg)
    then have "unat (tx_inuse (driver y) + 1) = Suc (submitted y) - p"
      using p by (simp add: unat_plus_nowrap)
    moreover have "unat (tx_next (driver y) + 1) = Suc (submitted y) mod 256"
      using p(6) by (simp add: unat_word_ariths mod_simps)
    ultimately show ?thesis
      using False Tx_Send p i unfolding tx_inv_def
      by (intro exI [of _ p]) (simp add: tx_step_def tx_submitted_def add.commute)
  qed
next
  case Tx_Retire
  assume "tx_inv y"
  then obtain p where "p \<le> retired y" "retired y \<le> submitted y" "submitted y - p \<le> 4"
      "unat (tx_inuse (driver y)) = submitted y - p" "unat (tx_done (driver y)) = p mod 2 ^ 15"
      "unat (tx_next (driver y)) = submitted y mod 256"
    unfolding tx_inv_def by blast
  with Tx_Retire show ?thesis unfolding tx_inv_def
    by (intro exI [of _ p]) (simp add: tx_step_def)
next
  case Tx_Poll
  assume "tx_inv y"
  then obtain p where p: "p \<le> retired y" "retired y \<le> submitted y" "submitted y - p \<le> 4"
      "unat (tx_inuse (driver y)) = submitted y - p" "unat (tx_done (driver y)) = p mod 2 ^ 15"
      "unat (tx_next (driver y)) = submitted y mod 256"
    unfolding tx_inv_def by blast
  have "submitted y - p - (retired y - p) = submitted y - retired y" using p by simp
  moreover have "unat (of_nat (submitted y - retired y) :: u8) = submitted y - retired y"
    using p by (simp add: unat_of_nat del: of_nat_diff)
  ultimately show ?thesis
    using reclaim_exact [OF p(5,4,1) _ p(3)] p Tx_Poll status_count [of "retired y"]
    unfolding tx_inv_def
    by (intro exI [of _ "retired y"]) (simp add: tx_step_def del: of_nat_diff)
qed

interpretation tx_machine: invariant_machine tx_step tx_inv
  by unfold_locales (rule tx_inv_step)

lemma window_distinct: "(i :: nat) mod 4 = n mod 4 \<Longrightarrow> i < n \<Longrightarrow> n - i < 4 \<Longrightarrow> False"
  by (metis mod_eq_dvd_iff_nat dvd_imp_le not_le less_imp_le zero_less_diff)

lemma tx_outstanding:
  assumes "tx_inv y"
  shows "submitted y - retired y \<le> unat (tx_inuse (driver y))"
    "unat (tx_inuse (driver y)) \<le> 4" "retired y \<le> submitted y"
  using assms unfolding tx_inv_def by auto

text \<open>C11: the asynchronous transmit ring is safe under every interleaving of sends, retirements by
  the card and status reads: at most four frames are outstanding, the driver never believes
  fewer are outstanding than the card still owns, the slot it hands out is never one that the
  card may still read, and a status read makes its count exact, across the wraps of the 8-bit
  submission counter and of the 15-bit retired count.\<close>

theorem tx_slot_never_owned:
  "let y = fold tx_step es tx_boot; z = tx_step Tx_Poll y in
     submitted y - retired y \<le> unat (tx_inuse (driver y)) \<and> unat (tx_inuse (driver y)) \<le> 4 \<and>
     (tx_slot (driver y) < 0 \<or>
        (\<forall>i. retired y \<le> i \<and> i < submitted y \<longrightarrow> int (i mod 4) \<noteq> tx_slot (driver y))) \<and>
     unat (tx_inuse (driver z)) = submitted y - retired y"
proof -
  define y where "y = fold tx_step es tx_boot"
  have inv: "tx_inv y" unfolding y_def by (intro tx_machine.run_inv tx_inv_boot)
  then obtain p where p: "p \<le> retired y" "retired y \<le> submitted y" "submitted y - p \<le> 4"
      "unat (tx_inuse (driver y)) = submitted y - p" "unat (tx_done (driver y)) = p mod 2 ^ 15"
      "unat (tx_next (driver y)) = submitted y mod 256"
    unfolding tx_inv_def by blast
  have "int (i mod 4) \<noteq> tx_slot (driver y)"
    if "tx_slot (driver y) \<ge> 0" "retired y \<le> i" "i < submitted y" for i
  proof
    assume "int (i mod 4) = tx_slot (driver y)"
    with tx_slot_mod [OF p(6) that(1)] have "i mod 4 = submitted y mod 4" by simp
    moreover have "submitted y - i < 4"
      using that p by (simp add: tx_slot_nonneg)
    ultimately show False using that(3) window_distinct by blast
  qed
  moreover have "unat (tx_inuse (driver (tx_step Tx_Poll y))) = submitted y - retired y"
  proof -
    have "submitted y - p - (retired y - p) = submitted y - retired y" using p by simp
    moreover have "unat (of_nat (submitted y - retired y) :: u8) = submitted y - retired y"
      using p by (simp add: unat_of_nat del: of_nat_diff)
    ultimately show ?thesis
      using reclaim_exact [OF p(5,4,1) _ p(3)] p by (simp add: tx_step_def del: of_nat_diff)
  qed
  ultimately show ?thesis
    using tx_outstanding [OF inv] by (auto simp: Let_def not_less simp flip: y_def)
qed

theorem tx_slot_never_owned_witness:
  "tx_slot (driver (fold tx_step [Tx_Send, Tx_Send, Tx_Send, Tx_Send, Tx_Retire] tx_boot)) = - 1 \<and>
   unat (tx_inuse (driver (tx_step Tx_Poll
     (fold tx_step [Tx_Send, Tx_Send, Tx_Send, Tx_Send, Tx_Retire] tx_boot)))) = 3"
proof -
  define es where "es = [Tx_Send, Tx_Send, Tx_Send, Tx_Send, Tx_Retire]"
  have "submitted (fold tx_step es tx_boot) = 4" "retired (fold tx_step es tx_boot) = 1"
    "tx_slot (driver (fold tx_step es tx_boot)) = - 1"
    unfolding es_def
    by (simp_all add: tx_step_def tx_boot_def tx_reset_def tx_slot_def tx_submitted_def tx_status_def
        word_le_nat_alt)
  moreover have "unat (tx_inuse (driver (tx_step Tx_Poll (fold tx_step es tx_boot)))) =
      submitted (fold tx_step es tx_boot) - retired (fold tx_step es tx_boot)"
    using tx_slot_never_owned [of es] unfolding Let_def by blast
  ultimately show ?thesis unfolding es_def [symmetric] by simp
qed

end
