(* ===== verification/NetMcast.thy ===== *)
theory NetMcast
  imports Prelude
begin

text \<open>
  Multicast membership of the network driver (\<^verbatim>\<open>net/mcast.c\<close>): a reference-counted table of 32
  exact addresses, kept in step with the 64-bucket hash filter of the Ethernet controller. The
  register window \<^verbatim>\<open>struct zznet_mcast_io\<close> is a pair of functions on an abstract world.
\<close>

section \<open>Addresses\<close>

abbreviation "MCAST_MAX \<equiv> (32 :: nat)"
abbreviation "MCAST_ADDR_LEN \<equiv> (6 :: nat)"
abbreviation "HASH_SET \<equiv> (0x8000 :: u16)"
abbreviation "HASH_CLEAR \<equiv> (0x4000 :: u16)"
abbreviation "HASH_RESET \<equiv> (0x2000 :: u16)"
abbreviation "S2ERR_NO_RESOURCES \<equiv> (1 :: int)"
abbreviation "S2ERR_BAD_STATE \<equiv> (4 :: int)"
abbreviation "S2ERR_NOT_SUPPORTED \<equiv> (8 :: int)"

text \<open>The bytes are promoted to \<^verbatim>\<open>int\<close>, the result is truncated to 16 bits.\<close>

definition mcast_hash :: "bytes \<Rightarrow> u16" where
  "mcast_hash a =
     (let b = (\<lambda>i. ucast (a ! i) :: u32)
      in ucast ((b 0 AND 0x3f) XOR
                (drop_bit 6 (b 0) OR push_bit 2 (b 1 AND 0x0f)) XOR
                (drop_bit 4 (b 1) OR push_bit 4 (b 2 AND 0x03)) XOR
                drop_bit 2 (b 2) XOR
                (b 3 AND 0x3f) XOR
                (drop_bit 6 (b 3) OR push_bit 2 (b 4 AND 0x0f)) XOR
                (drop_bit 4 (b 4) OR push_bit 4 (b 5 AND 0x03)) XOR
                drop_bit 2 (b 5)))"

definition mcast_send_ok :: "bytes \<Rightarrow> bool" where
  "mcast_send_ok dst = (dst ! 0 AND 1 \<noteq> 0)"

definition mcast_is_broadcast :: "bytes \<Rightarrow> bool" where
  "mcast_is_broadcast dst = list_all (\<lambda>i. dst ! i = 0xff) [0..<MCAST_ADDR_LEN]"

definition mcast_rx_flags :: "bytes \<Rightarrow> u32" where
  "mcast_rx_flags dst =
     (if mcast_is_broadcast dst then push_bit 6 1
      else if dst ! 0 AND 1 \<noteq> 0 then push_bit 5 1 else 0)"

definition mcast_membership_required :: "bytes \<Rightarrow> bool" where
  "mcast_membership_required dst =
     (if dst ! 0 AND 1 = 0 then False else \<not> mcast_is_broadcast dst)"

definition mcast_same :: "bytes \<Rightarrow> bytes \<Rightarrow> bool" where
  "mcast_same a b = (take MCAST_ADDR_LEN a = take MCAST_ADDR_LEN b)"

section \<open>The table\<close>

record mcast_entry =
  mc_addr :: bytes
  mc_refs :: u16

record mcast =
  mc_entries :: "mcast_entry list"
  mc_count :: u16

record 'w mcast_io =
  mc_capable :: "'w \<Rightarrow> bool \<times> 'w"
  mc_command :: "u16 \<Rightarrow> 'w \<Rightarrow> 'w"

record rx_plan =
  select_reader :: bool
  count_unknown :: bool

definition mcast_is_member :: "mcast \<Rightarrow> bytes \<Rightarrow> bool" where
  "mcast_is_member m dst =
     list_ex (\<lambda>e. mc_refs e \<noteq> 0 \<and> mcast_same (mc_addr e) dst) (mc_entries m)"

definition mcast_rx_plan :: "mcast option \<Rightarrow> bytes \<Rightarrow> rx_plan" where
  "mcast_rx_plan mp dst =
     (let plan = \<lparr>select_reader = True, count_unknown = False\<rparr>
      in if \<not> mcast_membership_required dst then plan
         else case mp of
           Some m \<Rightarrow> if mcast_is_member m dst then plan else plan\<lparr>select_reader := False\<rparr>
         | None \<Rightarrow> plan\<lparr>select_reader := False\<rparr>)"

definition mcast_bucket_used :: "mcast \<Rightarrow> u16 \<Rightarrow> bool" where
  "mcast_bucket_used m bucket =
     list_ex (\<lambda>e. mc_refs e \<noteq> 0 \<and> mcast_hash (mc_addr e) = bucket) (mc_entries m)"

text \<open>The search loop of the update: the first free entry passed, and the entry of the address.\<close>

fun mcast_scan :: "mcast_entry list \<Rightarrow> bytes \<Rightarrow> nat \<Rightarrow> nat option \<Rightarrow> nat option \<times> nat option" where
  "mcast_scan [] a i fr = (fr, None)"
| "mcast_scan (e # es) a i fr =
     (if mc_refs e = 0 then mcast_scan es a (i + 1) (if fr = None then Some i else fr)
      else if mcast_same (mc_addr e) a then (fr, Some i)
      else mcast_scan es a (i + 1) fr)"

definition mcast_join :: "'w mcast_io \<Rightarrow> bytes \<Rightarrow> nat option \<Rightarrow> nat option \<Rightarrow> mcast \<Rightarrow> 'w \<Rightarrow>
    int \<times> mcast \<times> 'w" where
  "mcast_join io addr fr slot m w =
     (case slot of
        Some i \<Rightarrow> (let e = mc_entries m ! i in
          if mc_refs e = 0xffff then (S2ERR_NO_RESOURCES, m, w)
          else (0, m\<lparr>mc_entries := (mc_entries m)[i := e\<lparr>mc_refs := mc_refs e + 1\<rparr>]\<rparr>, w))
      | None \<Rightarrow> (case fr of
          None \<Rightarrow> (S2ERR_NO_RESOURCES, m, w)
        | Some j \<Rightarrow>
            (case (if mc_count m = 0 then mc_capable io w else (True, w)) of (ok, w1) \<Rightarrow>
               if \<not> ok then (S2ERR_NOT_SUPPORTED, m, w1)
               else let bucket = mcast_hash addr;
                        bucket_used = mcast_bucket_used m bucket;
                        m1 = m\<lparr>mc_entries := (mc_entries m)
                                 [j := \<lparr>mc_addr = take MCAST_ADDR_LEN addr, mc_refs = 1\<rparr>],
                               mc_count := mc_count m + 1\<rparr>
                    in (0, m1, if bucket_used then w1 else mc_command io (HASH_SET OR bucket) w1))))"

definition mcast_leave :: "'w mcast_io \<Rightarrow> nat option \<Rightarrow> mcast \<Rightarrow> 'w \<Rightarrow> int \<times> mcast \<times> 'w" where
  "mcast_leave io slot m w =
     (case slot of
        None \<Rightarrow> (S2ERR_BAD_STATE, m, w)
      | Some i \<Rightarrow> (let e = mc_entries m ! i; refs = mc_refs e - 1 in
          if refs \<noteq> 0 then
            (0, m\<lparr>mc_entries := (mc_entries m)[i := e\<lparr>mc_refs := refs\<rparr>]\<rparr>, w)
          else
            let bucket = mcast_hash (mc_addr e);
                m1 = m\<lparr>mc_entries := (mc_entries m)
                         [i := \<lparr>mc_addr = replicate MCAST_ADDR_LEN 0, mc_refs = 0\<rparr>],
                       mc_count := mc_count m - 1\<rparr>
            in (0, m1, if mcast_bucket_used m1 bucket then w
                       else mc_command io (HASH_CLEAR OR bucket) w)))"

definition mcast_update ::
    "'w mcast_io \<Rightarrow> bytes \<Rightarrow> bool \<Rightarrow> mcast \<Rightarrow> 'w \<Rightarrow> int \<times> mcast \<times> 'w" where
  "mcast_update io addr add m w =
     (case mcast_scan (mc_entries m) addr 0 None of (fr, slot) \<Rightarrow>
        if add then mcast_join io addr fr slot m w else mcast_leave io slot m w)"

definition mcast_empty :: mcast where
  "mcast_empty =
     \<lparr>mc_entries = replicate MCAST_MAX \<lparr>mc_addr = replicate MCAST_ADDR_LEN 0, mc_refs = 0\<rparr>, mc_count = 0\<rparr>"

definition mcast_reset :: "'w mcast_io \<Rightarrow> 'w \<Rightarrow> mcast \<times> 'w" where
  "mcast_reset io w =
     (case mc_capable io w of (ok, w1) \<Rightarrow>
        (mcast_empty, if ok then mc_command io HASH_RESET w1 else w1))"

end
