(* ===== verification/NetMcast_Correct.thy ===== *)
theory NetMcast_Correct
  imports NetMcast
begin

text \<open>
  The membership table refines a multiset of joins, and the filter of a card with the hash
  capability is always the image of the members under the hash.
\<close>

section \<open>The card's filter\<close>

text \<open>The firmware contract of \<^verbatim>\<open>net/mcast.h\<close>: the set of programmed buckets.\<close>

definition filter_command :: "u16 \<Rightarrow> u16 set \<Rightarrow> u16 set" where
  "filter_command c F =
     (if c AND HASH_SET \<noteq> 0 then insert (c AND 63) F
      else if c AND HASH_CLEAR \<noteq> 0 then F - {c AND 63}
      else if c AND HASH_RESET \<noteq> 0 then {} else F)"

definition filter_io :: "u16 set mcast_io" where
  "filter_io = \<lparr>mc_capable = (\<lambda>F. (True, F)), mc_command = filter_command\<rparr>"

lemma low_bits:
  fixes x :: u32 and b :: u8
  shows "bit (x AND 0x3f) n \<Longrightarrow> n < 6" "bit (push_bit 2 (x AND 0x0f)) n \<Longrightarrow> n < 6"
    "bit (push_bit 4 (x AND 0x03)) n \<Longrightarrow> n < 6"
    "bit (drop_bit 6 (ucast b :: u32)) n \<Longrightarrow> n < 6"
    "bit (drop_bit 4 (ucast b :: u32)) n \<Longrightarrow> n < 6"
    "bit (drop_bit 2 (ucast b :: u32)) n \<Longrightarrow> n < 6"
proof -
  have m: "(0x3f :: u32) = mask 6" "(0x0f :: u32) = mask 4" "(0x03 :: u32) = mask 2"
    by (simp_all add: mask_eq_exp_minus_1)
  show "bit (x AND 0x3f) n \<Longrightarrow> n < 6" "bit (push_bit 2 (x AND 0x0f)) n \<Longrightarrow> n < 6"
    "bit (push_bit 4 (x AND 0x03)) n \<Longrightarrow> n < 6"
    unfolding m by (auto simp only: bit_and_iff bit_mask_iff bit_push_bit_iff)
qed (auto simp: bit_drop_bit_eq bit_unsigned_iff dest!: bit_imp_le_length)

lemma mcast_hash_bit: "bit (mcast_hash a) n \<Longrightarrow> n < 6"
  unfolding mcast_hash_def Let_def bit_unsigned_iff bit_xor_iff bit_or_iff
  using low_bits by blast

lemma mcast_hash_63 [simp]: "mcast_hash a AND 63 = mcast_hash a"
proof -
  have "mcast_hash a AND mask 6 = mcast_hash a"
    by (rule bit_word_eqI) (auto simp only: bit_and_iff bit_mask_iff possible_bit_word
      dest: mcast_hash_bit)
  then show ?thesis by (simp add: mask_eq_exp_minus_1)
qed

lemma hash_commands [simp]:
  "filter_command (HASH_SET OR mcast_hash a) F = insert (mcast_hash a) F"
  "filter_command (HASH_CLEAR OR mcast_hash a) F = F - {mcast_hash a}"
  "filter_command HASH_RESET F = {}"
proof -
  have h: "mcast_hash a AND 0x8000 = 0"
  proof -
    have "mcast_hash a AND 0x8000 = (mcast_hash a AND 63) AND 0x8000" by simp
    also have "\<dots> = mcast_hash a AND (63 AND 0x8000)" by (simp only: and.assoc)
    finally show ?thesis by simp
  qed
  show "filter_command (HASH_SET OR mcast_hash a) F = insert (mcast_hash a) F"
    "filter_command (HASH_CLEAR OR mcast_hash a) F = F - {mcast_hash a}"
    "filter_command HASH_RESET F = {}"
    by (simp_all add: filter_command_def bit.conj_disj_distrib2 h)
qed

section \<open>Joins\<close>

definition joins :: "mcast \<Rightarrow> bytes \<Rightarrow> nat" where
  "joins m a = sum_list (map (\<lambda>e. if mc_addr e = a then unat (mc_refs e) else 0) (mc_entries m))"

definition members :: "mcast \<Rightarrow> bytes set" where
  "members m = {mc_addr e | e. e \<in> set (mc_entries m) \<and> mc_refs e \<noteq> 0}"

lemma sum_list_map_eq_0:
  "(sum_list (map f xs) = (0 :: nat)) = (\<forall>x \<in> set xs. f x = 0)"
  by (induction xs) auto

lemma joins_pos: "0 < joins m a \<longleftrightarrow> a \<in> members m"
proof -
  have "(joins m a = 0) = (\<forall>e \<in> set (mc_entries m). mc_addr e = a \<longrightarrow> mc_refs e = 0)"
    unfolding joins_def sum_list_map_eq_0 by (auto simp: unat_eq_0)
  then show ?thesis by (auto simp: members_def)
qed

definition mcast_ok :: "mcast \<Rightarrow> bool" where
  "mcast_ok m \<longleftrightarrow> length (mc_entries m) = MCAST_MAX \<and>
     (\<forall>e \<in> set (mc_entries m). length (mc_addr e) = MCAST_ADDR_LEN) \<and>
     (\<forall>i < MCAST_MAX. \<forall>j < MCAST_MAX. mc_refs (mc_entries m ! i) \<noteq> 0 \<and>
        mc_refs (mc_entries m ! j) \<noteq> 0 \<and>
        mc_addr (mc_entries m ! i) = mc_addr (mc_entries m ! j) \<longrightarrow> i = j) \<and>
     unat (mc_count m) = length (filter (\<lambda>e. mc_refs e \<noteq> 0) (mc_entries m))"

lemma scan_index:
  "mcast_scan es a k fr = (f, s) \<Longrightarrow>
     (\<forall>i. s = Some i \<longrightarrow> k \<le> i \<and> i < k + length es \<and> mc_refs (es ! (i - k)) \<noteq> 0 \<and>
        mcast_same (mc_addr (es ! (i - k))) a) \<and>
     (s = None \<longrightarrow> (\<forall>e \<in> set es. mc_refs e \<noteq> 0 \<longrightarrow> \<not> mcast_same (mc_addr e) a)) \<and>
     (f = None \<and> s = None \<longrightarrow> (\<forall>e \<in> set es. mc_refs e \<noteq> 0)) \<and>
     (\<forall>j. f = Some j \<and> fr = None \<longrightarrow> k \<le> j \<and> j < k + length es \<and> mc_refs (es ! (j - k)) = 0) \<and>
     (\<forall>j. fr = Some j \<longrightarrow> f = Some j)"
proof (induction es arbitrary: k fr)
  case Nil
  then show ?case by auto
next
  case (Cons e es)
  consider "mc_refs e = 0" | "mc_refs e \<noteq> 0" "mcast_same (mc_addr e) a"
    | "mc_refs e \<noteq> 0" "\<not> mcast_same (mc_addr e) a" by blast
  then show ?case
  proof cases
    case 1
    with Cons.prems have
      "mcast_scan es a (k + 1) (if fr = None then Some k else fr) = (f, s)" by simp
    from Cons.IH [OF this] 1 show ?thesis
      by (cases "fr = None") (auto simp: nth_Cons' Suc_le_eq)
  next
    case 2
    with Cons.prems show ?thesis by auto
  next
    case 3
    with Cons.prems have "mcast_scan es a (k + 1) fr = (f, s)" by simp
    from Cons.IH [OF this] 3 show ?thesis
      by (auto simp: nth_Cons' Suc_le_eq)
  qed
qed

lemmas scan_facts = scan_index [where k = 0 and fr = None, simplified]

section \<open>Updating an entry\<close>

lemma sum_list_map_update:
  "i < length es \<Longrightarrow>
     sum_list (map f (es[i := e])) + (f (es ! i) :: nat) = sum_list (map f es) + f e"
proof (induction es arbitrary: i)
  case Nil
  then show ?case by simp
next
  case (Cons x es)
  then show ?case by (cases i) auto
qed

lemma joins_update:
  "i < length (mc_entries m) \<Longrightarrow>
     joins (m\<lparr>mc_entries := (mc_entries m)[i := e]\<rparr>) a +
       (if mc_addr (mc_entries m ! i) = a then unat (mc_refs (mc_entries m ! i)) else 0) =
     joins m a + (if mc_addr e = a then unat (mc_refs e) else 0)"
  using sum_list_map_update [of i "mc_entries m" "\<lambda>e. if mc_addr e = a then unat (mc_refs e) else 0" e]
  by (simp add: joins_def)

lemma joins_count [simp]: "joins (m\<lparr>mc_count := c\<rparr>) a = joins m a"
  by (simp add: joins_def)

lemma used_update:
  "i < length es \<Longrightarrow>
     length (filter P (es[i := e])) + (if P (es ! i) then 1 else 0) =
     length (filter P es) + (if P e then 1 else 0)"
proof (induction es arbitrary: i)
  case Nil
  then show ?case by simp
next
  case (Cons x es)
  then show ?case by (cases i) (auto split: if_splits)
qed

text \<open>With distinct members, the number of joins is the counter of the one entry.\<close>

lemma joins_entry:
  assumes ok: "mcast_ok m" and i: "i < MCAST_MAX" "mc_refs (mc_entries m ! i) \<noteq> 0"
  shows "joins m (mc_addr (mc_entries m ! i)) = unat (mc_refs (mc_entries m ! i))"
proof -
  let ?a = "mc_addr (mc_entries m ! i)"
  let ?z = "m\<lparr>mc_entries := (mc_entries m)[i := \<lparr>mc_addr = ?a, mc_refs = 0\<rparr>]\<rparr>"
  have len: "length (mc_entries m) = MCAST_MAX" using ok by (simp add: mcast_ok_def)
  have "joins ?z ?a = 0"
  proof -
    have z: "mc_refs (mc_entries ?z ! j) = 0" if "j < MCAST_MAX" "mc_addr (mc_entries ?z ! j) = ?a" for j
      using that ok i len by (cases "j = i") (auto simp: mcast_ok_def)
    have "?a \<notin> members ?z"
    proof
      assume "?a \<in> members ?z"
      then obtain e where e: "e \<in> set (mc_entries ?z)" "mc_refs e \<noteq> 0" "mc_addr e = ?a"
        unfolding members_def by auto
      from e(1) obtain j where j: "j < length (mc_entries ?z)" "mc_entries ?z ! j = e"
        unfolding in_set_conv_nth by blast
      from j(1) len have "j < MCAST_MAX" by simp
      then have "mc_refs (mc_entries ?z ! j) = 0"
        by (rule z) (simp only: j(2) e(3))
      with e(2) show False by (simp only: j(2))
    qed
    then show ?thesis using joins_pos [of ?z ?a] by simp
  qed
  with joins_update [of i m "\<lparr>mc_addr = ?a, mc_refs = 0\<rparr>" ?a] i len show ?thesis by simp
qed

lemma bucket_used_members: "mcast_bucket_used m b \<longleftrightarrow> b \<in> mcast_hash ` members m"
  by (auto simp: mcast_bucket_used_def members_def list_ex_iff)

lemma members_joins: "members m = {a. 0 < joins m a}"
  using joins_pos by auto

lemma card_members: "mcast_ok m \<Longrightarrow> card (members m) = unat (mc_count m)"
proof -
  assume ok: "mcast_ok m"
  let ?U = "{i. i < length (mc_entries m) \<and> mc_refs (mc_entries m ! i) \<noteq> 0}"
  have "members m = (\<lambda>i. mc_addr (mc_entries m ! i)) ` ?U"
    by (auto simp: members_def in_set_conv_nth)
  moreover have "inj_on (\<lambda>i. mc_addr (mc_entries m ! i)) ?U"
    using ok by (auto simp: mcast_ok_def inj_on_def)
  ultimately have "card (members m) = card ?U" by (simp add: card_image)
  with ok show ?thesis by (simp add: mcast_ok_def length_filter_conv_card)
qed

lemma mcast_ok_update:
  assumes ok: "mcast_ok m" and i: "i < MCAST_MAX" and len: "length (mc_addr e) = MCAST_ADDR_LEN"
    and new: "\<And>j. mc_refs e \<noteq> 0 \<Longrightarrow> j < MCAST_MAX \<Longrightarrow> j \<noteq> i \<Longrightarrow> mc_refs (mc_entries m ! j) \<noteq> 0 \<Longrightarrow>
      mc_addr (mc_entries m ! j) \<noteq> mc_addr e"
    and c: "unat c + (if mc_refs (mc_entries m ! i) \<noteq> 0 then 1 else 0) =
      unat (mc_count m) + (if mc_refs e \<noteq> 0 then 1 else 0)"
  shows "mcast_ok (m\<lparr>mc_entries := (mc_entries m)[i := e], mc_count := c\<rparr>)"
proof -
  let ?es = "mc_entries m"
  have l: "length ?es = MCAST_MAX" using ok by (simp add: mcast_ok_def)
  have "\<forall>x \<in> set (?es[i := e]). length (mc_addr x) = MCAST_ADDR_LEN"
    using ok len set_update_subset_insert [of ?es i e] by (auto simp: mcast_ok_def)
  moreover have "j = k" if "j < MCAST_MAX" "k < MCAST_MAX" "mc_refs (?es[i := e] ! j) \<noteq> 0"
      "mc_refs (?es[i := e] ! k) \<noteq> 0" "mc_addr (?es[i := e] ! j) = mc_addr (?es[i := e] ! k)" for j k
    using that ok l new [of j] new [of k]
    by (cases "j = i"; cases "k = i") (auto simp: mcast_ok_def)
  moreover have "unat c = length (filter (\<lambda>e. mc_refs e \<noteq> 0) (?es[i := e]))"
    using used_update [of i ?es "\<lambda>e. mc_refs e \<noteq> 0" e] c ok i l
    by (simp add: mcast_ok_def split: if_splits)
  ultimately show ?thesis using l by (simp add: mcast_ok_def)
qed

lemma same_len: "length a = MCAST_ADDR_LEN \<Longrightarrow> length b = MCAST_ADDR_LEN \<Longrightarrow> mcast_same a b \<longleftrightarrow> a = b"
  by (simp add: mcast_same_def)

lemma slot_facts:
  assumes ok: "mcast_ok m" and len: "length a = MCAST_ADDR_LEN"
    and sc: "mcast_scan (mc_entries m) a 0 None = (fr, Some i)"
  shows "i < MCAST_MAX" "mc_refs (mc_entries m ! i) \<noteq> 0" "mc_addr (mc_entries m ! i) = a"
    "joins m a = unat (mc_refs (mc_entries m ! i))"
proof -
  have l: "length (mc_entries m) = MCAST_MAX" using ok by (simp add: mcast_ok_def)
  from scan_facts [OF sc] l show i: "i < MCAST_MAX" and r: "mc_refs (mc_entries m ! i) \<noteq> 0"
    by simp_all
  have "length (mc_addr (mc_entries m ! i)) = MCAST_ADDR_LEN"
    using ok i l by (simp add: mcast_ok_def)
  with scan_facts [OF sc] same_len len show e: "mc_addr (mc_entries m ! i) = a" by simp
  from joins_entry [OF ok i r] e show "joins m a = unat (mc_refs (mc_entries m ! i))" by simp
qed

lemma no_slot_facts:
  assumes ok: "mcast_ok m" and len: "length a = MCAST_ADDR_LEN"
    and sc: "mcast_scan (mc_entries m) a 0 None = (fr, None)"
  shows "joins m a = 0" "\<And>j. j < MCAST_MAX \<Longrightarrow> mc_refs (mc_entries m ! j) \<noteq> 0 \<Longrightarrow> mc_addr (mc_entries m ! j) \<noteq> a"
    "fr = None \<Longrightarrow> unat (mc_count m) = MCAST_MAX"
    "\<And>j. fr = Some j \<Longrightarrow> j < MCAST_MAX \<and> mc_refs (mc_entries m ! j) = 0 \<and> unat (mc_count m) < MCAST_MAX"
proof -
  have l: "length (mc_entries m) = MCAST_MAX" using ok by (simp add: mcast_ok_def)
  have n: "\<forall>e \<in> set (mc_entries m). mc_refs e \<noteq> 0 \<longrightarrow> mc_addr e \<noteq> a"
    using scan_facts [OF sc] same_len len ok by (auto simp: mcast_ok_def)
  then have "a \<notin> members m" by (auto simp: members_def)
  then show "joins m a = 0" using joins_pos [of m a] by simp
  show "mc_addr (mc_entries m ! j) \<noteq> a" if "j < MCAST_MAX" "mc_refs (mc_entries m ! j) \<noteq> 0" for j
    using n that l by simp
  show "unat (mc_count m) = MCAST_MAX" if "fr = None"
  proof -
    have "filter (\<lambda>e. mc_refs e \<noteq> 0) (mc_entries m) = mc_entries m"
      using scan_facts [OF sc] that by (simp add: filter_id_conv)
    with ok l show ?thesis by (simp add: mcast_ok_def)
  qed
  show "j < MCAST_MAX \<and> mc_refs (mc_entries m ! j) = 0 \<and> unat (mc_count m) < MCAST_MAX"
    if "fr = Some j" for j
  proof -
    have j: "j < MCAST_MAX" "mc_refs (mc_entries m ! j) = 0"
      using scan_facts [OF sc] that l by simp_all
    then have "length (filter (\<lambda>e. mc_refs e \<noteq> 0) (mc_entries m)) < length (mc_entries m)"
      using l by (intro length_filter_less [of "mc_entries m ! j"]) auto
    with j ok l show ?thesis by (simp add: mcast_ok_def)
  qed
qed

section \<open>One update\<close>

text \<open>The reference counter of a join is bounded by the width of the field.\<close>

definition join_result :: "mcast \<Rightarrow> bytes \<Rightarrow> int" where
  "join_result m a =
     (if joins m a = 65535 \<or> joins m a = 0 \<and> card (members m) = MCAST_MAX
      then S2ERR_NO_RESOURCES else 0)"

definition leave_result :: "mcast \<Rightarrow> bytes \<Rightarrow> int" where
  "leave_result m a = (if joins m a = 0 then S2ERR_BAD_STATE else 0)"

definition mcast_simulates :: "bytes \<Rightarrow> bool \<Rightarrow> mcast \<Rightarrow> int \<Rightarrow> mcast \<Rightarrow> bool" where
  "mcast_simulates a add m r m' \<longleftrightarrow>
     r = (if add then join_result m a else leave_result m a) \<and>
     joins m' = (if r \<noteq> 0 then joins m
                 else (joins m)(a := if add then joins m a + 1 else joins m a - 1))"

lemma unat_u16_bound: "unat (x :: u16) < 65536"
  using unat_lt [of x] by simp

lemma join_existing:
  assumes ok: "mcast_ok m" and len: "length a = MCAST_ADDR_LEN"
    and sc: "mcast_scan (mc_entries m) a 0 None = (fr, Some i)"
    and F: "F = mcast_hash ` members m"
    and up: "mcast_join filter_io a fr (Some i) m F = (r, m', F')"
  shows "mcast_ok m' \<and> F' = mcast_hash ` members m' \<and> mcast_simulates a True m r m'"
proof -
  note sf = slot_facts [OF ok len sc]
  let ?e = "mc_entries m ! i" let ?e' = "?e\<lparr>mc_refs := mc_refs ?e + 1\<rparr>"
  have l: "length (mc_entries m) = MCAST_MAX" using ok by (simp add: mcast_ok_def)
  have al: "length (mc_addr ?e) = MCAST_ADDR_LEN" using sf(3) len by simp
  show ?thesis
  proof (cases "mc_refs ?e = 0xffff")
    case True
    with up ok F sf show ?thesis
      by (auto simp: mcast_join_def mcast_simulates_def join_result_def)
  next
    case False
    then have "unat (mc_refs ?e) \<noteq> 65535" by (auto simp: word_unat_eq_iff)
    then have u: "unat (mc_refs ?e + 1) = unat (mc_refs ?e) + 1"
      using unat_u16_bound [of "mc_refs ?e"] by (simp add: unat_plus_nowrap)
    have up': "r = 0" "F' = F" "m' = m\<lparr>mc_entries := (mc_entries m)[i := ?e']\<rparr>"
      using up False by (simp_all add: mcast_join_def Let_def)
    have nz: "mc_refs ?e' \<noteq> 0" using u by auto
    have "mcast_ok (m\<lparr>mc_entries := (mc_entries m)[i := ?e'], mc_count := mc_count m\<rparr>)"
      by (rule mcast_ok_update) (use ok sf al nz in \<open>auto simp: mcast_ok_def\<close>)
    then have okm: "mcast_ok m'" using up'(3) by simp
    have j: "joins m' = (joins m)(a := joins m a + 1)"
    proof
      fix b
      from joins_update [of i m ?e' b] sf l u up'(3)
      show "joins m' b = ((joins m)(a := joins m a + 1)) b" by (auto split: if_splits)
    qed
    have "joins m a > 0" using sf by (simp add: unat_gt_0)
    then have "members m' = members m" using j by (auto simp: members_joins)
    with okm j up' F sf \<open>unat (mc_refs ?e) \<noteq> 65535\<close> \<open>joins m a > 0\<close> show ?thesis
      by (simp add: mcast_simulates_def join_result_def)
  qed
qed

lemma join_new:
  assumes ok: "mcast_ok m" and len: "length a = MCAST_ADDR_LEN"
    and sc: "mcast_scan (mc_entries m) a 0 None = (fr, None)"
    and F: "F = mcast_hash ` members m"
    and up: "mcast_join filter_io a fr None m F = (r, m', F')"
  shows "mcast_ok m' \<and> F' = mcast_hash ` members m' \<and> mcast_simulates a True m r m'"
proof (cases fr)
  case None
  with up ok F no_slot_facts [OF ok len sc] card_members [OF ok] show ?thesis
    by (auto simp: mcast_join_def mcast_simulates_def join_result_def)
next
  case (Some i)
  note nf = no_slot_facts [OF ok len sc]
  have l: "length (mc_entries m) = MCAST_MAX" using ok by (simp add: mcast_ok_def)
  let ?e' = "\<lparr>mc_addr = a, mc_refs = 1\<rparr>"
  have i: "i < MCAST_MAX" "mc_refs (mc_entries m ! i) = 0" "unat (mc_count m) < MCAST_MAX"
    using nf(4) [OF Some] by blast+
  have up': "r = 0" "m' = m\<lparr>mc_entries := (mc_entries m)[i := ?e'], mc_count := mc_count m + 1\<rparr>"
    "F' = (if mcast_hash a \<in> F then F else insert (mcast_hash a) F)"
    using up Some len F
    by (simp_all add: mcast_join_def Let_def filter_io_def bucket_used_members split: if_splits)
  have okm: "mcast_ok m'"
    unfolding up'(2)
    by (rule mcast_ok_update) (use ok i nf(2) len in \<open>auto simp: unat_plus_nowrap\<close>)
  have j: "joins m' = (joins m)(a := joins m a + 1)"
  proof
    fix b
    from joins_update [of i m ?e' b] i l nf(1) up'(2)
    show "joins m' b = ((joins m)(a := joins m a + 1)) b" by (auto split: if_splits)
  qed
  then have "members m' = insert a (members m)" by (auto simp: members_joins)
  then have "F' = mcast_hash ` members m'" using up'(3) F by auto
  with okm j up' nf(1) i card_members [OF ok] show ?thesis
    by (simp add: mcast_simulates_def join_result_def)
qed

lemma image_minus_hit: "a \<in> A \<Longrightarrow> f a \<in> f ` (A - {a}) \<Longrightarrow> f ` (A - {a}) = f ` A"
  by blast

lemma image_minus_miss: "f a \<notin> f ` (A - {a}) \<Longrightarrow> f ` (A - {a}) = f ` A - {f a}"
  by blast

lemma leave_step:
  assumes ok: "mcast_ok m" and len: "length a = MCAST_ADDR_LEN"
    and sc: "mcast_scan (mc_entries m) a 0 None = (fr, slot)"
    and F: "F = mcast_hash ` members m"
    and up: "mcast_leave filter_io slot m F = (r, m', F')"
  shows "mcast_ok m' \<and> F' = mcast_hash ` members m' \<and> mcast_simulates a False m r m'"
proof (cases slot)
  case None
  with up ok F no_slot_facts(1) [OF ok len] sc show ?thesis
    by (auto simp: mcast_leave_def mcast_simulates_def leave_result_def)
next
  case (Some i)
  note sf = slot_facts [OF ok len sc [unfolded Some]]
  let ?e = "mc_entries m ! i"
  have l: "length (mc_entries m) = MCAST_MAX" using ok by (simp add: mcast_ok_def)
  have al: "length (mc_addr ?e) = MCAST_ADDR_LEN" using sf(3) len by simp
  have u: "unat (mc_refs ?e - 1) = unat (mc_refs ?e) - 1"
    using sf(2) by (simp add: unat_minus_one)
  have pos: "joins m a > 0" using sf by (simp add: unat_gt_0)
  show ?thesis
  proof (cases "mc_refs ?e - 1 = 0")
    case False
    let ?e' = "?e\<lparr>mc_refs := mc_refs ?e - 1\<rparr>"
    have up': "r = 0" "F' = F" "m' = m\<lparr>mc_entries := (mc_entries m)[i := ?e']\<rparr>"
      using up Some False by (simp_all add: mcast_leave_def Let_def)
    have "mcast_ok (m\<lparr>mc_entries := (mc_entries m)[i := ?e'], mc_count := mc_count m\<rparr>)"
      by (rule mcast_ok_update) (use ok sf al False in \<open>auto simp: mcast_ok_def\<close>)
    then have okm: "mcast_ok m'" using up'(3) by simp
    have j: "joins m' = (joins m)(a := joins m a - 1)"
    proof
      fix b
      from joins_update [of i m ?e' b] sf l u up'(3) pos
      show "joins m' b = ((joins m)(a := joins m a - 1)) b" by (auto split: if_splits)
    qed
    have "unat (mc_refs ?e - 1) > 0" using False by (simp only: unat_gt_0 not_False_eq_True)
    then have "joins m a - 1 > 0" using sf(4) u by simp
    then have "members m' = members m" using j pos by (auto simp: members_joins)
    with okm j up' F pos show ?thesis by (simp add: mcast_simulates_def leave_result_def)
  next
    case True
    let ?e' = "\<lparr>mc_addr = replicate MCAST_ADDR_LEN 0, mc_refs = 0\<rparr>"
    have one: "joins m a = 1"
      using True sf(4) by (metis eq_iff_diff_eq_0 unat_1)
    have up': "r = 0" "m' = m\<lparr>mc_entries := (mc_entries m)[i := ?e'], mc_count := mc_count m - 1\<rparr>"
      "F' = (if mcast_bucket_used m' (mcast_hash a) then F else F - {mcast_hash a})"
      using up Some True sf(3)
      by (simp_all add: mcast_leave_def Let_def filter_io_def split: if_splits)
    have cnt: "unat (mc_count m) > 0"
    proof -
      have "a \<in> members m" using pos by (simp add: joins_pos)
      moreover have "finite (members m)"
        by (rule finite_subset [of _ "mc_addr ` set (mc_entries m)"]) (auto simp: members_def)
      ultimately show ?thesis using card_members [OF ok] by (metis card_gt_0_iff empty_iff)
    qed
    then have "unat (mc_count m - 1) = unat (mc_count m) - 1"
      by (metis unat_minus_one unat_gt_0 not_less_zero less_irrefl unat_0)
    with cnt have okm: "mcast_ok m'"
      unfolding up'(2)
      by (intro mcast_ok_update) (use ok sf in \<open>auto\<close>)
    have j: "joins m' = (joins m)(a := joins m a - 1)"
    proof
      fix b
      from joins_update [of i m ?e' b] sf l one up'(2)
      show "joins m' b = ((joins m)(a := joins m a - 1)) b" by (auto split: if_splits)
    qed
    have "members m' = members m - {a}" using j one by (auto simp: members_joins)
    then have "F' = mcast_hash ` members m'"
      using up'(3) F pos image_minus_hit [of a "members m" mcast_hash]
        image_minus_miss [of mcast_hash a "members m"]
      by (simp add: bucket_used_members joins_pos split: if_splits)
    with okm j up' pos show ?thesis by (simp add: mcast_simulates_def leave_result_def)
  qed
qed

lemma update_step:
  assumes "mcast_ok m" "length a = MCAST_ADDR_LEN" "F = mcast_hash ` members m"
    and "mcast_update filter_io a add m F = (r, m', F')"
  shows "mcast_ok m' \<and> F' = mcast_hash ` members m' \<and> mcast_simulates a add m r m'"
proof -
  obtain fr slot where sc: "mcast_scan (mc_entries m) a 0 None = (fr, slot)" by fastforce
  show ?thesis
  proof (cases add)
    case False
    with assms sc leave_step [OF assms(1,2) sc assms(3)] show ?thesis
      by (simp add: mcast_update_def)
  next
    case True
    then have up: "mcast_join filter_io a fr slot m F = (r, m', F')"
      using assms(4) sc by (simp add: mcast_update_def)
    with True assms sc show ?thesis
      by (cases slot) (auto simp: join_new [OF assms(1,2)] join_existing [OF assms(1,2)])
  qed
qed

section \<open>Runs\<close>

type_synonym mcast_system = "mcast \<times> u16 set"

text \<open>A call with any byte list, cut or padded to the six bytes of the C array parameter.\<close>

definition mcast_call :: "bool \<times> bytes \<Rightarrow> mcast_system \<Rightarrow> mcast_system" where
  "mcast_call op s = (case op of (add, a) \<Rightarrow> snd (mcast_update filter_io (take 6 (a @ replicate 6 0)) add (fst s) (snd s)))"

definition mcast_inv :: "mcast_system \<Rightarrow> bool" where
  "mcast_inv s \<longleftrightarrow> mcast_ok (fst s) \<and> snd s = mcast_hash ` members (fst s)"

lemma mcast_empty_ok: "mcast_ok mcast_empty" "members mcast_empty = {}"
  by (auto simp: mcast_ok_def mcast_empty_def members_def)

lemma mcast_reset_inv: "mcast_inv (mcast_reset filter_io F)"
  by (simp add: mcast_inv_def mcast_reset_def filter_io_def mcast_empty_ok)

interpretation mcast_machine: invariant_machine mcast_call mcast_inv
proof unfold_locales
  fix s :: mcast_system and op :: "bool \<times> bytes"
  assume "mcast_inv s"
  obtain add a where op: "op = (add, a)" by fastforce
  obtain r m' F' where
    u: "mcast_update filter_io (take 6 (a @ replicate 6 0)) add (fst s) (snd s) = (r, m', F')"
    by (metis prod_cases3)
  with update_step [of "fst s" "take 6 (a @ replicate 6 0)" "snd s" add r m' F'] \<open>mcast_inv s\<close>
  show "mcast_inv (mcast_call op s)"
    by (simp add: mcast_inv_def mcast_call_def op)
qed

lemma rx_plan_members:
  assumes "mcast_ok m" "length dst = MCAST_ADDR_LEN"
  shows "select_reader (mcast_rx_plan (Some m) dst) =
     (mcast_membership_required dst \<longrightarrow> dst \<in> members m)"
    "\<not> count_unknown (mcast_rx_plan (Some m) dst)"
proof -
  have "mcast_is_member m dst = (dst \<in> members m)"
    using assms same_len by (auto simp: mcast_is_member_def members_def list_ex_iff mcast_ok_def)
  then show "select_reader (mcast_rx_plan (Some m) dst) =
     (mcast_membership_required dst \<longrightarrow> dst \<in> members m)"
    "\<not> count_unknown (mcast_rx_plan (Some m) dst)"
    by (auto simp: mcast_rx_plan_def Let_def)
qed

text \<open>C12: after the table is reset on a card with the hash filter, whatever joins and leaves
  follow: the controller's filter holds exactly the buckets of the joined addresses; the table
  has one entry per joined address (at most 32); a multicast frame reaches the readers exactly
  when its address is joined, while unicast and broadcast frames always do; and the next call
  behaves as on a multiset of joins, refusing a join only when the table is full or the counter is
  at its maximum, a leave only for an address that is not joined, and changing nothing then.\<close>

theorem mcast_filter_exact:
  assumes "length a = MCAST_ADDR_LEN"
  shows "case fold mcast_call ops (mcast_reset filter_io F0) of (m, F) \<Rightarrow>
     F = mcast_hash ` members m \<and> card (members m) = unat (mc_count m) \<and> card (members m) \<le> MCAST_MAX \<and>
     select_reader (mcast_rx_plan (Some m) a) = (mcast_membership_required a \<longrightarrow> a \<in> members m) \<and>
     (case mcast_update filter_io a add m F of (r, m', F') \<Rightarrow>
        mcast_simulates a add m r m' \<and> F' = mcast_hash ` members m')"
proof -
  obtain m F where s: "fold mcast_call ops (mcast_reset filter_io F0) = (m, F)" by fastforce
  have "mcast_inv (m, F)"
    using mcast_machine.run_inv [OF mcast_reset_inv, of ops F0] s by simp
  then have i: "mcast_ok m" "F = mcast_hash ` members m" by (simp_all add: mcast_inv_def)
  have "card (members m) \<le> MCAST_MAX"
    using card_members [OF i(1)] i(1) length_filter_le [of "\<lambda>e. mc_refs e \<noteq> 0" "mc_entries m"]
    by (simp add: mcast_ok_def)
  moreover obtain r m' F' where u: "mcast_update filter_io a add m F = (r, m', F')"
    by (metis prod_cases3)
  ultimately show ?thesis
    using i card_members [OF i(1)] rx_plan_members(1) [OF i(1) assms] update_step [OF i(1) assms i(2) u] u
    by (simp add: s)
qed

theorem mcast_filter_exact_witness:
  "let a = [1, 0, 0x5e, 0, 0, 251]
   in \<not> select_reader (mcast_rx_plan (Some (fst (mcast_reset filter_io {7}))) a) \<and>
      snd (mcast_reset filter_io {7}) = {}"
proof -
  define a :: bytes where "a = [1, 0, 0x5e, 0, 0, 251]"
  have "length a = MCAST_ADDR_LEN" "mcast_membership_required a"
    unfolding a_def by code_simp+
  moreover have "mcast_reset filter_io {7} = (mcast_empty, {})"
    by (simp add: mcast_reset_def filter_io_def)
  ultimately show ?thesis
    using mcast_filter_exact [of a True "[]" "{7}"] mcast_empty_ok(2)
    unfolding Let_def a_def [symmetric] by simp
qed

end
