(* ===== verification/FwDigest.thy ===== *)
theory FwDigest
  imports Prelude
begin

text \<open>
  Integrity checks of the firmware updater (\<^verbatim>\<open>common/fw_release.c\<close>): little-endian fields, the Zynq
  boot header, the table-driven CRC-32 and the incremental SHA-256. The CRC table is filled once
  and never changes, so it is a constant here.
\<close>

section \<open>Fields and the boot header\<close>

definition le16 :: "bytes \<Rightarrow> nat \<Rightarrow> u16" where
  "le16 p off = ucast (p ! off) OR push_bit 8 (ucast (p ! (off + 1)))"

definition le32 :: "bytes \<Rightarrow> nat \<Rightarrow> u32" where
  "le32 p off = ucast (p ! off) OR push_bit 8 (ucast (p ! (off + 1))) OR
     push_bit 16 (ucast (p ! (off + 2))) OR push_bit 24 (ucast (p ! (off + 3)))"

abbreviation "BOOT_HEADER_BYTES \<equiv> (0x28 :: nat)"

definition boot_header_ok :: "bytes \<Rightarrow> nat \<Rightarrow> bool" where
  "boot_header_ok head len =
     (len \<ge> BOOT_HEADER_BYTES \<and> sub_at 0x20 4 head = [0x66, 0x55, 0x99, 0xaa] \<and>
      sub_at 0x24 4 head = [0x58, 0x4e, 0x4c, 0x58])"

section \<open>CRC-32\<close>

definition crc_poly :: u32 where
  "crc_poly = 0xedb88320"

definition crc_bit :: "u32 \<Rightarrow> u32" where
  "crc_bit c = (if c AND 1 \<noteq> 0 then crc_poly XOR drop_bit 1 c else drop_bit 1 c)"

definition crc_table :: "u32 list" where
  "crc_table = map (\<lambda>n. (crc_bit ^^ 8) (of_nat n)) [0..<256]"

definition crc_step :: "u8 \<Rightarrow> u32 \<Rightarrow> u32" where
  "crc_step b c = crc_table ! unat ((c XOR ucast b) AND 0xff) XOR drop_bit 8 c"

definition crc32_update :: "u32 \<Rightarrow> bytes \<Rightarrow> u32" where
  "crc32_update crc data = NOT (fold crc_step data (NOT crc))"

section \<open>SHA-256\<close>

record sha256 =
  sha_state :: "u32 list"
  sha_bits :: u64
  sha_buf :: bytes
  sha_used :: nat

definition sha256_rotr :: "u32 \<Rightarrow> nat \<Rightarrow> u32" where
  "sha256_rotr v n = drop_bit n v OR push_bit (32 - n) v"

definition sha_k :: "u32 list" where
  "sha_k = concat [
      [0x428a2f98, 0x71374491, 0xb5c0fbcf, 0xe9b5dba5],
      [0x3956c25b, 0x59f111f1, 0x923f82a4, 0xab1c5ed5],
      [0xd807aa98, 0x12835b01, 0x243185be, 0x550c7dc3],
      [0x72be5d74, 0x80deb1fe, 0x9bdc06a7, 0xc19bf174],
      [0xe49b69c1, 0xefbe4786, 0x0fc19dc6, 0x240ca1cc],
      [0x2de92c6f, 0x4a7484aa, 0x5cb0a9dc, 0x76f988da],
      [0x983e5152, 0xa831c66d, 0xb00327c8, 0xbf597fc7],
      [0xc6e00bf3, 0xd5a79147, 0x06ca6351, 0x14292967],
      [0x27b70a85, 0x2e1b2138, 0x4d2c6dfc, 0x53380d13],
      [0x650a7354, 0x766a0abb, 0x81c2c92e, 0x92722c85],
      [0xa2bfe8a1, 0xa81a664b, 0xc24b8b70, 0xc76c51a3],
      [0xd192e819, 0xd6990624, 0xf40e3585, 0x106aa070],
      [0x19a4c116, 0x1e376c08, 0x2748774c, 0x34b0bcb5],
      [0x391c0cb3, 0x4ed8aa4a, 0x5b9cca4f, 0x682e6ff3],
      [0x748f82ee, 0x78a5636f, 0x84c87814, 0x8cc70208],
      [0x90befffa, 0xa4506ceb, 0xbef9a3f7, 0xc67178f2]]"

text \<open>The message schedule: the 16 words of the block, then 48 derived ones.\<close>

definition sha_word :: "bytes \<Rightarrow> nat \<Rightarrow> u32" where
  "sha_word data i = push_bit 24 (ucast (data ! (i * 4))) OR push_bit 16 (ucast (data ! (i * 4 + 1))) OR
     push_bit 8 (ucast (data ! (i * 4 + 2))) OR ucast (data ! (i * 4 + 3))"

definition sha_extend :: "nat \<Rightarrow> u32 list \<Rightarrow> u32 list" where
  "sha_extend i w =
     (let s0 = sha256_rotr (w ! (i - 15)) 7 XOR sha256_rotr (w ! (i - 15)) 18 XOR drop_bit 3 (w ! (i - 15));
          s1 = sha256_rotr (w ! (i - 2)) 17 XOR sha256_rotr (w ! (i - 2)) 19 XOR drop_bit 10 (w ! (i - 2))
      in w @ [w ! (i - 16) + s0 + w ! (i - 7) + s1])"

definition sha_schedule :: "bytes \<Rightarrow> u32 list" where
  "sha_schedule data = fold sha_extend [16..<64] (map (sha_word data) [0..<16])"

type_synonym sha_vars = "u32 \<times> u32 \<times> u32 \<times> u32 \<times> u32 \<times> u32 \<times> u32 \<times> u32"

fun sha_round :: "u32 \<times> u32 \<Rightarrow> sha_vars \<Rightarrow> sha_vars" where
  "sha_round (k, w) (a, b, c, d, e, f, g, h) =
     (let s1 = sha256_rotr e 6 XOR sha256_rotr e 11 XOR sha256_rotr e 25;
          choice = (e AND f) XOR (NOT e AND g);
          t1 = h + s1 + choice + k + w;
          s0 = sha256_rotr a 2 XOR sha256_rotr a 13 XOR sha256_rotr a 22;
          majority = (a AND b) XOR (a AND c) XOR (b AND c);
          t2 = s0 + majority
      in (t1 + t2, a, b, c, d + t1, e, f, g))"

definition sha256_block :: "bytes \<Rightarrow> u32 list \<Rightarrow> u32 list" where
  "sha256_block data st =
     (case fold sha_round (zip sha_k (sha_schedule data))
        (st ! 0, st ! 1, st ! 2, st ! 3, st ! 4, st ! 5, st ! 6, st ! 7) of
        (a, b, c, d, e, f, g, h) \<Rightarrow>
          [st ! 0 + a, st ! 1 + b, st ! 2 + c, st ! 3 + d,
           st ! 4 + e, st ! 5 + f, st ! 6 + g, st ! 7 + h])"

definition sha_initial :: "u32 list" where
  "sha_initial = [0x6a09e667, 0xbb67ae85, 0x3c6ef372, 0xa54ff53a,
                  0x510e527f, 0x9b05688c, 0x1f83d9ab, 0x5be0cd19]"

text \<open>\<^verbatim>\<open>sha256_init\<close> leaves the block buffer as it is.\<close>

definition sha256_init :: "sha256 \<Rightarrow> sha256" where
  "sha256_init sha = sha\<lparr>sha_state := sha_initial, sha_bits := 0, sha_used := 0\<rparr>"

text \<open>
  The copy loop of \<^verbatim>\<open>sha256_update\<close>. The buffer is never full between two iterations
  (\<open>sha_used < 64\<close>, see \<open>sha_inv\<close> below), so each one takes at least a byte; the guard makes
  the function total outside those states.
\<close>

function sha_loop :: "bytes \<Rightarrow> sha256 \<Rightarrow> sha256" where
  "sha_loop data sha =
     (if data = [] \<or> sha_used sha \<ge> 64 then sha
      else let n = min (64 - sha_used sha) (length data);
               buf = blit (sha_used sha) (take n data) (sha_buf sha);
               used = sha_used sha + n
           in if used = 64 then
                sha_loop (drop n data)
                  (sha\<lparr>sha_buf := buf, sha_state := sha256_block buf (sha_state sha), sha_used := 0\<rparr>)
              else sha_loop (drop n data) (sha\<lparr>sha_buf := buf, sha_used := used\<rparr>))"
  by pat_completeness auto
termination by (relation "measure (\<lambda>(d, _). length d)") (auto simp: Let_def)

declare sha_loop.simps [simp del]

definition sha256_update :: "bytes \<Rightarrow> sha256 \<Rightarrow> sha256" where
  "sha256_update data sha =
     sha_loop data (sha\<lparr>sha_bits := sha_bits sha + of_nat (length data) * 8\<rparr>)"

definition sha_digest :: "u32 list \<Rightarrow> bytes" where
  "sha_digest st = concat (map be32_bytes st)"

definition sha256_final :: "sha256 \<Rightarrow> bytes" where
  "sha256_final sha =
     (let b0 = (sha_buf sha)[sha_used sha := 0x80];
          u0 = sha_used sha + 1;
          (b1, st1, u1) =
            (if u0 > 56 then
               (let b = blit u0 (replicate (64 - u0) 0) b0 in (b, sha256_block b (sha_state sha), 0))
             else (b0, sha_state sha, u0));
          b2 = blit u1 (replicate (56 - u1) 0) b1;
          b3 = blit 56 (map (\<lambda>i. ucast (drop_bit (56 - i * 8) (sha_bits sha))) [0..<8]) b2
      in sha_digest (sha256_block b3 st1))"

end
