(* ===== verification/FwZip.thy ===== *)
theory FwZip
  imports FwDigest
begin

text \<open>
  The streaming reader of release archives (\<^verbatim>\<open>common/fw_release.c\<close>): a state machine over the bytes
  of a ZIP file that selects the boot image and the firmware modules, hands their bytes to a
  sink, and verifies them. The three callbacks act on an abstract world; the vendored inflater
  (\<^verbatim>\<open>tinfl\<close>) is a parameter: a call takes the decompressor, the input at hand, the window, the
  write offset and the free space, and returns a status, the bytes consumed, the new window, the
  number of bytes written at the offset, and the decompressor.

  Conventions: \<^verbatim>\<open>z->name\<close> is the raw buffer and is read as a C string (up to the first NUL);
  \<^verbatim>\<open>z->root\<close> and \<^verbatim>\<open>z->entry_name\<close> are only ever written as C strings. Sizes that only shrink or
  that the code guards against overflow are natural numbers.
\<close>

section \<open>C strings\<close>

definition cstr :: "bytes \<Rightarrow> bytes" where
  "cstr b = takeWhile (\<lambda>c. c \<noteq> 0) b"

definition of_string :: "string \<Rightarrow> bytes" where
  "of_string s = map of_char s"

abbreviation "c_slash \<equiv> (0x2f :: u8)"
abbreviation "c_backslash \<equiv> (0x5c :: u8)"
abbreviation "c_dot \<equiv> (0x2e :: u8)"

definition boot_name :: bytes where
  "boot_name = of_string ''BOOT.bin''"

definition module_dir :: bytes where
  "module_dir = of_string ''ZZ9K/''"

definition module_ext :: bytes where
  "module_ext = of_string ''.ZZM''"

text \<open>\<^verbatim>\<open>strchr(s, '/')\<close>: the part before the first slash and the part after it.\<close>

definition split_slash :: "bytes \<Rightarrow> (bytes \<times> bytes) option" where
  "split_slash s =
     (let a = takeWhile (\<lambda>c. c \<noteq> c_slash) s
      in if a = s then None else Some (a, drop (length a + 1) s))"

section \<open>States\<close>

datatype zip_phase = ZS_Local | ZS_Name | ZS_Skip | ZS_Data | ZS_Descriptor | ZS_Finished

datatype zip_target = Entry_None | Entry_Boot | Entry_Module

datatype zip_result = Zip_More | Zip_Done | Zip_Err_Format | Zip_Err_Unsupported | Zip_Err_Not_Found
  | Zip_Err_Inflate | Zip_Err_Crc | Zip_Err_Size | Zip_Err_Header | Zip_Err_Write | Zip_Err_Module

abbreviation "ZIP_LOCAL_SIG \<equiv> (0x04034b50 :: u32)"
abbreviation "ZIP_CENTRAL_SIG \<equiv> (0x02014b50 :: u32)"
abbreviation "ZIP_DESCRIPTOR_SIG \<equiv> (0x08074b50 :: u32)"
abbreviation "ZIP_LOCAL_BYTES \<equiv> (30 :: nat)"
abbreviation "ZIP_FLAG_ENCRYPTED \<equiv> (1 :: u16)"
abbreviation "ZIP_FLAG_DESCRIPTOR \<equiv> (8 :: u16)"
abbreviation "ZIP_METHOD_STORE \<equiv> (0 :: u16)"
abbreviation "ZIP_METHOD_DEFLATE \<equiv> (8 :: u16)"
abbreviation "BOOT_MIN_BYTES \<equiv> (65536 :: nat)"
abbreviation "BOOT_MAX_BYTES \<equiv> (33554432 :: nat)"
abbreviation "MODULE_HEADER_BYTES \<equiv> (128 :: nat)"
abbreviation "LZ_DICT_SIZE \<equiv> (32768 :: nat)"
abbreviation "ULONG_MAX \<equiv> (4294967295 :: nat)"

record 'i zip =
  z_state :: zip_phase
  z_result :: zip_result
  z_bundle :: bool
  z_hdr :: bytes
  z_hdr_have :: nat
  z_hdr_need :: nat
  z_name :: bytes
  z_entry_name :: bytes
  z_root :: bytes
  z_flags :: u16
  z_method :: u16
  z_crc_expected :: u32
  z_csize :: u32
  z_usize :: u32
  z_name_len :: nat
  z_extra_len :: nat
  z_skip :: nat
  z_target :: zip_target
  z_found_boot :: bool
  z_crc :: u32
  z_out_total :: nat
  z_head :: bytes
  z_sha :: sha256
  z_image_size :: u32
  z_module_ok :: bool
  z_inflater :: 'i
  z_dict_ofs :: nat
  z_dict :: bytes

datatype tinfl_status = Tinfl_Failed | Tinfl_Done | Tinfl_Needs_Input | Tinfl_Has_Output

record ('i, 'w) zip_env =
  ze_sink :: "bytes \<Rightarrow> 'w \<Rightarrow> bool \<times> 'w"
  ze_begin :: "(bytes \<Rightarrow> 'w \<Rightarrow> bool \<times> 'w) option"
  ze_end :: "(bytes \<Rightarrow> 'w \<Rightarrow> bool \<times> 'w) option"
  ze_tinfl_init :: "'i \<Rightarrow> 'i"
  ze_tinfl :: "'i \<Rightarrow> bytes \<Rightarrow> bytes \<Rightarrow> nat \<Rightarrow> nat \<Rightarrow> tinfl_status \<times> nat \<times> bytes \<times> nat \<times> 'i"

text \<open>A callback that may be NULL; the result says whether it refused.\<close>

definition call_entry :: "(bytes \<Rightarrow> 'w \<Rightarrow> bool \<times> 'w) option \<Rightarrow> bytes \<Rightarrow> 'w \<Rightarrow> bool \<times> 'w" where
  "call_entry cb path w = (case cb of None \<Rightarrow> (False, w) | Some f \<Rightarrow> f path w)"

definition zero_sha :: sha256 where
  "zero_sha = \<lparr>sha_state = replicate 8 0, sha_bits = 0, sha_buf = replicate 64 0, sha_used = 0\<rparr>"

text \<open>\<^verbatim>\<open>zip_new\<close>: a zeroed object, or NULL without a sink or memory; \<open>i0\<close> is the zeroed inflater.\<close>

definition zip_new :: "bool \<Rightarrow> bool \<Rightarrow> bool \<Rightarrow> 'i \<Rightarrow> 'i zip option" where
  "zip_new have_sink alloc bundle i0 =
     (if \<not> have_sink \<or> \<not> alloc then None
      else Some \<lparr>z_state = ZS_Local, z_result = Zip_More, z_bundle = bundle,
        z_hdr = replicate ZIP_LOCAL_BYTES 0, z_hdr_have = 0, z_hdr_need = ZIP_LOCAL_BYTES,
        z_name = replicate 256 0, z_entry_name = [], z_root = [], z_flags = 0, z_method = 0,
        z_crc_expected = 0, z_csize = 0, z_usize = 0, z_name_len = 0, z_extra_len = 0, z_skip = 0,
        z_target = Entry_None, z_found_boot = False, z_crc = 0, z_out_total = 0,
        z_head = replicate MODULE_HEADER_BYTES 0, z_sha = zero_sha, z_image_size = 0,
        z_module_ok = False, z_inflater = i0, z_dict_ofs = 0, z_dict = replicate LZ_DICT_SIZE 0\<rparr>)"

definition fwrel_zip_new :: "bool \<Rightarrow> bool \<Rightarrow> 'i \<Rightarrow> 'i zip option" where
  "fwrel_zip_new have_sink alloc i0 = zip_new have_sink alloc False i0"

definition fwrel_zip_new_bundle :: "bool \<Rightarrow> bool \<Rightarrow> 'i \<Rightarrow> 'i zip option" where
  "fwrel_zip_new_bundle have_sink alloc i0 = zip_new have_sink alloc True i0"

definition fwrel_zip_written :: "'i zip \<Rightarrow> nat" where
  "fwrel_zip_written z = (if z_target z \<noteq> Entry_None then z_out_total z else 0)"

definition zip_fail :: "zip_result \<Rightarrow> 'i zip \<Rightarrow> 'i zip" where
  "zip_fail r z = z\<lparr>z_result := r, z_state := ZS_Finished\<rparr>"

section \<open>Names\<close>

definition is_target_name :: "bytes \<Rightarrow> bool" where
  "is_target_name name =
     (case split_slash name of
        None \<Rightarrow> name = boot_name
      | Some (dir, file) \<Rightarrow> dir \<noteq> [] \<and> split_slash file = None \<and> file = boot_name)"

definition module_char :: "u8 \<Rightarrow> bool" where
  "module_char c = ((0x41 \<le> c \<and> c \<le> 0x5a) \<or> (0x30 \<le> c \<and> c \<le> 0x39) \<or> c = 0x5f)"

definition module_name_ok :: "bytes \<Rightarrow> bool" where
  "module_name_ok name =
     (let len = length name
      in \<not> (len < 5 \<or> len > 12 \<or> drop (len - 4) name \<noteq> module_ext) \<and>
         list_all module_char (take (len - 4) name))"

text \<open>The loop of \<^verbatim>\<open>safe_bundle_path\<close> over the components that are left.\<close>

function safe_parts :: "bytes \<Rightarrow> bool" where
  "safe_parts part =
     (if part = [] then False
      else let (comp, rest) = (case split_slash part of None \<Rightarrow> (part, []) | Some (a, b) \<Rightarrow> (a, b))
           in if comp = [] \<or> comp = [c_dot] \<or> comp = [c_dot, c_dot] then False
              else if rest = [] then True
              else safe_parts rest)"
  by pat_completeness auto
termination
  by (relation "measure length")
    (auto simp: split_slash_def Let_def split: option.splits if_splits prod.splits)

declare safe_parts.simps [simp del]

definition safe_bundle_path :: "bytes \<Rightarrow> bool" where
  "safe_bundle_path name =
     (if name = [] \<or> hd name = c_slash \<or> c_backslash \<in> set name then False else safe_parts name)"

text \<open>The selected kind of the entry, or \<open>None\<close> for an unsafe path; the root and the entry name may change.\<close>

definition bundle_target_name :: "'i zip \<Rightarrow> zip_target option \<times> 'i zip" where
  "bundle_target_name z =
     (let name = cstr (z_name z) in
      if \<not> safe_bundle_path name then (None, z)
      else case split_slash name of None \<Rightarrow> (None, z)
      | Some (root, rest) \<Rightarrow>
          if z_root z \<noteq> [] \<and> z_root z \<noteq> root then (None, z)
          else let z1 = (if z_root z = [] then z\<lparr>z_root := root\<rparr> else z) in
            if rest = [] then (Some Entry_None, z1)
            else if split_slash rest = None then
              (if rest \<noteq> boot_name then (Some Entry_None, z1)
               else if z_found_boot z1 then (None, z1)
               else (Some Entry_Boot, z1\<lparr>z_entry_name := boot_name\<rparr>))
            else if take 5 rest \<noteq> module_dir then (None, z1)
            else let m = drop 5 rest in
              if m = [] then (Some Entry_None, z1)
              else if split_slash m \<noteq> None \<or> \<not> module_name_ok m then (None, z1)
              else (Some Entry_Module, z1\<lparr>z_entry_name := module_dir @ m\<rparr>))"

text \<open>The name field of a module header: bytes of the alphabet, then only NULs.\<close>

fun module_label_ok :: "bytes \<Rightarrow> bool \<Rightarrow> bool \<Rightarrow> bool" where
  "module_label_ok [] first terminated = terminated"
| "module_label_ok (c # cs) first terminated =
     (if c = 0 then (if first then False else module_label_ok cs False True)
      else if terminated \<or> \<not> module_char c then False
      else module_label_ok cs False terminated)"

definition module_header_ok :: "bytes \<Rightarrow> u32 option" where
  "module_header_ok head =
     (if sub_at 0 4 head \<noteq> of_string ''ZZM1'' \<or> le16 head 4 \<noteq> 128 \<or> le16 head 6 \<noteq> 1 then None
      else if \<not> module_label_ok (sub_at 36 16 head) True False then None
      else if \<not> list_all (\<lambda>i. head ! i = 0) [84..<MODULE_HEADER_BYTES] then None
      else if le32 head 24 \<le> 0xffffffff - 128 then Some (le32 head 24) else None)"

section \<open>Entry data\<close>

text \<open>
  \<^verbatim>\<open>zip_output\<close>. The header bytes still missing are copied to \<open>z_head\<close> (\<open>keep_head\<close>); a complete
  module header is checked and starts the hash. The result is the error, if any.
\<close>

definition keep_head :: "nat \<Rightarrow> bytes \<Rightarrow> 'i zip \<Rightarrow> nat \<times> 'i zip" where
  "keep_head limit data z =
     (let n = min (limit - z_out_total z) (length data)
      in (n, z\<lparr>z_head := blit (z_out_total z) (take n data) (z_head z)\<rparr>))"

definition module_output :: "bytes \<Rightarrow> 'i zip \<Rightarrow> zip_result option \<times> 'i zip" where
  "module_output data z =
     (let (image_offset, z1) =
            (if z_out_total z < MODULE_HEADER_BYTES then keep_head MODULE_HEADER_BYTES data z else (0, z));
          (err, z2) =
            (if z_out_total z < MODULE_HEADER_BYTES \<and> z_out_total z + image_offset = MODULE_HEADER_BYTES then
               (case module_header_ok (z_head z1) of
                  None \<Rightarrow> (Some Zip_Err_Module, z1)
                | Some sz \<Rightarrow> (None, z1\<lparr>z_image_size := sz, z_module_ok := True,
                                          z_sha := sha256_init (z_sha z1)\<rparr>))
             else (None, z1))
      in if err \<noteq> None then (err, z2)
         else if z_module_ok z2 then
           (if z_out_total z2 + length data > MODULE_HEADER_BYTES + unat (z_image_size z2)
            then (Some Zip_Err_Size, z2)
            else if image_offset < length data
            then (None, z2\<lparr>z_sha := sha256_update (drop image_offset data) (z_sha z2)\<rparr>)
            else (None, z2))
         else (None, z2))"

definition zip_output ::
    "('i, 'w) zip_env \<Rightarrow> bytes \<Rightarrow> 'i zip \<Rightarrow> 'w \<Rightarrow> zip_result option \<times> 'i zip \<times> 'w" where
  "zip_output env data z w =
     (if data = [] then (None, z, w)
      else if length data > ULONG_MAX - z_out_total z then (Some Zip_Err_Size, z, w)
      else
        let z1 = z\<lparr>z_crc := crc32_update (z_crc z) data\<rparr>;
            (err, z2) =
              (case z_target z of
                 Entry_Boot \<Rightarrow>
                   (let z2 = (if z_out_total z < BOOT_HEADER_BYTES then snd (keep_head BOOT_HEADER_BYTES data z1) else z1)
                    in (if z_out_total z + length data > BOOT_MAX_BYTES then Some Zip_Err_Size else None, z2))
               | Entry_Module \<Rightarrow> module_output data z1
               | Entry_None \<Rightarrow> (None, z1))
        in if err \<noteq> None then (err, z2, w)
           else case (if z_target z \<noteq> Entry_None then ze_sink env data w else (False, w)) of
             (refused, w1) \<Rightarrow>
               if refused then (Some Zip_Err_Write, z2, w1)
               else (None, z2\<lparr>z_out_total := z_out_total z2 + length data\<rparr>, w1))"

text \<open>
  The checks of \<^verbatim>\<open>zip_entry_done\<close> on a complete entry. Finalising the hash spoils its context,
  which nobody reads before the next \<^verbatim>\<open>sha256_init\<close>; the model leaves it alone.
\<close>

definition entry_checks :: "'i zip \<Rightarrow> zip_result option" where
  "entry_checks z =
     (if z_crc z \<noteq> z_crc_expected z then Some Zip_Err_Crc
      else if z_out_total z \<noteq> unat (z_usize z) then Some Zip_Err_Size
      else case z_target z of
        Entry_Boot \<Rightarrow>
          (if z_out_total z < BOOT_MIN_BYTES then Some Zip_Err_Size
           else if \<not> boot_header_ok (z_head z) BOOT_HEADER_BYTES then Some Zip_Err_Header else None)
      | Entry_Module \<Rightarrow>
          (if \<not> z_module_ok z then Some Zip_Err_Module
           else if z_out_total z \<noteq> MODULE_HEADER_BYTES + unat (z_image_size z) then Some Zip_Err_Size
           else if sha256_final (z_sha z) \<noteq> sub_at 52 32 (z_head z) then Some Zip_Err_Module else None)
      | Entry_None \<Rightarrow> None)"

definition zip_entry_done :: "('i, 'w) zip_env \<Rightarrow> 'i zip \<Rightarrow> 'w \<Rightarrow> 'i zip \<times> 'w" where
  "zip_entry_done env z w =
     (case entry_checks z of
        Some r \<Rightarrow> (zip_fail r z, w)
      | None \<Rightarrow>
        let z1 = (if z_target z = Entry_Boot then z\<lparr>z_found_boot := True\<rparr> else z) in
        case (if z_target z1 \<noteq> Entry_None then call_entry (ze_end env) (z_entry_name z1) w else (False, w)) of
          (refused, w1) \<Rightarrow>
            if refused then (zip_fail Zip_Err_Write z1, w1)
            else if z_target z1 \<noteq> Entry_None \<and> \<not> z_bundle z1 then
              (z1\<lparr>z_result := Zip_Done, z_state := ZS_Finished\<rparr>, w1)
            else (z1\<lparr>z_state := ZS_Local, z_hdr_have := 0, z_hdr_need := ZIP_LOCAL_BYTES\<rparr>, w1))"

text \<open>\<^verbatim>\<open>zip_begin_entry\<close>: after the target is known (\<open>zip_setup_entry\<close>), and the whole.\<close>

definition zip_setup_entry ::
    "('i, 'w) zip_env \<Rightarrow> zip_target \<Rightarrow> 'i zip \<Rightarrow> 'w \<Rightarrow> 'i zip \<times> 'w" where
  "zip_setup_entry env t z w =
     (let descriptor = (z_flags z AND ZIP_FLAG_DESCRIPTOR \<noteq> 0) in
      if z_flags z AND ZIP_FLAG_ENCRYPTED \<noteq> 0 then (zip_fail Zip_Err_Unsupported z, w)
      else if \<not> descriptor \<and> (z_csize z = 0xffffffff \<or> z_usize z = 0xffffffff)
      then (zip_fail Zip_Err_Unsupported z, w)
      else case (if t \<noteq> Entry_None then call_entry (ze_begin env) (z_entry_name z) w else (False, w)) of
        (refused, w1) \<Rightarrow>
          if refused then (zip_fail Zip_Err_Write z, w1)
          else if z_method z = ZIP_METHOD_DEFLATE then
            (z\<lparr>z_inflater := ze_tinfl_init env (z_inflater z), z_dict_ofs := 0, z_state := ZS_Data\<rparr>, w1)
          else if z_method z \<noteq> ZIP_METHOD_STORE \<or> descriptor then (zip_fail Zip_Err_Unsupported z, w1)
          else if z_csize z \<noteq> z_usize z then (zip_fail Zip_Err_Format z, w1)
          else if t = Entry_None \<and> z_usize z = 0 then zip_entry_done env z w1
          else if t \<noteq> Entry_None then (z\<lparr>z_skip := unat (z_csize z), z_state := ZS_Data\<rparr>, w1)
          else (z\<lparr>z_skip := unat (z_csize z), z_state := ZS_Skip, z_crc := z_crc_expected z\<rparr>, w1))"

definition zip_begin_entry :: "('i, 'w) zip_env \<Rightarrow> 'i zip \<Rightarrow> 'w \<Rightarrow> 'i zip \<times> 'w" where
  "zip_begin_entry env z w =
     (case (if z_bundle z then bundle_target_name z
            else (Some (if is_target_name (cstr (z_name z)) then Entry_Boot else Entry_None), z)) of
        (None, z1) \<Rightarrow> (zip_fail Zip_Err_Format z1, w)
      | (Some t, z1) \<Rightarrow>
          zip_setup_entry env t
            (z1\<lparr>z_target := t, z_crc := 0, z_out_total := 0, z_module_ok := False\<rparr>) w)"

section \<open>The reader\<close>

text \<open>\<^verbatim>\<open>zip_collect\<close>: the number of bytes used.\<close>

definition zip_collect :: "bytes \<Rightarrow> 'i zip \<Rightarrow> nat \<times> 'i zip" where
  "zip_collect data z =
     (let n = min (z_hdr_need z - z_hdr_have z) (length data)
      in (n, z\<lparr>z_hdr := blit (z_hdr_have z) (take n data) (z_hdr z), z_hdr_have := z_hdr_have z + n\<rparr>))"

text \<open>
  One iteration of the loop of \<^verbatim>\<open>fwrel_zip_feed\<close>: whether the function returns at once, the
  reader, the input that is left, the world.
\<close>

type_synonym ('i, 'w) zip_next = "bool \<times> 'i zip \<times> bytes \<times> 'w"

definition step_local :: "bytes \<Rightarrow> 'i zip \<Rightarrow> 'w \<Rightarrow> ('i, 'w) zip_next" where
  "step_local data z w =
     (case zip_collect data z of (n, z1) \<Rightarrow>
        let rest = drop n data in
        if z_hdr_have z < 4 then
          (if z_hdr_have z1 \<ge> 4 \<and> le32 (z_hdr z1) 0 = ZIP_CENTRAL_SIG then
             (if z_bundle z1 \<and> z_found_boot z1
              then (True, z1\<lparr>z_result := Zip_Done, z_state := ZS_Finished\<rparr>, rest, w)
              else (True, zip_fail Zip_Err_Not_Found z1, rest, w))
           else if z_hdr_have z1 \<ge> 4 \<and> le32 (z_hdr z1) 0 \<noteq> ZIP_LOCAL_SIG
           then (True, zip_fail Zip_Err_Format z1, rest, w)
           else (False, z1, rest, w))
        else if z_hdr_have z1 < z_hdr_need z1 then (False, z1, rest, w)
        else
          let h = z_hdr z1;
              z2 = z1\<lparr>z_flags := le16 h 6, z_method := le16 h 8, z_crc_expected := le32 h 14,
                      z_csize := le32 h 18, z_usize := le32 h 22,
                      z_name_len := unat (le16 h 26), z_extra_len := unat (le16 h 28)\<rparr>
          in if z_name_len z2 = 0 \<or> z_name_len z2 \<ge> 256 then (True, zip_fail Zip_Err_Format z2, rest, w)
             else (False, z2\<lparr>z_hdr_have := 0, z_skip := z_name_len z2 + z_extra_len z2,
                             z_state := ZS_Name\<rparr>, rest, w))"

definition step_name :: "('i, 'w) zip_env \<Rightarrow> bytes \<Rightarrow> 'i zip \<Rightarrow> 'w \<Rightarrow> ('i, 'w) zip_next" where
  "step_name env data z w =
     (let consumed = z_name_len z + z_extra_len z - z_skip z;
          n = min (length data) (z_skip z);
          z1 = (if consumed < z_name_len z then
                  z\<lparr>z_name := blit consumed (take (min (z_name_len z - consumed) n) data) (z_name z)\<rparr>
                else z);
          rest = drop n data;
          z2 = z1\<lparr>z_skip := z_skip z1 - n\<rparr>
      in if z_skip z2 \<noteq> 0 then (False, z2, rest, w)
         else case zip_begin_entry env (z2\<lparr>z_name := (z_name z2)[z_name_len z2 := 0]\<rparr>) w of
           (z3, w1) \<Rightarrow> (z_state z3 = ZS_Finished, z3, rest, w1))"

definition step_skip :: "('i, 'w) zip_env \<Rightarrow> bytes \<Rightarrow> 'i zip \<Rightarrow> 'w \<Rightarrow> ('i, 'w) zip_next" where
  "step_skip env data z w =
     (let n = min (length data) (z_skip z);
          rest = drop n data;
          z1 = z\<lparr>z_skip := z_skip z - n\<rparr>
      in if z_skip z1 \<noteq> 0 then (False, z1, rest, w)
         else case zip_entry_done env (z1\<lparr>z_out_total := unat (z_usize z1)\<rparr>) w of
           (z2, w1) \<Rightarrow> (z_state z2 = ZS_Finished, z2, rest, w1))"

definition step_stored :: "('i, 'w) zip_env \<Rightarrow> bytes \<Rightarrow> 'i zip \<Rightarrow> 'w \<Rightarrow> ('i, 'w) zip_next" where
  "step_stored env data z w =
     (if data = [] then (True, z, [], w)
      else let n = min (length data) (z_skip z) in
        case zip_output env (take n data) z w of (err, z1, w1) \<Rightarrow>
          case err of Some r \<Rightarrow> (True, zip_fail r z1, data, w1)
          | None \<Rightarrow>
            let z2 = z1\<lparr>z_skip := z_skip z1 - n\<rparr>; rest = drop n data in
            if z_skip z2 \<noteq> 0 then (False, z2, rest, w1)
            else case zip_entry_done env z2 w1 of
              (z3, w2) \<Rightarrow> (z_state z3 = ZS_Finished, z3, rest, w2))"

definition step_inflate :: "('i, 'w) zip_env \<Rightarrow> bytes \<Rightarrow> 'i zip \<Rightarrow> 'w \<Rightarrow> ('i, 'w) zip_next" where
  "step_inflate env data z w =
     (case ze_tinfl env (z_inflater z) data (z_dict z) (z_dict_ofs z) (LZ_DICT_SIZE - z_dict_ofs z) of
        (st, in_bytes, dict, out_bytes, i1) \<Rightarrow>
          let rest = drop in_bytes data;
              z1 = z\<lparr>z_inflater := i1, z_dict := dict\<rparr>
          in if st = Tinfl_Failed then (True, zip_fail Zip_Err_Inflate z1, rest, w)
             else case zip_output env (sub_at (z_dict_ofs z1) out_bytes dict) z1 w of
               (err, z2, w1) \<Rightarrow>
                 case err of Some r \<Rightarrow> (True, zip_fail r z2, rest, w1)
                 | None \<Rightarrow>
                   let z3 = z2\<lparr>z_dict_ofs := (z_dict_ofs z2 + out_bytes) mod LZ_DICT_SIZE\<rparr> in
                   case st of
                     Tinfl_Done \<Rightarrow>
                       (if z_flags z3 AND ZIP_FLAG_DESCRIPTOR \<noteq> 0 then
                          (False, z3\<lparr>z_hdr_have := 0, z_hdr_need := 12, z_state := ZS_Descriptor\<rparr>, rest, w1)
                        else case zip_entry_done env z3 w1 of
                          (z4, w2) \<Rightarrow> (z_state z4 = ZS_Finished, z4, rest, w2))
                   | Tinfl_Needs_Input \<Rightarrow>
                       (if rest = [] then (True, z3, [], w1)
                        else if in_bytes = 0 \<and> out_bytes = 0 then (True, zip_fail Zip_Err_Inflate z3, rest, w1)
                        else (False, z3, rest, w1))
                   | _ \<Rightarrow> (False, z3, rest, w1))"

definition step_descriptor :: "('i, 'w) zip_env \<Rightarrow> bytes \<Rightarrow> 'i zip \<Rightarrow> 'w \<Rightarrow> ('i, 'w) zip_next" where
  "step_descriptor env data z w =
     (case zip_collect data z of (n, z1) \<Rightarrow>
        let rest = drop n data in
        if z_hdr_have z1 < z_hdr_need z1 then (False, z1, rest, w)
        else if z_hdr_need z1 = 12 \<and> le32 (z_hdr z1) 0 = ZIP_DESCRIPTOR_SIG then
          (False, z1\<lparr>z_hdr_need := 16\<rparr>, rest, w)
        else
          let d = (if z_hdr_need z1 = 16 then 4 else 0) in
          case zip_entry_done env (z1\<lparr>z_crc_expected := le32 (z_hdr z1) d, z_usize := le32 (z_hdr z1) (d + 8)\<rparr>) w of
            (z2, w1) \<Rightarrow> (z_state z2 = ZS_Finished, z2, rest, w1))"

definition zip_step :: "('i, 'w) zip_env \<Rightarrow> bytes \<Rightarrow> 'i zip \<Rightarrow> 'w \<Rightarrow> ('i, 'w) zip_next" where
  "zip_step env data z w =
     (case z_state z of
        ZS_Local \<Rightarrow> step_local data z w
      | ZS_Name \<Rightarrow> step_name env data z w
      | ZS_Skip \<Rightarrow> step_skip env data z w
      | ZS_Data \<Rightarrow> (if z_method z = ZIP_METHOD_STORE then step_stored env data z w
                    else step_inflate env data z w)
      | ZS_Descriptor \<Rightarrow> step_descriptor env data z w
      | ZS_Finished \<Rightarrow> (True, z, data, w))"

text \<open>
  The loop itself. Whether it returns depends on the inflater (one that claims pending output
  for ever never lets it), so it is a partial function: \<open>None\<close> is a loop that does not return.
\<close>

partial_function (option) zip_loop ::
    "('i, 'w) zip_env \<Rightarrow> bytes \<Rightarrow> 'i zip \<Rightarrow> 'w \<Rightarrow> ('i zip \<times> 'w) option" where
  "zip_loop env data z w =
     (if z_state z \<noteq> ZS_Finished \<and> (data \<noteq> [] \<or> z_state z = ZS_Data) then
        (case zip_step env data z w of (stop, z1, rest, w1) \<Rightarrow>
           if stop then Some (z1, w1) else zip_loop env rest z1 w1)
      else Some (z, w))"

definition fwrel_zip_feed ::
    "('i, 'w) zip_env \<Rightarrow> bytes \<Rightarrow> 'i zip \<Rightarrow> 'w \<Rightarrow> (zip_result \<times> 'i zip \<times> 'w) option" where
  "fwrel_zip_feed env data z w =
     (case zip_loop env data z w of None \<Rightarrow> None
      | Some (z1, w1) \<Rightarrow> Some (if z_state z1 = ZS_Finished then z_result z1 else Zip_More, z1, w1))"

definition fwrel_zip_strerror :: "zip_result \<Rightarrow> string" where
  "fwrel_zip_strerror r = (case r of
     Zip_Done \<Rightarrow> ''complete''
   | Zip_More \<Rightarrow> ''archive ended early''
   | Zip_Err_Format \<Rightarrow> ''not a valid ZIP archive''
   | Zip_Err_Unsupported \<Rightarrow> ''unsupported ZIP entry''
   | Zip_Err_Not_Found \<Rightarrow> ''no BOOT.bin in the archive''
   | Zip_Err_Inflate \<Rightarrow> ''compressed data is corrupt''
   | Zip_Err_Crc \<Rightarrow> ''CRC-32 mismatch''
   | Zip_Err_Size \<Rightarrow> ''unexpected image size''
   | Zip_Err_Header \<Rightarrow> ''BOOT.bin is not a Zynq boot image''
   | Zip_Err_Write \<Rightarrow> ''cannot write the extracted image''
   | Zip_Err_Module \<Rightarrow> ''invalid firmware module'')"

end
