(* ===== verification/FwDigest_Correct.thy ===== *)
theory FwDigest_Correct
  imports FwDigest
begin

text \<open>
  The CRC table agrees with the bit-serial definition, detects every change of a single byte, and
  both digests do not depend on how the data is cut into pieces; the incremental SHA-256 is the
  one-shot hash of the padded message.
\<close>

section \<open>CRC-32\<close>

text \<open>Reference: the shift register of IEEE 802.3, one bit at a time.\<close>

definition crc_serial :: "u32 \<Rightarrow> bytes \<Rightarrow> u32" where
  "crc_serial crc data = NOT (fold (\<lambda>b c. (crc_bit ^^ 8) (c XOR ucast b)) data (NOT crc))"

lemma crc_bit_alt: "crc_bit c = (if bit c 0 then crc_poly XOR drop_bit 1 c else drop_bit 1 c)"
proof -
  have "(c AND 1 \<noteq> 0) = bit c 0"
    by (simp add: and_one_eq bit_0 odd_iff_mod_2_eq_one)
  then show ?thesis by (simp only: crc_bit_def)
qed

lemma bit_crc_bit: "bit (crc_bit c) n = ((bit c 0 \<and> bit crc_poly n) \<noteq> bit c (Suc n))"
  by (simp add: crc_bit_alt bit_xor_iff bit_drop_bit_eq del: drop_bit_numeral_bit1)

lemma crc_bit_xor: "crc_bit (x XOR y) = crc_bit x XOR crc_bit y"
  by (rule bit_word_eqI) (auto simp only: bit_crc_bit bit_xor_iff)

lemma crc_bits_xor: "(crc_bit ^^ n) (x XOR y) = (crc_bit ^^ n) x XOR (crc_bit ^^ n) y"
  by (induction n) (simp_all add: crc_bit_xor)

lemma crc_bits_shift: "(\<And>i. i < n \<Longrightarrow> \<not> bit c i) \<Longrightarrow> (crc_bit ^^ n) c = drop_bit n c"
proof (induction n arbitrary: c)
  case 0
  then show ?case by simp
next
  case (Suc n)
  have "crc_bit c = drop_bit 1 c" using Suc.prems [of 0] by (simp add: crc_bit_alt)
  moreover have "(crc_bit ^^ n) (drop_bit 1 c) = drop_bit n (drop_bit 1 c)"
    by (rule Suc.IH) (simp add: bit_drop_bit_eq Suc.prems)
  ultimately show ?case by (simp add: funpow_swap1)
qed

lemma word_xor_cancel: "(a XOR b = a XOR c) = (b = (c :: 'a::len word))"
  by (auto simp: bit_eq_iff bit_xor_iff)

lemma byte_ucast_inj: "(ucast (a :: u8) :: u32) = ucast b \<Longrightarrow> a = b"
proof -
  assume "(ucast a :: u32) = ucast b"
  then have "unat (ucast a :: u32) = unat (ucast b :: u32)" by simp
  then show ?thesis by (simp add: word_unat_eq_iff)
qed

lemma crc_step_serial: "crc_step b c = (crc_bit ^^ 8) (c XOR ucast b)"
proof -
  let ?x = "c XOR ucast b"
  have x: "?x = (?x AND 0xff) XOR (?x AND NOT 0xff)"
    by (rule bit_word_eqI) (auto simp: bit_simps)
  have m: "(0xff :: u32) = mask 8" by (simp add: mask_eq_exp_minus_1)
  have "(crc_bit ^^ 8) (?x AND NOT 0xff) = drop_bit 8 (?x AND NOT 0xff)"
    unfolding m by (rule crc_bits_shift) (simp add: bit_simps)
  also have "\<dots> = drop_bit 8 c"
    unfolding m by (rule bit_word_eqI) (auto simp: bit_simps dest: bit_imp_le_length)
  finally have hi: "(crc_bit ^^ 8) (?x AND NOT 0xff) = drop_bit 8 c" .
  have "unat (?x AND 0xff) < 256"
  proof -
    have "?x AND 0xff < 2 ^ 8" unfolding m by (rule and_mask_less_size) (simp add: word_size)
    then show ?thesis by (simp add: word_less_nat_alt)
  qed
  then have "crc_table ! unat (?x AND 0xff) = (crc_bit ^^ 8) (?x AND 0xff)"
    by (simp add: crc_table_def)
  then show ?thesis
    unfolding crc_step_def by (subst x, subst crc_bits_xor) (simp only: hi)
qed

lemma crc32_serial: "crc32_update crc data = crc_serial crc data"
  by (simp add: crc32_update_def crc_serial_def crc_step_serial [abs_def])

interpretation crc_stream: stream_consumer "\<lambda>data crc. crc32_update crc data"
  by unfold_locales (simp_all add: crc32_update_def)

text \<open>The register step can be undone: the top bit of the result tells which branch was taken.\<close>

lemma crc_bit_inj: "crc_bit x = crc_bit y \<Longrightarrow> x = y"
proof -
  assume e: "crc_bit x = crc_bit y"
  have "bit crc_poly 31" by code_simp
  moreover have "\<not> bit z (Suc 31)" for z :: u32 by (auto dest: bit_imp_le_length)
  ultimately have "bit (crc_bit z) 31 = bit z 0" for z by (simp add: bit_crc_bit)
  then have b0: "bit x 0 = bit y 0" using e by metis
  have "bit x (Suc n) = bit y (Suc n)" for n
    using e b0 bit_crc_bit [of x n] bit_crc_bit [of y n] by auto
  with b0 show "x = y"
    by (intro bit_word_eqI) (metis not0_implies_Suc)
qed

lemma crc_bits_inj: "(crc_bit ^^ n) x = (crc_bit ^^ n) y \<Longrightarrow> x = y"
  by (induction n) (auto dest: crc_bit_inj)

lemma crc_fold_inj: "fold crc_step data c = fold crc_step data c' \<Longrightarrow> c = c'"
proof (induction data arbitrary: c c')
  case (Cons b data)
  then have "crc_step b c = crc_step b c'" by simp
  then have "c XOR ucast b = c' XOR ucast b" unfolding crc_step_serial by (rule crc_bits_inj)
  then show ?case by (simp only: xor.commute [of _ "ucast b"] word_xor_cancel)
qed simp

text \<open>C13: the table-driven CRC-32 equals the bit-serial shift register of IEEE 802.3, does not depend
  on how the data is split over calls, and detects every change of a single byte: two images
  that differ in exactly one byte have different checksums.\<close>

theorem crc32_correct:
  "crc32_update crc data = crc_serial crc data \<and>
   fold (\<lambda>d c. crc32_update c d) pieces crc = crc32_update crc (concat pieces) \<and>
   (i < length data \<and> data ! i \<noteq> b \<longrightarrow> crc32_update crc (data[i := b]) \<noteq> crc32_update crc data)"
proof (intro conjI impI)
  show "crc32_update crc data = crc_serial crc data" by (rule crc32_serial)
  show "fold (\<lambda>d c. crc32_update c d) pieces crc = crc32_update crc (concat pieces)"
    by (rule crc_stream.feed_pieces)
next
  assume i: "i < length data \<and> data ! i \<noteq> b"
  let ?c = "fold crc_step (take i data) (NOT crc)"
  have "data = take i data @ data ! i # drop (Suc i) data"
    using i by (intro id_take_nth_drop) simp
  then have o: "fold crc_step data (NOT crc) = fold crc_step (drop (Suc i) data) (crc_step (data ! i) ?c)"
    by (metis fold_append comp_apply fold_simps(2))
  have u: "fold crc_step (data[i := b]) (NOT crc) = fold crc_step (drop (Suc i) data) (crc_step b ?c)"
    using i by (simp add: upd_conv_take_nth_drop)
  show "crc32_update crc (data[i := b]) \<noteq> crc32_update crc data"
  proof
    assume "crc32_update crc (data[i := b]) = crc32_update crc data"
    then have "fold crc_step (data[i := b]) (NOT crc) = fold crc_step data (NOT crc)"
      by (simp add: crc32_update_def)
    then have "crc_step b ?c = crc_step (data ! i) ?c"
      unfolding o u by (rule crc_fold_inj)
    then have "?c XOR ucast b = ?c XOR ucast (data ! i)"
      unfolding crc_step_serial by (rule crc_bits_inj)
    then have "b = data ! i" unfolding word_xor_cancel by (rule byte_ucast_inj)
    with i show False by simp
  qed
qed

theorem crc32_correct_witness:
  "crc32_update 0 [1, 9, 3] \<noteq> crc32_update 0 [1, 2, 3]"
  using crc32_correct [of 0 "[1, 2, 3]" "[]" 1 9] by (elim conjE) simp

section \<open>SHA-256\<close>

text \<open>
  Reference: the hash of FIPS 180-4 over a whole message: append a one bit, zeroes up to 56
  modulo 64 bytes and the bit length, and compress block by block.
\<close>

function sha_blocks :: "bytes \<Rightarrow> u32 list \<Rightarrow> u32 list" where
  "sha_blocks data st =
     (if length data < 64 then st else sha_blocks (drop 64 data) (sha256_block (take 64 data) st))"
  by pat_completeness auto
termination by (relation "measure (\<lambda>(d, _). length d)") auto

declare sha_blocks.simps [simp del]

definition be64_bytes :: "u64 \<Rightarrow> bytes" where
  "be64_bytes v = map (\<lambda>i. ucast (drop_bit (56 - i * 8) v)) [0..<8]"

definition sha_pad :: "bytes \<Rightarrow> bytes" where
  "sha_pad m = m @ 0x80 # replicate ((119 - length m mod 64) mod 64) 0 @
     be64_bytes (of_nat (length m) * 8)"

definition sha256_spec :: "bytes \<Rightarrow> bytes" where
  "sha256_spec m = sha_digest (sha_blocks (sha_pad m) sha_initial)"

lemma sha_blocks_short: "length data < 64 \<Longrightarrow> sha_blocks data st = st"
  by (simp add: sha_blocks.simps)

lemma sha_blocks_append:
  "64 dvd length a \<Longrightarrow> sha_blocks (a @ b) st = sha_blocks b (sha_blocks a st)"
proof (induction a st rule: sha_blocks.induct)
  case (1 a st)
  show ?case
  proof (cases "a = []")
    case True
    then show ?thesis by (simp add: sha_blocks_short)
  next
    case False
    with 1 have l: "64 \<le> length a" by (auto dest: dvd_imp_le)
    then have "64 dvd length (drop 64 a)" using 1(2) by (simp add: dvd_minus_self)
    with 1(1) l have "sha_blocks (drop 64 a @ b) (sha256_block (take 64 a) st) =
        sha_blocks b (sha_blocks (drop 64 a) (sha256_block (take 64 a) st))"
      by simp
    with l show ?thesis
      by (subst sha_blocks.simps, subst (3) sha_blocks.simps) simp
  qed
qed

lemma sha_blocks_one: "length b = 64 \<Longrightarrow> sha_blocks b st = sha256_block b st"
  by (simp add: sha_blocks.simps [of b] sha_blocks_short)

text \<open>
  After the bytes \<open>m\<close>: the full blocks are compressed and the rest of \<open>m\<close> is in the buffer.
\<close>

definition sha_inv :: "bytes \<Rightarrow> sha256 \<Rightarrow> bool" where
  "sha_inv m sha \<longleftrightarrow> sha_used sha < 64 \<and> length (sha_buf sha) = 64 \<and>
     (\<exists>full. m = full @ take (sha_used sha) (sha_buf sha) \<and> 64 dvd length full \<and>
        sha_state sha = sha_blocks full sha_initial)"

lemma sha_inv_init: "length (sha_buf sha) = 64 \<Longrightarrow> sha_inv [] (sha256_init sha)"
  by (simp add: sha_inv_def sha256_init_def sha_blocks_short)

lemma sha_inv_used: "sha_inv m sha \<Longrightarrow> sha_used sha = length m mod 64"
  unfolding sha_inv_def by (auto elim!: dvdE)

lemma sha_loop_inv: "sha_inv m sha \<Longrightarrow> sha_inv (m @ data) (sha_loop data sha) \<and>
    sha_bits (sha_loop data sha) = sha_bits sha"
proof (induction data sha arbitrary: m rule: sha_loop.induct)
  case (1 data sha)
  show ?case
  proof (cases "data = []")
    case True
    with 1(3) show ?thesis by (simp add: sha_loop.simps [of "[]"])
  next
    case ne: False
    have u: "sha_used sha < 64" and l: "length (sha_buf sha) = 64" using 1(3) by (simp_all add: sha_inv_def)
    define n where "n = min (64 - sha_used sha) (length data)"
    define buf where "buf = blit (sha_used sha) (take n data) (sha_buf sha)"
    obtain full where f: "m = full @ take (sha_used sha) (sha_buf sha)" "64 dvd length full"
        "sha_state sha = sha_blocks full sha_initial"
      using 1(3) by (auto simp: sha_inv_def)
    have nl: "length (take n data) = n" "sha_used sha + n \<le> 64" using u by (simp_all add: n_def)
    then have bl: "length buf = 64" using l by (simp add: buf_def)
    have tk: "take (sha_used sha + n) buf = take (sha_used sha) (sha_buf sha) @ take n data"
      using l nl by (simp add: buf_def blit_def)
    have m: "m @ take n data = full @ take (sha_used sha + n) buf" by (simp add: f(1) tk)
    show ?thesis
    proof (cases "sha_used sha + n = 64")
      case True
      let ?s = "sha\<lparr>sha_buf := buf, sha_state := sha256_block buf (sha_state sha), sha_used := 0\<rparr>"
      have "sha_loop data sha = sha_loop (drop n data) ?s"
        using ne u True by (simp add: sha_loop.simps [of data] Let_def n_def buf_def)
      moreover have "sha_inv (m @ take n data) ?s"
        using bl f m True
        by (auto simp: sha_inv_def sha_blocks_append sha_blocks_one intro!: exI [of _ "full @ buf"])
      ultimately show ?thesis
        using 1(1) [of n buf "sha_used sha + n" "m @ take n data"] ne u True
        by (simp add: n_def buf_def)
    next
      case False
      let ?s = "sha\<lparr>sha_buf := buf, sha_used := sha_used sha + n\<rparr>"
      have "sha_loop data sha = sha_loop (drop n data) ?s"
        using ne u False by (simp add: sha_loop.simps [of data] Let_def n_def buf_def)
      moreover have "sha_inv (m @ take n data) ?s"
        using bl f m False nl by (auto simp: sha_inv_def)
      ultimately show ?thesis
        using 1(2) [of n buf "sha_used sha + n" "m @ take n data"] ne u False
        by (simp add: n_def buf_def)
    qed
  qed
qed

lemma sha_update_inv:
  "sha_inv m sha \<Longrightarrow> sha_bits sha = of_nat (length m) * 8 \<Longrightarrow>
     sha_inv (m @ data) (sha256_update data sha) \<and>
     sha_bits (sha256_update data sha) = of_nat (length (m @ data)) * 8"
  using sha_loop_inv [of m "sha\<lparr>sha_bits := sha_bits sha + of_nat (length data) * 8\<rparr>" data]
  by (simp add: sha256_update_def sha_inv_def algebra_simps)

lemma sha_updates_inv:
  "sha_inv m sha \<Longrightarrow> sha_bits sha = of_nat (length m) * 8 \<Longrightarrow>
     sha_inv (m @ concat ds) (fold sha256_update ds sha) \<and>
     sha_bits (fold sha256_update ds sha) = of_nat (length (m @ concat ds)) * 8"
proof (induction ds arbitrary: m sha)
  case Nil
  then show ?case by simp
next
  case (Cons d ds)
  from sha_update_inv [OF Cons.prems, of d]
  have "sha_inv (m @ d) (sha256_update d sha)"
    "sha_bits (sha256_update d sha) = of_nat (length (m @ d)) * 8" by blast+
  from Cons.IH [OF this] show ?case by simp
qed

lemma blit_tail: "length a = off \<Longrightarrow> length b \<le> length src \<Longrightarrow> blit off src (a @ b) = a @ src"
  by (simp add: blit_def)

lemma sha_final_inv:
  assumes inv: "sha_inv m sha" and bits: "sha_bits sha = of_nat (length m) * 8"
  shows "sha256_final sha = sha256_spec m"
proof -
  let ?u = "sha_used sha" and ?len = "be64_bytes (sha_bits sha)"
  have u: "?u < 64" and l: "length (sha_buf sha) = 64" using inv by (simp_all add: sha_inv_def)
  obtain full where f: "m = full @ take ?u (sha_buf sha)" "64 dvd length full"
      "sha_state sha = sha_blocks full sha_initial"
    using inv by (auto simp: sha_inv_def)
  define t where "t = take ?u (sha_buf sha)"
  have tl: "length t = ?u" using u l by (simp add: t_def)
  have len: "length ?len = 8" by (simp add: be64_bytes_def)
  have mm: "length m mod 64 = ?u" using sha_inv_used [OF inv] by simp
  have b0: "(sha_buf sha)[?u := 0x80] = t @ 0x80 # drop (Suc ?u) (sha_buf sha)"
    using u l by (simp add: upd_conv_take_nth_drop t_def)
  have spec: "sha256_spec m = sha_digest (sha_blocks
      (t @ 0x80 # replicate ((119 - ?u) mod 64) 0 @ ?len) (sha_blocks full sha_initial))"
  proof -
    have "sha_pad m = m @ 0x80 # replicate ((119 - ?u) mod 64) 0 @ ?len"
      by (simp add: sha_pad_def mm bits)
    also have "\<dots> = full @ (t @ 0x80 # replicate ((119 - ?u) mod 64) 0 @ ?len)"
      by (subst f(1)) (simp add: t_def)
    finally have "sha_pad m = full @ (t @ 0x80 # replicate ((119 - ?u) mod 64) 0 @ ?len)" .
    then show ?thesis by (simp only: sha256_spec_def sha_blocks_append [OF f(2)])
  qed
  show ?thesis
  proof (cases "?u + 1 > 56")
    case False
    then have z: "(119 - ?u) mod 64 = 55 - ?u"
      by (simp add: mod_if)
    have b2: "blit (?u + 1) (replicate (56 - (?u + 1)) 0) (t @ 0x80 # drop (Suc ?u) (sha_buf sha)) =
        t @ 0x80 # replicate (55 - ?u) 0 @ drop 56 (sha_buf sha)"
    proof -
      have "drop (56 - ?u) (0x80 # drop (Suc ?u) (sha_buf sha)) = drop 56 (sha_buf sha)"
      proof (cases "56 - ?u")
        case (Suc k)
        then have "Suc (k + ?u) = 56" using False by linarith
        with Suc show ?thesis by simp
      qed (use False in simp)
      then show ?thesis using False l tl by (simp add: blit_def)
    qed
    have b3: "blit 56 ?len (t @ 0x80 # replicate (55 - ?u) 0 @ drop 56 (sha_buf sha)) =
        t @ 0x80 # replicate (55 - ?u) 0 @ ?len"
      using False l tl len blit_tail [of "t @ 0x80 # replicate (55 - ?u) 0" 56 "drop 56 (sha_buf sha)" ?len]
      by simp
    have "sha256_final sha =
        sha_digest (sha256_block (t @ 0x80 # replicate (55 - ?u) 0 @ ?len) (sha_state sha))"
      using False unfolding sha256_final_def Let_def b0
      by (simp add: b2 [simplified] b3 [unfolded be64_bytes_def] be64_bytes_def)
    then show ?thesis
      unfolding spec z f(3) using False tl len by (simp add: sha_blocks_one)
  next
    case True
    then have z: "(119 - ?u) mod 64 = 119 - ?u" using u by (simp add: mod_if)
    let ?b1 = "t @ 0x80 # replicate (63 - ?u) (0 :: u8)"
    let ?b2 = "replicate 56 (0 :: u8) @ ?len"
    have b1: "blit (?u + 1) (replicate (64 - (?u + 1)) 0) (t @ 0x80 # drop (Suc ?u) (sha_buf sha)) = ?b1"
      using True l tl u by (simp add: blit_def)
    have b2: "blit 56 ?len (blit 0 (replicate 56 0) ?b1) = ?b2"
      using u tl len by (simp add: blit_def)
    have "replicate (119 - ?u) (0 :: u8) = replicate (63 - ?u) 0 @ replicate 56 0"
      using u by (simp flip: replicate_add)
    then have e: "t @ 0x80 # replicate (119 - ?u) 0 @ ?len = ?b1 @ ?b2" by simp
    have "sha256_final sha = sha_digest (sha256_block ?b2 (sha256_block ?b1 (sha_state sha)))"
      using True unfolding sha256_final_def Let_def b0
      by (simp add: b1 [simplified] b2 [unfolded be64_bytes_def, simplified] be64_bytes_def)
    moreover have "length ?b1 = 64" "length ?b2 = 64" using u tl len by simp_all
    moreover have "sha_blocks (?b1 @ ?b2) st = sha256_block ?b2 (sha256_block ?b1 st)" for st
      using calculation(2,3) by (simp only: sha_blocks_append [of ?b1] sha_blocks_one dvd_refl)
    ultimately show ?thesis
      unfolding spec z e f(3) by simp
  qed
qed

text \<open>C14: the incremental SHA-256 that checks a firmware module is the hash of the whole message:
  initialise, feed the data in any pieces, finalise, and the digest is that of the padded
  concatenation, whatever the cuts and whatever the buffer held before.\<close>

theorem sha256_incremental:
  assumes "length (sha_buf sha) = 64"
  shows "sha256_final (fold sha256_update pieces (sha256_init sha)) = sha256_spec (concat pieces)"
proof -
  have "sha_bits (sha256_init sha) = of_nat (length []) * 8" by (simp add: sha256_init_def)
  from sha_updates_inv [OF sha_inv_init [OF assms] this, of pieces] sha_final_inv
  show ?thesis by simp
qed

theorem sha256_incremental_witness:
  "let sha = \<lparr>sha_state = [], sha_bits = 9, sha_buf = replicate 64 7, sha_used = 3\<rparr>
   in sha256_final (fold sha256_update [[1, 2], [], [3]] (sha256_init sha)) =
      sha256_final (fold sha256_update [[1, 2, 3]] (sha256_init sha))"
  using sha256_incremental [of "\<lparr>sha_state = [], sha_bits = 9, sha_buf = replicate 64 7, sha_used = 3\<rparr>" "[[1, 2], [], [3]]"]
    sha256_incremental [of "\<lparr>sha_state = [], sha_bits = 9, sha_buf = replicate 64 7, sha_used = 3\<rparr>" "[[1, 2, 3]]"]
  unfolding Let_def by simp

end
