(* ===== verification/FwZip_Correct.thy ===== *)
theory FwZip_Correct
  imports FwZip FwDigest_Correct
begin

text \<open>
  What the archive reader guarantees to the code that installs its output: only safe destinations
  are ever opened, an image is only ever closed as complete after all of it was verified, exactly
  one boot image is delivered by a successful run, and feeding always returns when the inflater
  makes progress.
\<close>

section \<open>Destinations\<close>

definition module_path :: "bytes \<Rightarrow> bool" where
  "module_path p \<longleftrightarrow> (\<exists>nm. p = module_dir @ nm @ module_ext \<and> 1 \<le> length nm \<and> length nm \<le> 8 \<and>
     list_all module_char nm)"

lemma module_name_split:
  "module_name_ok m \<Longrightarrow> \<exists>nm. m = nm @ module_ext \<and> 1 \<le> length nm \<and> length nm \<le> 8 \<and>
     list_all module_char nm"
proof -
  assume m: "module_name_ok m"
  let ?nm = "take (length m - 4) m"
  from m have "5 \<le> length m" "length m \<le> 12" "drop (length m - 4) m = module_ext"
    "list_all module_char ?nm"
    by (auto simp: module_name_ok_def Let_def)
  moreover from this(3) have "m = ?nm @ module_ext" by (metis append_take_drop_id)
  ultimately show ?thesis by (intro exI [of _ ?nm]) auto
qed

lemma module_path_not_boot: "module_path p \<Longrightarrow> p \<noteq> boot_name"
  by (auto simp: module_path_def boot_name_def module_dir_def of_string_def)

lemma bundle_target_cases:
  assumes "bundle_target_name z = (t, z1)"
  shows "z1 = z\<lparr>z_root := z_root z1, z_entry_name := z_entry_name z1\<rparr>"
    "t = Some Entry_Boot \<Longrightarrow> z_entry_name z1 = boot_name \<and> \<not> z_found_boot z"
    "t = Some Entry_Module \<Longrightarrow> \<exists>m. module_name_ok m \<and> z_entry_name z1 = module_dir @ m"
  using assms
  by (auto simp: bundle_target_name_def Let_def split: if_splits option.splits prod.splits)

lemma bundle_target_module:
  "bundle_target_name z = (Some Entry_Module, z1) \<Longrightarrow> module_path (z_entry_name z1)"
  using bundle_target_cases(3) module_name_split by (fastforce simp: module_path_def)

section \<open>The calls the client sees\<close>

text \<open>
  Every callback call is logged, newest first, and is accepted or refused by an arbitrary
  function of the call and the history: this covers every client.
\<close>

datatype zip_event = Ev_Begin bytes | Ev_Data bytes | Ev_End bytes

type_synonym zip_log = "zip_event list"

definition log_call :: "(zip_event \<Rightarrow> zip_log \<Rightarrow> bool) \<Rightarrow> zip_event \<Rightarrow> zip_log \<Rightarrow> bool \<times> zip_log" where
  "log_call accept e l = (\<not> accept e l, e # l)"

definition log_env ::
    "(zip_event \<Rightarrow> zip_log \<Rightarrow> bool) \<Rightarrow> ('i \<Rightarrow> 'i) \<Rightarrow>
     ('i \<Rightarrow> bytes \<Rightarrow> bytes \<Rightarrow> nat \<Rightarrow> nat \<Rightarrow> tinfl_status \<times> nat \<times> bytes \<times> nat \<times> 'i) \<Rightarrow>
     ('i, zip_log) zip_env" where
  "log_env accept ti tinfl =
     \<lparr>ze_sink = (\<lambda>d. log_call accept (Ev_Data d)),
      ze_begin = Some (\<lambda>p. log_call accept (Ev_Begin p)),
      ze_end = Some (\<lambda>p. log_call accept (Ev_End p)),
      ze_tinfl_init = ti, ze_tinfl = tinfl\<rparr>"

text \<open>The bytes received for the file that is open, and its path.\<close>

fun image_of :: "zip_log \<Rightarrow> bytes" where
  "image_of (Ev_Data d # l) = image_of l @ d"
| "image_of _ = []"

fun open_path :: "zip_log \<Rightarrow> bytes option" where
  "open_path (Ev_Data d # l) = open_path l"
| "open_path (Ev_Begin p # l) = Some p"
| "open_path _ = None"

text \<open>What a complete image must be.\<close>

definition boot_image_ok :: "bytes \<Rightarrow> bool" where
  "boot_image_ok b \<longleftrightarrow> BOOT_MIN_BYTES \<le> length b \<and> length b \<le> BOOT_MAX_BYTES \<and>
     boot_header_ok b (length b)"

definition module_image_ok :: "bytes \<Rightarrow> bool" where
  "module_image_ok b \<longleftrightarrow> MODULE_HEADER_BYTES \<le> length b \<and>
     (\<exists>sz. module_header_ok (take MODULE_HEADER_BYTES b) = Some sz \<and>
        length b = MODULE_HEADER_BYTES + unat sz) \<and>
     sha256_spec (drop MODULE_HEADER_BYTES b) = sub_at 52 32 b"

definition image_ok :: "bytes \<Rightarrow> bytes \<Rightarrow> bool" where
  "image_ok p b \<longleftrightarrow> (if p = boot_name then boot_image_ok b else module_path p \<and> module_image_ok b)"

fun log_ok :: "zip_log \<Rightarrow> bool" where
  "log_ok [] = True"
| "log_ok (Ev_Begin p # l) = ((p = boot_name \<or> module_path p) \<and> log_ok l)"
| "log_ok (Ev_Data d # l) = (open_path l \<noteq> None \<and> log_ok l)"
| "log_ok (Ev_End p # l) = (open_path l = Some p \<and> image_ok p (image_of l) \<and> log_ok l)"

section \<open>Tracking an entry\<close>

definition head_holds :: "nat \<Rightarrow> bytes \<Rightarrow> bytes \<Rightarrow> bool" where
  "head_holds limit img head \<longleftrightarrow> length head = MODULE_HEADER_BYTES \<and>
     take (min limit (length img)) head = take limit img"

lemma take_blit: "off + length src \<le> length dst \<Longrightarrow> take (off + length src) (blit off src dst) = take off dst @ src"
  by (simp add: blit_def)

lemma keep_head_holds:
  assumes h: "head_holds limit img (z_head z)" and l: "limit \<le> MODULE_HEADER_BYTES"
    and o: "z_out_total z = length img" "length img < limit"
    and k: "keep_head limit data z = (n, z1)"
  shows "n = min (limit - length img) (length data)" "head_holds limit (img @ data) (z_head z1)"
    "z1 = z\<lparr>z_head := z_head z1\<rparr>"
proof -
  from k o show n: "n = min (limit - length img) (length data)" "z1 = z\<lparr>z_head := z_head z1\<rparr>"
    by (auto simp: keep_head_def Let_def)
  have z1: "z_head z1 = blit (length img) (take n data) (z_head z)"
    using k o by (auto simp: keep_head_def Let_def)
  have hl: "length (z_head z) = MODULE_HEADER_BYTES" "take (length img) (z_head z) = img"
    using h o by (simp_all add: head_holds_def)
  have nl: "length (take n data) = n" "length img + n \<le> limit" "min limit (length (img @ data)) = length img + n"
    using n o by auto
  have "take (length img + n) (z_head z1) = img @ take n data"
    using take_blit [of "length img" "take n data" "z_head z"] hl nl l by (simp add: z1)
  also have "\<dots> = take limit (img @ data)"
    using n o by (auto simp: min_def)
  finally show "head_holds limit (img @ data) (z_head z1)"
    using nl hl l by (simp add: head_holds_def z1)
qed

lemma head_holds_grow: "head_holds limit img head \<Longrightarrow> limit \<le> length img \<Longrightarrow> head_holds limit (img @ data) head"
  by (simp add: head_holds_def min_def)

lemma head_holds_init: "length head = MODULE_HEADER_BYTES \<Longrightarrow> head_holds limit [] head"
  by (simp add: head_holds_def)

definition module_tracked :: "bytes \<Rightarrow> 'i zip \<Rightarrow> bool" where
  "module_tracked img z \<longleftrightarrow> head_holds MODULE_HEADER_BYTES img (z_head z) \<and>
     (z_module_ok z \<longleftrightarrow> MODULE_HEADER_BYTES \<le> length img) \<and>
     (z_module_ok z \<longrightarrow>
        module_header_ok (z_head z) = Some (z_image_size z) \<and>
        length img \<le> MODULE_HEADER_BYTES + unat (z_image_size z) \<and>
        sha_inv (drop MODULE_HEADER_BYTES img) (z_sha z) \<and>
        sha_bits (z_sha z) = of_nat (length img - MODULE_HEADER_BYTES) * 8)"

definition tracked :: "bytes \<Rightarrow> 'i zip \<Rightarrow> bool" where
  "tracked img z \<longleftrightarrow> z_out_total z = length img \<and> z_crc z = crc32_update 0 img \<and>
     (case z_target z of
        Entry_None \<Rightarrow> True
      | Entry_Boot \<Rightarrow> head_holds BOOT_HEADER_BYTES img (z_head z) \<and> length img \<le> BOOT_MAX_BYTES
      | Entry_Module \<Rightarrow> module_tracked img z)"

lemma module_output_frame:
  "module_output data z = (err, z2) \<Longrightarrow>
     z2 = z\<lparr>z_head := z_head z2, z_image_size := z_image_size z2, z_module_ok := z_module_ok z2, z_sha := z_sha z2\<rparr>"
  "module_output data z = (err, z2) \<Longrightarrow> err \<noteq> Some Zip_Done"
  by (auto simp: module_output_def keep_head_def Let_def split: if_splits option.splits)

lemma module_output_tracked:
  assumes t: "module_tracked img z" and o: "z_out_total z = length img" and d: "data \<noteq> []"
    and sb: "length (sha_buf (z_sha z)) = 64"
    and m: "module_output data z = (None, z2)"
  shows "module_tracked (img @ data) z2"
proof -
  let ?H = "MODULE_HEADER_BYTES"
  show "module_tracked (img @ data) z2"
  proof (cases "length img < ?H")
    case False
    with t have ok: "z_module_ok z" by (simp add: module_tracked_def)
    have z2: "length img + length data \<le> ?H + unat (z_image_size z)"
        "z2 = z\<lparr>z_sha := sha256_update data (z_sha z)\<rparr>"
      using m False o ok d by (auto simp: module_output_def Let_def split: if_splits)
    have i: "sha_inv (drop ?H img) (z_sha z)" "sha_bits (z_sha z) = of_nat (length (drop ?H img)) * 8"
      using t ok by (simp_all add: module_tracked_def)
    from sha_update_inv [OF i, of data] z2 t ok False show ?thesis
      by (simp add: module_tracked_def head_holds_grow)
  next
    case True
    obtain n z1 where k: "keep_head ?H data z = (n, z1)" by fastforce
    from t have hh: "head_holds ?H img (z_head z)" by (simp add: module_tracked_def)
    note kh = keep_head_holds [OF hh order_refl o True k]
    have nok: "\<not> z_module_ok z1"
      using t True by (subst kh(3)) (simp add: module_tracked_def)
    have o1: "z_out_total z1 = length img" using o by (subst kh(3)) simp
    show ?thesis
    proof (cases "length img + n = ?H")
      case False
      then have "n = length data" "length (img @ data) < ?H" using kh(1) True by auto
      moreover have "z2 = z1"
        using m k False True o nok by (auto simp: module_output_def Let_def split: if_splits)
      ultimately show ?thesis
        using kh(2) nok by (simp add: module_tracked_def)
    next
      case eq: True
      then have n: "n \<le> length data" "?H \<le> length (img @ data)" "drop ?H (img @ data) = drop n data"
        using kh(1) True by auto
      from m k eq True o obtain sz where
        sz: "module_header_ok (z_head z1) = Some sz" "length img + length data \<le> ?H + unat sz"
          "z2 = z1\<lparr>z_image_size := sz, z_module_ok := True,
             z_sha := (if n < length data then sha256_update (drop n data) (sha256_init (z_sha z1))
                       else sha256_init (z_sha z1))\<rparr>"
        using o1 by (auto simp: module_output_def Let_def split: if_splits option.splits)
      have "length (sha_buf (z_sha z1)) = 64" using sb by (subst kh(3)) simp
      then have i: "sha_inv [] (sha256_init (z_sha z1))"
        "sha_bits (sha256_init (z_sha z1)) = of_nat (length []) * 8"
        using sha_inv_init by (blast, simp add: sha256_init_def)
      have "sha_inv (drop n data) (z_sha z2) \<and> sha_bits (z_sha z2) = of_nat (length (drop n data)) * 8"
        using sha_update_inv [OF i, of "drop n data"] i sz(3) n(1)
        by (cases "n < length data") simp_all
      moreover have "length (img @ data) - ?H = length (drop n data)"
        using eq n(1) by simp
      ultimately show ?thesis
        using kh(2) sz n by (simp add: module_tracked_def)
    qed
  qed
qed

lemma sha_loop_len: "length (sha_buf sha) = 64 \<Longrightarrow> length (sha_buf (sha_loop data sha)) = 64"
proof (induction data sha rule: sha_loop.induct)
  case (1 data sha)
  show ?case
  proof (cases "data = [] \<or> sha_used sha \<ge> 64")
    case True
    with 1(3) show ?thesis by (subst sha_loop.simps) simp
  next
    case False
    let ?n = "min (64 - sha_used sha) (length data)"
    have l: "length (blit (sha_used sha) (take ?n data) (sha_buf sha)) = 64"
      using False 1(3) by (subst length_blit) auto
    show ?thesis
    proof (cases "sha_used sha + ?n = 64")
      case True
      have "length (sha_buf (sha_loop (drop ?n data) (sha\<lparr>sha_buf := blit (sha_used sha) (take ?n data) (sha_buf sha),
          sha_state := sha256_block (blit (sha_used sha) (take ?n data) (sha_buf sha)) (sha_state sha),
          sha_used := 0\<rparr>))) = 64"
        by (rule 1(1) [OF False refl refl refl True]) (simp add: l)
      with False True show ?thesis by (subst sha_loop.simps) (simp only: Let_def if_False if_True simp_thms)
    next
      case F: False
      have "length (sha_buf (sha_loop (drop ?n data) (sha\<lparr>sha_buf := blit (sha_used sha) (take ?n data) (sha_buf sha),
          sha_used := sha_used sha + ?n\<rparr>))) = 64"
        by (rule 1(2) [OF False refl refl refl F]) (simp add: l)
      with False F show ?thesis by (subst sha_loop.simps) (simp only: Let_def if_False)
    qed
  qed
qed

lemma sha_buf_len [simp]:
  "length (sha_buf sha) = 64 \<Longrightarrow> length (sha_buf (sha256_update data sha)) = 64"
  "sha_buf (sha256_init sha) = sha_buf sha"
  by (simp_all add: sha256_update_def sha_loop_len sha256_init_def)

section \<open>The invariant\<close>

definition active :: "'i zip \<Rightarrow> zip_log \<Rightarrow> bool" where
  "active z l \<longleftrightarrow> open_path l = Some (z_entry_name z) \<and> tracked (image_of l) z \<and>
     (z_target z = Entry_Boot \<longrightarrow> z_entry_name z = boot_name \<and> \<not> z_found_boot z) \<and>
     (z_target z = Entry_Module \<longrightarrow> module_path (z_entry_name z))"

definition zip_base :: "'i zip \<Rightarrow> zip_log \<Rightarrow> bool" where
  "zip_base z l \<longleftrightarrow> z_bundle z \<and> length (z_head z) = MODULE_HEADER_BYTES \<and>
     length (sha_buf (z_sha z)) = 64 \<and> log_ok l \<and>
     count_list l (Ev_End boot_name) = (if z_found_boot z then 1 else 0)"

definition zip_ok :: "'i zip \<Rightarrow> zip_log \<Rightarrow> bool" where
  "zip_ok z l \<longleftrightarrow> zip_base z l \<and>
     (z_state z \<in> {ZS_Data, ZS_Descriptor} \<and> z_target z \<noteq> Entry_None \<longrightarrow> active z l) \<and>
     (z_state z = ZS_Skip \<longrightarrow> z_target z = Entry_None) \<and>
     (z_state z = ZS_Finished \<and> z_result z = Zip_Done \<longrightarrow> z_found_boot z)"

text \<open>The fields that the output of entry data leaves alone.\<close>

definition same_entry :: "'i zip \<Rightarrow> 'i zip \<Rightarrow> bool" where
  "same_entry z z1 \<longleftrightarrow> z_state z1 = z_state z \<and> z_bundle z1 = z_bundle z \<and>
     z_entry_name z1 = z_entry_name z \<and> z_flags z1 = z_flags z \<and> z_method z1 = z_method z \<and>
     z_skip z1 = z_skip z \<and> z_target z1 = z_target z \<and> z_found_boot z1 = z_found_boot z \<and>
     z_hdr_need z1 = z_hdr_need z \<and> z_hdr_have z1 = z_hdr_have z \<and> z_inflater z1 = z_inflater z \<and>
     z_dict_ofs z1 = z_dict_ofs z"

lemma same_entry_updates [simp]:
  "same_entry z z"
  "same_entry z (z1\<lparr>z_out_total := n\<rparr>) = same_entry z z1"
  by (simp_all add: same_entry_def)

lemma same_entry_of_frame:
  "z2 = z\<lparr>z_crc := a, z_head := b, z_image_size := c, z_module_ok := d, z_sha := e\<rparr> \<Longrightarrow> same_entry z z2"
  by (simp add: same_entry_def)

lemma zip_ok_fail: "zip_base z l \<Longrightarrow> r \<noteq> Zip_Done \<Longrightarrow> zip_ok (zip_fail r z) l"
  by (simp add: zip_ok_def zip_base_def zip_fail_def)

text \<open>What is common to all results of \<^verbatim>\<open>zip_output\<close> on a nonempty piece.\<close>

definition output_prepare :: "bytes \<Rightarrow> 'i zip \<Rightarrow> zip_result option \<times> 'i zip" where
  "output_prepare data z =
     (let z1 = z\<lparr>z_crc := crc32_update (z_crc z) data\<rparr> in
      case z_target z of
        Entry_Boot \<Rightarrow>
          (if z_out_total z + length data > BOOT_MAX_BYTES then Some Zip_Err_Size else None,
           if z_out_total z < BOOT_HEADER_BYTES then snd (keep_head BOOT_HEADER_BYTES data z1) else z1)
      | Entry_Module \<Rightarrow> module_output data z1
      | Entry_None \<Rightarrow> (None, z1))"

lemma zip_output_cases:
  assumes "zip_output env data z w = (err, z1, w1)"
  obtains "data = []" "err = None" "z1 = z" "w1 = w"
  | "data \<noteq> []" "err = Some Zip_Err_Size" "z1 = z" "w1 = w"
  | r z2 where "data \<noteq> []" "output_prepare data z = (Some r, z2)" "err = Some r" "z1 = z2" "w1 = w"
  | z2 refused where "data \<noteq> []" "output_prepare data z = (None, z2)"
      "(refused, w1) = (if z_target z \<noteq> Entry_None then ze_sink env data w else (False, w))"
      "err = (if refused then Some Zip_Err_Write else None)"
      "z1 = (if refused then z2 else z2\<lparr>z_out_total := z_out_total z2 + length data\<rparr>)"
proof -
  obtain e z2 where p: "output_prepare data z = (e, z2)" by fastforce
  have o: "zip_output env data z w =
     (if data = [] then (None, z, w)
      else if length data > ULONG_MAX - z_out_total z then (Some Zip_Err_Size, z, w)
      else case output_prepare data z of (err, z2) \<Rightarrow>
        if err \<noteq> None then (err, z2, w)
        else case (if z_target z \<noteq> Entry_None then ze_sink env data w else (False, w)) of
          (refused, w1) \<Rightarrow>
            if refused then (Some Zip_Err_Write, z2, w1)
            else (None, z2\<lparr>z_out_total := z_out_total z2 + length data\<rparr>, w1))"
    unfolding zip_output_def output_prepare_def Let_def
    by (cases "z_target z") simp_all
  obtain refused v where v: "(if z_target z \<noteq> Entry_None then ze_sink env data w else (False, w)) = (refused, v)"
    by fastforce
  consider "data = []" | "data \<noteq> []" "length data > ULONG_MAX - z_out_total z"
    | "data \<noteq> []" "\<not> length data > ULONG_MAX - z_out_total z" by blast
  then show ?thesis
  proof cases
    case 1
    with assms o show ?thesis by (intro that(1)) simp_all
  next
    case 2
    with assms o show ?thesis by (intro that(2)) simp_all
  next
    case 3
    show ?thesis
    proof (cases e)
      case None
      with 3 assms o p v show ?thesis
        by (intro that(4) [of z2 refused]) (cases refused, simp_all)+
    next
      case (Some r)
      with 3 assms o p show ?thesis by (intro that(3) [of r z2]) simp_all
    qed
  qed
qed

lemma output_prepare_frame:
  "output_prepare data z = (e, z2) \<Longrightarrow>
     z2 = z\<lparr>z_crc := z_crc z2, z_head := z_head z2, z_image_size := z_image_size z2,
            z_module_ok := z_module_ok z2, z_sha := z_sha z2\<rparr> \<and> e \<noteq> Some Zip_Done"
  "output_prepare data z = (e, z2) \<Longrightarrow> same_entry z z2"
  "output_prepare data z = (e, z2) \<Longrightarrow> z_out_total z2 = z_out_total z"
proof -
  have frame: "z2 = z\<lparr>z_crc := z_crc z2, z_head := z_head z2, z_image_size := z_image_size z2,
            z_module_ok := z_module_ok z2, z_sha := z_sha z2\<rparr> \<and> e \<noteq> Some Zip_Done"
    if "output_prepare data z = (e, z2)"
    using that
  proof (cases "z_target z")
  case Entry_Module
  with that have m: "module_output data (z\<lparr>z_crc := crc32_update (z_crc z) data\<rparr>) = (e, z2)"
    by (simp add: output_prepare_def Let_def)
  from module_output_frame(1) [OF this] module_output_frame(2) [OF this] show ?thesis
    by (cases z, cases z2) auto
qed (auto simp: output_prepare_def keep_head_def Let_def split: if_splits)
  show "output_prepare data z = (e, z2) \<Longrightarrow>
     z2 = z\<lparr>z_crc := z_crc z2, z_head := z_head z2, z_image_size := z_image_size z2,
            z_module_ok := z_module_ok z2, z_sha := z_sha z2\<rparr> \<and> e \<noteq> Some Zip_Done"
    by (rule frame)
  show "output_prepare data z = (e, z2) \<Longrightarrow> same_entry z z2"
    using frame same_entry_of_frame by blast
  have "z2 = z\<lparr>z_crc := a, z_head := b, z_image_size := c, z_module_ok := d, z_sha := f\<rparr> \<Longrightarrow>
      z_out_total z2 = z_out_total z" for a b c d f by simp
  then show "output_prepare data z = (e, z2) \<Longrightarrow> z_out_total z2 = z_out_total z"
    using frame by blast
qed

lemma module_output_lens:
  "module_output data z = (e, z2) \<Longrightarrow> length (z_head z) = MODULE_HEADER_BYTES \<Longrightarrow>
     length (sha_buf (z_sha z)) = 64 \<Longrightarrow>
     length (z_head z2) = MODULE_HEADER_BYTES \<and> length (sha_buf (z_sha z2)) = 64"
  by (auto simp: module_output_def keep_head_def Let_def split: if_splits option.splits)

lemma output_prepare_lens:
  assumes "output_prepare data z = (e, z2)" "length (z_head z) = MODULE_HEADER_BYTES"
    "length (sha_buf (z_sha z)) = 64"
  shows "length (z_head z2) = MODULE_HEADER_BYTES \<and> length (sha_buf (z_sha z2)) = 64"
proof (cases "z_target z")
  case Entry_Module
  with assms module_output_lens [of data "z\<lparr>z_crc := crc32_update (z_crc z) data\<rparr>" e z2]
  show ?thesis by (simp add: output_prepare_def Let_def)
qed (use assms in \<open>auto simp: output_prepare_def keep_head_def Let_def split: if_splits\<close>)

lemma output_prepare_tracked:
  assumes p: "output_prepare data z = (None, z2)" and t: "tracked img z" and d: "data \<noteq> []"
    and sb: "length (sha_buf (z_sha z)) = 64"
  shows "tracked (img @ data) (z2\<lparr>z_out_total := z_out_total z2 + length data\<rparr>)"
proof -
  from output_prepare_frame(2,3) [OF p] have f: "z_target z2 = z_target z" "z_out_total z2 = z_out_total z"
    by (simp_all add: same_entry_def)
  have o: "z_out_total z = length img" and c: "z_crc z = crc32_update 0 img"
    using t by (simp_all add: tracked_def)
  have c2: "z_crc z2 = crc32_update 0 (img @ data)"
  proof -
    have "z_crc z2 = crc32_update (z_crc z) data"
    proof (cases "z_target z")
      case Entry_Module
      with p have "module_output data (z\<lparr>z_crc := crc32_update (z_crc z) data\<rparr>) = (None, z2)"
        by (simp add: output_prepare_def Let_def)
      from module_output_frame(1) [OF this] show ?thesis by (cases z2) simp
    qed (use p in \<open>auto simp: output_prepare_def keep_head_def Let_def split: if_splits\<close>)
    then show ?thesis by (simp add: c crc_stream.feed_append)
  qed
  show ?thesis
  proof (cases "z_target z")
    case Entry_None
    with f o c2 show ?thesis by (simp add: tracked_def)
  next
    case Entry_Boot
    let ?z1 = "z\<lparr>z_crc := crc32_update (z_crc z) data\<rparr>"
    have b: "length img + length data \<le> BOOT_MAX_BYTES"
      using p Entry_Boot o by (auto simp: output_prepare_def Let_def split: if_splits)
    have hh: "head_holds BOOT_HEADER_BYTES img (z_head ?z1)" using t Entry_Boot by (simp add: tracked_def)
    have "head_holds BOOT_HEADER_BYTES (img @ data) (z_head z2)"
    proof (cases "length img < BOOT_HEADER_BYTES")
      case True
      obtain n z3 where k: "keep_head BOOT_HEADER_BYTES data ?z1 = (n, z3)" by fastforce
      with p Entry_Boot True o have "z2 = z3"
        by (auto simp: output_prepare_def Let_def split: if_splits)
      with keep_head_holds(2) [OF hh _ _ True k] o show ?thesis by simp
    next
      case False
      with p Entry_Boot o have "z2 = ?z1"
        by (auto simp: output_prepare_def Let_def split: if_splits)
      with False hh head_holds_grow show ?thesis by simp
    qed
    with Entry_Boot f o c2 b show ?thesis by (simp add: tracked_def)
  next
    case Entry_Module
    let ?z1 = "z\<lparr>z_crc := crc32_update (z_crc z) data\<rparr>"
    have m: "module_output data ?z1 = (None, z2)"
      using p Entry_Module by (simp add: output_prepare_def Let_def)
    have "module_tracked img ?z1" using t Entry_Module by (simp add: tracked_def module_tracked_def)
    from module_output_tracked [OF this _ d _ m] o sb have "module_tracked (img @ data) z2" by simp
    then have "module_tracked (img @ data) (z2\<lparr>z_out_total := z_out_total z2 + length data\<rparr>)"
      by (simp add: module_tracked_def)
    with Entry_Module f o c2 show ?thesis by (simp add: tracked_def)
  qed
qed

lemma zip_output_ok:
  assumes base: "zip_base z l" and act: "z_target z \<noteq> Entry_None \<Longrightarrow> active z l"
    and out: "zip_output (log_env accept ti tinfl) data z l = (err, z1, l1)"
  shows "zip_base z1 l1" "err = None \<Longrightarrow> z_target z1 \<noteq> Entry_None \<Longrightarrow> active z1 l1"
    "same_entry z z1" "err \<noteq> Some Zip_Done"
proof -
  have "zip_base z1 l1 \<and> (err = None \<longrightarrow> z_target z1 \<noteq> Entry_None \<longrightarrow> active z1 l1) \<and>
    same_entry z z1 \<and> err \<noteq> Some Zip_Done"
    using out
  proof (cases rule: zip_output_cases)
    case 1
    with base act show ?thesis by simp
  next
    case 2
    with base show ?thesis by simp
  next
    case (3 r z2)
    note fr = output_prepare_frame [OF 3(2)] and le = output_prepare_lens [OF 3(2)]
    have "r \<noteq> Zip_Done" using fr(1) by auto
    moreover have "zip_base z2 l" using fr(2) le base by (simp add: zip_base_def same_entry_def)
    ultimately show ?thesis using 3 fr(2) by simp
  next
    case (4 z2 refused)
    note fr = output_prepare_frame [OF 4(2)] and le = output_prepare_lens [OF 4(2)]
    from fr(2) have f: "z_bundle z2 = z_bundle z" "z_found_boot z2 = z_found_boot z"
      "z_target z2 = z_target z" "z_entry_name z2 = z_entry_name z"
      by (simp_all add: same_entry_def)
    have l1: "l1 = (if z_target z \<noteq> Entry_None then Ev_Data data # l else l)"
      using 4(3) by (auto simp: log_env_def log_call_def split: if_splits)
    have "zip_base z1 l1"
      using base le f l1 4(5) act by (auto simp: zip_base_def active_def)
    moreover have "active z1 l1" if "err = None" "z_target z1 \<noteq> Entry_None"
    proof -
      have nr: "\<not> refused" using that(1) 4(4) by (cases refused) simp_all
      with 4(5) have z1: "z1 = z2\<lparr>z_out_total := z_out_total z2 + length data\<rparr>" by simp
      have tg: "z_target z \<noteq> Entry_None" using that(2) f by (simp add: z1)
      have "tracked (image_of l @ data) z1"
        unfolding z1 using output_prepare_tracked [OF 4(2) _ 4(1)] act [OF tg] base
        by (simp add: active_def zip_base_def)
      with act [OF tg] tg f l1 show ?thesis by (simp add: active_def z1)
    qed
    moreover have "same_entry z z1" using fr(2) 4(5) by simp
    ultimately show ?thesis using 4(4) by simp
  qed
  then show "zip_base z1 l1" "err = None \<Longrightarrow> z_target z1 \<noteq> Entry_None \<Longrightarrow> active z1 l1"
    "same_entry z z1" "err \<noteq> Some Zip_Done"
    by blast+
qed

section \<open>The end of an entry\<close>

lemma sub_at_prefix:
  "take k xs = take k ys \<Longrightarrow> off + n \<le> k \<Longrightarrow> sub_at off n xs = sub_at off n ys"
proof -
  assume t: "take k xs = take k ys" "off + n \<le> k"
  have "sub_at off n zs = drop off (take (off + n) (take k zs))" for zs :: "'a list"
    using t(2) by (simp add: sub_at_def drop_take min_def)
  with t(1) show ?thesis by metis
qed

lemma boot_verified:
  assumes "tracked img z" "z_target z = Entry_Boot" "entry_checks z = None"
  shows "boot_image_ok img"
proof -
  from assms have l: "BOOT_MIN_BYTES \<le> length img" "length img \<le> BOOT_MAX_BYTES"
    and h: "boot_header_ok (z_head z) BOOT_HEADER_BYTES"
    by (auto simp: tracked_def entry_checks_def split: if_splits)
  from assms l(1) have t: "take BOOT_HEADER_BYTES (z_head z) = take BOOT_HEADER_BYTES img"
    by (simp add: tracked_def head_holds_def min_def)
  have "sub_at 0x20 4 (z_head z) = sub_at 0x20 4 img" "sub_at 0x24 4 (z_head z) = sub_at 0x24 4 img"
    by (rule sub_at_prefix [OF t], simp)+
  with h l show ?thesis
    by (simp add: boot_image_ok_def boot_header_ok_def)
qed

lemma module_verified:
  assumes "tracked img z" "z_target z = Entry_Module" "entry_checks z = None"
  shows "module_image_ok img"
proof -
  from assms have ok: "z_module_ok z" and l: "length img = MODULE_HEADER_BYTES + unat (z_image_size z)"
    and d: "sha256_final (z_sha z) = sub_at 52 32 (z_head z)" and m: "module_tracked img z"
    by (auto simp: tracked_def entry_checks_def split: if_splits)
  have i: "sha_inv (drop MODULE_HEADER_BYTES img) (z_sha z)"
    "sha_bits (z_sha z) = of_nat (length (drop MODULE_HEADER_BYTES img)) * 8"
    using m ok by (simp_all add: module_tracked_def)
  from l m have t0: "take MODULE_HEADER_BYTES (z_head z) = take MODULE_HEADER_BYTES img"
    and "length (z_head z) = MODULE_HEADER_BYTES"
    by (simp_all add: module_tracked_def head_holds_def)
  then have t: "z_head z = take MODULE_HEADER_BYTES img" by (metis take_all order_refl)
  have "sub_at 52 32 (z_head z) = sub_at 52 32 img" by (rule sub_at_prefix [OF t0]) simp
  with d sha_final_inv [OF i]
  have "sha256_spec (drop MODULE_HEADER_BYTES img) = sub_at 52 32 img" by simp
  moreover have "module_header_ok (take MODULE_HEADER_BYTES img) = Some (z_image_size z)"
    using m ok t by (simp add: module_tracked_def)
  ultimately show ?thesis using l by (simp add: module_image_ok_def)
qed

lemma entry_checks_not_done: "entry_checks z = Some r \<Longrightarrow> r \<noteq> Zip_Done"
  by (auto simp: entry_checks_def split: if_splits zip_target.splits)

lemma active_end_ok:
  assumes "zip_base z l" "z_target z \<noteq> Entry_None" "active z l" "entry_checks z = None"
  shows "log_ok (Ev_End (z_entry_name z) # l)"
proof -
  have "image_ok (z_entry_name z) (image_of l)"
    using assms boot_verified [of "image_of l" z] module_verified [of "image_of l" z] module_path_not_boot
    by (cases "z_target z") (auto simp: active_def image_ok_def)
  with assms show ?thesis by (simp add: active_def zip_base_def)
qed

lemma zip_entry_done_ok:
  assumes base: "zip_base z l" and act: "z_target z \<noteq> Entry_None \<Longrightarrow> active z l"
    and dn: "zip_entry_done (log_env accept ti tinfl) z l = (z1, l1)"
  shows "zip_ok z1 l1"
proof (cases "entry_checks z")
  case (Some r)
  with dn have "z1 = zip_fail r z" "l1 = l" by (simp_all add: zip_entry_done_def)
  with entry_checks_not_done [OF Some] base show ?thesis by (simp add: zip_ok_fail)
next
  case None
  show ?thesis
  proof (cases "z_target z = Entry_None")
    case True
    with dn None base show ?thesis
      by (auto simp: zip_entry_done_def Let_def zip_ok_def zip_base_def)
  next
    case False
    define z0 where "z0 = (if z_target z = Entry_Boot then z\<lparr>z_found_boot := True\<rparr> else z)"
    let ?l = "Ev_End (z_entry_name z) # l"
    have z0: "z_target z0 = z_target z" "z_entry_name z0 = z_entry_name z" "z_bundle z0"
      using base by (simp_all add: z0_def zip_base_def)
    have "count_list ?l (Ev_End boot_name) = (if z_found_boot z0 then 1 else 0)"
      using base act [OF False] False module_path_not_boot
      by (cases "z_target z") (auto simp: z0_def zip_base_def active_def)
    then have b: "zip_base z0 ?l"
      using active_end_ok [OF base False act [OF False] None] base
      by (simp add: zip_base_def z0_def del: count_list.simps)
    have "(z1, l1) = (if accept (Ev_End (z_entry_name z)) l
        then (z0\<lparr>z_state := ZS_Local, z_hdr_have := 0, z_hdr_need := ZIP_LOCAL_BYTES\<rparr>, ?l)
        else (zip_fail Zip_Err_Write z0, ?l))"
      using dn None False z0
      by (simp add: zip_entry_done_def Let_def call_entry_def log_env_def log_call_def
        flip: z0_def split: if_splits)
    moreover have "zip_ok (z0\<lparr>z_state := ZS_Local, z_hdr_have := 0, z_hdr_need := ZIP_LOCAL_BYTES\<rparr>) ?l"
      using b by (simp add: zip_ok_def zip_base_def del: count_list.simps log_ok.simps)
    ultimately show ?thesis
      using zip_ok_fail [OF b, of Zip_Err_Write]
      by (cases "accept (Ev_End (z_entry_name z)) l") simp_all
  qed
qed

lemma if_intro: "(c \<Longrightarrow> P a) \<Longrightarrow> (\<not> c \<Longrightarrow> P b) \<Longrightarrow> P (if c then a else b)"
  by simp

lemma zip_setup_entry_ok:
  assumes base: "zip_base z l" and k: "z_target z = k"
    and path: "k \<noteq> Entry_None \<Longrightarrow> z_entry_name z = boot_name \<or> module_path (z_entry_name z)"
    and act: "k \<noteq> Entry_None \<Longrightarrow> active z (Ev_Begin (z_entry_name z) # l)"
  shows "case_prod zip_ok (zip_setup_entry (log_env accept ti tinfl) k z l)"
proof -
  let ?env = "log_env accept ti tinfl"
  define l2 where "l2 = (if k \<noteq> Entry_None then Ev_Begin (z_entry_name z) # l else l)"
  define d where "d = (z_flags z AND ZIP_FLAG_DESCRIPTOR \<noteq> 0)"
  have base2: "zip_base z l2"
    using base path by (simp add: zip_base_def l2_def)
  have cb: "(if k \<noteq> Entry_None then call_entry (ze_begin ?env) (z_entry_name z) l else (False, l)) =
      (k \<noteq> Entry_None \<and> \<not> accept (Ev_Begin (z_entry_name z)) l, l2)"
    by (simp add: call_entry_def log_env_def log_call_def l2_def)
  have data: "zip_ok (z\<lparr>z_inflater := i, z_dict_ofs := n, z_state := ZS_Data\<rparr>) l2"
    "k \<noteq> Entry_None \<Longrightarrow> zip_ok (z\<lparr>z_skip := n, z_state := ZS_Data\<rparr>) l2"
    "k = Entry_None \<Longrightarrow> zip_ok (z\<lparr>z_skip := n, z_state := ZS_Skip, z_crc := c\<rparr>) l2" for i n c
    using base2 act k
    by (auto simp: zip_ok_def zip_base_def active_def tracked_def module_tracked_def l2_def
      split: zip_target.splits)
  have ended: "zip_ok a b" if "k = Entry_None" "zip_entry_done ?env z l2 = (a, b)" for a b
    using zip_entry_done_ok [OF base2 _ that(2)] that(1) k by simp
  note fail = zip_ok_fail [OF base] zip_ok_fail [OF base2]
  show ?thesis
    unfolding zip_setup_entry_def Let_def cb prod.case d_def [symmetric]
    by (intro if_intro [where P = "case_prod zip_ok"]) (auto intro: fail data ended)
qed

lemma zip_begin_entry_ok:
  assumes base: "zip_base z l"
    and bg: "zip_begin_entry (log_env accept ti tinfl) z l = (z1, l1)"
  shows "zip_ok z1 l1"
proof -
  have bun: "z_bundle z" using base by (simp add: zip_base_def)
  obtain t za where b: "bundle_target_name z = (t, za)" by fastforce
  note fr = bundle_target_cases [OF b]
  obtain r e where za: "za = z\<lparr>z_root := r, z_entry_name := e\<rparr>" using fr(1) by blast
  have base_a: "zip_base za l" using base by (simp add: za zip_base_def)
  show ?thesis
  proof (cases t)
    case None
    with bg b bun zip_ok_fail [OF base_a, of Zip_Err_Format] show ?thesis
      by (simp add: zip_begin_entry_def)
  next
    case (Some k)
    let ?z2 = "za\<lparr>z_target := k, z_crc := 0, z_out_total := 0, z_module_ok := False\<rparr>"
    have base2: "zip_base ?z2 l" using base_a by (simp add: zip_base_def)
    have path: "k \<noteq> Entry_None \<Longrightarrow> z_entry_name ?z2 = boot_name \<or> module_path (z_entry_name ?z2)"
      using fr(2) bundle_target_module b Some by (cases k) auto
    have act: "active ?z2 (Ev_Begin (z_entry_name ?z2) # l)" if "k \<noteq> Entry_None"
    proof -
      have "length (z_head za) = MODULE_HEADER_BYTES" using base_a by (simp add: zip_base_def)
      then have "tracked [] ?z2"
        by (cases k) (simp_all add: tracked_def module_tracked_def head_holds_init crc_stream.feed_nil)
      moreover have "k = Entry_Boot \<Longrightarrow> z_entry_name za = boot_name \<and> \<not> z_found_boot za"
        using fr(2) Some by (simp add: za)
      moreover have "k = Entry_Module \<Longrightarrow> module_path (z_entry_name za)"
        using bundle_target_module b Some by simp
      ultimately show ?thesis by (simp add: active_def)
    qed
    have "zip_begin_entry (log_env accept ti tinfl) z l = zip_setup_entry (log_env accept ti tinfl) k ?z2 l"
      using b bun Some by (simp add: zip_begin_entry_def)
    moreover have "case_prod zip_ok (zip_setup_entry (log_env accept ti tinfl) k ?z2 l)"
      by (rule zip_setup_entry_ok [OF base2 _ path act]) simp_all
    ultimately show ?thesis by (metis bg case_prod_conv)
  qed
qed

section \<open>One iteration\<close>

definition step_ok :: "('i, zip_log) zip_next \<Rightarrow> bool" where
  "step_ok x \<longleftrightarrow> (case x of (stop, z, rest, l) \<Rightarrow> zip_ok z l)"

lemma step_ok_simp [simp]: "step_ok (stop, z, rest, l) = zip_ok z l"
  by (simp add: step_ok_def)

lemma collect_fields:
  assumes "zip_collect data z = (n, z1)"
  shows "zip_base z1 l = zip_base z l" "z_state z1 = z_state z" "z_target z1 = z_target z"
    "active z1 l = active z l" "z_found_boot z1 = z_found_boot z" "z_bundle z1 = z_bundle z"
    "z_hdr_need z1 = z_hdr_need z"
proof -
  obtain a b where z1: "z1 = z\<lparr>z_hdr := a, z_hdr_have := b\<rparr>"
    using assms by (auto simp: zip_collect_def Let_def)
  show "zip_base z1 l = zip_base z l" "z_state z1 = z_state z" "z_target z1 = z_target z"
    "z_found_boot z1 = z_found_boot z" "z_bundle z1 = z_bundle z" "z_hdr_need z1 = z_hdr_need z"
    by (simp_all add: z1 zip_base_def)
  show "active z1 l = active z l"
    by (simp add: z1 active_def tracked_def module_tracked_def cong: zip_target.case_cong)
qed

lemma step_local_ok:
  assumes "zip_ok z l" "z_state z = ZS_Local"
  shows "step_ok (step_local data z l)"
proof -
  obtain n z1 where c: "zip_collect data z = (n, z1)" by fastforce
  note cf = collect_fields [OF c]
  have base: "zip_base z1 l" using assms cf by (simp add: zip_ok_def)
  have same: "zip_ok z1 l" using base cf assms by (simp add: zip_ok_def)
  have fin: "z_found_boot z1 \<Longrightarrow> zip_ok (z1\<lparr>z_result := Zip_Done, z_state := ZS_Finished\<rparr>) l"
    using base by (simp add: zip_ok_def zip_base_def)
  let ?z2 = "\<lambda>fl me ce cs us nl el. z1\<lparr>z_flags := fl, z_method := me, z_crc_expected := ce,
      z_csize := cs, z_usize := us, z_name_len := nl, z_extra_len := el\<rparr>"
  have bad: "zip_ok (zip_fail Zip_Err_Format (?z2 fl me ce cs us nl el)) l" for fl me ce cs us nl el
    by (rule zip_ok_fail) (use base in \<open>simp_all add: zip_base_def\<close>)
  have name: "zip_ok (?z2 fl me ce cs us nl el\<lparr>z_hdr_have := 0, z_skip := k, z_state := ZS_Name\<rparr>) l"
    for fl me ce cs us nl el k
    using base by (simp add: zip_ok_def zip_base_def)
  show ?thesis
    unfolding step_local_def c prod.case Let_def
    by (intro if_intro [where P = step_ok]; unfold step_ok_simp)
      (rule same bad name | (rule fin, simp) | (rule zip_ok_fail [OF base], simp))+
qed

lemma step_name_ok:
  assumes "zip_ok z l" "z_state z = ZS_Name" and env: "env = log_env accept ti tinfl"
  shows "step_ok (step_name env data z l)"
proof -
  have base: "zip_base (z\<lparr>z_name := nm, z_skip := k\<rparr>) l" "zip_ok (z\<lparr>z_name := nm, z_skip := k\<rparr>) l" for nm k
    using assms by (simp_all add: zip_ok_def zip_base_def)
  have bg: "zip_ok z3 w1"
    if "zip_begin_entry env (z\<lparr>z_skip := k, z_name := nm\<rparr>) l = (z3, w1)" for z3 w1 k nm
  proof -
    have "zip_base (z\<lparr>z_skip := k, z_name := nm\<rparr>) l" using base(1) by (simp add: zip_base_def)
    from zip_begin_entry_ok [OF this that [unfolded env]] show ?thesis .
  qed
  obtain nm where z1: "(if z_name_len z + z_extra_len z - z_skip z < z_name_len z then
      z\<lparr>z_name := blit (z_name_len z + z_extra_len z - z_skip z)
        (take (min (z_name_len z - (z_name_len z + z_extra_len z - z_skip z)) (min (length data) (z_skip z))) data) (z_name z)\<rparr>
      else z) = z\<lparr>z_name := nm\<rparr>"
    by (metis zip.surjective zip.update_convs(7))
  show ?thesis
    unfolding step_name_def Let_def z1
    using bg base(2) [where nm = nm]
    by (auto simp: step_ok_def split: prod.splits)
qed

lemma step_skip_ok:
  assumes ok: "zip_ok z l" "z_state z = ZS_Skip" and env: "env = log_env accept ti tinfl"
  shows "step_ok (step_skip env data z l)"
proof -
  have more: "zip_ok (z\<lparr>z_skip := k\<rparr>) l" for k
    using ok by (simp add: zip_ok_def zip_base_def)
  have fin: "zip_ok z2 w1"
    if "zip_entry_done env (z\<lparr>z_skip := k, z_out_total := t\<rparr>) l = (z2, w1)" for z2 w1 k t
  proof -
    have "zip_base (z\<lparr>z_skip := k, z_out_total := t\<rparr>) l"
      "z_target (z\<lparr>z_skip := k, z_out_total := t\<rparr>) = Entry_None"
      using ok by (simp_all add: zip_ok_def zip_base_def)
    with zip_entry_done_ok [of _ l] that env show ?thesis by (metis (no_types))
  qed
  show ?thesis
    unfolding step_skip_def Let_def using more fin
    by (auto simp: step_ok_def split: prod.splits)
qed

lemma active_skip [simp]: "active (z\<lparr>z_skip := k\<rparr>) l = active z l"
  by (simp add: active_def tracked_def module_tracked_def cong: zip_target.case_cong)

lemma step_stored_ok:
  assumes ok: "zip_ok z l" "z_state z = ZS_Data" and env: "env = log_env accept ti tinfl"
  shows "step_ok (step_stored env data z l)"
proof -
  let ?n = "min (length data) (z_skip z)"
  obtain err z1 w1 where o: "zip_output env (take ?n data) z l = (err, z1, w1)"
    by (metis prod_cases3)
  have base: "zip_base z l" and act: "z_target z \<noteq> Entry_None \<Longrightarrow> active z l"
    using ok by (auto simp: zip_ok_def)
  note zo = zip_output_ok [OF base act o [unfolded env]]
  have same: "z_state z1 = ZS_Data" using zo(3) ok(2) by (simp add: same_entry_def)
  show ?thesis
  proof (cases err)
    case (Some r)
    with zo(4) have "r \<noteq> Zip_Done" by simp
    from zip_ok_fail [OF zo(1) this] o Some ok(1) show ?thesis
      by (simp add: step_stored_def Let_def)
  next
    case None
    have b2: "zip_base (z1\<lparr>z_skip := k\<rparr>) w1" for k using zo(1) by (simp add: zip_base_def)
    have a2: "z_target (z1\<lparr>z_skip := k\<rparr>) \<noteq> Entry_None \<Longrightarrow> active (z1\<lparr>z_skip := k\<rparr>) w1" for k
      using zo(2) None by simp
    have more: "zip_ok (z1\<lparr>z_skip := k\<rparr>) w1" for k
      using b2 a2 same by (simp add: zip_ok_def)
    have fin: "zip_ok z3 w3" if "zip_entry_done env (z1\<lparr>z_skip := k\<rparr>) w1 = (z3, w3)" for k z3 w3
      using zip_entry_done_ok [OF b2 a2 that [unfolded env]] .
    show ?thesis
      using o None ok(1) more fin
      by (auto simp: step_stored_def Let_def step_ok_def split: prod.splits)
  qed
qed

lemma step_inflate_ok:
  assumes ok: "zip_ok z l" "z_state z = ZS_Data" and env: "env = log_env accept ti tinfl"
  shows "step_ok (step_inflate env data z l)"
proof -
  obtain st ib dict ob i1 where t: "ze_tinfl env (z_inflater z) data (z_dict z) (z_dict_ofs z)
      (LZ_DICT_SIZE - z_dict_ofs z) = (st, ib, dict, ob, i1)"
    by (metis prod_cases5)
  let ?z1 = "z\<lparr>z_inflater := i1, z_dict := dict\<rparr>"
  have base: "zip_base ?z1 l" using ok by (simp add: zip_ok_def zip_base_def)
  have act: "z_target ?z1 \<noteq> Entry_None \<Longrightarrow> active ?z1 l"
    using ok by (simp add: zip_ok_def active_def tracked_def module_tracked_def cong: zip_target.case_cong)
  obtain err z2 w1 where o: "zip_output env (sub_at (z_dict_ofs z) ob dict) ?z1 l = (err, z2, w1)"
    by (metis prod_cases3)
  note zo = zip_output_ok [OF base act o [unfolded env]]
  have same: "z_state z2 = ZS_Data" using zo(3) ok(2) by (simp add: same_entry_def)
  show ?thesis
  proof (cases "st = Tinfl_Failed")
    case True
    with t zip_ok_fail [OF base, of Zip_Err_Inflate] show ?thesis
      by (simp add: step_inflate_def Let_def)
  next
    case False
    show ?thesis
    proof (cases err)
      case (Some r)
      with zo(4) have "r \<noteq> Zip_Done" by simp
      from zip_ok_fail [OF zo(1) this] o t Some False show ?thesis
        by (simp add: step_inflate_def Let_def)
    next
      case None
      define z3 where "z3 = z2\<lparr>z_dict_ofs := (z_dict_ofs z2 + ob) mod LZ_DICT_SIZE\<rparr>"
      have base3: "zip_base z3 w1" using zo(1) by (simp add: z3_def zip_base_def)
      have act3: "z_target z3 \<noteq> Entry_None \<Longrightarrow> active z3 w1"
        using zo(2) None
        by (simp add: z3_def active_def tracked_def module_tracked_def cong: zip_target.case_cong)
      have more: "zip_ok z3 w1" using base3 act3 same by (simp add: zip_ok_def z3_def)
      have desc: "zip_ok (z3\<lparr>z_hdr_have := a, z_hdr_need := b, z_state := ZS_Descriptor\<rparr>) w1" for a b
        using base3 act3
        by (simp add: zip_ok_def zip_base_def active_def tracked_def module_tracked_def cong: zip_target.case_cong)
      have fin: "zip_ok z4 w2" if "zip_entry_done env z3 w1 = (z4, w2)" for z4 w2
        using zip_entry_done_ok [OF base3 act3 that [unfolded env]] .
      have "step_inflate env data z l = (case st of
          Tinfl_Done \<Rightarrow>
            (if z_flags z3 AND ZIP_FLAG_DESCRIPTOR \<noteq> 0 then
               (False, z3\<lparr>z_hdr_have := 0, z_hdr_need := 12, z_state := ZS_Descriptor\<rparr>, drop ib data, w1)
             else case zip_entry_done env z3 w1 of
               (z4, w2) \<Rightarrow> (z_state z4 = ZS_Finished, z4, drop ib data, w2))
        | Tinfl_Needs_Input \<Rightarrow>
            (if drop ib data = [] then (True, z3, [], w1)
             else if ib = 0 \<and> ob = 0 then (True, zip_fail Zip_Err_Inflate z3, drop ib data, w1)
             else (False, z3, drop ib data, w1))
        | _ \<Rightarrow> (False, z3, drop ib data, w1))"
        using False o [unfolded None]
        by (cases st) (simp_all add: step_inflate_def Let_def t z3_def)
      then show ?thesis
        using more desc fin zip_ok_fail [OF base3, of Zip_Err_Inflate]
        by (cases st) (simp_all split: prod.split)
    qed
  qed
qed

lemma step_descriptor_ok:
  assumes ok: "zip_ok z l" "z_state z = ZS_Descriptor" and env: "env = log_env accept ti tinfl"
  shows "step_ok (step_descriptor env data z l)"
proof -
  obtain n z1 where c: "zip_collect data z = (n, z1)" by fastforce
  note cf = collect_fields [OF c]
  have base: "zip_base z1 l" and act: "z_target z1 \<noteq> Entry_None \<Longrightarrow> active z1 l"
    using ok cf by (simp_all add: zip_ok_def)
  have same: "zip_ok z1 l" using base act cf ok by (simp add: zip_ok_def)
  have need: "zip_ok (z1\<lparr>z_hdr_need := k\<rparr>) l" for k
    using base act cf(2) ok
    by (simp add: zip_ok_def zip_base_def active_def tracked_def module_tracked_def cong: zip_target.case_cong)
  have fin: "zip_ok z2 w1"
    if "zip_entry_done env (z1\<lparr>z_crc_expected := a, z_usize := b\<rparr>) l = (z2, w1)" for a b z2 w1
  proof -
    have "zip_base (z1\<lparr>z_crc_expected := a, z_usize := b\<rparr>) l" using base by (simp add: zip_base_def)
    moreover have "z_target (z1\<lparr>z_crc_expected := a, z_usize := b\<rparr>) \<noteq> Entry_None \<Longrightarrow>
        active (z1\<lparr>z_crc_expected := a, z_usize := b\<rparr>) l"
      using act by (simp add: active_def tracked_def module_tracked_def cong: zip_target.case_cong)
    ultimately show ?thesis using zip_entry_done_ok that [unfolded env] by blast
  qed
  show ?thesis
    unfolding step_descriptor_def c prod.case Let_def
    using same need fin by (simp split: prod.split)
qed

lemma zip_step_ok:
  assumes "zip_ok z l" "z_state z \<noteq> ZS_Finished"
  shows "step_ok (zip_step (log_env accept ti tinfl) data z l)"
  using assms
  by (cases "z_state z")
    (simp_all add: zip_step_def step_local_ok step_name_ok step_skip_ok step_stored_ok
      step_inflate_ok step_descriptor_ok)

section \<open>Feeding\<close>

lemma zip_loop_ok:
  "zip_loop env data z l = Some y \<Longrightarrow> env = log_env accept ti tinfl \<Longrightarrow> zip_ok z l \<Longrightarrow>
     zip_ok (fst y) (snd y)"
proof -
  let ?P = "\<lambda>env data z l y. env = log_env accept ti tinfl \<longrightarrow> zip_ok z l \<longrightarrow> zip_ok (fst y) (snd y)"
  assume r: "zip_loop env data z l = Some y" and prems: "env = log_env accept ti tinfl" "zip_ok z l"
  have "?P env data z l y"
  proof (rule zip_loop.raw_induct [OF _ r, where P = ?P], intro impI)
    fix loop env data z l y
    assume IH: "\<And>env data z l y. loop env data z l = Some y \<Longrightarrow> ?P env data z l y"
      and b: "(if z_state z \<noteq> ZS_Finished \<and> (data \<noteq> [] \<or> z_state z = ZS_Data) then
          case zip_step env data z l of (stop, z1, rest, w1) \<Rightarrow>
            if stop then Some (z1, w1) else loop env rest z1 w1
        else Some (z, l)) = Some y"
      and e: "env = log_env accept ti tinfl" and ok: "zip_ok z l"
    show "zip_ok (fst y) (snd y)"
    proof (cases "z_state z \<noteq> ZS_Finished \<and> (data \<noteq> [] \<or> z_state z = ZS_Data)")
      case False
      with b ok show ?thesis by auto
    next
      case True
      obtain stop z1 rest w1 where s: "zip_step env data z l = (stop, z1, rest, w1)"
        by (metis prod_cases4)
      with zip_step_ok [OF ok, of accept ti tinfl data] True e have z1: "zip_ok z1 w1" by simp
      show ?thesis
      proof (cases stop)
        case True
        with b \<open>z_state z \<noteq> _ \<and> _\<close> s z1 show ?thesis by auto
      next
        case False
        with b \<open>z_state z \<noteq> _ \<and> _\<close> s have "loop env rest z1 w1 = Some y" by simp
        from IH [OF this] e z1 show ?thesis by blast
      qed
    qed
  qed
  with prems show ?thesis by blast
qed

end
