(* ===== verification/FwZip_Progress.thy ===== *)
theory FwZip_Progress
  imports FwZip_Correct
begin

text \<open>
  Runs of the archive reader over any pieces of an archive: the verified-before-closed property,
  and that every call returns, given an inflater that behaves as documented.
\<close>

fun zip_pieces ::
    "('i, 'w) zip_env \<Rightarrow> bytes list \<Rightarrow> 'i zip \<Rightarrow> 'w \<Rightarrow> (zip_result \<times> 'i zip \<times> 'w) option" where
  "zip_pieces env [] z w = Some (if z_state z = ZS_Finished then z_result z else Zip_More, z, w)"
| "zip_pieces env (d # ds) z w =
     (case fwrel_zip_feed env d z w of None \<Rightarrow> None | Some (r, z1, w1) \<Rightarrow> zip_pieces env ds z1 w1)"

lemma zip_feed_ok:
  "fwrel_zip_feed (log_env accept ti tinfl) d z l = Some (r, z1, l1) \<Longrightarrow> zip_ok z l \<Longrightarrow> zip_ok z1 l1"
  using zip_loop_ok [of "log_env accept ti tinfl" d z l "(z1, l1)" accept ti tinfl]
  by (auto simp: fwrel_zip_feed_def split: option.splits)

lemma zip_pieces_ok:
  "zip_pieces (log_env accept ti tinfl) ds z l = Some (r, z1, l1) \<Longrightarrow> zip_ok z l \<Longrightarrow>
     zip_ok z1 l1 \<and> r = (if z_state z1 = ZS_Finished then z_result z1 else Zip_More)"
proof (induction ds arbitrary: z l)
  case Nil
  then show ?case by auto
next
  case (Cons d ds)
  then obtain q z2 l2 where f: "fwrel_zip_feed (log_env accept ti tinfl) d z l = Some (q, z2, l2)"
    by (auto split: option.splits)
  with Cons.prems have "zip_pieces (log_env accept ti tinfl) ds z2 l2 = Some (r, z1, l1)" by simp
  from Cons.IH [OF this zip_feed_ok [OF f Cons.prems(2)]] show ?case .
qed

lemma zip_new_ok:
  "fwrel_zip_new_bundle True True i0 = Some z \<Longrightarrow> zip_ok z []"
  by (auto simp: fwrel_zip_new_bundle_def zip_new_def zip_ok_def zip_base_def zero_sha_def)

section \<open>Every call returns\<close>

text \<open>
  What the reader relies on of the vendored inflater, for the calls it makes: a full window of
  \<^verbatim>\<open>TINFL_LZ_DICT_SIZE\<close> bytes, a write offset inside it, and all the space up to its end to fill, so
  never none. The inflater leaves the size of the window alone and uses no more than the input
  and the space it is given; and \<^verbatim>\<open>TINFL_STATUS_HAS_MORE_OUTPUT\<close> is only returned, as
  \<^verbatim>\<open>common/miniz/miniz_tinfl.h\<close> documents it, when there is output that it cannot write into the
  buffer, that is when the buffer is full. Nothing is said of how much output a stream expands to,
  nor of the input left when more is asked for.
\<close>

definition inflater_documented ::
    "('i \<Rightarrow> bytes \<Rightarrow> bytes \<Rightarrow> nat \<Rightarrow> nat \<Rightarrow> tinfl_status \<times> nat \<times> bytes \<times> nat \<times> 'i) \<Rightarrow> bool" where
  "inflater_documented tinfl \<longleftrightarrow> (\<forall>i data dict ofs room.
     0 < room \<and> ofs + room = LZ_DICT_SIZE \<and> length dict = LZ_DICT_SIZE \<longrightarrow>
     (case tinfl i data dict ofs room of (st, used, dict', out, i') \<Rightarrow>
       length dict' = length dict \<and> used \<le> length data \<and> out \<le> room \<and>
       (st = Tinfl_Has_Output \<longrightarrow> out = room)))"

definition window_ok :: "'i zip \<Rightarrow> bool" where
  "window_ok z \<longleftrightarrow> z_dict_ofs z < LZ_DICT_SIZE \<and> length (z_dict z) = LZ_DICT_SIZE"

text \<open>The output an entry can still produce before the reader refuses it.\<close>

definition output_left :: "'i zip \<Rightarrow> nat" where
  "output_left z = ULONG_MAX - z_out_total z"

definition local_need :: "'i zip \<Rightarrow> bool" where
  "local_need z \<longleftrightarrow> (z_state z = ZS_Local \<longrightarrow> z_hdr_need z = ZIP_LOCAL_BYTES)"

definition zip_rank :: "'i zip \<Rightarrow> nat" where
  "zip_rank z = (case z_state z of
     ZS_Local \<Rightarrow> if z_hdr_have z < z_hdr_need z then 0 else 5
   | ZS_Name \<Rightarrow> 4 | ZS_Skip \<Rightarrow> 3 | ZS_Data \<Rightarrow> 3
   | ZS_Descriptor \<Rightarrow> if z_hdr_need z = 12 then 2 else 1
   | ZS_Finished \<Rightarrow> 0)"

definition step_descends :: "bytes \<Rightarrow> 'i zip \<Rightarrow> ('i, 'w) zip_next \<Rightarrow> bool" where
  "step_descends data z x \<longleftrightarrow> (case x of (stop, z1, rest, w1) \<Rightarrow>
     local_need z1 \<and>
     (stop \<or> length rest < length data \<or>
      (length rest = length data \<and>
        (zip_rank z1 < zip_rank z \<or> (zip_rank z1 = zip_rank z \<and> output_left z1 < output_left z)))))"

lemma entry_done_state:
  "zip_entry_done env z w = (z1, w1) \<Longrightarrow>
     z_state z1 = ZS_Finished \<or> (z_state z1 = ZS_Local \<and> z_hdr_have z1 = 0 \<and> z_hdr_need z1 = ZIP_LOCAL_BYTES)"
  by (auto simp: zip_entry_done_def zip_fail_def Let_def split: option.splits prod.splits if_splits)

lemma begin_entry_state:
  assumes "zip_begin_entry env z w = (z1, w1)"
  shows "z_state z1 \<in> {ZS_Finished, ZS_Data, ZS_Skip} \<or>
     (z_state z1 = ZS_Local \<and> z_hdr_have z1 = 0 \<and> z_hdr_need z1 = ZIP_LOCAL_BYTES)"
proof -
  have "z_state z1 \<in> {ZS_Finished, ZS_Data, ZS_Skip} \<or>
     (z_state z1 = ZS_Local \<and> z_hdr_have z1 = 0 \<and> z_hdr_need z1 = ZIP_LOCAL_BYTES)"
    if "zip_setup_entry env t y w = (z1, w1)" for t y
    using that
    by (auto simp: zip_setup_entry_def zip_fail_def Let_def split: prod.splits if_splits
      dest: entry_done_state)
  with assms show ?thesis
    by (auto simp: zip_begin_entry_def zip_fail_def split: prod.splits option.splits)
qed

lemma zip_output_same: "zip_output env data z w = (err, z1, w1) \<Longrightarrow> same_entry z z1"
  by (erule zip_output_cases) (auto dest: output_prepare_frame(2))

lemma local_descends:
  assumes "z_state z = ZS_Local" "local_need z" "data \<noteq> []"
  shows "step_descends data z (step_local data z w)"
proof -
  obtain n z1 where c: "zip_collect data z = (n, z1)" by fastforce
  note cf = collect_fields [OF c]
  have n: "n = min (ZIP_LOCAL_BYTES - z_hdr_have z) (length data)"
    using c assms by (auto simp: zip_collect_def Let_def local_need_def)
  have need: "z_hdr_need z1 = ZIP_LOCAL_BYTES" "local_need z1" "z_hdr_need z = ZIP_LOCAL_BYTES"
    using cf assms by (simp_all add: local_need_def)
  have eat: "length (drop n data) < length data" if "z_hdr_have z < ZIP_LOCAL_BYTES"
    using that n assms(3) by (cases data) auto
  show ?thesis
  proof (cases "z_hdr_have z < ZIP_LOCAL_BYTES")
    case True
    with eat need cf(2) assms(1) show ?thesis
      unfolding step_local_def c prod.case Let_def
      by (intro if_intro [where P = "step_descends data z"])
        (simp_all add: step_descends_def local_need_def zip_fail_def)
  next
    case False
    then have "n = 0" "zip_rank z = 5" using n need assms by (simp_all add: zip_rank_def)
    with False need cf(2) assms(1) c show ?thesis
      unfolding step_local_def c prod.case Let_def
      by (intro if_intro [where P = "step_descends data z"])
        (auto simp: step_descends_def local_need_def zip_fail_def zip_rank_def zip_collect_def Let_def)
  qed
qed

text \<open>A continuing step to a state of smaller rank, or one that consumed input.\<close>

lemma descends_rank:
  "local_need z1 \<Longrightarrow> length rest \<le> length data \<Longrightarrow> zip_rank z1 < zip_rank z \<Longrightarrow>
     step_descends data z (stop, z1, rest, w1)"
  by (auto simp: step_descends_def)

lemma descends_input:
  "local_need z1 \<Longrightarrow> length rest < length data \<Longrightarrow> step_descends data z (stop, z1, rest, w1)"
  by (simp add: step_descends_def)

lemma descends_stop: "local_need z1 \<Longrightarrow> step_descends data z (True, z1, rest, w1)"
  by (simp add: step_descends_def)

lemma descends_done:
  assumes "zip_entry_done env y w = (z1, w1)" "length rest \<le> length data" "0 < zip_rank z"
  shows "step_descends data z (z_state z1 = ZS_Finished, z1, rest, w1)"
proof -
  have "z_state z1 = ZS_Finished \<or> zip_rank z1 = 0" "local_need z1"
    using entry_done_state [OF assms(1)] by (auto simp: zip_rank_def local_need_def)
  with assms(2,3) show ?thesis by (auto simp: step_descends_def)
qed

lemma name_descends:
  assumes "z_state z = ZS_Name" "data \<noteq> []"
  shows "step_descends data z (step_name env data z w)"
proof -
  let ?n = "min (length data) (z_skip z)"
  obtain nm where z1: "(if z_name_len z + z_extra_len z - z_skip z < z_name_len z then
      z\<lparr>z_name := blit (z_name_len z + z_extra_len z - z_skip z)
        (take (min (z_name_len z - (z_name_len z + z_extra_len z - z_skip z)) ?n) data) (z_name z)\<rparr>
      else z) = z\<lparr>z_name := nm\<rparr>"
    by (metis zip.surjective zip.update_convs(7))
  show ?thesis
  proof (cases "z_skip z - ?n = 0")
    case False
    then have "0 < ?n" using assms(2) by auto
    with False z1 assms show ?thesis
      unfolding step_name_def Let_def z1
      by (simp add: descends_input local_need_def)
  next
    case True
    obtain z3 w1 where b: "zip_begin_entry env (z\<lparr>z_skip := 0, z_name := nm[z_name_len z := 0]\<rparr>) w = (z3, w1)"
      by fastforce
    have "step_descends data z (z_state z3 = ZS_Finished, z3, drop ?n data, w1)"
      using begin_entry_state [OF b] assms
      by (auto simp: step_descends_def local_need_def zip_rank_def)
    with True b show ?thesis
      unfolding step_name_def Let_def z1 by simp
  qed
qed

lemma skip_descends:
  assumes "z_state z = ZS_Skip" "data \<noteq> []"
  shows "step_descends data z (step_skip env data z w)"
proof -
  let ?n = "min (length data) (z_skip z)"
  show ?thesis
  proof (cases "z_skip z - ?n = 0")
    case False
    then have "0 < ?n" using assms(2) by auto
    with False assms show ?thesis
      unfolding step_skip_def Let_def by (simp add: descends_input local_need_def)
  next
    case True
    obtain z3 w1 where b: "zip_entry_done env (z\<lparr>z_skip := 0, z_out_total := unat (z_usize z)\<rparr>) w = (z3, w1)"
      by fastforce
    have "step_descends data z (z_state z3 = ZS_Finished, z3, drop ?n data, w1)"
      by (rule descends_done [OF b]) (simp_all add: assms zip_rank_def)
    with True b show ?thesis unfolding step_skip_def Let_def by simp
  qed
qed

lemma stored_descends:
  assumes "z_state z = ZS_Data"
  shows "step_descends data z (step_stored env data z w)"
proof (cases "data = []")
  case True
  with assms show ?thesis by (simp add: step_stored_def descends_stop local_need_def)
next
  case ne: False
  let ?n = "min (length data) (z_skip z)"
  obtain err z1 w1 where o: "zip_output env (take ?n data) z w = (err, z1, w1)"
    by (metis prod_cases3)
  note so = zip_output_same [OF o]
  then have st: "z_state z1 = ZS_Data" "z_skip z1 = z_skip z" using assms by (simp_all add: same_entry_def)
  show ?thesis
  proof (cases err)
    case (Some r)
    with o ne show ?thesis
      by (simp add: step_stored_def Let_def descends_stop local_need_def zip_fail_def)
  next
    case None
    show ?thesis
    proof (cases "z_skip z - ?n = 0")
      case False
      then have "0 < ?n" using ne by auto
      with False ne o None st show ?thesis
        by (simp add: step_stored_def Let_def descends_input local_need_def)
    next
      case True
      obtain z3 w2 where b: "zip_entry_done env (z1\<lparr>z_skip := 0\<rparr>) w1 = (z3, w2)" by fastforce
      have "step_descends data z (z_state z3 = ZS_Finished, z3, drop ?n data, w2)"
        by (rule descends_done [OF b]) (simp_all add: assms zip_rank_def)
      with True b o ne None st show ?thesis by (simp add: step_stored_def Let_def)
    qed
  qed
qed

lemma inflater_bounds:
  assumes "inflater_documented tinfl" "window_ok z"
    and "tinfl (z_inflater z) data (z_dict z) (z_dict_ofs z) (LZ_DICT_SIZE - z_dict_ofs z) = (st, used, dict, out, i1)"
  shows "length dict = LZ_DICT_SIZE \<and> used \<le> length data \<and> out \<le> LZ_DICT_SIZE - z_dict_ofs z \<and>
     (st = Tinfl_Has_Output \<longrightarrow> out = LZ_DICT_SIZE - z_dict_ofs z)"
  using assms(1) [unfolded inflater_documented_def, rule_format,
      of "LZ_DICT_SIZE - z_dict_ofs z" "z_dict_ofs z" "z_dict z" data "z_inflater z"] assms(2,3)
  by (auto simp: window_ok_def)

lemma zip_output_total:
  assumes "zip_output env data z w = (None, z1, w1)" "data \<noteq> []"
  shows "output_left z1 < output_left z"
proof -
  have "z_out_total z1 = z_out_total z + length data" "length data \<le> ULONG_MAX - z_out_total z"
    using assms
    by (auto simp: zip_output_def module_output_def keep_head_def Let_def
      split: if_splits zip_target.splits option.splits prod.splits)
  with assms(2) show ?thesis by (cases data) (auto simp: output_left_def)
qed

lemma inflate_descends:
  assumes st: "z_state z = ZS_Data" and win: "window_ok z" and doc: "inflater_documented (ze_tinfl env)"
  shows "step_descends data z (step_inflate env data z w)"
proof -
  obtain s ib dict ob i1 where t: "ze_tinfl env (z_inflater z) data (z_dict z) (z_dict_ofs z)
      (LZ_DICT_SIZE - z_dict_ofs z) = (s, ib, dict, ob, i1)"
    by (metis prod_cases5)
  have p: "ib \<le> length data" "s = Tinfl_Has_Output \<Longrightarrow> 0 < ob"
    "length (sub_at (z_dict_ofs z) ob dict) = ob"
    using inflater_bounds [OF doc win t] win by (auto simp: window_ok_def sub_at_def)
  let ?z1 = "z\<lparr>z_inflater := i1, z_dict := dict\<rparr>"
  obtain err z2 w1 where o: "zip_output env (sub_at (z_dict_ofs z) ob dict) ?z1 w = (err, z2, w1)"
    by (metis prod_cases3)
  have same: "z_state z2 = ZS_Data"
    using zip_output_same [OF o] st by (simp add: same_entry_def)
  show ?thesis
  proof (cases "s = Tinfl_Failed \<or> err \<noteq> None")
    case True
    with t o show ?thesis
      by (cases "s = Tinfl_Failed")
        (auto simp: step_inflate_def Let_def descends_stop local_need_def zip_fail_def)
  next
    case ok: False
    define z3 where "z3 = z2\<lparr>z_dict_ofs := (z_dict_ofs z2 + ob) mod LZ_DICT_SIZE\<rparr>"
    have z3: "z_state z3 = ZS_Data" "output_left z3 = output_left z2"
      using same by (simp_all add: z3_def output_left_def)
    have o': "zip_output env (sub_at (z_dict_ofs z) ob dict) ?z1 w = (None, z2, w1)" using o ok by simp
    have left: "output_left z3 < output_left z" if "0 < ob"
      using zip_output_total [OF o'] that p(3) z3(2) by (fastforce simp: output_left_def)
    have go: "step_descends data z (False, z3, drop ib data, w1)" if "0 < ib \<and> data \<noteq> [] \<or> 0 < ob"
      using that left p(1) z3 st by (auto simp: step_descends_def local_need_def zip_rank_def)
    obtain z4 w2 where b: "zip_entry_done env z3 w1 = (z4, w2)" by fastforce
    consider "s = Tinfl_Done" | "s = Tinfl_Needs_Input" | "s = Tinfl_Has_Output"
      using ok by (cases s) auto
    then show ?thesis
    proof cases
      case 1
      have "step_descends data z (z_state z4 = ZS_Finished, z4, drop ib data, w2)"
        by (rule descends_done [OF b]) (simp_all add: st zip_rank_def)
      moreover have "step_descends data z
          (False, z3\<lparr>z_hdr_have := 0, z_hdr_need := 12, z_state := ZS_Descriptor\<rparr>, drop ib data, w1)"
        by (rule descends_rank) (simp_all add: local_need_def zip_rank_def st)
      ultimately show ?thesis
        using t o' b 1 by (simp add: step_inflate_def Let_def flip: z3_def)
    next
      case 2
      have "local_need z3" using z3(1) by (simp add: local_need_def)
      moreover have "drop ib data \<noteq> [] \<Longrightarrow> \<not> (ib = 0 \<and> ob = 0) \<Longrightarrow>
          step_descends data z (False, z3, drop ib data, w1)"
        by (rule go) auto
      ultimately show ?thesis
        using 2 t o'
        by (auto simp: step_inflate_def Let_def descends_stop local_need_def zip_fail_def simp flip: z3_def)
    next
      case 3
      with go p(2) t o' show ?thesis by (simp add: step_inflate_def Let_def flip: z3_def)
    qed
  qed
qed

lemma descriptor_descends:
  assumes "z_state z = ZS_Descriptor" "data \<noteq> []"
  shows "step_descends data z (step_descriptor env data z w)"
proof -
  obtain n z1 where c: "zip_collect data z = (n, z1)" by fastforce
  note cf = collect_fields [OF c]
  have n: "n = min (z_hdr_need z - z_hdr_have z) (length data)" "z_hdr_have z1 = z_hdr_have z + n"
    using c by (auto simp: zip_collect_def Let_def)
  have ln: "local_need z1" "local_need (z1\<lparr>z_hdr_need := 16\<rparr>)" using cf assms by (simp_all add: local_need_def)
  consider "z_hdr_have z1 < z_hdr_need z1"
    | "\<not> z_hdr_have z1 < z_hdr_need z1" "z_hdr_need z1 = 12" "le32 (z_hdr z1) 0 = ZIP_DESCRIPTOR_SIG"
    | "\<not> z_hdr_have z1 < z_hdr_need z1" "\<not> (z_hdr_need z1 = 12 \<and> le32 (z_hdr z1) 0 = ZIP_DESCRIPTOR_SIG)"
    by blast
  then show ?thesis
  proof cases
    case 1
    then have "length (drop n data) < length data" using n cf(7) assms(2) by (cases data) auto
    with 1 c ln show ?thesis by (simp add: step_descriptor_def Let_def descends_input)
  next
    case 2
    have "step_descends data z (False, z1\<lparr>z_hdr_need := 16\<rparr>, drop n data, w)"
      by (rule descends_rank) (use 2 cf assms ln in \<open>simp_all add: zip_rank_def\<close>)
    with 2 c show ?thesis by (simp add: step_descriptor_def Let_def)
  next
    case 3
    let ?d = "if z_hdr_need z1 = 16 then 4 else 0"
    obtain z2 w1 where b: "zip_entry_done env (z1\<lparr>z_crc_expected := le32 (z_hdr z1) ?d,
        z_usize := le32 (z_hdr z1) (?d + 8)\<rparr>) w = (z2, w1)"
      by fastforce
    have "step_descends data z (z_state z2 = ZS_Finished, z2, drop n data, w1)"
      by (rule descends_done [OF b]) (simp_all add: assms zip_rank_def)
    then show ?thesis
      unfolding step_descriptor_def c prod.case Let_def if_not_P [OF 3(1)] if_not_P [OF 3(2)] b .
  qed
qed

lemma zip_step_descends:
  assumes "local_need z" "z_state z \<noteq> ZS_Finished" "data \<noteq> [] \<or> z_state z = ZS_Data"
    and "window_ok z" "inflater_documented (ze_tinfl env)"
  shows "step_descends data z (zip_step env data z w)"
  using assms
  by (cases "z_state z")
    (simp_all add: zip_step_def local_descends name_descends skip_descends stored_descends
      inflate_descends descriptor_descends)

text \<open>Only the inflater writes into the window, and only a new entry rewinds it.\<close>

definition same_window :: "'i zip \<Rightarrow> 'i zip \<Rightarrow> bool" where
  "same_window z z1 \<longleftrightarrow> z_dict z1 = z_dict z \<and> (z_dict_ofs z1 = z_dict_ofs z \<or> z_dict_ofs z1 = 0)"

lemma same_window_ok: "same_window z z1 \<Longrightarrow> window_ok z \<Longrightarrow> window_ok z1"
  by (auto simp: same_window_def window_ok_def)

lemma entry_done_window: "zip_entry_done env z w = (z1, w1) \<Longrightarrow> same_window z z1"
  by (auto simp: zip_entry_done_def zip_fail_def same_window_def Let_def
    split: option.splits prod.splits if_splits)

lemma begin_entry_window:
  assumes "zip_begin_entry env z w = (z1, w1)"
  shows "same_window z z1"
proof -
  have entry_setup: "zip_setup_entry env t y w = (z1, w1) \<Longrightarrow> same_window y z1" for t y
    by (auto simp: zip_setup_entry_def zip_fail_def Let_def same_window_def split: prod.splits if_splits
      dest: entry_done_window)
  have target_frame: "bundle_target_name z = (t, y) \<Longrightarrow> z_dict y = z_dict z \<and> z_dict_ofs y = z_dict_ofs z" for t y
    by (auto simp: bundle_target_name_def Let_def split: option.splits if_splits)
  from assms show ?thesis
    by (auto simp: zip_begin_entry_def zip_fail_def same_window_def
      split: prod.splits option.splits if_splits dest!: entry_setup target_frame)
qed

lemma zip_output_window:
  "zip_output env data z w = (err, z1, w1) \<Longrightarrow> z_dict z1 = z_dict z \<and> z_dict_ofs z1 = z_dict_ofs z"
  by (auto simp: zip_output_def module_output_def keep_head_def Let_def
    split: if_splits zip_target.splits option.splits prod.splits)

lemma collect_window:
  "zip_collect data z = (n, z1) \<Longrightarrow> z_dict z1 = z_dict z \<and> z_dict_ofs z1 = z_dict_ofs z"
  by (auto simp: zip_collect_def Let_def)

lemma other_step_window:
  assumes "zip_step env data z w = (stop, z1, rest, w1)" "\<not> (z_state z = ZS_Data \<and> z_method z \<noteq> ZIP_METHOD_STORE)"
  shows "same_window z z1"
proof (cases "z_state z")
  case ZS_Local
  with assms show ?thesis
    by (auto simp: zip_step_def step_local_def zip_fail_def same_window_def Let_def
      split: prod.splits if_splits dest: collect_window)
next
  case ZS_Name
  with assms show ?thesis
    by (auto simp: zip_step_def step_name_def same_window_def Let_def
      split: prod.splits if_splits dest: begin_entry_window)
next
  case ZS_Skip
  with assms show ?thesis
    by (auto simp: zip_step_def step_skip_def same_window_def Let_def
      split: prod.splits if_splits dest: entry_done_window)
next
  case ZS_Data
  with assms show ?thesis
    by (auto simp: zip_step_def step_stored_def zip_fail_def same_window_def Let_def
      split: prod.splits option.splits if_splits dest!: zip_output_window entry_done_window)
next
  case ZS_Descriptor
  with assms show ?thesis
    by (auto simp: zip_step_def step_descriptor_def same_window_def Let_def
      split: prod.splits if_splits dest!: collect_window entry_done_window)
next
  case ZS_Finished
  with assms show ?thesis by (simp add: zip_step_def same_window_def)
qed

lemma inflate_window:
  assumes s: "step_inflate env data z w = (stop, z1, rest, w1)" and win: "window_ok z"
    and doc: "inflater_documented (ze_tinfl env)"
  shows "window_ok z1"
proof -
  obtain st ib dict ob i1 where t: "ze_tinfl env (z_inflater z) data (z_dict z) (z_dict_ofs z)
      (LZ_DICT_SIZE - z_dict_ofs z) = (st, ib, dict, ob, i1)"
    by (metis prod_cases5)
  have "length dict = LZ_DICT_SIZE" using inflater_bounds [OF doc win t] by simp
  with s t win show ?thesis
    by (auto simp: step_inflate_def zip_fail_def window_ok_def Let_def
      split: prod.splits option.splits if_splits tinfl_status.splits
      dest!: zip_output_window entry_done_window [unfolded same_window_def])
qed

lemma zip_step_window:
  assumes "zip_step env data z w = (stop, z1, rest, w1)" "window_ok z" "inflater_documented (ze_tinfl env)"
  shows "window_ok z1"
proof (cases "z_state z = ZS_Data \<and> z_method z \<noteq> ZIP_METHOD_STORE")
  case True
  with assms(1) have "step_inflate env data z w = (stop, z1, rest, w1)" by (simp add: zip_step_def)
  from inflate_window [OF this assms(2,3)] show ?thesis .
next
  case False
  from same_window_ok [OF other_step_window [OF assms(1) False] assms(2)] show ?thesis .
qed

lemma zip_loop_returns:
  assumes "local_need z" "window_ok z" "inflater_documented (ze_tinfl env)"
  shows "\<exists>z1 w1. zip_loop env data z w = Some (z1, w1) \<and> local_need z1 \<and> window_ok z1"
  using assms(1,2)
proof (induction "(length data, zip_rank z, output_left z)" arbitrary: data z w
    rule: wf_induct_rule [OF wf_lex_prod [OF wf_less_than wf_lex_prod [OF wf_less_than wf_less_than]]])
  case (1 data z w)
  show ?case
  proof (cases "z_state z \<noteq> ZS_Finished \<and> (data \<noteq> [] \<or> z_state z = ZS_Data)")
    case False
    with 1(2,3) show ?thesis by (subst zip_loop.simps) auto
  next
    case True
    obtain stop z1 rest w1 where s: "zip_step env data z w = (stop, z1, rest, w1)"
      by (metis prod_cases4)
    have d: "step_descends data z (stop, z1, rest, w1)"
      using zip_step_descends [OF 1(2) _ _ 1(3) assms(3), of data w] True s by simp
    then have need: "local_need z1" by (simp add: step_descends_def)
    note win = zip_step_window [OF s 1(3) assms(3)]
    show ?thesis
    proof (cases stop)
      case True
      with \<open>z_state z \<noteq> _ \<and> _\<close> s need win show ?thesis by (subst zip_loop.simps) simp
    next
      case False
      with d have "((length rest, zip_rank z1, output_left z1), (length data, zip_rank z, output_left z))
          \<in> less_than <*lex*> less_than <*lex*> less_than"
        by (auto simp: step_descends_def)
      from 1(1) [OF this need win, of w1] \<open>z_state z \<noteq> _ \<and> _\<close> s False show ?thesis
        by (subst zip_loop.simps) simp
    qed
  qed
qed

lemma zip_pieces_return:
  "inflater_documented (ze_tinfl env) \<Longrightarrow> local_need z \<Longrightarrow> window_ok z \<Longrightarrow>
     \<exists>y. zip_pieces env ds z w = Some y"
proof (induction ds arbitrary: z w)
  case Nil
  then show ?case by simp
next
  case (Cons d ds)
  from zip_loop_returns [OF Cons.prems(2,3,1)] obtain z1 w1 where
    l: "zip_loop env d z w = Some (z1, w1)" "local_need z1" "window_ok z1" by blast
  from Cons.IH [OF Cons.prems(1) l(2,3), of w1] l(1) show ?case by (simp add: fwrel_zip_feed_def)
qed

lemma split_slash_simps:
  "split_slash [] = None"
  "split_slash (c # s) = (if c = c_slash then Some ([], s)
     else map_option (\<lambda>(a, b). (c # a, b)) (split_slash s))"
  by (auto simp: split_slash_def Let_def)

lemma split_slash_Some: "split_slash s = Some (a, b) \<Longrightarrow> s = a @ c_slash # b \<and> c_slash \<notin> set a"
  by (induction s arbitrary: a) (auto simp: split_slash_simps split: if_splits)

section \<open>Properties\<close>

text \<open>C15: a release archive, correct or hostile, cut into any pieces and with any behaviour of the
  inflater and of the client: files are opened only at \<open>BOOT.bin\<close> or \<open>ZZ9K/NAME.ZZM\<close> (1 to 8 characters
  of A-Z, 0-9, _); data is delivered only for an open file; a file is reported complete only
  after everything delivered for it was verified (a boot image by size and Zynq header, a
  module by its header, its exact length and the SHA-256 of its image); the boot image is completed at
  most once, and exactly once when the run reports success.\<close>

theorem zip_bundle_verified:
  assumes "fwrel_zip_new_bundle True True i0 = Some z0"
    and "zip_pieces (log_env accept ti tinfl) ds z0 [] = Some (r, z, l)"
  shows "log_ok l \<and> count_list l (Ev_End boot_name) \<le> 1 \<and>
     (r = Zip_Done \<longrightarrow> count_list l (Ev_End boot_name) = 1)"
proof -
  from zip_pieces_ok [OF assms(2) zip_new_ok [OF assms(1)]]
  have "zip_ok z l" "r = (if z_state z = ZS_Finished then z_result z else Zip_More)" by blast+
  then show ?thesis by (auto simp: zip_ok_def zip_base_def split: if_splits)
qed

definition stuck_inflater :: "unit \<Rightarrow> bytes \<Rightarrow> bytes \<Rightarrow> nat \<Rightarrow> nat \<Rightarrow> tinfl_status \<times> nat \<times> bytes \<times> nat \<times> unit" where
  "stuck_inflater i data dict ofs room = (Tinfl_Failed, 0, dict, 0, i)"

theorem zip_bundle_verified_witness:
  "\<exists>z0 r z l. fwrel_zip_new_bundle True True () = Some z0 \<and>
     zip_pieces (log_env (\<lambda>_ _. True) id stuck_inflater) [[0x50, 0x4b], [0x01, 0x02]] z0 [] = Some (r, z, l) \<and>
     r = Zip_Err_Not_Found \<and> log_ok l"
proof -
  let ?env = "log_env (\<lambda>_ _. True) id stuck_inflater"
  obtain z0 where z0: "fwrel_zip_new_bundle True True () = Some z0"
    by (simp add: fwrel_zip_new_bundle_def zip_new_def)
  then have f: "z_state z0 = ZS_Local" "z_hdr_have z0 = 0" "z_hdr_need z0 = 30" "z_hdr z0 = replicate 30 0"
    "\<not> z_found_boot z0"
    by (auto simp: fwrel_zip_new_bundle_def zip_new_def)
  define z1 where "z1 = snd (zip_collect [0x50, 0x4b] z0)"
  have s1: "zip_loop ?env [0x50, 0x4b] z0 [] = Some (z1, [])"
    by (subst zip_loop.simps)
      (simp add: f zip_step_def step_local_def zip_collect_def Let_def z1_def zip_loop.simps)
  have g: "z_state z1 = ZS_Local" "z_hdr_have z1 = 2" "z_hdr_need z1 = 30"
    "z_hdr z1 = [0x50, 0x4b] @ replicate 28 0" "\<not> z_found_boot z1"
    by (simp_all add: z1_def zip_collect_def f blit_def Let_def)
  define z2 where "z2 = snd (zip_collect [0x01, 0x02] z1)"
  have s2: "zip_loop ?env [0x01, 0x02] z1 [] = Some (zip_fail Zip_Err_Not_Found z2, [])"
    by (subst zip_loop.simps)
      (simp add: g zip_step_def step_local_def zip_collect_def Let_def blit_def le32_def z2_def)
  have "zip_pieces ?env [[0x50, 0x4b], [0x01, 0x02]] z0 [] =
      Some (Zip_Err_Not_Found, zip_fail Zip_Err_Not_Found z2, [])"
    using s1 s2 by (simp add: fwrel_zip_feed_def zip_fail_def)
  with z0 zip_bundle_verified [OF z0 this] show ?thesis by blast
qed

text \<open>C16: feeding the reader always returns: whatever the archive, its pieces, the client and the
  stream of compressed data, however far it expands, every call ends, provided that on the calls
  the reader makes the inflater keeps to its buffers and reports pending output only when it has
  filled the space it was given, as its header documents.\<close>

theorem zip_feed_terminates:
  assumes "inflater_documented (ze_tinfl env)"
    and "fwrel_zip_new_bundle True True i0 = Some z0 \<or> fwrel_zip_new True True i0 = Some z0"
  shows "\<exists>r z w'. zip_pieces env ds z0 w = Some (r, z, w')"
proof -
  have "local_need z0" "window_ok z0"
    using assms(2)
    by (auto simp: fwrel_zip_new_bundle_def fwrel_zip_new_def zip_new_def local_need_def window_ok_def)
  from zip_pieces_return [OF assms(1) this, of ds w] show ?thesis by (metis prod_cases3)
qed

text \<open>
  An inflater that really expands: a stream of pairs, a count and a byte. What does not fit into the
  space is kept in the state and reported as pending output; without input it asks for more, and a
  pair with count zero ends the stream. A lone count at the end of a piece waits in the state.
\<close>

datatype rle_state = Rle (rle_count: "u8 option") (rle_byte: u8) (rle_pending: nat)

fun rle_run :: "rle_state \<Rightarrow> bytes \<Rightarrow> nat \<Rightarrow> tinfl_status \<times> nat \<times> bytes \<times> rle_state" where
  "rle_run (Rle c b (Suc n)) data 0 = (Tinfl_Has_Output, 0, [], Rle c b (Suc n))"
| "rle_run (Rle c b (Suc n)) data (Suc room) =
     (case rle_run (Rle c b n) data room of (st, used, out, i) \<Rightarrow> (st, used, b # out, i))"
| "rle_run (Rle c b 0) [] room = (Tinfl_Needs_Input, 0, [], Rle c b 0)"
| "rle_run (Rle None b 0) (d # ds) room =
     (case rle_run (Rle (Some d) b 0) ds room of (st, used, out, i) \<Rightarrow> (st, used + 1, out, i))"
| "rle_run (Rle (Some c) b 0) (d # ds) room =
     (if c = 0 then (Tinfl_Done, 1, [], Rle None 0 0)
      else case rle_run (Rle None d (unat c)) ds room of (st, used, out, i) \<Rightarrow> (st, used + 1, out, i))"

definition rle_inflater ::
    "rle_state \<Rightarrow> bytes \<Rightarrow> bytes \<Rightarrow> nat \<Rightarrow> nat \<Rightarrow> tinfl_status \<times> nat \<times> bytes \<times> nat \<times> rle_state" where
  "rle_inflater i data dict ofs room =
     (case rle_run i data room of (st, used, out, i1) \<Rightarrow> (st, used, blit ofs out dict, length out, i1))"

lemma rle_run_bounds:
  "rle_run i data room = (st, used, out, i1) \<Longrightarrow>
     used \<le> length data \<and> length out \<le> room \<and> (st = Tinfl_Has_Output \<longrightarrow> length out = room)"
  by (induction i data room arbitrary: st used out i1 rule: rle_run.induct)
    (fastforce split: prod.splits if_splits)+

lemma rle_documented: "inflater_documented rle_inflater"
  by (auto simp: inflater_documented_def rle_inflater_def length_blit split: prod.splits
    dest: rle_run_bounds)

theorem zip_feed_terminates_witness:
  "(let env = log_env (\<lambda>_ _. True) (\<lambda>_. Rle None 0 0) rle_inflater in
     rle_inflater (Rle None 0 0) [200, 7] (replicate LZ_DICT_SIZE 0) 32700 68 =
       (Tinfl_Has_Output, 2, replicate 32700 0 @ replicate 68 7, 68, Rle None 7 132) \<and>
     (\<exists>z0. fwrel_zip_new True True (Rle None 0 0) = Some z0 \<and>
       (\<forall>ds. \<exists>r z w'. zip_pieces env ds z0 [] = Some (r, z, w'))))"
proof -
  let ?env = "log_env (\<lambda>_ _. True) (\<lambda>_. Rle None 0 0) rle_inflater"
  obtain z0 where z0: "fwrel_zip_new True True (Rle None 0 0) = Some z0"
    by (simp add: fwrel_zip_new_def zip_new_def)
  have "inflater_documented (ze_tinfl ?env)" by (simp add: log_env_def rle_documented)
  from zip_feed_terminates [OF this disjI2 [OF z0]] z0 have
    "\<exists>z0. fwrel_zip_new True True (Rle None 0 0) = Some z0 \<and>
       (\<forall>ds. \<exists>r z w'. zip_pieces ?env ds z0 [] = Some (r, z, w'))"
    by blast
  moreover have "rle_run (Rle None 7 200) [] 68 = (Tinfl_Has_Output, 0, replicate 68 7, Rle None 7 132)"
    by code_simp
  then have "rle_inflater (Rle None 0 0) [200, 7] (replicate LZ_DICT_SIZE 0) 32700 68 =
      (Tinfl_Has_Output, 2, replicate 32700 0 @ replicate 68 7, 68, Rle None 7 132)"
    by (simp add: rle_inflater_def blit_def)
  ultimately show ?thesis by (simp add: Let_def)
qed

text \<open>the destination of an archive member is decided safely and exactly: a selected member is
  \<open>root/BOOT.bin\<close> or \<open>root/ZZ9K/NAME.ZZM\<close> for one root directory that has no slash or backslash and is not
  empty, \<open>.\<close> or \<open>..\<close>, is the root of all members seen before, and is remembered.\<close>

theorem bundle_target_exact:
  assumes "bundle_target_name z = (Some t, z1)" "t \<noteq> Entry_None"
  shows "\<exists>root. cstr (z_name z) = root @ c_slash # z_entry_name z1 \<and> z_root z1 = root \<and>
     (z_root z = [] \<or> z_root z = root) \<and> root \<noteq> [] \<and> c_slash \<notin> set root \<and> c_backslash \<notin> set root \<and>
     root \<noteq> [c_dot] \<and> root \<noteq> [c_dot, c_dot] \<and>
     (t = Entry_Boot \<and> z_entry_name z1 = boot_name \<and> \<not> z_found_boot z \<or>
      t = Entry_Module \<and> module_path (z_entry_name z1))"
proof -
  let ?name = "cstr (z_name z)"
  from assms have safe: "safe_bundle_path ?name"
    by (auto simp: bundle_target_name_def Let_def split: if_splits)
  from assms safe obtain root rest where s: "split_slash ?name = Some (root, rest)"
    by (auto simp: bundle_target_name_def Let_def split: option.splits if_splits)
  have "root \<noteq> [] \<and> root \<noteq> [c_dot] \<and> root \<noteq> [c_dot, c_dot]"
    using safe s by (auto simp: safe_bundle_path_def safe_parts.simps [of ?name] split: if_splits)
  moreover have "c_backslash \<notin> set root"
    using safe split_slash_Some [OF s] by (auto simp: safe_bundle_path_def split: if_splits)
  moreover have "z_root z1 = root" "z_root z = [] \<or> z_root z = root" "z_entry_name z1 = rest"
    using assms safe s
    by (auto simp: bundle_target_name_def Let_def split: if_splits option.splits)
      (metis append_take_drop_id length_take)+
  moreover note bundle_target_cases(2,3) [OF assms(1)] bundle_target_module [of z z1]
  ultimately show ?thesis
    using split_slash_Some [OF s] assms by (cases t) auto
qed

definition sample_member :: "unit zip" where
  "sample_member = \<lparr>z_state = ZS_Name, z_result = Zip_More, z_bundle = True,
     z_hdr = [], z_hdr_have = 0, z_hdr_need = ZIP_LOCAL_BYTES,
     z_name = [0x72, 0x2f, 0x42, 0x4f, 0x4f, 0x54, 0x2e, 0x62, 0x69, 0x6e, 0],
     z_entry_name = [], z_root = [], z_flags = 0, z_method = 0,
     z_crc_expected = 0, z_csize = 0, z_usize = 0, z_name_len = 10, z_extra_len = 0, z_skip = 0,
     z_target = Entry_None, z_found_boot = False, z_crc = 0, z_out_total = 0,
     z_head = [], z_sha = zero_sha, z_image_size = 0,
     z_module_ok = False, z_inflater = (), z_dict_ofs = 0, z_dict = []\<rparr>"

theorem bundle_target_exact_witness:
  "\<exists>z1. bundle_target_name sample_member = (Some Entry_Boot, z1) \<and> z_root z1 = [0x72] \<and>
     z_entry_name z1 = boot_name"
proof -
  obtain t z1 where b: "bundle_target_name sample_member = (t, z1)" by fastforce
  have k: "fst (bundle_target_name sample_member) = Some Entry_Boot"
    "cstr (z_name sample_member) = [0x72] @ c_slash # boot_name" "c_slash \<notin> set boot_name"
    by code_simp+
  from b k(1) have t: "bundle_target_name sample_member = (Some Entry_Boot, z1)" by simp
  from bundle_target_exact [OF t] obtain root where
    r: "cstr (z_name sample_member) = root @ c_slash # z_entry_name z1" "z_root z1 = root"
      "z_entry_name z1 = boot_name"
    by auto
  with k(2) have "root = [0x72]" by simp
  with t r show ?thesis by blast
qed

end
