(* ===== verification/FwVersion.thy ===== *)
theory FwVersion
  imports FwZip
begin

text \<open>
  Release tags, version comparison and board variants (\<^verbatim>\<open>common/fw_release.c\<close>). C strings are
  byte lists without the terminating NUL; reading at the end of the list gives the NUL.
\<close>

section \<open>Tags\<close>

record fw_version =
  v_major :: u32
  v_minor :: u32
  v_patch :: u32

definition at0 :: "bytes \<Rightarrow> u8" where
  "at0 s = (case s of [] \<Rightarrow> 0 | c # _ \<Rightarrow> c)"

definition is_digit :: "u8 \<Rightarrow> bool" where
  "is_digit c = (0x30 \<le> c \<and> c \<le> 0x39)"

text \<open>The digit loop of \<^verbatim>\<open>parse_part\<close>: value, number of digits, rest; \<open>None\<close> when out of range.\<close>

fun part_loop :: "bytes \<Rightarrow> u32 \<Rightarrow> nat \<Rightarrow> (u32 \<times> nat \<times> bytes) option" where
  "part_loop [] v d = Some (v, d, [])"
| "part_loop (c # cs) v d =
     (if is_digit c then
        (let v' = v * 10 + (ucast c - 0x30)
         in if d + 1 > 3 \<or> v' > 255 then None else part_loop cs v' (d + 1))
      else Some (v, d, c # cs))"

definition parse_part :: "bytes \<Rightarrow> u8 \<Rightarrow> (u32 \<times> bytes) option" where
  "parse_part s end_c =
     (case part_loop s 0 0 of None \<Rightarrow> None
      | Some (v, d, r) \<Rightarrow>
          if d = 0 \<or> at0 r \<noteq> end_c then None
          else Some (v, if end_c \<noteq> 0 then tl r else r))"

definition parse_tag :: "bytes option \<Rightarrow> fw_version option" where
  "parse_tag tag =
     (case tag of None \<Rightarrow> None
      | Some s \<Rightarrow>
          if at0 s \<noteq> 0x76 then None
          else case parse_part (tl s) c_dot of None \<Rightarrow> None
          | Some (mj, s1) \<Rightarrow> (case parse_part s1 c_dot of None \<Rightarrow> None
            | Some (mi, s2) \<Rightarrow> (case parse_part s2 0 of None \<Rightarrow> None
              | Some (pt, s3) \<Rightarrow> Some \<lparr>v_major = mj, v_minor = mi, v_patch = pt\<rparr>)))"

datatype fw_compare = Up_To_Date | Newer | Installed_Newer | Patch_Unknown

definition version_compare :: "fw_version \<Rightarrow> bool \<Rightarrow> fw_version \<Rightarrow> fw_compare" where
  "version_compare installed patch_known latest =
     (let have_v = push_bit 8 (v_major installed) OR v_minor installed;
          want_v = push_bit 8 (v_major latest) OR v_minor latest
      in if want_v > have_v then Newer
         else if want_v < have_v then Installed_Newer
         else if \<not> patch_known then (if v_patch latest = 0 then Up_To_Date else Patch_Unknown)
         else if v_patch latest > v_patch installed then Newer
         else if v_patch latest < v_patch installed then Installed_Newer
         else Up_To_Date)"

section \<open>Variants\<close>

abbreviation (input) "VARIANT_ZORRO3 \<equiv> (0 :: int)"
abbreviation (input) "VARIANT_ZORRO3_AGA \<equiv> (1 :: int)"
abbreviation (input) "VARIANT_ZORRO2 \<equiv> (2 :: int)"
abbreviation (input) "VARIANT_ZORRO2_2MB \<equiv> (3 :: int)"
abbreviation (input) "VARIANT_A500 \<equiv> (4 :: int)"
abbreviation (input) "VARIANT_A500_2MB \<equiv> (5 :: int)"
abbreviation (input) "VARIANT_A500PLUS \<equiv> (6 :: int)"
abbreviation (input) "VARIANT_COUNT \<equiv> (7 :: int)"
abbreviation (input) "VARIANT_UNKNOWN \<equiv> (- 1 :: int)"

definition variant_names :: "bytes list" where
  "variant_names = map of_string [''zorro3'', ''zorro3-aga'', ''zorro2'', ''zorro2-2mb'', ''a500'',
     ''a500-2mb'', ''a500plus'']"

definition variant_labels :: "bytes list" where
  "variant_labels = map of_string [''Zorro III'', ''Zorro III, A4000 AGA capture'', ''Zorro II'',
     ''Zorro II, 2 MB'', ''A500 (ZZ9500CX)'', ''A500 (ZZ9500CX), 2 MB'', ''A500+ / Super Denise'']"

definition variant_name :: "int \<Rightarrow> bytes option" where
  "variant_name v = (if v < 0 \<or> v \<ge> VARIANT_COUNT then None else Some (variant_names ! nat v))"

definition variant_label :: "int \<Rightarrow> bytes option" where
  "variant_label v = (if v < 0 \<or> v \<ge> VARIANT_COUNT then None else Some (variant_labels ! nat v))"

definition variant_is_zorro3 :: "int \<Rightarrow> bool" where
  "variant_is_zorro3 v = (v = VARIANT_ZORRO3 \<or> v = VARIANT_ZORRO3_AGA)"

text \<open>The two register values are defined in \<^verbatim>\<open>include/zz9000_capture_calibration.h\<close>.\<close>

abbreviation "CAPTURE_FIELD_DIAG_CAP \<equiv> (0x56440110 :: u32)"
abbreviation "CAPTURE_CAP_C28 \<equiv> (0x56510206 :: u32)"

definition variant_detect :: "u32 \<Rightarrow> u32 \<Rightarrow> u32 \<Rightarrow> int" where
  "variant_detect diag_cap diag_variant capture_cap =
     (if diag_cap \<noteq> CAPTURE_FIELD_DIAG_CAP \<or> drop_bit 16 diag_variant \<noteq> 1 then VARIANT_UNKNOWN
      else let z3 = (diag_variant AND 1 \<noteq> 0);
               two_mb = (diag_variant AND 4 \<noteq> 0);
               rgb_mode = drop_bit 5 diag_variant AND 3
           in if z3 then
                (if two_mb \<or> rgb_mode \<noteq> 0 then VARIANT_UNKNOWN
                 else if capture_cap = CAPTURE_CAP_C28 then VARIANT_ZORRO3_AGA else VARIANT_ZORRO3)
              else if rgb_mode = 1 then (if two_mb then VARIANT_A500_2MB else VARIANT_A500)
              else if rgb_mode = 2 then (if two_mb then VARIANT_ZORRO2_2MB else VARIANT_ZORRO2)
              else VARIANT_UNKNOWN)"

definition variant_matches :: "int \<Rightarrow> int \<Rightarrow> bool" where
  "variant_matches detected chosen =
     (if detected = VARIANT_A500 \<and> chosen = VARIANT_A500PLUS then True
      else if detected = VARIANT_A500PLUS \<and> chosen = VARIANT_A500 then True
      else detected = chosen)"

text \<open>\<^verbatim>\<open>snprintf\<close> into a buffer of the given size: the name, if it fits with its NUL.\<close>

definition asset_name :: "bytes option \<Rightarrow> int \<Rightarrow> nat \<Rightarrow> bytes option" where
  "asset_name tag variant bufsize =
     (case (variant_name variant, tag) of
        (Some name, Some t) \<Rightarrow>
          if bufsize = 0 then None
          else let s = of_string ''zz9000-firmware-'' @ t @ of_string ''-'' @ name @ of_string ''.zip''
               in if length s < bufsize then Some s else None
      | _ \<Rightarrow> None)"

end
