(* ===== verification/FwVersion_Correct.thy ===== *)
theory FwVersion_Correct
  imports FwVersion
begin

text \<open>
  Release tags round-trip through the parser, the comparison is the order on versions, and the
  name of an archive identifies its release and board variant.
\<close>

section \<open>Printing\<close>

text \<open>The tag \<^verbatim>\<open>v%u.%u.%u\<close> of a version.\<close>

fun decimal :: "nat \<Rightarrow> bytes" where
  "decimal n = (if n < 10 then [of_nat (48 + n)] else decimal (n div 10) @ [of_nat (48 + n mod 10)])"

declare decimal.simps [simp del]

definition print_tag :: "fw_version \<Rightarrow> bytes" where
  "print_tag v = 0x76 # decimal (unat (v_major v)) @ c_dot # decimal (unat (v_minor v)) @ c_dot #
     decimal (unat (v_patch v))"

definition version_ok :: "fw_version \<Rightarrow> bool" where
  "version_ok v \<longleftrightarrow> v_major v \<le> 255 \<and> v_minor v \<le> 255 \<and> v_patch v \<le> 255"

lemma digit_facts:
  assumes "k < 10"
  shows "is_digit (of_nat (48 + k))" "(ucast (of_nat (48 + k) :: u8) :: u32) - 0x30 = of_nat k"
proof -
  have u: "unat (of_nat (48 + k) :: u8) = 48 + k" using assms by (simp add: unat_of_nat del: of_nat_add)
  show "is_digit (of_nat (48 + k))"
    using u assms by (simp add: is_digit_def word_le_nat_alt del: of_nat_add)
  have "(ucast (of_nat (48 + k) :: u8) :: u32) = of_nat (48 + k)"
    using u by (simp add: ucast_of_unat [where x = "of_nat (48 + k) :: u8"] del: of_nat_add ucast_of_unat)
  then show "(ucast (of_nat (48 + k) :: u8) :: u32) - 0x30 = of_nat k" by simp
qed

lemma part_loop_digit:
  assumes "k < 10" "d < 3" "n * 10 + k \<le> 255"
  shows "part_loop (of_nat (48 + k) # r) (of_nat n) d = part_loop r (of_nat (n * 10 + k)) (d + 1)"
proof -
  have v: "(of_nat n :: u32) * 10 + ((ucast (of_nat (48 + k) :: u8) :: u32) - 0x30) = of_nat (n * 10 + k)"
    unfolding digit_facts(2) [OF assms(1)] by simp
  have "\<not> (of_nat (n * 10 + k) :: u32) > 255"
    using assms(3) by (simp add: word_less_nat_alt unat_of_nat del: of_nat_add of_nat_mult)
  with assms digit_facts(1) [OF assms(1)] show ?thesis
    by (simp only: part_loop.simps if_True v Let_def) simp
qed

lemma decimal_cases:
  "n \<le> 255 \<Longrightarrow> decimal n =
     (if n < 10 then [of_nat (48 + n)]
      else if n < 100 then [of_nat (48 + n div 10), of_nat (48 + n mod 10)]
      else [of_nat (48 + n div 100), of_nat (48 + n div 10 mod 10), of_nat (48 + n mod 10)])"
  by (auto simp: decimal.simps [of n] decimal.simps [of "n div 10"] decimal.simps [of "n div 100"]
    div_mult2_eq [symmetric])

lemma parse_decimal:
  assumes "n \<le> 255" "at0 r = e" "\<not> is_digit e"
  shows "parse_part (decimal n @ r) e = Some (of_nat n, if e \<noteq> 0 then tl r else r)"
proof -
  have stop: "part_loop r v d = Some (v, d, r)" for v d
    using assms(2,3) by (cases r) (auto simp: at0_def)
  have "part_loop (decimal n @ r) 0 0 = Some (of_nat n, length (decimal n), r)"
  proof -
    consider "n < 10" | "10 \<le> n" "n < 100" | "100 \<le> n" by linarith
    then show ?thesis
    proof cases
      case 1
      with part_loop_digit [of n 0 0 r] stop assms(1) show ?thesis
        by (simp add: decimal_cases del: of_nat_add part_loop.simps)
    next
      case 2
      have "n div 10 * 10 + n mod 10 = n" by simp
      with 2 part_loop_digit [of "n div 10" 0 0 "of_nat (48 + n mod 10) # r"]
        part_loop_digit [of "n mod 10" 1 "n div 10" r] stop assms(1)
      show ?thesis by (simp add: decimal_cases del: of_nat_add of_nat_mult part_loop.simps)
    next
      case 3
      have "n div 10 div 10 * 10 + n div 10 mod 10 = n div 10" by (rule div_mult_mod_eq)
      then have "n div 100 * 10 + n div 10 mod 10 = n div 10" "n div 10 * 10 + n mod 10 = n"
        by (simp_all add: div_mult2_eq [of n 10 10, simplified])
      with 3 part_loop_digit [of "n div 100" 0 0 "of_nat (48 + n div 10 mod 10) # of_nat (48 + n mod 10) # r"]
        part_loop_digit [of "n div 10 mod 10" 1 "n div 100" "of_nat (48 + n mod 10) # r"]
        part_loop_digit [of "n mod 10" 2 "n div 10" r] stop assms(1)
      show ?thesis
        by (simp add: decimal_cases numeral_2_eq_2 numeral_3_eq_3 del: of_nat_add of_nat_mult part_loop.simps)
    qed
  qed
  moreover have "length (decimal n) \<noteq> 0" using assms(1) by (simp add: decimal_cases)
  ultimately show ?thesis using assms(2) by (simp add: parse_part_def)
qed

lemma parse_print_tag:
  assumes "version_ok v"
  shows "parse_tag (Some (print_tag v)) = Some v"
proof -
  have nd: "\<not> is_digit c_dot" "\<not> is_digit 0" by (simp_all add: is_digit_def word_le_nat_alt)
  have b: "unat (v_major v) \<le> 255" "unat (v_minor v) \<le> 255" "unat (v_patch v) \<le> 255"
    using assms by (simp_all add: version_ok_def word_le_nat_alt)
  note p = parse_decimal [OF b(1) _ nd(1), where r = "c_dot # decimal (unat (v_minor v)) @ c_dot # decimal (unat (v_patch v))"]
    parse_decimal [OF b(2) _ nd(1), where r = "c_dot # decimal (unat (v_patch v))"]
    parse_decimal [OF b(3) _ nd(2), where r = "[]"]
  show ?thesis
    using p by (simp add: parse_tag_def print_tag_def at0_def)
qed

interpretation tags: codec print_tag "\<lambda>s. parse_tag (Some s)" "\<lambda>v. v" version_ok
  by unfold_locales (rule parse_print_tag)

lemma parse_part_bound: "parse_part s e = Some (x, r) \<Longrightarrow> x \<le> 255"
proof -
  have l: "v \<le> 255 \<Longrightarrow> part_loop s v d = Some (x, e, r) \<Longrightarrow> x \<le> 255" for s v d x e r
    by (induction s v d rule: part_loop.induct) (auto simp: Let_def not_less split: if_splits)
  show "parse_part s e = Some (x, r) \<Longrightarrow> x \<le> 255"
    using l [of 0 s 0] by (auto simp: parse_part_def split: option.splits prod.splits if_splits)
qed

section \<open>Properties\<close>

text \<open>C21: the tag of every version whose parts fit a byte parses back to that version, different versions have
  different tags, and the parser accepts nothing with a larger part.\<close>

theorem tag_roundtrip:
  "(version_ok v \<longrightarrow> parse_tag (Some (print_tag v)) = Some v) \<and>
   (version_ok v \<and> version_ok w \<and> print_tag v = print_tag w \<longrightarrow> v = w) \<and>
   (parse_tag t = Some u \<longrightarrow> version_ok u)"
proof (intro conjI impI)
  show "parse_tag (Some (print_tag v)) = Some v" if "version_ok v" using that by (rule tags.dec_enc)
  show "v = w" if "version_ok v \<and> version_ok w \<and> print_tag v = print_tag w"
    using that tags.enc_inject by blast
  show "version_ok u" if "parse_tag t = Some u"
    using that by (auto simp: parse_tag_def version_ok_def split: option.splits prod.splits if_splits
      dest: parse_part_bound)
qed

theorem tag_roundtrip_witness:
  "parse_tag (Some (print_tag \<lparr>v_major = 2, v_minor = 10, v_patch = 255\<rparr>)) =
     Some \<lparr>v_major = 2, v_minor = 10, v_patch = 255\<rparr>"
proof -
  have "version_ok \<lparr>v_major = 2, v_minor = 10, v_patch = 255\<rparr>"
    by (simp add: version_ok_def)
  then show ?thesis
    using tag_roundtrip [of "\<lparr>v_major = 2, v_minor = 10, v_patch = 255\<rparr>"] by blast
qed

text \<open>The version as one number, most significant part first.\<close>

definition version_rank :: "fw_version \<Rightarrow> nat" where
  "version_rank v = (unat (v_major v) * 256 + unat (v_minor v)) * 256 + unat (v_patch v)"

lemma or_shift_8:
  fixes a b :: u32
  assumes "a \<le> 255" "b \<le> 255"
  shows "unat (push_bit 8 a OR b) = unat a * 256 + unat b"
proof -
  have ab: "unat a \<le> 255" "unat b \<le> 255" using assms by (simp_all add: word_le_nat_alt)
  have p: "unat (push_bit 8 a) = unat a * 256"
    using ab by (simp add: push_bit_eq_mult unat_word_ariths)
  have "push_bit 8 a AND b = 0"
  proof (rule bit_word_eqI)
    fix n
    have "b < 2 ^ 8" using ab by (simp add: word_less_nat_alt)
    then have "b = take_bit 8 b" by (metis less_mask_eq take_bit_eq_mask)
    then have "bit b n \<Longrightarrow> n < 8" by (metis bit_take_bit_iff)
    then show "bit (push_bit 8 a AND b) n = bit 0 n" by (auto simp: bit_simps)
  qed
  then have "push_bit 8 a OR b = push_bit 8 a + b" by (simp add: disjunctive_add_eq_or)
  with p ab show ?thesis by (simp add: unat_plus_nowrap)
qed

lemma radix_eq: "b < 256 \<Longrightarrow> d < 256 \<Longrightarrow> (a * 256 + b = c * 256 + d) = (a = c \<and> b = (d :: nat))"
proof
  assume b: "b < 256" "d < 256" and e: "a * 256 + b = c * 256 + d"
  have "(a * 256 + b) mod 256 = b" "(c * 256 + d) mod 256 = d" using b by simp_all
  with e have "b = d" by metis
  with e show "a = c \<and> b = d" by simp
qed simp

text \<open>the comparison is the order on versions: with a known patch level the answer is newer, older or
  equal exactly as the three parts compare most significant first; without one, only major and minor
  decide, a zero patch counts as up to date, and any other answers that it cannot tell.\<close>

theorem version_compare_order:
  assumes "version_ok i" "version_ok l"
  shows "(version_compare i True l = Newer) = (version_rank i < version_rank l) \<and>
    (version_compare i True l = Installed_Newer) = (version_rank l < version_rank i) \<and>
    (version_compare i True l = Up_To_Date) = (i = l) \<and>
    (let a = version_rank (i\<lparr>v_patch := 0\<rparr>); b = version_rank (l\<lparr>v_patch := 0\<rparr>) in
       version_compare i False l = (if a < b then Newer else if b < a then Installed_Newer
         else if v_patch l = 0 then Up_To_Date else Patch_Unknown))"
proof -
  have b: "v_major i \<le> 255" "v_minor i \<le> 255" "v_patch i \<le> 255" "v_major l \<le> 255" "v_minor l \<le> 255" "v_patch l \<le> 255"
    using assms by (simp_all add: version_ok_def)
  then have n: "unat (v_minor i) < 256" "unat (v_patch i) < 256" "unat (v_minor l) < 256" "unat (v_patch l) < 256"
    by (auto simp: word_le_nat_alt)
  note h = or_shift_8 [OF b(1,2)] or_shift_8 [OF b(4,5)]
  have e: "(i = l) = (v_major i = v_major l \<and> v_minor i = v_minor l \<and> v_patch i = v_patch l)"
    by (cases i, cases l) auto
  have u: "(x = y) = (unat x = unat y)" for x y :: u32 by (rule word_unat_eq_iff)
  show ?thesis
    using n radix_eq [OF n(1,3)]
    unfolding version_compare_def Let_def version_rank_def word_less_nat_alt h e u
    by auto
qed

theorem version_compare_order_witness:
  "version_compare \<lparr>v_major = 2, v_minor = 9, v_patch = 1\<rparr> True \<lparr>v_major = 2, v_minor = 10, v_patch = 0\<rparr> = Newer"
proof -
  have "version_ok \<lparr>v_major = 2, v_minor = 9, v_patch = 1\<rparr>" "version_ok \<lparr>v_major = 2, v_minor = 10, v_patch = 0\<rparr>"
    by (simp_all add: version_ok_def)
  from version_compare_order [OF this] show ?thesis by (simp add: version_rank_def)
qed

lemma part_loop_dash: "part_loop s v d = Some (x, e, r) \<Longrightarrow> 0x2d \<in> set s \<Longrightarrow> 0x2d \<in> set r"
proof (induction s v d rule: part_loop.induct)
  case (2 c cs v d)
  have "\<not> is_digit 0x2d" by (simp add: is_digit_def word_le_nat_alt)
  with 2 show ?case by (cases "is_digit c") (auto simp: Let_def split: if_splits)
qed simp

lemma part_loop_sub: "part_loop s v d = Some (x, e, r) \<Longrightarrow> set r \<subseteq> set s"
  by (induction s v d rule: part_loop.induct) (auto simp: Let_def split: if_splits)

lemma parse_part_dash:
  assumes "parse_part s e = Some (x, r)" "0x2d \<in> set s" "0 \<notin> set s" "e \<noteq> 0x2d"
  shows "0x2d \<in> set r \<and> 0 \<notin> set r \<and> e \<noteq> 0"
proof -
  from assms(1) obtain d q where l: "part_loop s 0 0 = Some (x, d, q)" "at0 q = e"
      "r = (if e \<noteq> 0 then tl q else q)"
    by (auto simp: parse_part_def split: option.splits prod.splits if_splits)
  from part_loop_dash [OF l(1) assms(2)] obtain c q' where q: "q = c # q'" "0x2d \<in> set q"
    by (cases q) auto
  from part_loop_sub [OF l(1)] assms(3) q have "0 \<notin> set q" by blast
  with q l(2,3) assms(4) show ?thesis by (auto simp: at0_def)
qed

lemma tag_no_dash: "parse_tag (Some t) = Some v \<Longrightarrow> 0 \<notin> set t \<Longrightarrow> 0x2d \<notin> set t"
proof
  assume p: "parse_tag (Some t) = Some v" and z: "0 \<notin> set t" and d: "0x2d \<in> set t"
  from p obtain mj s1 mi s2 pt s3 where s: "at0 t = 0x76" "parse_part (tl t) c_dot = Some (mj, s1)"
      "parse_part s1 c_dot = Some (mi, s2)" "parse_part s2 0 = Some (pt, s3)"
    by (auto simp: parse_tag_def split: option.splits prod.splits if_splits)
  have "0x2d \<in> set (tl t)" "0 \<notin> set (tl t)"
    using s(1) z d by (cases t; simp add: at0_def)+
  from parse_part_dash [OF s(2) this] have "0x2d \<in> set s1" "0 \<notin> set s1" by simp_all
  from parse_part_dash [OF s(3) this] have "0x2d \<in> set s2" "0 \<notin> set s2" by simp_all
  from parse_part_dash [OF s(4) this] show False by simp
qed

lemma variant_names_distinct: "distinct variant_names" "length variant_names = 7"
  by code_simp+

lemma dash_split: "c \<notin> set t \<Longrightarrow> c \<notin> set t' \<Longrightarrow> t @ c # r = t' @ c # r' \<Longrightarrow> t = t' \<and> r = r'"
proof (induction t arbitrary: t')
  case Nil
  then show ?case by (cases t') auto
next
  case (Cons x t)
  then show ?case by (cases t') auto
qed

text \<open>the name of a release archive identifies the release and the board variant: two names for
  parsed tags and valid variants are equal only for the same tag and variant, so the updater
  cannot confuse the archive of one board with that of another.\<close>

theorem asset_name_unambiguous:
  assumes "parse_tag (Some t) = Some a" "parse_tag (Some t') = Some b" "0 \<notin> set t" "0 \<notin> set t'"
    and "asset_name (Some t) v n = Some s" "asset_name (Some t') v' n' = Some s"
  shows "t = t' \<and> v = v'"
proof -
  from assms(5,6) have v: "0 \<le> v" "v < 7" "0 \<le> v'" "v' < 7"
    by (auto simp: asset_name_def variant_name_def split: if_splits)
  with assms(5,6) have
    "t @ 0x2d # variant_names ! nat v @ of_string ''.zip'' =
     t' @ 0x2d # variant_names ! nat v' @ of_string ''.zip''"
    by (auto simp: asset_name_def variant_name_def Let_def of_string_def split: if_splits)
  from dash_split [OF tag_no_dash [OF assms(1,3)] tag_no_dash [OF assms(2,4)] this]
  have "t = t'" "variant_names ! nat v = variant_names ! nat v'" by simp_all
  then show ?thesis
    using v variant_names_distinct nth_eq_iff_index_eq [of variant_names "nat v" "nat v'"] by auto
qed

theorem asset_name_unambiguous_witness:
  "\<exists>s. asset_name (Some (of_string ''v2.10.0'')) VARIANT_A500 64 = Some s \<and>
     asset_name (Some (of_string ''v2.10.0'')) VARIANT_A500PLUS 64 \<noteq> Some s"
proof -
  let ?t = "of_string ''v2.10.0''"
  have p: "parse_tag (Some ?t) = Some \<lparr>v_major = 2, v_minor = 10, v_patch = 0\<rparr>" "0 \<notin> set ?t"
    by code_simp+
  have "asset_name (Some ?t) VARIANT_A500 64 \<noteq> None" by code_simp
  then obtain s where s: "asset_name (Some ?t) VARIANT_A500 64 = Some s" by blast
  with asset_name_unambiguous [OF p(1,1,2,2) s, of VARIANT_A500PLUS 64] show ?thesis by auto
qed

text \<open>the board is identified from its registers only when both the capability word and the ABI of
  the variant word are the known ones; a Zorro III answer needs the Zorro III bit; the A500+ build,
  whose logic is that of the A500, is never reported; and an update is offered for the same hardware
  only, where being the same hardware is an equivalence relation.\<close>

theorem variant_identification:
  "variant_detect cap word c28 \<in> {VARIANT_UNKNOWN, VARIANT_ZORRO3, VARIANT_ZORRO3_AGA, VARIANT_ZORRO2,
      VARIANT_ZORRO2_2MB, VARIANT_A500, VARIANT_A500_2MB} \<and>
   (variant_is_zorro3 (variant_detect cap word c28) \<longrightarrow> word AND 1 \<noteq> 0) \<and>
   (variant_detect cap word c28 \<noteq> VARIANT_UNKNOWN \<longrightarrow> cap = CAPTURE_FIELD_DIAG_CAP \<and> drop_bit 16 word = 1) \<and>
   variant_matches v v \<and> (variant_matches v w \<longrightarrow> variant_matches w v) \<and>
   (variant_matches u v \<and> variant_matches v w \<longrightarrow> variant_matches u w)"
  by (auto simp: variant_detect_def variant_is_zorro3_def variant_matches_def Let_def split: if_splits)

theorem variant_identification_witness:
  "variant_detect CAPTURE_FIELD_DIAG_CAP 0x00010001 CAPTURE_CAP_C28 = VARIANT_ZORRO3_AGA \<and>
   (0x00010001 :: u32) AND 1 \<noteq> 0 \<and> variant_matches VARIANT_A500PLUS VARIANT_A500"
proof -
  have d: "variant_detect CAPTURE_FIELD_DIAG_CAP 0x00010001 CAPTURE_CAP_C28 = VARIANT_ZORRO3_AGA"
    "variant_matches VARIANT_A500 VARIANT_A500PLUS"
    by code_simp+
  with variant_identification [where cap = CAPTURE_FIELD_DIAG_CAP and word = "0x00010001"
      and ?c28.0 = CAPTURE_CAP_C28 and v = VARIANT_A500 and w = VARIANT_A500PLUS]
  show ?thesis unfolding d(1) by (simp add: variant_is_zorro3_def)
qed

end
