(* ===== verification/FwJson.thy ===== *)
theory FwJson
  imports FwZip
begin

text \<open>
  The scanner that reads the GitHub release description (\<^verbatim>\<open>common/fw_release.c\<close>). A position in
  the text is the list of the bytes from there on. A function that returns 0 gives \<open>None\<close>; what it
  left in the output buffer then is not represented, no caller reads it.
\<close>

abbreviation "c_quote \<equiv> (0x22 :: u8)"
abbreviation "c_colon \<equiv> (0x3a :: u8)"
abbreviation "c_comma \<equiv> (0x2c :: u8)"
abbreviation "c_lbrace \<equiv> (0x7b :: u8)"
abbreviation "c_rbrace \<equiv> (0x7d :: u8)"
abbreviation "c_lbracket \<equiv> (0x5b :: u8)"
abbreviation "c_rbracket \<equiv> (0x5d :: u8)"

text \<open>Store one character: the capacity is absent when the output pointer is NULL.\<close>

definition scan_store :: "nat option \<Rightarrow> u8 \<Rightarrow> bytes \<Rightarrow> bool \<Rightarrow> bytes \<times> bool" where
  "scan_store cap c acc ok =
     (case cap of None \<Rightarrow> (acc, ok)
      | Some n \<Rightarrow> if length acc + 1 < n then (acc @ [c], ok) else (acc, False))"

text \<open>\<^verbatim>\<open>scan_string\<close>, from the byte after the opening quote: the rest after the closing quote, the value, the flag.\<close>

fun scan_string :: "nat option \<Rightarrow> bytes \<Rightarrow> bytes \<Rightarrow> bool \<Rightarrow> (bytes \<times> bytes \<times> bool) option" where
  "scan_string cap [] acc ok = None"
| "scan_string cap (c # cs) acc ok =
     (if c = c_quote then
        Some (cs, acc, case cap of None \<Rightarrow> ok | Some n \<Rightarrow> ok \<and> length acc < n)
      else if c = c_backslash then
        (case cs of [] \<Rightarrow> None
         | e # es \<Rightarrow>
             (case scan_store cap e acc (ok \<and> e \<in> {c_quote, c_backslash, c_slash}) of
                (acc1, ok1) \<Rightarrow> scan_string cap es acc1 ok1))
      else (case scan_store cap c acc ok of (acc1, ok1) \<Rightarrow> scan_string cap cs acc1 ok1))"

lemma scan_string_shorter: "scan_string cap s acc ok = Some (r, v, b) \<Longrightarrow> length r < length s"
proof (induction cap s acc ok rule: scan_string.induct)
  case (2 cap c cs acc ok)
  show ?case
  proof (cases "c = c_quote")
    case True
    with 2(3) show ?thesis by auto
  next
    case nq: False
    show ?thesis
    proof (cases "c = c_backslash")
      case True
      with 2(3) nq obtain e es where cs: "cs = e # es" by (cases cs) auto
      obtain acc1 ok1 where st: "scan_store cap e acc (ok \<and> e \<in> {c_quote, c_backslash, c_slash}) = (acc1, ok1)"
        by fastforce
      have "scan_string cap es acc1 ok1 = Some (r, v, b)" using 2(3) nq True cs st by simp
      from 2(1) [OF nq True cs st [symmetric] this] show ?thesis by (simp add: cs)
    next
      case nb: False
      obtain acc1 ok1 where st: "scan_store cap c acc ok = (acc1, ok1)" by fastforce
      have "scan_string cap cs acc1 ok1 = Some (r, v, b)" using 2(3) nq nb st by simp
      from 2(2) [OF nq nb st [symmetric] this] show ?thesis by simp
    qed
  qed
qed simp

definition is_blank :: "u8 \<Rightarrow> bool" where
  "is_blank c = (c = 0x20 \<or> c = 0x09 \<or> c = 0x0d \<or> c = 0x0a)"

definition skip_blanks :: "bytes \<Rightarrow> bytes" where
  "skip_blanks s = dropWhile is_blank s"

text \<open>The main loop of \<^verbatim>\<open>fwrel_json_top_string\<close>.\<close>

function top_loop :: "bytes \<Rightarrow> nat \<Rightarrow> int \<Rightarrow> bytes \<Rightarrow> bytes option" where
  "top_loop key cap depth [] = None"
| "top_loop key cap depth (c # cs) =
     (if c = c_lbrace \<or> c = c_lbracket then top_loop key cap (depth + 1) cs
      else if c = c_rbrace \<or> c = c_rbracket then top_loop key cap (depth - 1) cs
      else if c = c_quote then
        (case scan_string None cs [] True of
           None \<Rightarrow> None
         | Some (r, _, ok1) \<Rightarrow>
             let raw = take (length cs - length r - 1) cs;
                 j = skip_blanks r;
                 is_key = (j \<noteq> [] \<and> hd j = c_colon)
             in if \<not> is_key \<or> depth \<noteq> 1 \<or> raw \<noteq> key then top_loop key cap depth r
                else let j2 = skip_blanks (tl j) in
                  if j2 = [] \<or> hd j2 \<noteq> c_quote then None
                  else (case scan_string (Some cap) (tl j2) [] ok1 of
                      None \<Rightarrow> None
                    | Some (_, v, ok) \<Rightarrow> if ok then Some v else None))
      else top_loop key cap depth cs)"
  by pat_completeness auto
termination
  by (relation "measure (\<lambda>(_, _, _, s). length s)") (auto dest: scan_string_shorter)

definition json_top_string :: "bytes \<Rightarrow> bytes \<Rightarrow> nat \<Rightarrow> bytes option" where
  "json_top_string json key cap = top_loop key cap 0 json"

function has_loop :: "bytes \<Rightarrow> bytes \<Rightarrow> bool" where
  "has_loop val [] = False"
| "has_loop val (c # cs) =
     (if c = c_quote then
        (case scan_string None cs [] True of
           None \<Rightarrow> False
         | Some (r, _, _) \<Rightarrow>
             if take (length cs - length r - 1) cs = val then True else has_loop val r)
      else has_loop val cs)"
  by pat_completeness auto
termination
  by (relation "measure (\<lambda>(_, s). length s)") (auto dest: scan_string_shorter)

definition json_has_string :: "bytes \<Rightarrow> bytes \<Rightarrow> bool" where
  "json_has_string json val = has_loop val json"

end
