(* ===== verification/FwJson_Correct.thy ===== *)
theory FwJson_Correct
  imports FwJson
begin

text \<open>
  The scanner against the documents it reads: JSON values as a datatype, and the texts of a value as a
  relation, with blanks of its own at every place where JSON allows them. Strings are kept raw, as
  they stand between the quotes.
\<close>

section \<open>Documents\<close>

datatype json = JStr bytes | JLit bytes | JArr "json list" | JObj "(bytes \<times> json) list"

fun raw_ok :: "bytes \<Rightarrow> bool" where
  "raw_ok [] = True"
| "raw_ok (c # cs) =
     (if c = c_quote then False
      else if c = c_backslash then (case cs of [] \<Rightarrow> False | e # es \<Rightarrow> raw_ok es)
      else raw_ok cs)"

definition lit_char :: "u8 \<Rightarrow> bool" where
  "lit_char c \<longleftrightarrow> c \<notin> {c_quote, c_colon, c_comma, c_lbrace, c_rbrace, c_lbracket, c_rbracket}"

definition blanks :: "bytes \<Rightarrow> bool" where
  "blanks w \<longleftrightarrow> list_all is_blank w"

text \<open>
  The texts of a value, of the elements of an array and of the fields of an object: each piece of
  white space is chosen on its own.
\<close>

inductive is_text :: "json \<Rightarrow> bytes \<Rightarrow> bool"
  and elems_text :: "json list \<Rightarrow> bytes \<Rightarrow> bool"
  and fields_text :: "(bytes \<times> json) list \<Rightarrow> bytes \<Rightarrow> bool" where
  text_str: "raw_ok s \<Longrightarrow> is_text (JStr s) (c_quote # s @ [c_quote])"
| text_lit: "list_all lit_char s \<Longrightarrow> is_text (JLit s) s"
| text_arr: "blanks w \<Longrightarrow> elems_text vs t \<Longrightarrow> is_text (JArr vs) (c_lbracket # w @ t @ [c_rbracket])"
| text_obj: "blanks w \<Longrightarrow> fields_text fs t \<Longrightarrow> is_text (JObj fs) (c_lbrace # w @ t @ [c_rbrace])"
| elems_none: "elems_text [] []"
| elems_last: "is_text v t \<Longrightarrow> blanks w \<Longrightarrow> elems_text [v] (t @ w)"
| elems_more: "is_text v t \<Longrightarrow> blanks w1 \<Longrightarrow> blanks w2 \<Longrightarrow> elems_text (v' # vs) ts \<Longrightarrow>
     elems_text (v # v' # vs) (t @ w1 @ c_comma # w2 @ ts)"
| fields_none: "fields_text [] []"
| fields_last: "raw_ok k \<Longrightarrow> blanks w1 \<Longrightarrow> blanks w2 \<Longrightarrow> is_text v t \<Longrightarrow> blanks w3 \<Longrightarrow>
     fields_text [(k, v)] (c_quote # k @ c_quote # w1 @ c_colon # w2 @ t @ w3)"
| fields_more: "raw_ok k \<Longrightarrow> blanks w1 \<Longrightarrow> blanks w2 \<Longrightarrow> is_text v t \<Longrightarrow> blanks w3 \<Longrightarrow> blanks w4 \<Longrightarrow>
     fields_text (f # fs) ts \<Longrightarrow>
     fields_text ((k, v) # f # fs) (c_quote # k @ c_quote # w1 @ c_colon # w2 @ t @ w3 @ c_comma # w4 @ ts)"

inductive_cases is_text_objE: "is_text (JObj fs) t"
inductive_cases is_text_strE: "is_text (JStr s) t"
inductive_cases fields_text_ConsE: "fields_text (f # fs) t"
inductive_cases fields_text_NilE: "fields_text [] t"

text \<open>The strings of a document, keys included.\<close>

fun json_strings :: "json \<Rightarrow> bytes list" where
  "json_strings (JStr s) = [s]"
| "json_strings (JLit s) = []"
| "json_strings (JArr vs) = concat (map json_strings vs)"
| "json_strings (JObj fs) = concat (map (\<lambda>(k, v). k # json_strings v) fs)"

text \<open>The value of a raw string, when its escapes are the ones the code decodes and it fits.\<close>

fun unescape :: "bytes \<Rightarrow> bytes option" where
  "unescape [] = Some []"
| "unescape (c # cs) =
     (if c = c_backslash then
        (case cs of [] \<Rightarrow> None
         | e # es \<Rightarrow> if e \<in> {c_quote, c_backslash, c_slash} then map_option (Cons e) (unescape es) else None)
      else map_option (Cons c) (unescape cs))"

section \<open>Strings\<close>

lemma scan_raw:
  "raw_ok s \<Longrightarrow> \<exists>ok'. scan_string None (s @ c_quote # r) acc ok = Some (r, acc, ok')
     \<and> (ok' \<longleftrightarrow> ok \<and> unescape s \<noteq> None)"
  by (induction s arbitrary: ok rule: raw_ok.induct)
    (auto simp: scan_store_def split: list.splits)

lemma raw_take:
  "take (length (s @ c_quote # r) - length r - 1) (s @ c_quote # r) = s"
  by simp

lemma scan_value:
  "raw_ok s \<Longrightarrow> \<exists>v b. scan_string (Some cap) (s @ c_quote # r) acc ok = Some (r, v, b)
     \<and> (b \<longleftrightarrow> ok \<and> (\<exists>u. unescape s = Some u \<and> length acc + length u < cap))
     \<and> (\<forall>u. unescape s = Some u \<and> length acc + length u < cap \<longrightarrow> v = acc @ u)"
proof (induction s arbitrary: acc ok rule: raw_ok.induct)
  case 1
  show ?case by auto
next
  case (2 c cs)
  have nq: "c \<noteq> c_quote" using 2(3) by auto
  show ?case
  proof (cases "c = c_backslash")
    case True
    then obtain e es where cs: "cs = e # es" and ok: "raw_ok es" using 2(3) by (cases cs) auto
    note IH = 2(1) [OF nq True cs ok]
    let ?ok = "ok \<and> e \<in> {c_quote, c_backslash, c_slash}"
    show ?thesis
    proof (cases "length acc + 1 < cap")
      case True
      from IH [of "acc @ [e]" ?ok] True \<open>c = c_backslash\<close> show ?thesis
        by (auto simp: cs scan_store_def)
    next
      case False
      from IH [of acc False] False \<open>c = c_backslash\<close> show ?thesis
        by (auto simp: cs scan_store_def)
    qed
  next
    case nb: False
    then have ok: "raw_ok cs" using 2(3) nq by simp
    note IH = 2(2) [OF nq nb ok]
    show ?thesis
    proof (cases "length acc + 1 < cap")
      case True
      from IH [of "acc @ [c]" ok] True nb nq show ?thesis by (auto simp: scan_store_def)
    next
      case False
      from IH [of acc False] False nb nq show ?thesis by (auto simp: scan_store_def)
    qed
  qed
qed

section \<open>Skipping values\<close>

lemma skip_blanks_append: "blanks w \<Longrightarrow> skip_blanks (w @ s) = skip_blanks s"
  unfolding skip_blanks_def blanks_def by (induction w) auto

lemma skip_blanks_stop: "\<not> is_blank c \<Longrightarrow> skip_blanks (c # s) = c # s"
  by (simp add: skip_blanks_def)

lemma punct_not_blank:
  "\<not> is_blank c_quote" "\<not> is_blank c_colon" "\<not> is_blank c_comma" "\<not> is_blank c_lbrace"
  "\<not> is_blank c_rbrace" "\<not> is_blank c_lbracket" "\<not> is_blank c_rbracket"
  by (simp_all add: is_blank_def)

text \<open>What follows a value never starts with a colon.\<close>

definition no_colon :: "bytes \<Rightarrow> bool" where
  "no_colon r \<longleftrightarrow> (skip_blanks r = [] \<or> hd (skip_blanks r) \<noteq> c_colon)"

lemma no_colon_simps:
  "no_colon []"
  "blanks w \<Longrightarrow> no_colon (w @ r) = no_colon r"
  "no_colon (c_comma # r)" "no_colon (c_rbrace # r)" "no_colon (c_rbracket # r)"
  by (auto simp: no_colon_def skip_blanks_append skip_blanks_stop punct_not_blank)
     (simp add: skip_blanks_def)

lemma top_plain:
  "list_all lit_char s \<Longrightarrow> top_loop key cap d (s @ r) = top_loop key cap d r"
  by (induction s) (auto simp: lit_char_def)

lemma blank_lit: "is_blank c \<Longrightarrow> lit_char c"
  by (auto simp: is_blank_def lit_char_def)

lemma top_blanks: "blanks w \<Longrightarrow> top_loop key cap d (w @ r) = top_loop key cap d r"
  by (rule top_plain) (auto simp: blanks_def list_all_iff blank_lit)

lemma top_string_value:
  assumes "raw_ok s" "no_colon r"
  shows "top_loop key cap d (c_quote # s @ c_quote # r) = top_loop key cap d r"
proof -
  obtain ok' where "scan_string None (s @ c_quote # r) [] True = Some (r, [], ok')"
    using scan_raw [OF assms(1)] by blast
  with assms(2) show ?thesis by (auto simp: no_colon_def)
qed

lemma top_string_key:
  assumes "raw_ok s" "blanks w" "d \<noteq> 1 \<or> s \<noteq> key"
  shows "top_loop key cap d (c_quote # s @ c_quote # w @ c_colon # r) = top_loop key cap d r"
proof -
  let ?r = "w @ c_colon # r"
  obtain ok' where sc: "scan_string None (s @ c_quote # ?r) [] True = Some (?r, [], ok')"
    using scan_raw [OF assms(1)] by blast
  have tk: "take (length (s @ c_quote # ?r) - length ?r - 1) (s @ c_quote # ?r) = s"
    by (rule raw_take)
  have "top_loop key cap d (c_quote # s @ c_quote # ?r) = top_loop key cap d ?r"
    using assms(3) sc unfolding top_loop.simps sc tk option.case prod.case Let_def tk by auto
  also have "\<dots> = top_loop key cap d r"
    by (simp add: top_blanks [OF assms(2)])
  finally show ?thesis .
qed

lemma top_field:
  assumes "raw_ok k" "blanks w1" "blanks w2" "d \<noteq> 1 \<or> k \<noteq> key"
    and "\<And>r. no_colon r \<Longrightarrow> top_loop key cap d (t @ r) = top_loop key cap d r" "no_colon r"
  shows "top_loop key cap d (c_quote # k @ c_quote # w1 @ c_colon # w2 @ t @ r) = top_loop key cap d r"
  using assms by (simp add: top_string_key top_blanks del: top_loop.simps)

text \<open>A value, the elements of an array and the fields below the outer level are skipped as a whole.\<close>

lemma top_skip:
  "is_text v t \<Longrightarrow> 1 \<le> d \<Longrightarrow> no_colon r \<Longrightarrow> top_loop key cap d (t @ r) = top_loop key cap d r"
  "elems_text vs t \<Longrightarrow> 1 \<le> d \<Longrightarrow> no_colon r \<Longrightarrow> top_loop key cap d (t @ r) = top_loop key cap d r"
  "fields_text fs t \<Longrightarrow> 2 \<le> d \<Longrightarrow> no_colon r \<Longrightarrow> top_loop key cap d (t @ r) = top_loop key cap d r"
proof (induction arbitrary: d r and d r and d r rule: is_text_elems_text_fields_text.inducts)
  case (text_str s)
  then show ?case by (simp add: top_string_value del: top_loop.simps)
next
  case (text_lit s)
  then show ?case by (simp add: top_plain)
next
  case (text_arr w vs t)
  then show ?case by (simp add: top_blanks no_colon_simps)
next
  case (text_obj w fs t)
  then show ?case by (simp add: top_blanks no_colon_simps)
next
  case elems_none
  then show ?case by simp
next
  case (elems_last v t w)
  then show ?case by (simp add: top_blanks no_colon_simps del: top_loop.simps)
next
  case (elems_more v t w1 w2 v' vs ts)
  then show ?case by (simp add: no_colon_simps top_blanks)
next
  case fields_none
  then show ?case by simp
next
  case (fields_last k w1 w2 v t w3)
  have "top_loop key cap d (c_quote # k @ c_quote # w1 @ c_colon # w2 @ t @ w3 @ r)
      = top_loop key cap d (w3 @ r)"
    by (rule top_field) (use fields_last in \<open>simp_all add: no_colon_simps\<close>)
  with fields_last.hyps fields_last.prems show ?case by (simp add: top_blanks del: top_loop.simps)
next
  case (fields_more k w1 w2 v t w3 w4 f fs ts)
  have "top_loop key cap d (c_quote # k @ c_quote # w1 @ c_colon # w2 @ t @ w3 @ c_comma # w4 @ ts @ r)
      = top_loop key cap d (w3 @ c_comma # w4 @ ts @ r)"
    by (rule top_field) (use fields_more in \<open>simp_all add: no_colon_simps\<close>)
  also have "\<dots> = top_loop key cap d r"
    using fields_more by (simp add: top_blanks)
  finally show ?case by simp
qed

section \<open>The top-level field\<close>

text \<open>The first field with the key decides, and it must hold a string that can be decoded and fits.\<close>

definition string_value :: "nat \<Rightarrow> json \<Rightarrow> bytes option" where
  "string_value cap v = (case v of
     JStr s \<Rightarrow> (case unescape s of Some u \<Rightarrow> if length u < cap then Some u else None | None \<Rightarrow> None)
   | _ \<Rightarrow> None)"

definition field_string :: "bytes \<Rightarrow> nat \<Rightarrow> (bytes \<times> json) list \<Rightarrow> bytes option" where
  "field_string key cap fs = (case map_of fs key of None \<Rightarrow> None | Some v \<Rightarrow> string_value cap v)"

definition not_quote :: "bytes \<Rightarrow> bool" where
  "not_quote r \<longleftrightarrow> (skip_blanks r = [] \<or> hd (skip_blanks r) \<noteq> c_quote)"

lemma not_quote_simps:
  "blanks w \<Longrightarrow> not_quote (w @ r) = not_quote r"
  "not_quote (c_comma # r)" "not_quote (c_rbrace # r)" "not_quote (c_lbrace # r)" "not_quote (c_lbracket # r)"
  by (simp_all add: not_quote_def skip_blanks_append skip_blanks_stop punct_not_blank)

lemma not_quote_lit: "list_all lit_char s \<Longrightarrow> not_quote r \<Longrightarrow> not_quote (s @ r)"
  by (induction s) (auto simp: not_quote_def skip_blanks_def lit_char_def)

lemma text_not_quote:
  "is_text v t \<Longrightarrow> \<nexists>s. v = JStr s \<Longrightarrow> not_quote r \<Longrightarrow> not_quote (t @ r)"
  by (cases rule: is_text.cases) (auto simp: not_quote_lit not_quote_simps)

lemma top_string_hit:
  assumes key: "raw_ok key" "unescape key \<noteq> None" and w: "blanks w1" "blanks w2"
    and v: "is_text v t" and r: "not_quote r"
  shows "top_loop key cap 1 (c_quote # key @ c_quote # w1 @ c_colon # w2 @ t @ r) = string_value cap v"
proof -
  let ?r = "w1 @ c_colon # w2 @ t @ r"
  obtain ok' where sc: "scan_string None (key @ c_quote # ?r) [] True = Some (?r, [], ok')" and ok': ok'
    using scan_raw [OF key(1), of ?r "[]" True] key(2) by blast
  have tk: "take (length (key @ c_quote # ?r) - length ?r - 1) (key @ c_quote # ?r) = key"
    by (rule raw_take)
  have j: "skip_blanks ?r = c_colon # w2 @ t @ r"
    using w by (simp add: skip_blanks_append skip_blanks_stop punct_not_blank)
  have "top_loop key cap 1 (c_quote # key @ c_quote # ?r) =
     (let j2 = skip_blanks (t @ r) in
       if j2 = [] \<or> hd j2 \<noteq> c_quote then None
       else (case scan_string (Some cap) (tl j2) [] True of
          None \<Rightarrow> None | Some (_, v, ok) \<Rightarrow> if ok then Some v else None))"
    using sc tk j ok' w
    by (simp add: Let_def skip_blanks_append [OF w(2)] split del: if_split cong: if_cong del: take_append)
  also have "\<dots> = string_value cap v"
  proof (cases "\<exists>s. v = JStr s")
    case True
    with v obtain s where vs: "v = JStr s" "t = c_quote # s @ [c_quote]" "raw_ok s"
      by (auto elim: is_text_strE)
    obtain x b where "scan_string (Some cap) (s @ c_quote # r) [] True = Some (r, x, b)"
      and "b \<longleftrightarrow> (\<exists>u. unescape s = Some u \<and> length u < cap)"
      and "\<forall>u. unescape s = Some u \<and> length u < cap \<longrightarrow> x = u"
      using scan_value [of s cap r "[]" True] vs by auto
    then show ?thesis
      by (auto simp: vs string_value_def skip_blanks_stop punct_not_blank split: option.splits)
  next
    case False
    with text_not_quote [OF v _ r] show ?thesis
      by (auto simp: not_quote_def string_value_def split: json.splits)
  qed
  finally show ?thesis .
qed

lemma top_fields:
  assumes key: "raw_ok key" "unescape key \<noteq> None"
  shows "fields_text fs t \<Longrightarrow> top_loop key cap 1 (t @ c_rbrace # r) =
      (case map_of fs key of Some v \<Rightarrow> string_value cap v | None \<Rightarrow> top_loop key cap 1 (c_rbrace # r))"
proof (induction fs arbitrary: t)
  case Nil
  then show ?case by (auto elim: fields_text_NilE)
next
  case (Cons f fs)
  obtain k v w1 w2 tv rest where f: "f = (k, v)" "raw_ok k" "blanks w1" "blanks w2" "is_text v tv"
    and t: "t @ c_rbrace # r = c_quote # k @ c_quote # w1 @ c_colon # w2 @ tv @ rest"
    and rest: "no_colon rest" "not_quote rest"
    and skip: "top_loop key cap 1 rest =
      (case map_of fs key of Some v \<Rightarrow> string_value cap v | None \<Rightarrow> top_loop key cap 1 (c_rbrace # r))"
  proof (rule fields_text_ConsE [OF Cons.prems], goal_cases)
    case (1 k w1 w2 v tv w3)
    from 1 show ?thesis
      by (intro that [of k v w1 w2 tv "w3 @ c_rbrace # r"])
        (simp_all add: no_colon_simps not_quote_simps top_blanks del: top_loop.simps)
  next
    case (2 k w1 w2 v tv w3 w4 f' fs' ts)
    from 2 Cons.IH [of ts] show ?thesis
      by (intro that [of k v w1 w2 tv "w3 @ c_comma # w4 @ ts @ c_rbrace # r"])
        (simp_all add: no_colon_simps not_quote_simps top_blanks)
  qed
  show ?case
  proof (cases "k = key")
    case True
    with top_string_hit [OF key f(3,4,5) rest(2), of cap] show ?thesis
      by (simp add: t f(1) del: top_loop.simps)
  next
    case False
    have "top_loop key cap 1 (c_quote # k @ c_quote # w1 @ c_colon # w2 @ tv @ rest) = top_loop key cap 1 rest"
      by (rule top_field [OF f(2,3,4) _ top_skip(1) [OF f(5)] rest(1)]) (use False in simp_all)
    with skip False show ?thesis by (simp add: t f(1) del: top_loop.simps)
  qed
qed

text \<open>C20: on any text of an object, with whatever white space around each of its tokens, the search
  for a top-level string returns the decoded value of the first field of the outer object with that
  name, if it fits: fields of nested objects and array elements never match. The escapes decoded are
  backslash followed by a quote, a backslash or a slash (the comment in \<^verbatim>\<open>fw_release.h\<close> names only the
  first two); a value that is no string, does not fit, or has another escape gives failure.\<close>

theorem json_top_string_field:
  assumes "is_text (JObj fs) doc" "raw_ok key" "unescape key \<noteq> None" "blanks w" "blanks w'"
  shows "json_top_string (w @ doc @ w') key cap = field_string key cap fs"
proof -
  from assms(1) obtain w0 t where doc: "doc = c_lbrace # w0 @ t @ [c_rbrace]" "blanks w0" "fields_text fs t"
    by (auto elim: is_text_objE)
  have "json_top_string (w @ doc @ w') key cap = top_loop key cap 1 (t @ c_rbrace # w')"
    using assms(4) doc by (simp add: json_top_string_def top_blanks)
  also have "\<dots> = (case map_of fs key of Some v \<Rightarrow> string_value cap v | None \<Rightarrow> top_loop key cap 1 (c_rbrace # w'))"
    using assms(2,3) doc(3) by (rule top_fields)
  also have "top_loop key cap 1 (c_rbrace # w') = None"
    using top_blanks [OF assms(5), of key cap 0 "[]"] by simp
  finally show ?thesis by (simp add: field_string_def)
qed

text \<open>
  \<^verbatim>\<open>{ "a":{"b":"x"},\<close> newline \<^verbatim>\<open>"b" : "c\/d"}\<close>: the nested \<open>b\<close> is passed over, the escape decoded.
\<close>

theorem json_top_string_field_witness:
  "json_top_string (of_string ''{ \"a\":{\"b\":\"x\"},'' @ 10 # of_string ''\"b\" : \"c'' @ c_backslash # of_string ''/d\"}'')
     (of_string ''b'') 8 = Some (of_string ''c/d'')"
proof -
  define sp :: bytes where "sp = [0x20]"
  have inner: "is_text (JObj [(of_string ''b'', JStr (of_string ''x''))])
      (c_lbrace # [] @ (c_quote # of_string ''b'' @ c_quote # [] @ c_colon # [] @ (c_quote # of_string ''x'' @ [c_quote]) @ []) @ [c_rbrace])"
    by (intro text_obj fields_last text_str) (simp_all add: blanks_def of_string_def)
  have outer: "is_text (JObj [(of_string ''a'', JObj [(of_string ''b'', JStr (of_string ''x''))]),
       (of_string ''b'', JStr (of_string ''c'' @ c_backslash # of_string ''/d''))])
     (c_lbrace # sp @ (c_quote # of_string ''a'' @ c_quote # [] @ c_colon # [] @
        (c_lbrace # [] @ (c_quote # of_string ''b'' @ c_quote # [] @ c_colon # [] @ (c_quote # of_string ''x'' @ [c_quote]) @ []) @ [c_rbrace])
        @ [] @ c_comma # [10] @
        (c_quote # of_string ''b'' @ c_quote # sp @ c_colon # sp @
          (c_quote # (of_string ''c'' @ c_backslash # of_string ''/d'') @ [c_quote]) @ [])) @ [c_rbrace])"
    by (intro text_obj fields_more fields_last text_str inner)
      (simp_all add: blanks_def of_string_def sp_def is_blank_def)
  from json_top_string_field [OF outer, of "of_string ''b''" "[]" "[]" 8] show ?thesis
    by (simp add: blanks_def of_string_def sp_def field_string_def string_value_def)
qed

section \<open>Any string of the document\<close>

lemma has_plain: "list_all lit_char s \<Longrightarrow> has_loop val (s @ r) = has_loop val r"
  by (induction s) (auto simp: lit_char_def)

lemma has_blanks: "blanks w \<Longrightarrow> has_loop val (w @ r) = has_loop val r"
  by (rule has_plain) (auto simp: blanks_def list_all_iff blank_lit)

lemma has_quoted:
  assumes "raw_ok s"
  shows "has_loop val (c_quote # s @ c_quote # r) \<longleftrightarrow> s = val \<or> has_loop val r"
proof -
  obtain ok' where sc: "scan_string None (s @ c_quote # r) [] True = Some (r, [], ok')"
    using scan_raw [OF assms] by blast
  show ?thesis unfolding has_loop.simps sc option.case prod.case raw_take by simp
qed

lemma has_text:
  "is_text v t \<Longrightarrow> has_loop val (t @ r) \<longleftrightarrow> val \<in> set (json_strings v) \<or> has_loop val r"
  "elems_text vs t \<Longrightarrow> has_loop val (t @ r) \<longleftrightarrow> val \<in> set (concat (map json_strings vs)) \<or> has_loop val r"
  "fields_text fs t \<Longrightarrow> has_loop val (t @ r) \<longleftrightarrow>
     val \<in> set (concat (map (\<lambda>(k, v). k # json_strings v) fs)) \<or> has_loop val r"
proof (induction arbitrary: r and r and r rule: is_text_elems_text_fields_text.inducts)
  case (text_str s)
  then show ?case by (auto simp: has_quoted simp del: has_loop.simps)
next
  case (text_lit s)
  then show ?case by (simp add: has_plain)
next
  case (fields_last k w1 w2 v t w3)
  have "has_loop val (w1 @ c_colon # w2 @ t @ w3 @ r) \<longleftrightarrow> val \<in> set (json_strings v) \<or> has_loop val r"
    using fields_last by (simp add: has_blanks)
  then show ?case by (auto simp: has_quoted [OF fields_last.hyps(1)] simp del: has_loop.simps)
next
  case (fields_more k w1 w2 v t w3 w4 f fs ts)
  have "has_loop val (w1 @ c_colon # w2 @ t @ w3 @ c_comma # w4 @ ts @ r) \<longleftrightarrow>
      val \<in> set (json_strings v) \<or> val \<in> set (concat (map (\<lambda>(k, v). k # json_strings v) (f # fs))) \<or> has_loop val r"
    using fields_more by (simp add: has_blanks)
  then show ?case by (auto simp: has_quoted [OF fields_more.hyps(1)] simp del: has_loop.simps)
qed (auto simp: has_blanks)

text \<open>The search for an asset name finds exactly the strings of the document, keys
  and nested ones included, and never a part of one.\<close>

theorem json_has_string_exact:
  assumes "is_text v doc" "blanks w" "blanks w'"
  shows "json_has_string (w @ doc @ w') val \<longleftrightarrow> val \<in> set (json_strings v)"
  using has_text(1) [OF assms(1), of val w'] has_blanks [OF assms(3), of val "[]"]
  by (simp add: json_has_string_def has_blanks [OF assms(2)])

theorem json_has_string_exact_witness:
  "json_has_string [c_lbracket, c_quote, 1, 2, c_quote, c_comma, 5, c_rbracket] [1, 2] \<and>
   \<not> json_has_string [c_lbracket, c_quote, 1, 2, c_quote, c_comma, 5, c_rbracket] [1]"
proof -
  have "is_text (JArr [JStr [1, 2], JLit [5]])
      (c_lbracket # [] @ ((c_quote # [1, 2] @ [c_quote]) @ [] @ c_comma # [] @ ([5] @ [])) @ [c_rbracket])"
    by (intro text_arr elems_more elems_last text_str text_lit) (simp_all add: blanks_def lit_char_def)
  from json_has_string_exact [OF this, of "[]" "[]"] show ?thesis by (simp add: blanks_def)
qed

end
