(* ===== verification/FwHttp.thy ===== *)
theory FwHttp
  imports FwVersion
begin

text \<open>
  The HTTP parts of \<^verbatim>\<open>common/fw_release.c\<close>: URL splitting, the response head and the incremental
  decoder of the chunked transfer coding. Text is a list of bytes; a C string has no NUL in it.
  The sink of the decoder is a parameter that acts on an abstract world and returns true to abort.
\<close>

section \<open>URLs\<close>

definition url_scheme :: bytes where
  "url_scheme = of_string ''https://''"

definition host_char :: "u8 \<Rightarrow> bool" where
  "host_char c = ((0x61 \<le> c \<and> c \<le> 0x7a) \<or> (0x41 \<le> c \<and> c \<le> 0x5a) \<or> (0x30 \<le> c \<and> c \<le> 0x39)
     \<or> c = 0x2e \<or> c = 0x2d)"

definition split_url :: "bytes option \<Rightarrow> nat \<Rightarrow> nat \<Rightarrow> (bytes \<times> bytes) option" where
  "split_url url host_size path_size =
     (case url of None \<Rightarrow> None
      | Some u \<Rightarrow>
          if take 8 u \<noteq> url_scheme then None
          else
            let h = drop 8 u;
                host = takeWhile (\<lambda>c. c \<noteq> c_slash) h;
                slash = drop (length host) h
            in if host = [] \<or> length host \<ge> host_size then None
               else if \<not> list_all host_char host then None
               else
                 let path = (if slash = [] then [c_slash] else slash)
                 in if length path \<ge> path_size then None
                    else if list_ex (\<lambda>c. c \<le> 0x20 \<or> c = 0x7f) path then None
                    else Some (host, path))"

section \<open>The response head\<close>

definition lower :: "u8 \<Rightarrow> u8" where
  "lower c = (if 0x41 \<le> c \<and> c \<le> 0x5a then c + 0x20 else c)"

definition header_is :: "bytes \<Rightarrow> bytes \<Rightarrow> bool" where
  "header_is line name =
     (if length line \<le> length name \<or> line ! length name \<noteq> 0x3a then False
      else map lower (take (length name) line) = name)"

definition is_hblank :: "u8 \<Rightarrow> bool" where
  "is_hblank c = (c = 0x20 \<or> c = 0x09)"

definition header_value :: "bytes \<Rightarrow> bytes \<Rightarrow> bytes" where
  "header_value line name =
     (let v = dropWhile is_hblank (drop (length name + 1) line)
      in rev (dropWhile is_hblank (rev v)))"

record http_head =
  hh_status :: int
  hh_content_length :: int
  hh_chunked :: bool
  hh_location :: bytes

abbreviation "LOCATION_SIZE \<equiv> (1168 :: nat)"

definition http_head_init :: http_head where
  "http_head_init = \<lparr>hh_status = 0, hh_content_length = - 1, hh_chunked = False, hh_location = []\<rparr>"

fun length_loop :: "bytes \<Rightarrow> int \<Rightarrow> int option" where
  "length_loop [] n = Some n"
| "length_loop (c # cs) n =
     (if c < 0x30 \<or> c > 0x39 then None else length_loop cs (n * 10 + (uint c - 0x30)))"

definition parse_status_line :: "bytes \<Rightarrow> http_head \<Rightarrow> http_head option" where
  "parse_status_line line out =
     (if length line < 12 \<or> take 7 line \<noteq> of_string ''HTTP/1.'' \<or> line ! 8 \<noteq> 0x20
       \<or> line ! 9 < 0x31 \<or> line ! 9 > 0x35 \<or> line ! 10 < 0x30 \<or> line ! 10 > 0x39
       \<or> line ! 11 < 0x30 \<or> line ! 11 > 0x39 then None
      else Some (out\<lparr>hh_status := (uint (line ! 9) - 0x30) * 100 + (uint (line ! 10) - 0x30) * 10
        + (uint (line ! 11) - 0x30)\<rparr>))"

definition parse_header_line :: "bytes \<Rightarrow> http_head \<Rightarrow> http_head option" where
  "parse_header_line line out =
     (if header_is line (of_string ''content-length'') then
        let v = header_value line (of_string ''content-length'')
        in if v = [] \<or> length v > 9 then None
           else map_option (\<lambda>n. out\<lparr>hh_content_length := n\<rparr>) (length_loop v 0)
      else if header_is line (of_string ''transfer-encoding'') then
        let v = header_value line (of_string ''transfer-encoding'')
        in if map lower v \<noteq> of_string ''chunked'' then None else Some (out\<lparr>hh_chunked := True\<rparr>)
      else if header_is line (of_string ''location'') then
        let v = header_value line (of_string ''location'')
        in if length v \<ge> LOCATION_SIZE then None else Some (out\<lparr>hh_location := v\<rparr>)
      else Some out)"

definition strip_cr :: "bytes \<Rightarrow> bytes" where
  "strip_cr line = (if line \<noteq> [] \<and> last line = 0x0d then butlast line else line)"

function head_loop :: "bytes \<Rightarrow> bool \<Rightarrow> http_head \<Rightarrow> http_head option" where
  "head_loop rest first out =
     (if rest = [] then (if first then None else Some out)
      else
        let raw = takeWhile (\<lambda>c. c \<noteq> 0x0a) rest;
            line = strip_cr raw
        in case (if first then parse_status_line line out else parse_header_line line out) of
             None \<Rightarrow> None
           | Some out1 \<Rightarrow> head_loop (drop (length raw + 1) rest) False out1)"
  by pat_completeness auto
termination
  by (relation "measure (\<lambda>(rest, _, _). length rest)") auto

declare head_loop.simps [simp del]

definition http_parse_head :: "bytes \<Rightarrow> http_head option" where
  "http_parse_head head = head_loop head True http_head_init"

section \<open>The chunked transfer coding\<close>

datatype ch_state = CH_Size | CH_Ext | CH_Size_LF | CH_Data | CH_Data_CR | CH_Data_LF | CH_Trailer
  | CH_Trailer_Line | CH_Trailer_LF | CH_Done | CH_Error

record chunked =
  ch_state :: ch_state
  ch_remaining :: u32
  ch_digits :: nat

datatype ch_result = Chunked_More | Chunked_Done | Chunked_Error

definition chunked_init :: chunked where
  "chunked_init = \<lparr>ch_state = CH_Size, ch_remaining = 0, ch_digits = 0\<rparr>"

definition hex_value :: "u8 \<Rightarrow> int" where
  "hex_value c0 =
     (if 0x30 \<le> c0 \<and> c0 \<le> 0x39 then uint c0 - 0x30
      else let c = lower c0 in if 0x61 \<le> c \<and> c \<le> 0x66 then uint c - 0x61 + 10 else - 1)"

text \<open>One pass of the loop of \<^verbatim>\<open>fwrel_chunked_feed\<close>, on the data \<open>b # bs\<close> that is left.\<close>

definition chunked_step ::
  "(bytes \<Rightarrow> 'w \<Rightarrow> bool \<times> 'w) \<Rightarrow> chunked \<Rightarrow> u8 \<Rightarrow> bytes \<Rightarrow> 'w \<Rightarrow> chunked \<times> bytes \<times> 'w" where
  "chunked_step sink c b bs w =
     (let fail = c\<lparr>ch_state := CH_Error\<rparr> in
      case ch_state c of
        CH_Size \<Rightarrow>
          let h = hex_value b in
          if h \<ge> 0 then
            if ch_digits c + 1 > 7 then (c\<lparr>ch_digits := ch_digits c + 1, ch_state := CH_Error\<rparr>, b # bs, w)
            else (c\<lparr>ch_digits := ch_digits c + 1,
                    ch_remaining := push_bit 4 (ch_remaining c) OR word_of_int h\<rparr>, bs, w)
          else if ch_digits c = 0 then (fail, b # bs, w)
          else if b = 0x0d then (c\<lparr>ch_state := CH_Size_LF\<rparr>, bs, w)
          else if b = 0x3b \<or> b = 0x20 \<or> b = 0x09 then (c\<lparr>ch_state := CH_Ext\<rparr>, bs, w)
          else (fail, b # bs, w)
      | CH_Ext \<Rightarrow> (if b = 0x0d then c\<lparr>ch_state := CH_Size_LF\<rparr> else c, bs, w)
      | CH_Size_LF \<Rightarrow>
          if b \<noteq> 0x0a then (fail, b # bs, w)
          else (c\<lparr>ch_digits := 0, ch_state := if ch_remaining c \<noteq> 0 then CH_Data else CH_Trailer\<rparr>, bs, w)
      | CH_Data \<Rightarrow>
          let n = min (length (b # bs)) (unat (ch_remaining c)) in
          case sink (take n (b # bs)) w of (failed, w1) \<Rightarrow>
            if failed then (fail, b # bs, w1)
            else
              let rem = ch_remaining c - of_nat n
              in (c\<lparr>ch_remaining := rem, ch_state := if rem = 0 then CH_Data_CR else CH_Data\<rparr>,
                  drop n (b # bs), w1)
      | CH_Data_CR \<Rightarrow> (c\<lparr>ch_state := if b = 0x0d then CH_Data_LF else CH_Error\<rparr>, bs, w)
      | CH_Data_LF \<Rightarrow> (c\<lparr>ch_state := if b = 0x0a then CH_Size else CH_Error\<rparr>, bs, w)
      | CH_Trailer \<Rightarrow> (c\<lparr>ch_state := if b = 0x0d then CH_Trailer_LF else CH_Trailer_Line\<rparr>, bs, w)
      | CH_Trailer_Line \<Rightarrow> (if b = 0x0a then c\<lparr>ch_state := CH_Trailer\<rparr> else c, bs, w)
      | CH_Trailer_LF \<Rightarrow> (c\<lparr>ch_state := if b = 0x0a then CH_Done else CH_Error\<rparr>, bs, w)
      | CH_Done \<Rightarrow> (c, b # bs, w)
      | CH_Error \<Rightarrow> (c, b # bs, w))"

definition ch_final :: "ch_state \<Rightarrow> bool" where
  "ch_final s = (s = CH_Done \<or> s = CH_Error)"

text \<open>Every pass consumes a byte, or leaves \<^verbatim>\<open>CH_DATA\<close>, or ends in \<^verbatim>\<open>CH_ERROR\<close>.\<close>

definition ch_rank :: "ch_state \<Rightarrow> nat" where
  "ch_rank s = (if ch_final s then 0 else if s = CH_Data then 2 else 1)"

lemma chunked_step_progress:
  assumes "chunked_step sink c b bs w = (c1, rest, w1)" "\<not> ch_final (ch_state c)"
  shows "length rest < length (b # bs) \<or> (length rest = length (b # bs) \<and> ch_rank (ch_state c1) < ch_rank (ch_state c))"
proof (cases "ch_state c = CH_Data")
  case True
  obtain failed w2 where s: "sink (take (min (length (b # bs)) (unat (ch_remaining c))) (b # bs)) w = (failed, w2)"
    by fastforce
  show ?thesis
  proof (cases "ch_remaining c = 0")
    case True
    with assms s \<open>ch_state c = CH_Data\<close> show ?thesis
      by (auto simp: chunked_step_def Let_def ch_rank_def ch_final_def split: if_splits)
  next
    case False
    then have "0 < unat (ch_remaining c)" by (simp add: unat_gt_0)
    then obtain k where "min (length (b # bs)) (unat (ch_remaining c)) = Suc k"
      using not0_implies_Suc [of "min (length (b # bs)) (unat (ch_remaining c))"] by auto
    with assms s True show ?thesis
      by (auto simp: chunked_step_def Let_def ch_rank_def ch_final_def split: if_splits)
  qed
next
  case False
  with assms show ?thesis
    by (cases "ch_state c") (auto simp: chunked_step_def Let_def ch_rank_def ch_final_def split: if_splits)
qed

function chunked_loop ::
  "(bytes \<Rightarrow> 'w \<Rightarrow> bool \<times> 'w) \<Rightarrow> chunked \<Rightarrow> bytes \<Rightarrow> 'w \<Rightarrow> chunked \<times> 'w" where
  "chunked_loop sink c data w =
     (case data of [] \<Rightarrow> (c, w)
      | b # bs \<Rightarrow>
          if ch_final (ch_state c) then (c, w)
          else case chunked_step sink c b bs w of (c1, rest, w1) \<Rightarrow> chunked_loop sink c1 rest w1)"
  by pat_completeness auto
termination
  by (relation "measures [\<lambda>(_, _, data, _). length data, \<lambda>(_, c, _, _). ch_rank (ch_state c)]")
    (auto split: prod.split dest: chunked_step_progress)

declare chunked_loop.simps [simp del]

definition chunked_result :: "chunked \<Rightarrow> ch_result" where
  "chunked_result c =
     (if ch_state c = CH_Error then Chunked_Error
      else if ch_state c = CH_Done then Chunked_Done else Chunked_More)"

definition chunked_feed ::
  "(bytes \<Rightarrow> 'w \<Rightarrow> bool \<times> 'w) \<Rightarrow> chunked \<Rightarrow> bytes \<Rightarrow> 'w \<Rightarrow> ch_result \<times> chunked \<times> 'w" where
  "chunked_feed sink c data w =
     (case chunked_loop sink c data w of (c1, w1) \<Rightarrow> (chunked_result c1, c1, w1))"

end
