(* ===== verification/FwHttp_Correct.thy ===== *)
theory FwHttp_Correct
  imports FwHttp FwDigest_Correct
begin

text \<open>
  The URL splitter accepts exactly the plain https URLs; a parsed head stays within its bounds and
  means what its lines say; the chunked decoder undoes the chunked coding, whatever pieces
  the network delivers.
\<close>

section \<open>URLs\<close>

definition path_char :: "u8 \<Rightarrow> bool" where
  "path_char c \<longleftrightarrow> 0x20 < c \<and> c \<noteq> 0x7f"

lemma length_scheme: "length url_scheme = 8"
  by (simp add: url_scheme_def of_string_def)

lemma host_no_slash: "list_all host_char h \<Longrightarrow> takeWhile (\<lambda>c. c \<noteq> c_slash) h = h"
  by (induction h) (auto simp: host_char_def)

lemma path_ok_list: "\<not> list_ex (\<lambda>c. c \<le> 0x20 \<or> c = 0x7f) p \<longleftrightarrow> list_all path_char p"
  by (induction p) (auto simp: path_char_def)

text \<open>The URL splitter succeeds exactly on \<^verbatim>\<open>https://host\<close> and \<^verbatim>\<open>https://host/path\<close> where the host
  is a nonempty name of letters, digits, dots and dashes (so no port and no user information), the
  path has no control character or blank, and both fit; it returns exactly these two parts, with the path
  \<^verbatim>\<open>/\<close> when there is none.\<close>

theorem split_url_exact:
  "split_url (Some u) hs ps = Some (h, p) \<longleftrightarrow>
     (\<exists>tl_path. u = url_scheme @ h @ tl_path \<and> p = (if tl_path = [] then [c_slash] else tl_path)
        \<and> (tl_path = [] \<or> hd tl_path = c_slash))
     \<and> h \<noteq> [] \<and> length h < hs \<and> list_all host_char h \<and> length p < ps \<and> list_all path_char p"
  (is "?L \<longleftrightarrow> ?R")
proof
  assume ?L
  define r where "r = drop 8 u"
  define s where "s = drop (length h) r"
  from \<open>?L\<close> have c: "take 8 u = url_scheme" "h = takeWhile (\<lambda>c. c \<noteq> c_slash) r" "h \<noteq> []" "length h < hs"
      "list_all host_char h" "p = (if s = [] then [c_slash] else s)" "length p < ps"
      "\<not> list_ex (\<lambda>c. c \<le> 0x20 \<or> c = 0x7f) p"
    by (auto simp: split_url_def Let_def r_def s_def split: if_splits)
  have u: "u = url_scheme @ r" using c(1) append_take_drop_id [of 8 u] by (simp add: r_def)
  have s: "s = dropWhile (\<lambda>c. c \<noteq> c_slash) r" using c(2) by (simp add: s_def dropWhile_eq_drop)
  have r: "r = h @ s" using c(2) s by simp
  have "s = [] \<or> hd s = c_slash" using s hd_dropWhile [of "\<lambda>c. c \<noteq> c_slash" r] by auto
  moreover have "u = url_scheme @ h @ s" by (simp only: u r [symmetric])
  moreover have "list_all path_char p" using c(8) by (simp only: path_ok_list)
  ultimately show ?R using c(3-7) by blast
next
  assume ?R
  then obtain t where u: "u = url_scheme @ h @ t" and p: "p = (if t = [] then [c_slash] else t)"
    and t: "t = [] \<or> hd t = c_slash" and c: "h \<noteq> []" "length h < hs" "list_all host_char h" "length p < ps"
    "list_all path_char p" by blast
  have d: "take 8 u = url_scheme" "drop 8 u = h @ t" using length_scheme by (simp_all add: u)
  have "takeWhile (\<lambda>c. c \<noteq> c_slash) (h @ t) = h"
    using t by (cases t) (simp_all add: host_no_slash [OF c(3)] takeWhile_append)
  with d c p show ?L
    by (simp add: split_url_def Let_def path_ok_list [symmetric] split del: if_split cong: if_cong)
qed

section \<open>The response head\<close>

lemma digit_value: "0x30 \<le> c \<Longrightarrow> c \<le> 0x39 \<Longrightarrow> 0 \<le> uint (c :: u8) - 0x30 \<and> uint c - 0x30 \<le> 9"
  by (simp add: word_le_def)

lemma length_loop_bound:
  "length_loop v n = Some m \<Longrightarrow> 0 \<le> n \<Longrightarrow> 0 \<le> m \<and> m < (n + 1) * 10 ^ length v"
proof (induction v arbitrary: n)
  case (Cons c cs)
  let ?d = "uint c - 0x30"
  from Cons.prems have c: "0x30 \<le> c" "c \<le> 0x39" and m: "length_loop cs (n * 10 + ?d) = Some m"
    by (auto split: if_splits)
  note d = digit_value [OF c]
  from Cons.IH [OF m] d Cons.prems have "0 \<le> m" "m < (n * 10 + ?d + 1) * 10 ^ length cs" by auto
  moreover have "(n * 10 + ?d + 1) * 10 ^ length cs \<le> ((n + 1) * 10) * 10 ^ length cs"
    by (rule mult_right_mono) (use d in auto)
  moreover have "((n + 1) * 10) * 10 ^ length cs = (n + 1) * 10 ^ length (c # cs)" by simp
  ultimately show ?case by linarith
qed simp

definition head_ok :: "http_head \<Rightarrow> bool" where
  "head_ok h \<longleftrightarrow> - 1 \<le> hh_content_length h \<and> hh_content_length h \<le> 999999999 \<and> length (hh_location h) < LOCATION_SIZE"

lemma header_line_ok:
  assumes "parse_header_line line h = Some h1" "head_ok h"
  shows "head_ok h1 \<and> hh_status h1 = hh_status h"
proof -
  have len: "0 \<le> n \<and> n \<le> 999999999" if "length_loop v 0 = Some n" "\<not> length v > 9" for v n
  proof -
    have "(10::int) ^ length v \<le> 10 ^ 9" by (rule power_increasing) (use that in auto)
    with length_loop_bound [OF that(1)] show ?thesis by auto
  qed
  show ?thesis
    using assms by (auto simp: parse_header_line_def head_ok_def Let_def split: if_splits dest!: len)
qed

lemma status_line_ok:
  assumes "parse_status_line line h = Some h1" "head_ok h"
  shows "head_ok h1 \<and> 100 \<le> hh_status h1 \<and> hh_status h1 \<le> 599"
proof -
  have c: "0x31 \<le> line ! 9" "line ! 9 \<le> 0x35" "0x30 \<le> line ! 10" "line ! 10 \<le> 0x39" "0x30 \<le> line ! 11" "line ! 11 \<le> 0x39"
    and h1: "h1 = h\<lparr>hh_status := (uint (line ! 9) - 0x30) * 100 + (uint (line ! 10) - 0x30) * 10 + (uint (line ! 11) - 0x30)\<rparr>"
    using assms(1) by (auto simp: parse_status_line_def split: if_splits)
  from c(1,2) have "0x31 \<le> uint (line ! 9)" "uint (line ! 9) \<le> 0x35" by (simp_all add: word_le_def)
  with digit_value [OF c(3,4)] digit_value [OF c(5,6)] assms(2) show ?thesis
    by (simp add: h1 head_ok_def)
qed

lemma head_loop_ok:
  "head_loop rest first h = Some h1 \<Longrightarrow> head_ok h \<Longrightarrow> \<not> first \<longrightarrow> 100 \<le> hh_status h \<and> hh_status h \<le> 599
    \<Longrightarrow> head_ok h1 \<and> 100 \<le> hh_status h1 \<and> hh_status h1 \<le> 599"
proof (induction rest first h rule: head_loop.induct)
  case (1 rest first out)
  let ?line = "strip_cr (takeWhile (\<lambda>c. c \<noteq> 0x0a) rest)"
  show ?case
  proof (cases "rest = []")
    case True
    with 1 show ?thesis by (simp add: head_loop.simps split: if_splits)
  next
    case False
    obtain out1 where o: "(if first then parse_status_line ?line out else parse_header_line ?line out) = Some out1"
      and l: "head_loop (drop (length (takeWhile (\<lambda>c. c \<noteq> 0x0a) rest) + 1) rest) False out1 = Some h1"
      using 1(2) False by (subst (asm) head_loop.simps) (auto simp: Let_def split: option.splits)
    have "head_ok out1 \<and> 100 \<le> hh_status out1 \<and> hh_status out1 \<le> 599"
      using o 1(3,4) by (auto split: if_splits dest: status_line_ok header_line_ok)
    with 1(1) [OF False refl refl o l] show ?thesis by blast
  qed
qed

text \<open>A response head that is accepted has a status of 100 to 599, a content length of -1
  (absent) to 999999999, so it never overflows \<^verbatim>\<open>long\<close>, and a location that fits its buffer with its NUL.\<close>

theorem http_head_bounds:
  assumes "http_parse_head head = Some h"
  shows "100 \<le> hh_status h \<and> hh_status h \<le> 599 \<and> - 1 \<le> hh_content_length h \<and>
    hh_content_length h \<le> 999999999 \<and> length (hh_location h) < LOCATION_SIZE"
  using head_loop_ok [OF assms [unfolded http_parse_head_def]]
  by (auto simp: http_head_init_def head_ok_def)

theorem http_head_bounds_witness:
  "\<exists>h. http_parse_head (of_string ''HTTP/1.1 200 OK'') = Some h \<and> 100 \<le> hh_status h \<and> hh_status h \<le> 599"
proof -
  have "\<exists>h. http_parse_head (of_string ''HTTP/1.1 200 OK'') = Some h"
    unfolding http_parse_head_def of_string_def
    by (subst head_loop.simps)
      (simp add: head_loop.simps [of "[]"] strip_cr_def parse_status_line_def of_string_def)
  then show ?thesis using http_head_bounds by blast
qed

text \<open>The specification of a head: a status, and fields whose name is compared without case.\<close>

type_synonym http_field = "bytes \<times> bytes \<times> bytes \<times> bytes"

definition print_line :: "http_field \<Rightarrow> bytes" where
  "print_line = (\<lambda>(name, pad, value, pad'). name @ 0x3a # pad @ value @ pad')"

definition field_ok :: "http_field \<Rightarrow> bool" where
  "field_ok = (\<lambda>(name, pad, value, pad').
     list_all (\<lambda>c. c \<noteq> 0x3a \<and> c \<noteq> 0x0a) name \<and> list_all is_hblank pad \<and> list_all is_hblank pad'
     \<and> list_all (\<lambda>c. c \<noteq> 0x0a) value
     \<and> (value \<noteq> [] \<longrightarrow> \<not> is_hblank (hd value) \<and> \<not> is_hblank (last value)))"

definition field_meaning :: "http_field \<Rightarrow> http_head \<Rightarrow> http_head option" where
  "field_meaning = (\<lambda>(name, pad, value, pad') h.
     let n = map lower name in
     if n = of_string ''content-length'' then
       if value \<noteq> [] \<and> length value \<le> 9 \<and> list_all is_digit value
       then Some (h\<lparr>hh_content_length := foldl (\<lambda>k c. k * 10 + (uint c - 0x30)) 0 value\<rparr>) else None
     else if n = of_string ''transfer-encoding'' then
       if map lower value = of_string ''chunked'' then Some (h\<lparr>hh_chunked := True\<rparr>) else None
     else if n = of_string ''location'' then
       if length value < LOCATION_SIZE then Some (h\<lparr>hh_location := value\<rparr>) else None
     else Some h)"

fun fields_meaning :: "http_field list \<Rightarrow> http_head \<Rightarrow> http_head option" where
  "fields_meaning [] h = Some h"
| "fields_meaning (f # fs) h = (case field_meaning f h of None \<Rightarrow> None | Some h1 \<Rightarrow> fields_meaning fs h1)"

definition status_line :: "u8 \<Rightarrow> nat \<Rightarrow> bytes \<Rightarrow> bytes" where
  "status_line v n reason = of_string ''HTTP/1.'' @ [v, 0x20, of_nat (48 + n div 100),
     of_nat (48 + n div 10 mod 10), of_nat (48 + n mod 10)] @ reason"

definition print_head :: "u8 \<Rightarrow> nat \<Rightarrow> bytes \<Rightarrow> http_field list \<Rightarrow> bytes" where
  "print_head v n reason fs = concat (map (\<lambda>l. l @ [0x0d, 0x0a]) (status_line v n reason # map print_line fs))"

lemma length_loop_digits:
  "length_loop v n = (if list_all is_digit v then Some (foldl (\<lambda>k c. k * 10 + (uint c - 0x30)) n v) else None)"
  by (induction v arbitrary: n) (auto simp: is_digit_def)

lemma lower_colon: "lower c = 0x3a \<Longrightarrow> c = 0x3a"
proof (rule ccontr)
  assume l: "lower c = 0x3a" and c: "c \<noteq> 0x3a"
  then have "0x41 \<le> c" "c \<le> 0x5a" "c = 0x1a" by (auto simp: lower_def algebra_simps split: if_splits)
  then show False by simp
qed

lemma header_is_print:
  assumes "list_all (\<lambda>c. c \<noteq> 0x3a) name" "0x3a \<notin> set n"
  shows "header_is (name @ 0x3a # r) n \<longleftrightarrow> map lower name = n"
proof
  assume h: "header_is (name @ 0x3a # r) n"
  then have len: "length n < length (name @ 0x3a # r)" and at: "(name @ 0x3a # r) ! length n = 0x3a"
    and eq: "map lower (take (length n) (name @ 0x3a # r)) = n"
    by (auto simp: header_is_def split: if_splits)
  have "\<not> length n < length name" using at assms(1) by (auto simp: nth_append list_all_length)
  moreover have "\<not> length name < length n"
  proof
    assume "length name < length n"
    then obtain k where "length n - length name = Suc k" using not0_implies_Suc by fastforce
    then have "lower 0x3a \<in> set (map lower (take (length n) (name @ 0x3a # r)))" by simp
    then show False unfolding eq using assms(2) by (simp add: lower_def)
  qed
  ultimately have "length n = length name" by simp
  with eq show "map lower name = n" by simp
next
  assume "map lower name = n"
  then show "header_is (name @ 0x3a # r) n" by (auto simp: header_is_def)
qed

lemma header_value_print:
  assumes "length n = length name" "list_all is_hblank pad" "list_all is_hblank pad'"
    "value \<noteq> [] \<longrightarrow> \<not> is_hblank (hd value) \<and> \<not> is_hblank (last value)"
  shows "header_value (name @ 0x3a # pad @ value @ pad') n = value"
proof -
  have strip: "list_all is_hblank xs \<Longrightarrow> dropWhile is_hblank (xs @ ys) = dropWhile is_hblank ys" for xs ys
    by (induction xs) auto
  have none: "dropWhile is_hblank ys = []" if "list_all is_hblank ys" for ys
    using that by (induction ys) auto
  have keep: "ys \<noteq> [] \<Longrightarrow> \<not> is_hblank (hd ys) \<Longrightarrow> dropWhile is_hblank (ys @ zs) = ys @ zs" for ys zs
    by (cases ys) auto
  show ?thesis
  proof (cases "value = []")
    case True
    have "list_all is_hblank (pad @ pad')" using assms(2,3) by simp
    from none [OF this] have "dropWhile is_hblank (drop (length n + 1) (name @ 0x3a # pad @ pad')) = []"
      using assms(1) by (simp del: dropWhile_append dropWhile_eq_Nil_conv)
    then show ?thesis unfolding header_value_def True Let_def append_Nil by (simp only:) simp
  next
    case False
    have "dropWhile is_hblank (rev pad' @ rev value) = rev value"
      using assms(3,4) False keep [of "rev value" "[]"] by (subst strip) (auto simp: hd_rev list_all_iff)
    with assms False show ?thesis by (simp add: header_value_def strip keep)
  qed
qed

lemma header_line_print:
  assumes "field_ok f"
  shows "parse_header_line (print_line f) h = field_meaning f h"
proof -
  obtain name pad cont pad' where f: "f = (name, pad, cont, pad')" by (cases f)
  have nc: "0x3a \<notin> set (of_string ''content-length'')" "0x3a \<notin> set (of_string ''transfer-encoding'')"
    "0x3a \<notin> set (of_string ''location'')" by (simp_all add: of_string_def)
  have ok: "list_all (\<lambda>c. c \<noteq> 0x3a) name" using assms by (auto simp: f field_ok_def list_all_iff)
  have val: "header_value (print_line f) n = cont" if "map lower name = n" for n
    unfolding f print_line_def prod.case using assms that
    by (intro header_value_print) (auto simp: f field_ok_def)
  have his: "header_is (print_line f) n \<longleftrightarrow> map lower name = n" if "0x3a \<notin> set n" for n
    unfolding f print_line_def prod.case by (rule header_is_print [OF ok that])
  show ?thesis
  proof -
    let ?n = "map lower name"
    have ne: "of_string ''transfer-encoding'' \<noteq> of_string ''content-length''"
      "of_string ''location'' \<noteq> of_string ''content-length''"
      "of_string ''location'' \<noteq> of_string ''transfer-encoding''" by (simp_all add: of_string_def)
    have cl: ?thesis if "?n = of_string ''content-length''"
      unfolding parse_header_line_def his [OF nc(1)] val [OF that] length_loop_digits
      by (simp add: that f field_meaning_def Let_def not_less)
    have te: ?thesis if "?n = of_string ''transfer-encoding''"
      unfolding parse_header_line_def his [OF nc(1)] his [OF nc(2)] val [OF that]
      by (simp add: that ne f field_meaning_def Let_def)
    have lo: ?thesis if "?n = of_string ''location''"
      unfolding parse_header_line_def his [OF nc(1)] his [OF nc(2)] his [OF nc(3)] val [OF that]
      by (simp add: that ne f field_meaning_def Let_def not_less)
    have "?thesis" if "?n \<noteq> of_string ''content-length''" "?n \<noteq> of_string ''transfer-encoding''"
        "?n \<noteq> of_string ''location''"
      unfolding parse_header_line_def his [OF nc(1)] his [OF nc(2)] his [OF nc(3)] using that
      by (simp add: f field_meaning_def Let_def)
    with cl te lo show ?thesis by blast
  qed
qed

lemma head_loop_line:
  assumes "0x0a \<notin> set l"
  shows "head_loop (l @ 0x0d # 0x0a # r) first h =
    (case (if first then parse_status_line l h else parse_header_line l h) of
       None \<Rightarrow> None | Some h1 \<Rightarrow> head_loop r False h1)"
proof -
  have tw: "takeWhile (\<lambda>c. c \<noteq> 0x0a) (l @ 0x0d # 0x0a # r) = l @ [0x0d]"
    using assms by (subst takeWhile_append2) auto
  have dr: "drop (length (l @ [0x0d]) + 1) (l @ 0x0d # 0x0a # r) = r" by simp
  have "strip_cr (l @ [0x0d]) = l" by (simp add: strip_cr_def)
  with dr show ?thesis by (subst head_loop.simps) (simp only: tw Let_def, simp)
qed

lemma head_loop_fields:
  "list_all field_ok fs \<Longrightarrow>
   head_loop (concat (map (\<lambda>l. l @ [0x0d, 0x0a]) (map print_line fs))) False h = fields_meaning fs h"
proof (induction fs arbitrary: h)
  case Nil
  show ?case by (simp add: head_loop.simps)
next
  case (Cons f fs)
  have "0x0a \<notin> set (print_line f)"
    using Cons.prems by (auto simp: field_ok_def print_line_def list_all_iff is_hblank_def split: prod.splits)
  with Cons show ?case by (auto simp: head_loop_line header_line_print split: option.split)
qed

text \<open>C19: A response head made of a status line and any fields, separated by CR LF, is read as its
  fields say in order: the three status digits, the content length as a decimal number of at most nine digits,
  the chunked coding, and the location, with field names of any case and blanks around the values stripped; a bad
  value of one of these makes the head fail, and other fields are ignored.\<close>

theorem http_head_meaning:
  assumes "100 \<le> n" "n \<le> 599" "v \<noteq> 0x0a" "0x0a \<notin> set reason" "list_all field_ok fs"
  shows "http_parse_head (print_head v n reason fs) =
    fields_meaning fs (http_head_init\<lparr>hh_status := int n\<rparr>)"
proof -
  let ?sl = "status_line v n reason"
  define d1 d2 d3 where "d1 = n div 100" and "d2 = n div 10 mod 10" and "d3 = n mod 10"
  note dd = d1_def d2_def d3_def
  have lt: "d2 < 10" "d3 < 10" by (simp_all add: dd)
  define q where "q = n div 10"
  have "q * 10 + d3 = n" unfolding q_def dd by (rule div_mult_mod_eq)
  moreover have "d1 * 10 + d2 = q"
    using div_mult_mod_eq [of q 10] by (simp add: q_def dd div_mult2_eq [symmetric])
  ultimately have sum: "d1 * 100 + d2 * 10 + d3 = n" by linarith
  then have "int d1 * 100 + int d2 * 10 + int d3 = int n" by linarith
  moreover have "1 \<le> d1" "d1 \<le> 5" using sum lt assms(1,2) by linarith+
  ultimately have d: "1 \<le> d1" "d1 \<le> 5" "d2 < 10" "d3 < 10" "int d1 * 100 + int d2 * 10 + int d3 = int n"
    using lt by simp_all
  define c1 c2 c3 :: u8 where "c1 = of_nat (48 + d1)" and "c2 = of_nat (48 + d2)" and "c3 = of_nat (48 + d3)"
  have un: "unat (of_nat (48 + k) :: u8) = 48 + k" if "k < 10" for k
    using that by (simp add: unat_of_nat del: of_nat_add)
  have u: "unat c1 = 48 + d1" "unat c2 = 48 + d2" "unat c3 = 48 + d3"
    unfolding c1_def c2_def c3_def by (rule un; use d(1-4) in linarith)+
  have ui: "uint c1 = 48 + int d1" "uint c2 = 48 + int d2" "uint c3 = 48 + int d3"
    using u by (simp_all add: uint_nat)
  have sl: "?sl = of_string ''HTTP/1.'' @ [v, 0x20, c1, c2, c3] @ reason"
    by (simp only: status_line_def c1_def c2_def c3_def dd)
  have ineq: "0x31 \<le> c1" "c1 \<le> 0x35" "0x30 \<le> c2" "c2 \<le> 0x39" "0x30 \<le> c3" "c3 \<le> 0x39"
    "c1 \<noteq> 0x0a" "c2 \<noteq> 0x0a" "c3 \<noteq> 0x0a"
    using u d by (auto simp: word_le_nat_alt)
  have nolf: "0x0a \<notin> set ?sl" using assms(3,4) ineq by (auto simp: sl of_string_def)
  have len: "length (of_string ''HTTP/1.'') = 7" by (simp add: of_string_def)
  have at: "?sl ! 8 = 0x20" "?sl ! 9 = c1" "?sl ! 10 = c2" "?sl ! 11 = c3" "take 7 ?sl = of_string ''HTTP/1.''"
    "\<not> length ?sl < 12"
    by (simp_all add: sl nth_append len)
  have "parse_status_line ?sl http_head_init = Some (http_head_init\<lparr>hh_status := int n\<rparr>)"
    unfolding parse_status_line_def at ui using ineq d(5) at(6) by (simp add: not_less)
  then show ?thesis
    using head_loop_fields [OF assms(5)] nolf
    by (simp add: http_parse_head_def print_head_def head_loop_line)
qed

theorem http_head_meaning_witness:
  "http_parse_head (print_head 0x31 200 [] [(of_string ''Content-Length'', [0x20], of_string ''12'', [])]) =
     Some (http_head_init\<lparr>hh_status := 200, hh_content_length := 12\<rparr>)"
proof -
  have "http_parse_head (print_head 0x31 200 [] [(of_string ''Content-Length'', [0x20], of_string ''12'', [])]) =
      fields_meaning [(of_string ''Content-Length'', [0x20], of_string ''12'', [])]
        (http_head_init\<lparr>hh_status := int 200\<rparr>)"
    by (rule http_head_meaning) (simp_all add: field_ok_def of_string_def is_hblank_def)
  then show ?thesis
    by (simp add: field_meaning_def of_string_def lower_def is_digit_def)
qed

section \<open>The chunked coding does not depend on the pieces\<close>

text \<open>A body consumer that never aborts, as a sink.\<close>

definition accepting :: "(bytes \<Rightarrow> 'w \<Rightarrow> 'w) \<Rightarrow> bytes \<Rightarrow> 'w \<Rightarrow> bool \<times> 'w" where
  "accepting body d w = (False, body d w)"

lemma chunked_loop_nil: "chunked_loop sink c [] w = (c, w)"
  by (simp add: chunked_loop.simps)

lemma chunked_loop_final: "ch_final (ch_state c) \<Longrightarrow> chunked_loop sink c data w = (c, w)"
  by (simp add: chunked_loop.simps split: list.split)

lemma chunked_loop_step:
  "\<not> ch_final (ch_state c) \<Longrightarrow> chunked_step sink c b bs w = (c1, rest, w1)
    \<Longrightarrow> chunked_loop sink c (b # bs) w = chunked_loop sink c1 rest w1"
  by (subst chunked_loop.simps) simp

lemma chunked_step_append:
  assumes "chunked_step sink c b bs w = (c1, rest, w1)"
    "ch_state c = CH_Data \<longrightarrow> unat (ch_remaining c) \<le> length (b # bs)"
  shows "chunked_step sink c b (bs @ ys) w = (c1, rest @ ys, w1)"
proof (cases "ch_state c = CH_Data")
  case True
  then have n: "unat (ch_remaining c) \<le> length (b # bs)" using assms(2) by blast
  have m: "min (length (b # bs)) (unat (ch_remaining c)) = unat (ch_remaining c)"
    "min (length (b # bs @ ys)) (unat (ch_remaining c)) = unat (ch_remaining c)" using n by simp_all
  have t: "take (unat (ch_remaining c)) (b # bs @ ys) = take (unat (ch_remaining c)) (b # bs)"
    "drop (unat (ch_remaining c)) (b # bs @ ys) = drop (unat (ch_remaining c)) (b # bs) @ ys"
    using n append_Cons [of b bs ys] by (metis take_append diff_is_0_eq' take_0 append_Nil2)
      (use n append_Cons [of b bs ys] in \<open>metis drop_append diff_is_0_eq' drop0\<close>)
  obtain failed w2 where s: "sink (take (unat (ch_remaining c)) (b # bs)) w = (failed, w2)" by fastforce
  from assms(1) show ?thesis
    unfolding chunked_step_def Let_def True m t s by (auto split: if_splits)
next
  case False
  with assms(1) show ?thesis
    by (cases "ch_state c") (auto simp: chunked_step_def Let_def split: if_splits)
qed

locale chunked_over = stream_consumer body for body :: "bytes \<Rightarrow> 'w \<Rightarrow> 'w"
begin

lemma data_closed:
  assumes "ch_state c = CH_Data" "n = min (length (b # bs)) (unat (ch_remaining c))"
  shows "chunked_step (accepting body) c b bs w =
    (c\<lparr>ch_remaining := ch_remaining c - of_nat n,
       ch_state := if ch_remaining c - of_nat n = 0 then CH_Data_CR else CH_Data\<rparr>,
     drop n (b # bs), body (take n (b # bs)) w)"
  unfolding chunked_step_def Let_def accepting_def assms(2) [symmetric] using assms(1) by simp

lemma data_step:
  assumes "ch_state c = CH_Data" "length (b # bs) < unat (ch_remaining c)"
  shows "chunked_loop (accepting body) c (b # bs) w =
    (c\<lparr>ch_remaining := ch_remaining c - of_nat (length (b # bs))\<rparr>, body (b # bs) w)"
proof -
  have rem: "ch_remaining c - of_nat (length (b # bs)) \<noteq> 0"
  proof
    assume "ch_remaining c - of_nat (length (b # bs)) = 0"
    then have "unat (ch_remaining c) = unat (of_nat (length (b # bs)) :: u32)" by simp
    also have "\<dots> \<le> length (b # bs)" by (simp only: unat_of_nat) (rule mod_less_eq_dividend)
    finally show False using assms(2) by simp
  qed
  have "chunked_step (accepting body) c b bs w =
      (c\<lparr>ch_remaining := ch_remaining c - of_nat (length (b # bs))\<rparr>, [], body (b # bs) w)"
    using assms rem by (simp add: chunked_step_def accepting_def Let_def del: of_nat_Suc)
  from chunked_loop_step [OF _ this] assms(1) show ?thesis
    by (simp only: chunked_loop_nil) (simp add: ch_final_def)
qed

lemma loop_append:
  "chunked_loop (accepting body) c (xs @ ys) w =
    (case chunked_loop (accepting body) c xs w of (c1, w1) \<Rightarrow> chunked_loop (accepting body) c1 ys w1)"
proof (induction "accepting body" c xs w rule: chunked_loop.induct)
  case (1 c xs w)
  show ?case
  proof (cases xs)
    case Nil
    then show ?thesis by (simp add: chunked_loop_nil)
  next
    case (Cons b bs)
    show ?thesis
    proof (cases "ch_final (ch_state c)")
      case True
      then show ?thesis by (simp add: chunked_loop_final)
    next
      case nf: False
      show ?thesis
      proof (cases "ch_state c = CH_Data \<and> length xs < unat (ch_remaining c)")
        case False
        obtain c1 rest w1 where st: "chunked_step (accepting body) c b bs w = (c1, rest, w1)"
          using prod_cases3 by blast
        have "chunked_step (accepting body) c b (bs @ ys) w = (c1, rest @ ys, w1)"
          using False by (intro chunked_step_append [OF st]) (auto simp: Cons)
        from chunked_loop_step [OF nf this] chunked_loop_step [OF nf st] 1 [OF Cons nf st [symmetric] refl]
        show ?thesis by (simp add: Cons)
      next
        case True
        show ?thesis
        proof (cases ys)
          case Nil
          then show ?thesis by (simp add: chunked_loop_nil split: prod.split)
        next
          case ys: (Cons y ys')
          let ?c = "c\<lparr>ch_remaining := ch_remaining c - of_nat (length xs)\<rparr>"
          have u: "unat (ch_remaining ?c) = unat (ch_remaining c) - length xs"
            using True unat_lt [of "ch_remaining c"]
            by (simp add: unat_minus_le word_le_nat_alt unat_of_nat)
          define n where "n = min (length ys) (unat (ch_remaining c) - length xs)"
          have n: "min (length (xs @ ys)) (unat (ch_remaining c)) = length xs + n"
            using conjunct2 [OF True] by (auto simp: n_def min_def)
          have part: "chunked_step (accepting body) ?c y ys' (body xs w) =
              chunked_step (accepting body) c b (bs @ ys) w"
          proof -
            have whole: "b # bs @ ys = xs @ ys" by (simp add: Cons)
            have n1: "length xs + n = min (length (b # bs @ ys)) (unat (ch_remaining c))"
              unfolding whole by (rule n [symmetric])
            have n2: "n = min (length (y # ys')) (unat (ch_remaining ?c))"
              by (simp only: u n_def ys)
            have st: "ch_state c = CH_Data" "ch_state ?c = CH_Data" using True by simp_all
            have "chunked_step (accepting body) c b (bs @ ys) w =
              (c\<lparr>ch_remaining := ch_remaining c - of_nat (length xs + n),
                 ch_state := if ch_remaining c - of_nat (length xs + n) = 0 then CH_Data_CR else CH_Data\<rparr>,
               drop (length xs + n) (xs @ ys), body (take (length xs + n) (xs @ ys)) w)"
              using data_closed [OF st(1) n1] by (simp only: whole)
            moreover have "body (take (length xs + n) (xs @ ys)) w = body (take n ys) (body xs w)"
              by (simp add: feed_append)
            ultimately show ?thesis
              using data_closed [OF st(2) n2] by (simp add: ys [symmetric] diff_diff_eq)
          qed
          obtain c1 rest w1 where st: "chunked_step (accepting body) c b (bs @ ys) w = (c1, rest, w1)"
            using prod_cases3 by blast
          have "chunked_loop (accepting body) ?c ys (body xs w) = chunked_loop (accepting body) c1 rest w1"
            unfolding ys by (rule chunked_loop_step) (use True part st ys in \<open>simp_all add: ch_final_def\<close>)
          moreover have "chunked_loop (accepting body) c xs w = (?c, body xs w)"
            using data_step True Cons by blast
          ultimately show ?thesis using chunked_loop_step [OF nf st] by (simp add: Cons)
        qed
      qed
    qed
  qed
qed

end

text \<open>A decoder that feeds a stream consumer is itself a stream consumer.\<close>

sublocale chunked_over \<subseteq> decoder: stream_consumer "\<lambda>data (c, w). chunked_loop (accepting body) c data w"
proof unfold_locales
  show "(case s of (c, w) \<Rightarrow> chunked_loop (accepting body) c [] w) = s" for s
    by (cases s) (simp add: chunked_loop_nil)
  show "(case s of (c, w) \<Rightarrow> chunked_loop (accepting body) c (xs @ ys) w) =
      (case case s of (c, w) \<Rightarrow> chunked_loop (accepting body) c xs w of
         (c, w) \<Rightarrow> chunked_loop (accepting body) c ys w)" for xs ys s
    by (cases s) (simp add: loop_append)
qed

context chunked_over
begin

lemma pieces_same:
  "concat xss = concat yss \<Longrightarrow>
    fold (\<lambda>data (c, w). chunked_loop (accepting body) c data w) xss s =
    fold (\<lambda>data (c, w). chunked_loop (accepting body) c data w) yss s"
  by (rule decoder.feed_resplit)

end

interpretation body_crc: chunked_over "\<lambda>data crc. crc32_update crc data"
  by unfold_locales

interpretation body_text: chunked_over "\<lambda>data buf. buf @ data"
  by unfold_locales simp_all

text \<open>The decoder over a sequence of network reads.\<close>

definition feed_pieces :: "(bytes \<Rightarrow> 'w \<Rightarrow> 'w) \<Rightarrow> bytes list \<Rightarrow> chunked \<times> 'w \<Rightarrow> chunked \<times> 'w" where
  "feed_pieces body = fold (\<lambda>data (c, w). snd (chunked_feed (accepting body) c data w))"

lemma chunked_feed_snd: "snd (chunked_feed sink c data w) = chunked_loop sink c data w"
  by (simp add: chunked_feed_def split: prod.split)

lemma feed_pieces_loop:
  "feed_pieces body = fold (\<lambda>data (c, w). chunked_loop (accepting body) c data w)"
  by (simp add: feed_pieces_def chunked_feed_snd)

text \<open>C18: When the body goes to a consumer that does not care about the pieces itself (a buffer,
  a checksum), the decoder does not care about them either: any two ways to cut the response into reads leave
  the decoder and the consumer in the same state.\<close>

theorem chunked_any_pieces:
  assumes "stream_consumer body" "concat xss = concat yss"
  shows "feed_pieces body xss (c, w) = feed_pieces body yss (c, w)"
  unfolding feed_pieces_loop
  by (rule chunked_over.pieces_same [OF chunked_over.intro [OF assms(1)] assms(2)])

theorem chunked_any_pieces_witness:
  "feed_pieces (\<lambda>data crc. crc32_update crc data) [[1, 2], [3]] (chunked_init, 0) =
   feed_pieces (\<lambda>data crc. crc32_update crc data) [[1], [2, 3]] (chunked_init, 0)"
  by (rule chunked_any_pieces [OF crc_stream.stream_consumer_axioms]) simp

section \<open>Decoding what was encoded\<close>

text \<open>A chunk: its size in hex digits of any case, an extension, and the data.\<close>

type_synonym chunk = "bytes \<times> bytes \<times> bytes"

definition hex_number :: "int \<Rightarrow> bytes \<Rightarrow> int" where
  "hex_number n ds = foldl (\<lambda>k c. k * 16 + hex_value c) n ds"

definition size_ok :: "bytes \<Rightarrow> bytes \<Rightarrow> bool" where
  "size_ok ds ext \<longleftrightarrow> ds \<noteq> [] \<and> length ds \<le> 7 \<and> list_all (\<lambda>c. 0 \<le> hex_value c) ds
     \<and> (ext = [] \<or> hd ext \<in> {0x3b, 0x20, 0x09}) \<and> 0x0d \<notin> set ext"

definition chunk_ok :: "chunk \<Rightarrow> bool" where
  "chunk_ok = (\<lambda>(ds, ext, d). size_ok ds ext \<and> d \<noteq> [] \<and> hex_number 0 ds = int (length d))"

definition print_chunk :: "chunk \<Rightarrow> bytes" where
  "print_chunk = (\<lambda>(ds, ext, d). ds @ ext @ [0x0d, 0x0a] @ d @ [0x0d, 0x0a])"

definition trailer_ok :: "bytes \<Rightarrow> bool" where
  "trailer_ok t \<longleftrightarrow> t \<noteq> [] \<and> hd t \<noteq> 0x0d \<and> 0x0a \<notin> set t"

definition print_body :: "chunk list \<Rightarrow> bytes \<Rightarrow> bytes \<Rightarrow> bytes list \<Rightarrow> bytes" where
  "print_body cs zeros ext trailers =
     concat (map print_chunk cs) @ zeros @ ext @ [0x0d, 0x0a]
       @ concat (map (\<lambda>t. t @ [0x0a]) trailers) @ [0x0d, 0x0a]"

lemma hex_value_range: "0 \<le> hex_value c \<Longrightarrow> hex_value c < 16"
  by (auto simp: hex_value_def Let_def word_le_def split: if_splits)

lemma size_digit:
  assumes "0 \<le> h" "h < 16"
  shows "push_bit 4 (r :: u32) OR word_of_int h = r * 16 + word_of_int h"
proof -
  have h: "take_bit 4 h = h" using assms by (simp add: take_bit_int_eq_self)
  have "\<not> bit (word_of_int h :: u32) n" if "4 \<le> n" for n
  proof -
    have "\<not> bit (take_bit 4 h) n" using that by (simp add: bit_take_bit_iff)
    then show ?thesis by (simp only: h bit_word_of_int_iff) simp
  qed
  then have "push_bit 4 r AND word_of_int h = 0"
    by (intro bit_word_eqI) (auto simp: bit_and_iff bit_push_bit_iff)
  then show ?thesis
    using disjunctive_add_eq_or [of "push_bit 4 r" "word_of_int h"] by (simp add: push_bit_eq_mult mult.commute)
qed

lemma text_step:
  "chunked_step (accepting body) c b bs w = (c1, rest, w) \<Longrightarrow> \<not> ch_final (ch_state c) \<Longrightarrow>
    chunked_loop (accepting body) c (b # bs) w = chunked_loop (accepting body) c1 rest w"
  by (rule chunked_loop_step)

abbreviation "at_state s r k \<equiv> \<lparr>ch_state = s, ch_remaining = r, ch_digits = k\<rparr>"

lemma loop_digits:
  "list_all (\<lambda>c. 0 \<le> hex_value c) ds \<Longrightarrow> k + length ds \<le> 7 \<Longrightarrow>
    chunked_loop (accepting body) (at_state CH_Size (word_of_int n) k) (ds @ rest) w =
    chunked_loop (accepting body) (at_state CH_Size (word_of_int (hex_number n ds)) (k + length ds)) rest w"
proof (induction ds arbitrary: n k)
  case Nil
  show ?case by (simp add: hex_number_def)
next
  case (Cons d ds)
  from Cons.prems have d: "0 \<le> hex_value d" by simp
  have "push_bit 4 (word_of_int n :: u32) OR word_of_int (hex_value d) = word_of_int (n * 16 + hex_value d)"
    using size_digit [OF d hex_value_range [OF d]] by simp
  then have "chunked_step (accepting body) (at_state CH_Size (word_of_int n) k) d (ds @ rest) w =
      (at_state CH_Size (word_of_int (n * 16 + hex_value d)) (k + 1), ds @ rest, w)"
    using Cons.prems d by (simp add: chunked_step_def Let_def)
  from text_step [OF this] Cons.IH [of "k + 1" "n * 16 + hex_value d"] Cons.prems show ?case
    by (simp add: ch_final_def hex_number_def)
qed

lemma loop_ext:
  "0x0d \<notin> set ext \<Longrightarrow> chunked_loop (accepting body) (at_state CH_Ext r k) (ext @ rest) w =
    chunked_loop (accepting body) (at_state CH_Ext r k) rest w"
  by (induction ext) (simp_all add: chunked_loop_step [where rest = "_ @ rest"] chunked_step_def ch_final_def)

lemma size_punct: "hex_value 0x0d < 0" "c \<in> {0x3b, 0x20, 0x09} \<Longrightarrow> hex_value c < 0"
  by (auto simp: hex_value_def lower_def)

lemma loop_size_line:
  assumes "size_ok ds ext"
  shows "chunked_loop (accepting body) chunked_init (ds @ ext @ 0x0d # 0x0a # rest) w =
    (let r = word_of_int (hex_number 0 ds) in
     chunked_loop (accepting body) (at_state (if r \<noteq> 0 then CH_Data else CH_Trailer) r 0) rest w)"
proof -
  let ?r = "word_of_int (hex_number 0 ds) :: u32"
  have k: "length ds \<noteq> 0" using assms by (auto simp: size_ok_def)
  have "chunked_loop (accepting body) chunked_init (ds @ ext @ 0x0d # 0x0a # rest) w =
      chunked_loop (accepting body) (at_state CH_Size ?r (length ds)) (ext @ 0x0d # 0x0a # rest) w"
    using loop_digits [of ds 0 body 0] assms by (simp add: chunked_init_def size_ok_def)
  also have "\<dots> = chunked_loop (accepting body) (at_state CH_Size_LF ?r (length ds)) (0x0a # rest) w"
  proof (cases ext)
    case Nil
    with k size_punct(1) show ?thesis
      by (simp add: text_step [where rest = "0x0a # rest"] chunked_step_def ch_final_def Let_def not_le)
  next
    case (Cons e es)
    have e: "e \<in> {0x3b, 0x20, 0x09}" and es: "0x0d \<notin> set es"
      using assms Cons by (auto simp: size_ok_def)
    have "chunked_step (accepting body) (at_state CH_Size ?r (length ds)) e (es @ 0x0d # 0x0a # rest) w =
        (at_state CH_Ext ?r (length ds), es @ 0x0d # 0x0a # rest, w)"
      using e size_punct(2) [OF e] k by (auto simp: chunked_step_def Let_def)
    moreover have "chunked_step (accepting body) (at_state CH_Ext ?r (length ds)) 0x0d (0x0a # rest) w =
        (at_state CH_Size_LF ?r (length ds), 0x0a # rest, w)"
      by (simp add: chunked_step_def)
    ultimately show ?thesis
      by (simp add: Cons text_step loop_ext [OF es] ch_final_def)
  qed
  also have "\<dots> = chunked_loop (accepting body) (at_state (if ?r \<noteq> 0 then CH_Data else CH_Trailer) ?r 0) rest w"
    by (rule text_step) (simp_all add: chunked_step_def ch_final_def Let_def)
  finally show ?thesis by (simp add: Let_def)
qed

lemma hex_number_bound:
  "list_all (\<lambda>c. 0 \<le> hex_value c) ds \<Longrightarrow> 0 \<le> n \<Longrightarrow> 0 \<le> hex_number n ds \<and> hex_number n ds < (n + 1) * 16 ^ length ds"
proof (induction ds arbitrary: n)
  case (Cons d ds)
  let ?m = "n * 16 + hex_value d"
  have d: "0 \<le> hex_value d" "hex_value d < 16" using Cons.prems hex_value_range by auto
  have "0 \<le> hex_number ?m ds \<and> hex_number ?m ds < (?m + 1) * 16 ^ length ds"
    using Cons d by auto
  moreover have "(?m + 1) * 16 ^ length ds \<le> ((n + 1) * 16) * 16 ^ length ds"
    by (rule mult_right_mono) (use d in auto)
  moreover have "((n + 1) * 16) * 16 ^ length ds = (n + 1) * 16 ^ length (d # ds)" by simp
  moreover have "hex_number n (d # ds) = hex_number ?m ds" by (simp add: hex_number_def)
  ultimately show ?case by linarith
qed (simp add: hex_number_def)

lemma loop_chunk:
  assumes "chunk_ok (ds, ext, d)"
  shows "chunked_loop (accepting body) chunked_init (print_chunk (ds, ext, d) @ rest) w =
    chunked_loop (accepting body) chunked_init rest (body d w)"
proof -
  have sz: "size_ok ds ext" and d: "d \<noteq> []" and n: "hex_number 0 ds = int (length d)"
    using assms by (auto simp: chunk_ok_def)
  have "hex_number 0 ds < 16 ^ length ds"
    using hex_number_bound [of ds 0] sz by (simp add: size_ok_def)
  also have "\<dots> \<le> 16 ^ 7" by (rule power_increasing) (use sz in \<open>auto simp: size_ok_def\<close>)
  finally have small: "length d < 2 ^ 28" by (simp add: n)
  define r :: u32 where "r = of_nat (length d)"
  have ru: "unat r = length d" using small by (simp add: r_def unat_of_nat)
  then have r0: "r \<noteq> 0" using d by auto
  have r: "word_of_int (hex_number 0 ds) = r" by (simp add: n r_def)
  obtain e es where de: "d = e # es" using d by (cases d) auto
  let ?rest = "d @ 0x0d # 0x0a # rest"
  have "chunked_loop (accepting body) chunked_init (print_chunk (ds, ext, d) @ rest) w =
      chunked_loop (accepting body) (at_state CH_Data r 0) ?rest w"
    using loop_size_line [OF sz, of body ?rest w] r r0 by (simp add: print_chunk_def)
  also have "\<dots> = chunked_loop (accepting body) (at_state CH_Data_CR 0 0) (0x0d # 0x0a # rest) (body d w)"
  proof -
    have "min (length (e # es @ 0x0d # 0x0a # rest)) (unat r) = length d" by (simp add: ru de)
    moreover have "take (length d) ?rest = d" "drop (length d) ?rest = 0x0d # 0x0a # rest" by simp_all
    ultimately have "chunked_step (accepting body) (at_state CH_Data r 0) e (es @ 0x0d # 0x0a # rest) w =
        (at_state CH_Data_CR 0 0, 0x0d # 0x0a # rest, body d w)"
      by (simp add: chunked_step_def accepting_def Let_def r_def de del: of_nat_Suc)
    from chunked_loop_step [OF _ this] show ?thesis by (simp add: de ch_final_def)
  qed
  also have "\<dots> = chunked_loop (accepting body) (at_state CH_Data_LF 0 0) (0x0a # rest) (body d w)"
    by (rule text_step) (simp_all add: chunked_step_def ch_final_def)
  also have "\<dots> = chunked_loop (accepting body) (at_state CH_Size 0 0) rest (body d w)"
    by (rule text_step) (simp_all add: chunked_step_def ch_final_def)
  finally show ?thesis by (simp add: chunked_init_def)
qed

lemma loop_chunks:
  assumes "body [] = (\<lambda>w. w)" "\<And>a b w. body (a @ b) w = body b (body a w)"
  shows "list_all chunk_ok cs \<Longrightarrow>
    chunked_loop (accepting body) chunked_init (concat (map print_chunk cs) @ rest) w =
    chunked_loop (accepting body) chunked_init rest (body (concat (map (\<lambda>(_, _, d). d) cs)) w)"
proof (induction cs arbitrary: w)
  case Nil
  show ?case using assms(1) by simp
next
  case (Cons c cs)
  obtain ds ext d where c: "c = (ds, ext, d)" by (cases c)
  have "chunk_ok (ds, ext, d)" using Cons.prems c by simp
  from loop_chunk [OF this, of body "concat (map print_chunk cs) @ rest" w] Cons show ?case
    by (simp add: c assms(2))
qed

lemma loop_trailers:
  "list_all trailer_ok ts \<Longrightarrow>
    chunked_loop (accepting body) (at_state CH_Trailer 0 0) (concat (map (\<lambda>t. t @ [0x0a]) ts) @ [0x0d, 0x0a] @ junk) w =
    (at_state CH_Done 0 0, w)"
proof (induction ts)
  case Nil
  have "chunked_loop (accepting body) (at_state CH_Trailer 0 0) (0x0d # 0x0a # junk) w =
      chunked_loop (accepting body) (at_state CH_Trailer_LF 0 0) (0x0a # junk) w"
    by (rule text_step) (simp_all add: chunked_step_def ch_final_def)
  also have "\<dots> = chunked_loop (accepting body) (at_state CH_Done 0 0) junk w"
    by (rule text_step) (simp_all add: chunked_step_def ch_final_def)
  finally show ?case by (simp add: chunked_loop_final ch_final_def)
next
  case (Cons t ts)
  let ?rest = "concat (map (\<lambda>t. t @ [0x0a]) ts) @ [0x0d, 0x0a] @ junk"
  have skip: "chunked_loop (accepting body) (at_state CH_Trailer_Line 0 0) (u @ 0x0a # r) w =
      chunked_loop (accepting body) (at_state CH_Trailer 0 0) r w" if "0x0a \<notin> set u" for u r
    using that
  proof (induction u)
    case Nil
    show ?case unfolding append_Nil by (rule text_step) (simp_all add: chunked_step_def ch_final_def)
  next
    case (Cons x u)
    have "chunked_loop (accepting body) (at_state CH_Trailer_Line 0 0) (x # u @ 0x0a # r) w =
        chunked_loop (accepting body) (at_state CH_Trailer_Line 0 0) (u @ 0x0a # r) w"
      by (rule text_step) (use Cons.prems in \<open>simp_all add: chunked_step_def ch_final_def\<close>)
    with Cons show ?case by simp
  qed
  obtain x u where t: "t = x # u" "x \<noteq> 0x0d" "0x0a \<notin> set u"
    using Cons.prems by (cases t) (auto simp: trailer_ok_def)
  have "chunked_loop (accepting body) (at_state CH_Trailer 0 0) (x # u @ 0x0a # ?rest) w =
      chunked_loop (accepting body) (at_state CH_Trailer_Line 0 0) (u @ 0x0a # ?rest) w"
    by (rule text_step) (simp_all add: chunked_step_def ch_final_def t)
  with skip [OF t(3)] Cons show ?case by (simp add: t(1))
qed

text \<open>C17: Decoding undoes the chunked coding: for any chunks (sizes of one to seven hex digits of any
  case, extensions, nonempty data), a zero chunk and trailer lines, cut into reads in any way and followed by anything,
  the decoder ends in the done state and its sink has received exactly the data of the chunks.\<close>

theorem chunked_roundtrip:
  assumes "list_all chunk_ok cs" "size_ok zeros ext" "hex_number 0 zeros = 0" "list_all trailer_ok trailers"
    and "concat reads = print_body cs zeros ext trailers @ junk"
  shows "feed_pieces (\<lambda>d buf. buf @ d) reads (chunked_init, []) =
    (at_state CH_Done 0 0, concat (map (\<lambda>(_, _, d). d) cs))"
proof -
  let ?body = "\<lambda>d buf :: bytes. buf @ d"
  let ?data = "concat (map (\<lambda>(_, _, d). d) cs)"
  let ?tr = "concat (map (\<lambda>t. t @ [0x0a]) trailers) @ [0x0d, 0x0a] @ junk"
  have "feed_pieces ?body reads (chunked_init, []) =
      chunked_loop (accepting ?body) chunked_init (concat reads) []"
    using body_text.decoder.feed_pieces [of reads "(chunked_init, [])"] by (simp add: feed_pieces_loop)
  also have "concat reads = concat (map print_chunk cs) @ zeros @ ext @ 0x0d # 0x0a # ?tr"
    by (simp add: assms(5) print_body_def)
  also have "chunked_loop (accepting ?body) chunked_init \<dots> [] =
      chunked_loop (accepting ?body) chunked_init (zeros @ ext @ 0x0d # 0x0a # ?tr) ?data"
    using loop_chunks [of ?body cs "zeros @ ext @ 0x0d # 0x0a # ?tr" "[]"] assms(1) by simp
  also have "\<dots> = (at_state CH_Done 0 0, ?data)"
    using loop_size_line [OF assms(2), of ?body ?tr ?data] loop_trailers [OF assms(4), of ?body junk ?data] assms(3)
    by simp
  finally show ?thesis .
qed

theorem chunked_roundtrip_witness:
  "feed_pieces (\<lambda>d buf. buf @ d)
     [[0x32, 0x0d], [0x0a, 7, 8, 0x0d, 0x0a, 0x30, 0x0d, 0x0a], [0x0d, 0x0a, 9]] (chunked_init, []) =
   (at_state CH_Done 0 0, [7, 8])"
  using chunked_roundtrip [where cs = "[([0x32], [], [7, 8])]" and zeros = "[0x30]" and ext = "[]" and
      trailers = "[]" and junk = "[9]" and
      reads = "[[0x32, 0x0d], [0x0a, 7, 8, 0x0d, 0x0a, 0x30, 0x0d, 0x0a], [0x0d, 0x0a, 9]]"]
  by (simp add: chunk_ok_def size_ok_def hex_number_def hex_value_def print_body_def print_chunk_def)

end
