(* ===== verification/FwupClient.thy ===== *)
theory FwupClient
  imports FwZip
begin

text \<open>
  The client of the firmware-file push protocol (\<^verbatim>\<open>common/fwup_client.c\<close>). The board and the host
  files are behind two tables of function pointers, which are parameters that act on an
  abstract world: \<^verbatim>\<open>struct fwup_io\<close> and \<^verbatim>\<open>struct fwup_bundle_files\<close>. The staging buffer belongs to the world;
  \<open>io_put\<close> is a \<^verbatim>\<open>memcpy\<close> to its start. A polling loop of the code has a constant bound, which is the
  recursion bound here. The static workspace of the installer holds nothing between calls.
\<close>

section \<open>Protocol constants\<close>

abbreviation (input) "FWUP_CMD_OPEN \<equiv> (1 :: u16)"
abbreviation (input) "FWUP_CMD_WRITE \<equiv> (2 :: u16)"
abbreviation (input) "FWUP_CMD_CLOSE \<equiv> (3 :: u16)"
abbreviation (input) "FWUP_CMD_ABORT \<equiv> (4 :: u16)"
abbreviation (input) "FWUP_CMD_RESTORE \<equiv> (5 :: u16)"
abbreviation (input) "FWUP_STATUS_BUSY \<equiv> (0xffff :: u16)"
abbreviation (input) "FWUP_OK \<equiv> (0 :: u16)"
abbreviation (input) "FWUP_ERR_NO_SD \<equiv> (2 :: u16)"
abbreviation (input) "FWUP_ERR_BAD_NAME \<equiv> (3 :: u16)"
abbreviation (input) "FWUP_ERR_OPEN \<equiv> (4 :: u16)"
abbreviation (input) "FWUP_ERR_WRITE \<equiv> (5 :: u16)"
abbreviation (input) "FWUP_ERR_CLOSE \<equiv> (6 :: u16)"
abbreviation (input) "FWUP_ERR_STATE \<equiv> (7 :: u16)"
abbreviation (input) "FWUP_ERR_LEN \<equiv> (8 :: u16)"
abbreviation (input) "FWUP_ERR_UNKNOWN \<equiv> (9 :: u16)"
abbreviation (input) "FWUP_ERR_NO_BACKUP \<equiv> (0xa :: u16)"
abbreviation (input) "FWUP_ERR_RESTORE \<equiv> (0xb :: u16)"
abbreviation (input) "FWUP_ERR_BUNDLE \<equiv> (0xfb :: u16)"
abbreviation (input) "FWUP_ERR_CONFIG_SIZE \<equiv> (0xfc :: u16)"
abbreviation (input) "FWUP_ERR_NOMEM \<equiv> (0xfd :: u16)"
abbreviation (input) "FWUP_ERR_FILE \<equiv> (0xfe :: u16)"

abbreviation (input) "FWUP_CHUNK_BYTES \<equiv> (16384 :: nat)"
abbreviation (input) "FWUP_NAME_MAX \<equiv> (64 :: nat)"
abbreviation (input) "FWUP_MODULE_NAME_MAX \<equiv> (8 :: nat)"
abbreviation (input) "FWUP_MODULE_FILENAME_MAX \<equiv> (12 :: nat)"
abbreviation (input) "FWUP_BUNDLE_MODULE_MAX \<equiv> (128 :: nat)"
abbreviation (input) "FWUP_HOST_PATH_MAX \<equiv> (512 :: nat)"
abbreviation (input) "FWUP_MIRROR_MAGIC \<equiv> (0x46 :: u32)"
abbreviation (input) "FWUP_POLL_LIMIT \<equiv> (2000000 :: nat)"
abbreviation (input) "FWUP_LEGACY_POLL_IDLES \<equiv> (1500 :: nat)"
abbreviation (input) "FWUP_MIRROR_SPINS \<equiv> (50000 :: nat)"
abbreviation (input) "FWUP_MIRROR_IDLES \<equiv> (1500 :: nat)"

record 'w fwup_io =
  io_read_status :: "'w \<Rightarrow> u16 \<times> 'w"
  io_write_cmd :: "u16 \<Rightarrow> 'w \<Rightarrow> 'w"
  io_write_len :: "u16 \<Rightarrow> 'w \<Rightarrow> 'w"
  io_put :: "bytes \<Rightarrow> 'w \<Rightarrow> 'w"
  io_read_mirror :: "('w \<Rightarrow> u32 \<times> 'w) option"
  io_idle :: "('w \<Rightarrow> 'w) option"

section \<open>Names and messages\<close>

definition valid_dest_char :: "u8 \<Rightarrow> bool" where
  "valid_dest_char c = ((0x41 \<le> c \<and> c \<le> 0x5a) \<or> (0x61 \<le> c \<and> c \<le> 0x7a) \<or> (0x30 \<le> c \<and> c \<le> 0x39)
     \<or> c = 0x2e \<or> c = 0x5f \<or> c = 0x2d)"

definition valid_module_char :: "u8 \<Rightarrow> bool" where
  "valid_module_char c = ((0x41 \<le> c \<and> c \<le> 0x5a) \<or> (0x30 \<le> c \<and> c \<le> 0x39) \<or> c = 0x5f)"

definition fwup_module_name_valid :: "bytes option \<Rightarrow> bool" where
  "fwup_module_name_valid name =
     (case name of None \<Rightarrow> False
      | Some s \<Rightarrow>
          if length s < 5 \<or> length s > FWUP_MODULE_FILENAME_MAX \<or> drop (length s - 4) s \<noteq> module_ext then False
          else if length s - 4 > FWUP_MODULE_NAME_MAX then False
          else list_all valid_module_char (take (length s - 4) s))"

definition fwup_name_valid :: "bytes option \<Rightarrow> bool" where
  "fwup_name_valid name =
     (case name of None \<Rightarrow> False
      | Some s \<Rightarrow>
          if take 5 s = module_dir then fwup_module_name_valid (Some (drop 5 s))
          else if length s = 0 \<or> length s > FWUP_NAME_MAX then False
          else list_all valid_dest_char s)"

definition fwup_strerror :: "u16 \<Rightarrow> string" where
  "fwup_strerror status =
     (if status = FWUP_OK then ''OK''
      else if status = FWUP_ERR_NO_SD then ''no SD card / FAT not mounted on firmware''
      else if status = FWUP_ERR_BAD_NAME then ''bad filename (flat-root, [A-Za-z0-9._-], <=64 chars)''
      else if status = FWUP_ERR_OPEN then ''firmware f_open failed''
      else if status = FWUP_ERR_WRITE then ''firmware f_write failed''
      else if status = FWUP_ERR_CLOSE then ''firmware f_close/f_sync failed''
      else if status = FWUP_ERR_STATE then ''protocol state error (WRITE/CLOSE without OPEN?)''
      else if status = FWUP_ERR_LEN then ''chunk length out of range''
      else if status = FWUP_ERR_UNKNOWN then ''unknown FWUP command''
      else if status = FWUP_ERR_NO_BACKUP then ''no backup file found to restore''
      else if status = FWUP_ERR_RESTORE then ''firmware restore (rename) failed''
      else if status = FWUP_ERR_BUNDLE then ''invalid firmware module bundle''
      else if status = FWUP_ERR_CONFIG_SIZE then ''configuration exceeds file size limit''
      else if status = FWUP_ERR_NOMEM then ''out of memory''
      else if status = FWUP_ERR_FILE then ''cannot read the source file''
      else if status = FWUP_STATUS_BUSY then ''timed out waiting for firmware''
      else ''unknown error'')"

definition fwup_directory_enumeration_status :: "int \<Rightarrow> int \<Rightarrow> u16" where
  "fwup_directory_enumeration_status err exhausted_error =
     (if err = exhausted_error then FWUP_OK else FWUP_ERR_FILE)"

section \<open>Polling\<close>

fun poll_tight :: "'w fwup_io \<Rightarrow> nat \<Rightarrow> 'w \<Rightarrow> u16 \<times> 'w" where
  "poll_tight io 0 w = (FWUP_STATUS_BUSY, w)"
| "poll_tight io (Suc n) w =
     (case io_read_status io w of (st, w1) \<Rightarrow>
        if st \<noteq> FWUP_STATUS_BUSY then (st, w1) else poll_tight io n w1)"

fun poll_idle :: "'w fwup_io \<Rightarrow> ('w \<Rightarrow> 'w) \<Rightarrow> nat \<Rightarrow> 'w \<Rightarrow> u16 \<times> 'w" where
  "poll_idle io idle 0 w = (FWUP_STATUS_BUSY, w)"
| "poll_idle io idle (Suc n) w =
     (case io_read_status io w of (st, w1) \<Rightarrow>
        if st \<noteq> FWUP_STATUS_BUSY then (st, w1) else poll_idle io idle n (idle w1))"

definition poll_status :: "'w fwup_io \<Rightarrow> 'w \<Rightarrow> u16 \<times> 'w" where
  "poll_status io w =
     (case io_idle io of None \<Rightarrow> poll_tight io FWUP_POLL_LIMIT w
      | Some idle \<Rightarrow> poll_idle io idle FWUP_LEGACY_POLL_IDLES w)"

definition mirror_completed :: "u32 \<Rightarrow> u32 \<Rightarrow> bool" where
  "mirror_completed now before =
     (if drop_bit 24 now \<noteq> FWUP_MIRROR_MAGIC then False
      else if drop_bit 24 before \<noteq> FWUP_MIRROR_MAGIC then True
      else (drop_bit 16 now) AND 0xff \<noteq> (drop_bit 16 before) AND 0xff)"

fun spin_mirror :: "('w \<Rightarrow> u32 \<times> 'w) \<Rightarrow> u32 \<Rightarrow> nat \<Rightarrow> 'w \<Rightarrow> u16 option \<times> 'w" where
  "spin_mirror rd before 0 w = (None, w)"
| "spin_mirror rd before (Suc n) w =
     (case rd w of (now, w1) \<Rightarrow>
        if mirror_completed now before then (Some (ucast now), w1) else spin_mirror rd before n w1)"

fun idle_mirror :: "('w \<Rightarrow> u32 \<times> 'w) \<Rightarrow> ('w \<Rightarrow> 'w) \<Rightarrow> u32 \<Rightarrow> nat \<Rightarrow> 'w \<Rightarrow> u16 option \<times> 'w" where
  "idle_mirror rd idle before 0 w = (None, w)"
| "idle_mirror rd idle before (Suc n) w =
     (case rd (idle w) of (now, w1) \<Rightarrow>
        if mirror_completed now before then (Some (ucast now), w1) else idle_mirror rd idle before n w1)"

definition poll_mirror :: "'w fwup_io \<Rightarrow> ('w \<Rightarrow> u32 \<times> 'w) \<Rightarrow> u32 \<Rightarrow> 'w \<Rightarrow> u16 \<times> 'w" where
  "poll_mirror io rd before w =
     (case spin_mirror rd before FWUP_MIRROR_SPINS w of
        (Some st, w1) \<Rightarrow> (st, w1)
      | (None, w1) \<Rightarrow>
          (case io_idle io of None \<Rightarrow> (FWUP_STATUS_BUSY, w1)
           | Some idle \<Rightarrow>
               (case idle_mirror rd idle before FWUP_MIRROR_IDLES w1 of
                  (Some st, w2) \<Rightarrow> (st, w2)
                | (None, w2) \<Rightarrow> (FWUP_STATUS_BUSY, w2))))"

definition legacy_quiet_ticks :: "u16 \<Rightarrow> nat" where
  "legacy_quiet_ticks cmd =
     (if cmd = FWUP_CMD_OPEN then 100 else if cmd = FWUP_CMD_WRITE then 2
      else if cmd = FWUP_CMD_CLOSE then 50 else 0)"

definition idle_ticks :: "('w \<Rightarrow> 'w) \<Rightarrow> nat \<Rightarrow> 'w \<Rightarrow> 'w" where
  "idle_ticks idle ticks w = (idle ^^ ticks) w"

definition run_command :: "'w fwup_io \<Rightarrow> u16 \<Rightarrow> 'w \<Rightarrow> u16 \<times> 'w" where
  "run_command io cmd w =
     (case io_read_mirror io of
        None \<Rightarrow>
          let w1 = io_write_cmd io cmd w;
              w2 = (case io_idle io of None \<Rightarrow> w1 | Some idle \<Rightarrow> idle_ticks idle (legacy_quiet_ticks cmd) w1)
          in poll_status io w2
      | Some rd \<Rightarrow>
          (case rd w of (before, w1) \<Rightarrow> poll_mirror io rd before (io_write_cmd io cmd w1)))"

section \<open>Protocol primitives\<close>

definition stage_name :: "'w fwup_io \<Rightarrow> bytes \<Rightarrow> 'w \<Rightarrow> 'w" where
  "stage_name io name w = io_put io (name @ [0]) w"

definition fwup_probe :: "'w fwup_io \<Rightarrow> 'w \<Rightarrow> bool \<times> 'w" where
  "fwup_probe io w =
     (case run_command io FWUP_CMD_ABORT w of (st, w1) \<Rightarrow>
        if st = FWUP_STATUS_BUSY then (False, w1)
        else (case run_command io FWUP_CMD_WRITE (io_write_len io 0 w1) of (st, w2) \<Rightarrow>
                (st = FWUP_ERR_STATE \<or> st = FWUP_ERR_LEN, w2)))"

definition fwup_open :: "'w fwup_io \<Rightarrow> bytes option \<Rightarrow> 'w \<Rightarrow> u16 \<times> 'w" where
  "fwup_open io dest_name w =
     (if \<not> fwup_name_valid dest_name then (FWUP_ERR_BAD_NAME, w)
      else run_command io FWUP_CMD_OPEN (stage_name io (the dest_name) w))"

text \<open>The data is absent when the caller passes the staging buffer itself.\<close>

definition fwup_write_chunk :: "'w fwup_io \<Rightarrow> bytes option \<Rightarrow> u16 \<Rightarrow> 'w \<Rightarrow> u16 \<times> 'w" where
  "fwup_write_chunk io data len w =
     (if len = 0 \<or> unat len > FWUP_CHUNK_BYTES then (FWUP_ERR_LEN, w)
      else
        let w1 = (case data of None \<Rightarrow> w | Some d \<Rightarrow> io_put io (take (unat len) d) w)
        in run_command io FWUP_CMD_WRITE (io_write_len io len w1))"

definition fwup_close :: "'w fwup_io \<Rightarrow> 'w \<Rightarrow> u16 \<times> 'w" where
  "fwup_close io w = run_command io FWUP_CMD_CLOSE w"

definition fwup_abort :: "'w fwup_io \<Rightarrow> 'w \<Rightarrow> u16 \<times> 'w" where
  "fwup_abort io w = run_command io FWUP_CMD_ABORT w"

definition fwup_restore :: "'w fwup_io \<Rightarrow> bytes option \<Rightarrow> 'w \<Rightarrow> u16 \<times> 'w" where
  "fwup_restore io target w =
     (if \<not> fwup_name_valid target then (FWUP_ERR_BAD_NAME, w)
      else run_command io FWUP_CMD_RESTORE (stage_name io (the target) w))"

section \<open>The bundle installer\<close>

record bundle_module =
  bm_name :: bytes
  bm_size :: u32

record bundle_modules =
  bm_entries :: "bundle_module list"
  bm_status :: u16

datatype bundle_outcome = Bundle_Installed | Bundle_Boot_Only | Bundle_Module_Failed

record bundle_result =
  br_status :: u16
  br_outcome :: bundle_outcome
  br_failed :: bytes

text \<open>
  The host files: a visitor is applied to the entries of a directory until it returns true
  (a nonzero result); reading fills the staging buffer and gives the number of bytes.
\<close>

record ('w, 'h) bundle_files =
  bf_list_dir :: "bytes \<Rightarrow> (bytes \<Rightarrow> u32 \<Rightarrow> bundle_modules \<Rightarrow> bool \<times> bundle_modules) \<Rightarrow> bundle_modules \<Rightarrow> 'w
    \<Rightarrow> int \<times> bundle_modules \<times> 'w"
  bf_file_size :: "bytes \<Rightarrow> 'w \<Rightarrow> u32 option \<times> 'w"
  bf_open :: "bytes \<Rightarrow> 'w \<Rightarrow> 'h option \<times> 'w"
  bf_read :: "'h \<Rightarrow> nat \<Rightarrow> 'w \<Rightarrow> u16 option \<times> 'w"
  bf_close :: "'h \<Rightarrow> 'w \<Rightarrow> 'w"

fun strcmp_less :: "bytes \<Rightarrow> bytes \<Rightarrow> bool" where
  "strcmp_less [] ys = (ys \<noteq> [])"
| "strcmp_less (x # xs) [] = False"
| "strcmp_less (x # xs) (y # ys) = (if x = y then strcmp_less xs ys else x < y)"

definition module_name_has_extension :: "bytes option \<Rightarrow> bool" where
  "module_name_has_extension name =
     (case name of None \<Rightarrow> False | Some s \<Rightarrow> length s \<ge> 4 \<and> drop (length s - 4) s = module_ext)"

text \<open>The shifting loop, on the entries from the last one down.\<close>

fun shift_loop :: "bundle_module \<Rightarrow> bundle_module list \<Rightarrow> bundle_module list" where
  "shift_loop entry [] = [entry]"
| "shift_loop entry (e # es) =
     (if strcmp_less (bm_name entry) (bm_name e) then e # shift_loop entry es else entry # e # es)"

definition collect_module :: "bytes option \<Rightarrow> u32 \<Rightarrow> bundle_modules \<Rightarrow> bool \<times> bundle_modules" where
  "collect_module name sz ms =
     (if \<not> module_name_has_extension name then (False, ms)
      else if \<not> fwup_module_name_valid name then (True, ms\<lparr>bm_status := FWUP_ERR_BAD_NAME\<rparr>)
      else if length (bm_entries ms) = FWUP_BUNDLE_MODULE_MAX then (True, ms\<lparr>bm_status := FWUP_ERR_BUNDLE\<rparr>)
      else (False, ms\<lparr>bm_entries :=
        rev (shift_loop \<lparr>bm_name = the name, bm_size = sz\<rparr> (rev (bm_entries ms)))\<rparr>))"

definition is_sep :: "u8 \<Rightarrow> bool" where
  "is_sep c = (c = c_slash \<or> c = 0x3a \<or> c = c_backslash)"

definition make_module_dir :: "bytes option \<Rightarrow> bytes option" where
  "make_module_dir boot_path =
     (case boot_path of None \<Rightarrow> None
      | Some p \<Rightarrow>
          let prefix = rev (dropWhile (\<lambda>c. \<not> is_sep c) (rev p))
          in if length prefix + 5 \<ge> FWUP_HOST_PATH_MAX then None else Some (prefix @ module_dir))"

definition make_module_path :: "bytes \<Rightarrow> bytes \<Rightarrow> bytes option" where
  "make_module_path dir name =
     (if length dir + length name \<ge> FWUP_HOST_PATH_MAX then None else Some (dir @ name))"

text \<open>The copy loop of \<^verbatim>\<open>send_bundle_file\<close>; no value when the file never ends.\<close>

partial_function (option) copy_loop ::
  "'w fwup_io \<Rightarrow> ('w, 'h) bundle_files \<Rightarrow> 'h \<Rightarrow> bytes \<Rightarrow> u32 \<Rightarrow> (bytes \<Rightarrow> u32 \<Rightarrow> u32 \<Rightarrow> 'w \<Rightarrow> 'w) option
    \<Rightarrow> u32 \<Rightarrow> 'w \<Rightarrow> (u16 \<times> u32 \<times> 'w) option" where
  "copy_loop io files file target tot progress sofar w =
     (case bf_read files file FWUP_CHUNK_BYTES w of
        (None, w1) \<Rightarrow> Some (FWUP_ERR_FILE, sofar, w1)
      | (Some used, w1) \<Rightarrow>
          if used = 0 then Some (FWUP_OK, sofar, w1)
          else (case fwup_write_chunk io None used w1 of (st, w2) \<Rightarrow>
            if st \<noteq> FWUP_OK then Some (st, sofar, w2)
            else
              let sofar1 = sofar + ucast used;
                  w3 = (case progress of None \<Rightarrow> w2 | Some p \<Rightarrow> p target sofar1 tot w2)
              in copy_loop io files file target tot progress sofar1 w3))"

definition send_bundle_file ::
  "'w fwup_io \<Rightarrow> ('w, 'h) bundle_files \<Rightarrow> bytes \<Rightarrow> bytes \<Rightarrow> u32 \<Rightarrow> (bytes \<Rightarrow> u32 \<Rightarrow> u32 \<Rightarrow> 'w \<Rightarrow> 'w) option
    \<Rightarrow> u32 \<Rightarrow> 'w \<Rightarrow> (u16 \<times> u32 \<times> 'w) option" where
  "send_bundle_file io files host_path target tot progress sofar w =
     (case bf_open files host_path w of
        (None, w1) \<Rightarrow> Some (FWUP_ERR_FILE, sofar, w1)
      | (Some file, w1) \<Rightarrow>
          (case fwup_open io (Some target) w1 of (st, w2) \<Rightarrow>
            if st \<noteq> FWUP_OK then Some (st, sofar, bf_close files file w2)
            else (case copy_loop io files file target tot progress sofar w2 of
                None \<Rightarrow> None
              | Some (st1, sofar1, w3) \<Rightarrow>
                  (case (if st1 = FWUP_OK then fwup_close io w3 else (st1, w3)) of (st2, w4) \<Rightarrow>
                    let w5 = (if st2 \<noteq> FWUP_OK then snd (fwup_abort io w4) else w4)
                    in Some (st2, sofar1, bf_close files file w5)))))"

text \<open>The total of the sizes, which must not wrap.\<close>

fun sum_sizes :: "u32 \<Rightarrow> bundle_module list \<Rightarrow> u32 option" where
  "sum_sizes tot [] = Some tot"
| "sum_sizes tot (e # es) =
     (if tot > 0xffffffff - bm_size e then None else sum_sizes (tot + bm_size e) es)"

text \<open>The loop over the modules: a failure with the module it happened in, if a transfer failed.\<close>

fun modules_loop ::
  "'w fwup_io \<Rightarrow> ('w, 'h) bundle_files \<Rightarrow> bytes \<Rightarrow> u32 \<Rightarrow> (bytes \<Rightarrow> u32 \<Rightarrow> u32 \<Rightarrow> 'w \<Rightarrow> 'w) option
    \<Rightarrow> bundle_module list \<Rightarrow> u32 \<Rightarrow> 'w \<Rightarrow> ((u16 \<times> bytes option) option \<times> u32 \<times> 'w) option" where
  "modules_loop io files dir tot progress [] sofar w = Some (None, sofar, w)"
| "modules_loop io files dir tot progress (e # es) sofar w =
     (case make_module_path dir (bm_name e) of
        None \<Rightarrow> Some (Some (FWUP_ERR_FILE, None), sofar, w)
      | Some path \<Rightarrow>
          (case send_bundle_file io files path (module_dir @ bm_name e) tot progress sofar w of
             None \<Rightarrow> None
           | Some (st, sofar1, w1) \<Rightarrow>
               if st \<noteq> FWUP_OK then Some (Some (st, Some (bm_name e)), sofar1, w1)
               else modules_loop io files dir tot progress es sofar1 w1))"

definition on_result :: "(bundle_result \<Rightarrow> bundle_result) \<Rightarrow> bundle_result option \<Rightarrow> bundle_result option" where
  "on_result f r = map_option f r"

text \<open>
  From the progress call on. The \<open>files\<close> argument of the installer is absent when the pointer
  or one of its functions is NULL.
\<close>

definition install_transfer ::
  "'w fwup_io \<Rightarrow> ('w, 'h) bundle_files \<Rightarrow> bytes \<Rightarrow> bytes \<Rightarrow> (bytes \<Rightarrow> u32 \<Rightarrow> u32 \<Rightarrow> 'w \<Rightarrow> 'w) option
    \<Rightarrow> bundle_module list \<Rightarrow> u32 \<Rightarrow> bundle_result option \<Rightarrow> 'w \<Rightarrow> (u16 \<times> bundle_result option \<times> 'w) option" where
  "install_transfer io files boot_path dir progress ms tot result w =
     (let w1 = (case progress of None \<Rightarrow> w | Some p \<Rightarrow> p [] 0 tot w) in
      case modules_loop io files dir tot progress ms 0 w1 of
        None \<Rightarrow> None
      | Some (Some (st, failed), sofar, w2) \<Rightarrow>
          Some (st, (case failed of None \<Rightarrow> result
                     | Some name \<Rightarrow> on_result (\<lambda>r. r\<lparr>br_status := st, br_outcome := Bundle_Module_Failed, br_failed := name\<rparr>) result), w2)
      | Some (None, sofar, w2) \<Rightarrow>
          (case send_bundle_file io files boot_path boot_name tot progress sofar w2 of
             None \<Rightarrow> None
           | Some (st, _, w3) \<Rightarrow> Some (st, on_result (\<lambda>r. r\<lparr>br_status := st\<rparr>) result, w3)))"

definition fwup_install_bundle ::
  "'w fwup_io option \<Rightarrow> u16 \<Rightarrow> bytes option \<Rightarrow> ('w, 'h) bundle_files option \<Rightarrow> (bytes \<Rightarrow> u32 \<Rightarrow> u32 \<Rightarrow> 'w \<Rightarrow> 'w) option
    \<Rightarrow> bundle_result option \<Rightarrow> 'w \<Rightarrow> (u16 \<times> bundle_result option \<times> 'w) option" where
  "fwup_install_bundle io_ptr fw_caps boot_ptr files_ptr progress result0 w =
     (case (io_ptr, boot_ptr, files_ptr) of
        (Some io, Some boot_path, Some files) \<Rightarrow>
          let result = on_result (\<lambda>r. \<lparr>br_status = FWUP_OK, br_outcome = Bundle_Installed, br_failed = []\<rparr>) result0 in
          (case bf_file_size files boot_path w of
             (None, w1) \<Rightarrow> Some (FWUP_ERR_FILE, result, w1)
           | (Some boot_size, w1) \<Rightarrow>
               if bit fw_caps 14 then
                 (case make_module_dir (Some boot_path) of
                    None \<Rightarrow> Some (FWUP_ERR_FILE, result, w1)
                  | Some dir \<Rightarrow>
                      (case bf_list_dir files dir (\<lambda>name. collect_module (Some name)) \<lparr>bm_entries = [], bm_status = FWUP_OK\<rparr> w1 of
                         (listed, ms, w2) \<Rightarrow>
                           if listed < 0 then
                             Some (if bm_status ms \<noteq> FWUP_OK then bm_status ms else FWUP_ERR_FILE, result, w2)
                           else (case sum_sizes boot_size (bm_entries ms) of
                               None \<Rightarrow> Some (FWUP_ERR_BUNDLE, result, w2)
                             | Some tot \<Rightarrow>
                                 install_transfer io files boot_path dir progress (bm_entries ms) tot result w2)))
               else
                 install_transfer io files boot_path [] progress [] boot_size
                   (on_result (\<lambda>r. r\<lparr>br_outcome := Bundle_Boot_Only\<rparr>) result) w1)
      | _ \<Rightarrow> Some (FWUP_ERR_FILE, result0, w))"

end
