(* ===== verification/FwupClient_Correct.thy ===== *)
theory FwupClient_Correct
  imports FwupClient "HOL-Library.Multiset"
begin

text \<open>
  The firmware push client against the documented behaviour of the card and of the host files,
  which is the interface \<open>fwup_card\<close>; the directory scan; and the reference card that meets
  the interface.
\<close>

section \<open>Names\<close>

lemma valid_chars_nonzero: "valid_dest_char c \<Longrightarrow> c \<noteq> 0" "valid_module_char c \<Longrightarrow> c \<noteq> 0"
  by (auto simp: valid_dest_char_def valid_module_char_def)

lemma module_parts: "module_dir = [0x5a, 0x5a, 0x39, 0x4b, 0x2f]" "module_ext = [0x2e, 0x5a, 0x5a, 0x4d]"
  "boot_name = [0x42, 0x4f, 0x4f, 0x54, 0x2e, 0x62, 0x69, 0x6e]"
  by (simp_all add: module_dir_def module_ext_def boot_name_def of_string_def)

lemma module_name_nonzero:
  assumes "fwup_module_name_valid (Some s)"
  shows "0 \<notin> set s"
proof -
  have v: "list_all valid_module_char (take (length s - 4) s)" "drop (length s - 4) s = module_ext"
    using assms by (auto simp: fwup_module_name_valid_def split: if_splits)
  then have "0 \<notin> set (take (length s - 4) s @ drop (length s - 4) s)"
    using valid_chars_nonzero by (auto simp: list_all_iff module_parts)
  then show ?thesis by simp
qed

lemma name_valid_nonzero:
  assumes "fwup_name_valid (Some s)"
  shows "0 \<notin> set s"
proof (cases "take 5 s = module_dir")
  case True
  with assms have "fwup_module_name_valid (Some (drop 5 s))" by (simp add: fwup_name_valid_def)
  then have "0 \<notin> set (drop 5 s)" by (rule module_name_nonzero)
  moreover have "0 \<notin> set (take 5 s)" using True by (simp add: module_parts)
  ultimately show ?thesis by (metis Un_iff set_append append_take_drop_id)
next
  case False
  with assms show ?thesis
    by (auto simp: fwup_name_valid_def list_all_iff valid_dest_char_def split: if_splits)
qed

lemma module_target_not_boot: "module_dir @ n \<noteq> boot_name"
  by (simp add: module_parts)

section \<open>The directory scan\<close>

text \<open>A directory visitor is applied entry by entry until it asks to stop.\<close>

fun visit_all :: "(bytes \<Rightarrow> u32 \<Rightarrow> 's \<Rightarrow> bool \<times> 's) \<Rightarrow> (bytes \<times> u32) list \<Rightarrow> 's \<Rightarrow> bool \<times> 's" where
  "visit_all v [] s = (False, s)"
| "visit_all v ((name, sz) # es) s = (case v name sz s of (stop, s1) \<Rightarrow> if stop then (True, s1) else visit_all v es s1)"

definition module_le :: "bundle_module \<Rightarrow> bundle_module \<Rightarrow> bool" where
  "module_le a b \<longleftrightarrow> \<not> strcmp_less (bm_name b) (bm_name a)"

definition module_entries :: "(bytes \<times> u32) list \<Rightarrow> bundle_module list" where
  "module_entries es = map (\<lambda>(n, s). \<lparr>bm_name = n, bm_size = s\<rparr>)
     (filter (\<lambda>(n, s). module_name_has_extension (Some n)) es)"

definition modules_ok :: "bundle_modules \<Rightarrow> bool" where
  "modules_ok ms \<longleftrightarrow> sorted_wrt module_le (bm_entries ms) \<and> length (bm_entries ms) \<le> FWUP_BUNDLE_MODULE_MAX \<and>
     (\<forall>e \<in> set (bm_entries ms). fwup_module_name_valid (Some (bm_name e)))"

lemma strcmp_less_nil [simp]: "\<not> strcmp_less x []"
  by (cases x) auto

lemma strcmp_less_asym: "strcmp_less x y \<Longrightarrow> \<not> strcmp_less y x"
  by (induction x y rule: strcmp_less.induct) (auto split: if_splits)

lemma strcmp_less_trans: "strcmp_less x y \<Longrightarrow> strcmp_less y z \<Longrightarrow> strcmp_less x z"
proof (induction x y arbitrary: z rule: strcmp_less.induct)
  case (1 ys)
  then show ?case by (cases z) auto
next
  case (3 x xs y ys)
  then show ?case by (cases z) (auto split: if_splits)
qed simp

lemma strcmp_total: "\<not> strcmp_less x y \<Longrightarrow> \<not> strcmp_less y x \<Longrightarrow> x = y"
  by (induction x y rule: strcmp_less.induct) (auto split: if_splits)

lemma module_le_trans: "module_le a b \<Longrightarrow> module_le b c \<Longrightarrow> module_le a c"
  unfolding module_le_def by (metis strcmp_less_trans strcmp_total)

lemma shift_loop_mset: "mset (shift_loop e es) = add_mset e (mset es)"
  by (induction es) auto

lemma shift_loop_sorted:
  "sorted_wrt (\<lambda>a b. module_le b a) es \<Longrightarrow> sorted_wrt (\<lambda>a b. module_le b a) (shift_loop e es)"
proof (induction es)
  case (Cons x xs)
  have ins: "set (shift_loop e xs) = insert e (set xs)"
    using shift_loop_mset [of e xs] by (metis set_mset_add_mset_insert set_mset_mset)
  show ?case
  proof (cases "strcmp_less (bm_name e) (bm_name x)")
    case True
    then have "module_le e x" using strcmp_less_asym by (simp add: module_le_def)
    with Cons True ins show ?thesis by simp
  next
    case False
    then have "module_le x e" by (simp add: module_le_def)
    with Cons.prems False show ?thesis by (auto intro: module_le_trans)
  qed
qed simp

lemma collect_insert:
  assumes "collect_module (Some n) s ms = (False, ms1)" "modules_ok ms"
  shows "modules_ok ms1" "bm_status ms1 = bm_status ms"
    "mset (bm_entries ms1) = mset (bm_entries ms) + mset (module_entries [(n, s)])"
proof -
  have "modules_ok ms1 \<and> bm_status ms1 = bm_status ms \<and>
      mset (bm_entries ms1) = mset (bm_entries ms) + mset (module_entries [(n, s)])"
  proof (cases "module_name_has_extension (Some n)")
    case False
    with assms show ?thesis by (auto simp: collect_module_def module_entries_def)
  next
    case True
    let ?e = "\<lparr>bm_name = n, bm_size = s\<rparr>"
    let ?es = "rev (shift_loop ?e (rev (bm_entries ms)))"
    from assms(1) True have v: "fwup_module_name_valid (Some n)" "length (bm_entries ms) \<noteq> FWUP_BUNDLE_MODULE_MAX"
      and ms1: "ms1 = ms\<lparr>bm_entries := ?es\<rparr>"
      by (auto simp: collect_module_def split: if_splits)
    have m: "mset ?es = add_mset ?e (mset (bm_entries ms))" by (simp add: shift_loop_mset)
    have "length ?es = Suc (length (bm_entries ms))" using m by (metis size_mset size_add_mset)
    moreover have "sorted_wrt module_le ?es"
      using assms(2) by (auto simp: sorted_wrt_rev modules_ok_def intro!: shift_loop_sorted)
    moreover have "set ?es = insert ?e (set (bm_entries ms))"
      using m by (metis set_mset_add_mset_insert set_mset_mset)
    ultimately have "modules_ok ms1" using assms(2) v by (auto simp: modules_ok_def ms1)
    moreover have "mset (bm_entries ms1) = mset (bm_entries ms) + mset (module_entries [(n, s)])"
      using True m by (simp add: ms1 module_entries_def)
    ultimately show ?thesis by (simp add: ms1)
  qed
  then show "modules_ok ms1" "bm_status ms1 = bm_status ms"
    "mset (bm_entries ms1) = mset (bm_entries ms) + mset (module_entries [(n, s)])" by blast+
qed

lemma collect_all:
  "visit_all (\<lambda>n. collect_module (Some n)) es ms = (False, ms1) \<Longrightarrow> modules_ok ms \<Longrightarrow>
    modules_ok ms1 \<and> bm_status ms1 = bm_status ms \<and>
    mset (bm_entries ms1) = mset (bm_entries ms) + mset (module_entries es)"
proof (induction es arbitrary: ms)
  case Nil
  then show ?case by (simp add: module_entries_def)
next
  case (Cons e es)
  obtain n s where e: "e = (n, s)" by fastforce
  obtain stop ms2 where c: "collect_module (Some n) s ms = (stop, ms2)" by fastforce
  with Cons.prems e have "\<not> stop" "visit_all (\<lambda>n. collect_module (Some n)) es ms2 = (False, ms1)"
    by (auto split: if_splits)
  with c collect_insert [of n s ms ms2] Cons.IH [of ms2] Cons.prems(2) show ?case
    by (auto simp: e module_entries_def)
qed

abbreviation "no_modules \<equiv> \<lparr>bm_entries = [], bm_status = FWUP_OK\<rparr>"

lemma collect_stop:
  "visit_all (\<lambda>n. collect_module (Some n)) es ms = (True, ms1) \<Longrightarrow> modules_ok ms \<Longrightarrow>
    (bm_status ms1 = FWUP_ERR_BAD_NAME \<and>
       (\<exists>(n, s) \<in> set es. module_name_has_extension (Some n) \<and> \<not> fwup_module_name_valid (Some n))) \<or>
    (bm_status ms1 = FWUP_ERR_BUNDLE \<and>
       FWUP_BUNDLE_MODULE_MAX < length (bm_entries ms) + length (module_entries es))"
proof (induction es arbitrary: ms)
  case (Cons e es)
  obtain n s where e: "e = (n, s)" by fastforce
  obtain stop ms2 where c: "collect_module (Some n) s ms = (stop, ms2)" by fastforce
  show ?case
  proof (cases stop)
    case True
    with Cons.prems c show ?thesis
      by (auto simp: e collect_module_def module_entries_def split: if_splits)
  next
    case False
    with c have c: "collect_module (Some n) s ms = (False, ms2)" by simp
    note I = collect_insert [OF c Cons.prems(2)]
    have "length (bm_entries ms2) = length (bm_entries ms) + length (module_entries [(n, s)])"
      using I(3) by (metis size_mset size_union)
    moreover have "length (module_entries (e # es)) = length (module_entries [(n, s)]) + length (module_entries es)"
      by (simp add: e module_entries_def)
    moreover have "visit_all (\<lambda>n. collect_module (Some n)) es ms2 = (True, ms1)"
      using Cons.prems(1) c by (simp add: e)
    ultimately show ?thesis using Cons.IH [OF _ I(1)] by auto
  qed
qed simp

lemma no_modules_ok: "modules_ok no_modules"
  by (simp add: modules_ok_def)

text \<open>C23: The directory scan. When it is not stopped, the module table holds exactly the \<^verbatim>\<open>.ZZM\<close>
  entries of the directory, each once, in \<^verbatim>\<open>strcmp\<close> order, every name valid and at most 128 of them. It is stopped only
  by a \<^verbatim>\<open>.ZZM\<close> entry with an invalid name, or by more than 128 of them, and the status says which.\<close>

theorem bundle_scan_exact:
  "(case visit_all (\<lambda>n. collect_module (Some n)) es no_modules of
      (False, ms) \<Rightarrow> modules_ok ms \<and> bm_status ms = FWUP_OK \<and> mset (bm_entries ms) = mset (module_entries es)
    | (True, ms) \<Rightarrow>
        (bm_status ms = FWUP_ERR_BAD_NAME \<and>
          (\<exists>(n, s) \<in> set es. module_name_has_extension (Some n) \<and> \<not> fwup_module_name_valid (Some n))) \<or>
        (bm_status ms = FWUP_ERR_BUNDLE \<and> FWUP_BUNDLE_MODULE_MAX < length (module_entries es)))"
  using collect_all [OF _ no_modules_ok, of es] collect_stop [OF _ no_modules_ok, of es]
  by (auto split: prod.split bool.split)

section \<open>The card and the host\<close>

text \<open>
  What the client relies on. \<open>stored\<close> are the files of the card, \<open>opened\<close> its transfer in progress,
  \<open>staged\<close> the bytes of the staging buffer, \<open>pending\<close> the length register; \<open>content\<close> the host
  files and \<open>unread\<close> what is left of an open one. \<open>own\<close> are the names the card keeps for itself: the
  temporary file of a transfer, the discard path and the backups (\<open>backup\<close> is the derived name of
  \<^verbatim>\<open>docs/cli-tools.md\<close>, \<^verbatim>\<open>BOOT.bak\<close> for \<^verbatim>\<open>BOOT.bin\<close>); \<^verbatim>\<open>BOOT.bin\<close> and the \<^verbatim>\<open>.ZZM\<close> modules are not among
  them. Any command may change the card's own files. Outside them, OPEN and WRITE change nothing,
  and CLOSE and ABORT at most the file of the transfer; a CLOSE that reports success has stored what was
  received under its name and preserved the file it replaced as the backup. A command that
  reports an error or times out may have done any part of this, also later. A read of the host file
  fills the buffer, moves on by what it reports, and reports nothing only at the end. A directory
  scan that succeeds has visited every entry.
\<close>

definition kept_but :: "bytes set \<Rightarrow> (bytes \<Rightarrow> bytes option) \<Rightarrow> (bytes \<Rightarrow> bytes option) \<Rightarrow> bool" where
  "kept_but may f g \<longleftrightarrow> (\<forall>n. n \<notin> may \<longrightarrow> g n = f n)"

lemma kept_but_refl [simp]: "kept_but may f f"
  by (simp add: kept_but_def)

lemma kept_but_trans [trans]: "kept_but may f g \<Longrightarrow> kept_but may g h \<Longrightarrow> kept_but may f h"
  by (simp add: kept_but_def)

lemma kept_but_mono: "kept_but may f g \<Longrightarrow> may \<subseteq> may' \<Longrightarrow> kept_but may' f g"
  by (auto simp: kept_but_def)

definition transfer_name :: "(bytes \<times> bytes) option \<Rightarrow> bytes set" where
  "transfer_name t = fst ` set_option t"

lemma transfer_name_simps [simp]: "transfer_name None = {}" "transfer_name (Some (n, got)) = {n}"
  by (simp_all add: transfer_name_def)

definition all_stored :: "(bytes \<times> u32) list \<Rightarrow> (bytes \<Rightarrow> bytes) \<Rightarrow> bytes \<Rightarrow> (bytes \<Rightarrow> bytes option) \<Rightarrow> bool" where
  "all_stored es host dir cd \<longleftrightarrow> (\<forall>n s. (n, s) \<in> set es \<and> module_name_has_extension (Some n) \<longrightarrow>
     cd (module_dir @ n) = Some (host (dir @ n)))"

definition good_modules :: "bundle_module list \<Rightarrow> bool" where
  "good_modules es \<longleftrightarrow> distinct (map bm_name es) \<and> (\<forall>e \<in> set es. fwup_module_name_valid (Some (bm_name e)))"

text \<open>The card names of the modules next to a boot image of the host.\<close>

definition module_targets :: "(bytes \<Rightarrow> (bytes \<times> u32) list) \<Rightarrow> bytes \<Rightarrow> bytes set" where
  "module_targets listing boot = (case make_module_dir (Some boot) of None \<Rightarrow> {}
     | Some dir \<Rightarrow> (\<lambda>(n, s). module_dir @ n) `
         set (filter (\<lambda>(n, s). module_name_has_extension (Some n)) (listing dir)))"

locale fwup_card =
  fixes io :: "'w fwup_io"
    and files :: "('w, 'h) bundle_files"
    and progress :: "(bytes \<Rightarrow> u32 \<Rightarrow> u32 \<Rightarrow> 'w \<Rightarrow> 'w) option"
    and stored :: "'w \<Rightarrow> bytes \<Rightarrow> bytes option"
    and opened :: "'w \<Rightarrow> (bytes \<times> bytes) option"
    and staged :: "'w \<Rightarrow> bytes"
    and pending :: "'w \<Rightarrow> u16"
    and content :: "'w \<Rightarrow> bytes \<Rightarrow> bytes"
    and unread :: "'w \<Rightarrow> 'h \<Rightarrow> bytes"
    and listing :: "'w \<Rightarrow> bytes \<Rightarrow> (bytes \<times> u32) list"
    and own :: "bytes set"
    and backup :: "bytes \<Rightarrow> bytes"
  assumes put: "take (length d) (staged (io_put io d w)) = d"
      "stored (io_put io d w) = stored w" "opened (io_put io d w) = opened w"
      "content (io_put io d w) = content w" "unread (io_put io d w) = unread w"
    and len: "pending (io_write_len io n w) = n" "staged (io_write_len io n w) = staged w"
      "stored (io_write_len io n w) = stored w" "opened (io_write_len io n w) = opened w"
      "content (io_write_len io n w) = content w" "unread (io_write_len io n w) = unread w"
    and host_kept: "run_command io c w = (st, w1) \<Longrightarrow> content w1 = content w \<and> unread w1 = unread w"
    and own_names: "boot_name \<notin> own" "fwup_module_name_valid (Some m) \<Longrightarrow> module_dir @ m \<notin> own"
    and same_transfer: "run_command io c w = (st, w1) \<Longrightarrow> c \<noteq> FWUP_CMD_OPEN \<Longrightarrow>
      transfer_name (opened w1) \<subseteq> transfer_name (opened w)"
    and open_cmd: "run_command io FWUP_CMD_OPEN w = (st, w1) \<Longrightarrow>
      kept_but own (stored w) (stored w1) \<and> (st = FWUP_OK \<longrightarrow> opened w1 = Some (cstr (staged w), []))"
    and write_cmd: "run_command io FWUP_CMD_WRITE w = (st, w1) \<Longrightarrow>
      kept_but own (stored w) (stored w1) \<and> (st = FWUP_OK \<longrightarrow>
        (\<exists>name got. opened w = Some (name, got) \<and>
           opened w1 = Some (name, got @ take (unat (pending w)) (staged w))))"
    and close_cmd: "run_command io FWUP_CMD_CLOSE w = (st, w1) \<Longrightarrow>
      kept_but (own \<union> transfer_name (opened w)) (stored w) (stored w1) \<and>
      (st = FWUP_OK \<longrightarrow> (\<exists>name got. opened w = Some (name, got) \<and>
        (name \<notin> own \<longrightarrow> stored w1 name = Some got \<and>
          (\<forall>old. stored w name = Some old \<longrightarrow> stored w1 (backup name) = Some old))))"
    and abort_cmd: "run_command io FWUP_CMD_ABORT w = (st, w1) \<Longrightarrow>
      kept_but (own \<union> transfer_name (opened w)) (stored w) (stored w1)"
    and size_kept: "bf_file_size files p w = (sz, w1) \<Longrightarrow> stored w1 = stored w \<and> content w1 = content w \<and> listing w1 = listing w"
    and list_dir: "bf_list_dir files p v ms w = (lr, ms1, w1) \<Longrightarrow> stored w1 = stored w \<and> content w1 = content w \<and>
      (0 \<le> lr \<longrightarrow> distinct (map fst (listing w p)) \<and> visit_all v (listing w p) ms = (False, ms1))"
    and host_open: "bf_open files p w = (f, w1) \<Longrightarrow> stored w1 = stored w \<and> opened w1 = opened w \<and>
      content w1 = content w \<and> (\<forall>h. f = Some h \<longrightarrow> unread w1 h = content w p)"
    and host_read: "bf_read files h FWUP_CHUNK_BYTES w = (r, w1) \<Longrightarrow> stored w1 = stored w \<and>
      opened w1 = opened w \<and> content w1 = content w \<and>
      (\<forall>n. r = Some n \<longrightarrow> unat n \<le> FWUP_CHUNK_BYTES \<and> (n = 0 \<longrightarrow> unread w h = []) \<and>
         unread w h = take (unat n) (staged w1) @ unread w1 h \<and> unat n \<le> length (staged w1))"
    and host_close: "stored (bf_close files h w) = stored w" "content (bf_close files h w) = content w"
    and progress_kept: "progress = Some pf \<Longrightarrow> stored (pf t a b w) = stored w \<and> opened (pf t a b w) = opened w \<and>
      content (pf t a b w) = content w \<and> unread (pf t a b w) = unread w"
begin

lemma open_step:
  assumes "fwup_open io (Some name) w = (st, w1)"
  shows "kept_but own (stored w) (stored w1)" "content w1 = content w" "unread w1 = unread w"
    "st = FWUP_OK \<Longrightarrow> opened w1 = Some (name, [])"
proof -
  have "kept_but own (stored w) (stored w1) \<and> content w1 = content w \<and> unread w1 = unread w
      \<and> (st = FWUP_OK \<longrightarrow> opened w1 = Some (name, []))"
  proof (cases "fwup_name_valid (Some name)")
    case True
    let ?w = "io_put io (name @ [0]) w"
    have rc: "run_command io FWUP_CMD_OPEN ?w = (st, w1)"
      using assms True by (simp add: fwup_open_def stage_name_def)
    have "take (length (name @ [0])) (staged ?w) = name @ [0]" by (rule put(1))
    then have "staged ?w = (name @ [0]) @ drop (length (name @ [0])) (staged ?w)"
      by (metis append_take_drop_id)
    then obtain r where st: "staged ?w = name @ 0 # r" by auto
    have "cstr (staged ?w) = name"
      unfolding st using name_valid_nonzero [OF True] by (auto simp: cstr_def takeWhile_tail)
    with open_cmd [OF rc] host_kept [OF rc] put show ?thesis by auto
  next
    case False
    with assms show ?thesis by (auto simp: fwup_open_def)
  qed
  then show "kept_but own (stored w) (stored w1)" "content w1 = content w" "unread w1 = unread w"
    "st = FWUP_OK \<Longrightarrow> opened w1 = Some (name, [])" by blast+
qed

lemma write_step:
  assumes "fwup_write_chunk io None n w = (st, w1)"
  shows "kept_but own (stored w) (stored w1) \<and> content w1 = content w \<and> unread w1 = unread w \<and>
    transfer_name (opened w1) \<subseteq> transfer_name (opened w) \<and>
    (st = FWUP_OK \<longrightarrow> (\<exists>name got. opened w = Some (name, got) \<and>
      opened w1 = Some (name, got @ take (unat n) (staged w))))"
proof (cases "n = 0 \<or> unat n > FWUP_CHUNK_BYTES")
  case True
  with assms show ?thesis by (auto simp: fwup_write_chunk_def)
next
  case False
  with assms have rc: "run_command io FWUP_CMD_WRITE (io_write_len io n w) = (st, w1)"
    by (simp add: fwup_write_chunk_def)
  from write_cmd [OF rc] host_kept [OF rc] same_transfer [OF rc] len show ?thesis by simp
qed

text \<open>The copy loop ends, and after success the card has received exactly the rest of the file.\<close>

lemma copy_loop_ok:
  assumes "opened w = Some (target, got)"
  shows "\<exists>st sofar1 w1. copy_loop io files h lbl tot progress sofar w = Some (st, sofar1, w1) \<and>
    kept_but own (stored w) (stored w1) \<and> content w1 = content w \<and>
    transfer_name (opened w1) \<subseteq> {target} \<and>
    (st = FWUP_OK \<longrightarrow> opened w1 = Some (target, got @ unread w h))"
  using assms
proof (induction "length (unread w h)" arbitrary: w got sofar rule: less_induct)
  case less
  obtain r w1 where rd: "bf_read files h FWUP_CHUNK_BYTES w = (r, w1)" by fastforce
  note R = host_read [OF rd]
  show ?case
  proof (cases r)
    case None
    with rd R less.prems show ?thesis by (subst copy_loop.simps) simp
  next
    case (Some n)
    show ?thesis
    proof (cases "n = 0")
      case True
      with rd R Some less.prems show ?thesis by (subst copy_loop.simps) simp
    next
      case False
      obtain st w2 where wr: "fwup_write_chunk io None n w1 = (st, w2)" by fastforce
      note W = write_step [OF wr]
      show ?thesis
      proof (cases "st = FWUP_OK")
        case st: False
        with rd R W wr Some False less.prems show ?thesis by (subst copy_loop.simps) simp
      next
        case True
        define w3 where "w3 = (case progress of None \<Rightarrow> w2 | Some p \<Rightarrow> p lbl (sofar + ucast n) tot w2)"
        have w3: "stored w3 = stored w2" "opened w3 = opened w2" "content w3 = content w2" "unread w3 = unread w2"
          using progress_kept by (simp_all add: w3_def split: option.split)
        let ?d = "take (unat n) (staged w1)"
        have o3: "opened w3 = Some (target, got @ ?d)"
          using R W w3 True less.prems by auto
        have u: "unread w h = ?d @ unread w3 h" "unat n \<le> length (staged w1)" "unread w3 = unread w1"
          using R W w3 Some by auto
        have "0 < unat n" using False by (simp add: unat_gt_0)
        then have "length (unread w3 h) < length (unread w h)" using u by simp
        from less.hyps [OF this o3, of "sofar + ucast n"] obtain st1 s1 w4 where
          IH: "copy_loop io files h lbl tot progress (sofar + ucast n) w3 = Some (st1, s1, w4)"
            "kept_but own (stored w3) (stored w4)" "content w4 = content w3"
            "transfer_name (opened w4) \<subseteq> {target}"
            "st1 = FWUP_OK \<longrightarrow> opened w4 = Some (target, (got @ ?d) @ unread w3 h)" by blast
        have "copy_loop io files h lbl tot progress sofar w = Some (st1, s1, w4)"
          using rd Some False wr True IH(1) by (subst copy_loop.simps) (simp add: w3_def)
        moreover have "kept_but own (stored w) (stored w4)"
          using kept_but_trans [OF _ IH(2), of "stored w"] R W w3 by simp
        ultimately show ?thesis using IH R W w3 u by simp
      qed
    qed
  qed
qed

lemma abort_step:
  assumes "fwup_abort io w = (st, w1)"
  shows "kept_but (own \<union> transfer_name (opened w)) (stored w) (stored w1)" "content w1 = content w"
  using abort_cmd host_kept assms by (auto simp: fwup_abort_def)

text \<open>The end of a transfer: CLOSE if the copy went well, ABORT if anything failed.\<close>

lemma close_step:
  assumes cl: "(if st1 = FWUP_OK then fwup_close io w else (st1, w)) = (st, w1)"
    and op: "transfer_name (opened w) \<subseteq> {target}" "st1 = FWUP_OK \<longrightarrow> opened w = Some (target, got)"
    and target: "target \<notin> own"
  shows "kept_but (insert target own) (stored w) (stored w1)" "content w1 = content w"
    "transfer_name (opened w1) \<subseteq> {target}"
    "st = FWUP_OK \<longrightarrow> stored w1 target = Some got \<and>
       (\<forall>old. stored w target = Some old \<longrightarrow> stored w1 (backup target) = Some old)"
proof -
  have *: "kept_but (insert target own) (stored w) (stored w1) \<and> content w1 = content w \<and>
    transfer_name (opened w1) \<subseteq> {target} \<and> (st = FWUP_OK \<longrightarrow> stored w1 target = Some got \<and>
       (\<forall>old. stored w target = Some old \<longrightarrow> stored w1 (backup target) = Some old))"
  proof (cases "st1 = FWUP_OK")
    case True
    with cl have rc: "run_command io FWUP_CMD_CLOSE w = (st, w1)" by (simp add: fwup_close_def)
    have o: "opened w = Some (target, got)" using True op by blast
    note C = close_cmd [OF rc] host_kept [OF rc] same_transfer [OF rc]
    from C o target show ?thesis by (auto elim: kept_but_mono)
  next
    case False
    with cl op show ?thesis by auto
  qed
  from * show "kept_but (insert target own) (stored w) (stored w1)" "content w1 = content w"
    "transfer_name (opened w1) \<subseteq> {target}"
    "st = FWUP_OK \<longrightarrow> stored w1 target = Some got \<and>
       (\<forall>old. stored w target = Some old \<longrightarrow> stored w1 (backup target) = Some old)"
    by blast+
qed

lemma send_file:
  assumes target: "target \<notin> own"
  shows "\<exists>st sofar1 w1. send_bundle_file io files path target tot progress sofar w = Some (st, sofar1, w1) \<and>
    content w1 = content w \<and> kept_but (insert target own) (stored w) (stored w1) \<and>
    (st = FWUP_OK \<longrightarrow> stored w1 target = Some (content w path) \<and>
       (\<forall>old. stored w target = Some old \<longrightarrow> stored w1 (backup target) = Some old))"
proof -
  obtain f w1 where op: "bf_open files path w = (f, w1)" by fastforce
  note O = host_open [OF op]
  show ?thesis
  proof (cases f)
    case None
    with op O show ?thesis by (simp add: send_bundle_file_def)
  next
    case (Some h)
    obtain st w2 where fo: "fwup_open io (Some target) w1 = (st, w2)" by fastforce
    note F = open_step [OF fo]
    have k2: "kept_but (insert target own) (stored w) (stored w2)"
      using F(1) O by (auto intro: kept_but_mono)
    show ?thesis
    proof (cases "st = FWUP_OK")
      case False
      with op Some fo O F k2 host_close show ?thesis by (simp add: send_bundle_file_def)
    next
      case True
      from copy_loop_ok [OF F(4) [OF True], of h target tot sofar] obtain st1 s1 w3 where
        C: "copy_loop io files h target tot progress sofar w2 = Some (st1, s1, w3)"
          "kept_but own (stored w2) (stored w3)" "content w3 = content w2" "transfer_name (opened w3) \<subseteq> {target}"
          "st1 = FWUP_OK \<longrightarrow> opened w3 = Some (target, unread w2 h)" by auto
      obtain st2 w4 where cl: "(if st1 = FWUP_OK then fwup_close io w3 else (st1, w3)) = (st2, w4)" by fastforce
      note D = close_step [OF cl C(4,5) target]
      obtain sa wa where ab: "fwup_abort io w4 = (sa, wa)" by fastforce
      define w5 where "w5 = (if st2 \<noteq> FWUP_OK then wa else w4)"
      have res: "send_bundle_file io files path target tot progress sofar w = Some (st2, s1, bf_close files h w5)"
        using op Some fo True C(1) cl ab by (simp add: send_bundle_file_def Let_def w5_def)
      have k5: "kept_but (insert target own) (stored w4) (stored w5)"
        using abort_step(1) [OF ab] D(3) by (auto simp: w5_def elim: kept_but_mono)
      have same: "stored w3 target = stored w target"
        using C(2) F(1) O target by (simp add: kept_but_def)
      have "kept_but (insert target own) (stored w) (stored w5)"
        using k2 kept_but_mono [OF C(2), of "insert target own"] D(1) k5
        by (blast intro: kept_but_trans)
      moreover have "content w5 = content w"
        using abort_step(2) [OF ab] D(2) C(3) F(2) O by (simp add: w5_def)
      moreover have "unread w2 h = content w path" using O F Some by auto
      ultimately show ?thesis using res host_close D(4) same by (simp add: w5_def)
    qed
  qed
qed

abbreviation "installed \<equiv> \<lambda>w w0 dir es. \<forall>e \<in> set es.
  stored w (module_dir @ bm_name e) = Some (content w0 (dir @ bm_name e))"

abbreviation "targets es \<equiv> (\<lambda>e. module_dir @ bm_name e) ` set es"

lemma good_targets: "good_modules es \<Longrightarrow> targets es \<inter> own = {} \<and> boot_name \<notin> targets es"
proof -
  assume g: "good_modules es"
  have "module_dir @ bm_name e \<notin> own" if "e \<in> set es" for e
    using that g by (intro own_names(2)) (simp add: good_modules_def)
  moreover have "boot_name \<notin> targets es"
    using module_target_not_boot by (metis imageE)
  ultimately show ?thesis by auto
qed

lemma modules_transfer:
  "good_modules es \<Longrightarrow>
   \<exists>fl sofar1 w1. modules_loop io files dir tot progress es sofar w = Some (fl, sofar1, w1) \<and>
    content w1 = content w \<and> kept_but (own \<union> targets es) (stored w) (stored w1) \<and>
    (fl = None \<longrightarrow> installed w1 w dir es) \<and> (\<forall>st n. fl = Some (st, n) \<longrightarrow> st \<noteq> FWUP_OK)"
proof (induction es arbitrary: w sofar)
  case Nil
  show ?case by simp
next
  case (Cons e es)
  let ?t = "module_dir @ bm_name e"
  have own: "?t \<notin> own" and good: "good_modules es" and new: "?t \<notin> targets es"
    using good_targets [OF Cons.prems] Cons.prems by (auto simp: good_modules_def)
  show ?case
  proof (cases "make_module_path dir (bm_name e)")
    case None
    then show ?thesis by simp
  next
    case (Some path)
    then have path: "path = dir @ bm_name e" by (auto simp: make_module_path_def split: if_splits)
    from send_file [OF own, of path tot sofar w] obtain st s1 w1 where
      S: "send_bundle_file io files path ?t tot progress sofar w = Some (st, s1, w1)"
        "content w1 = content w" "kept_but (insert ?t own) (stored w) (stored w1)"
        "st = FWUP_OK \<longrightarrow> stored w1 ?t = Some (content w path)" by blast
    have k1: "kept_but (own \<union> targets (e # es)) (stored w) (stored w1)"
      using S(3) by (rule kept_but_mono) auto
    show ?thesis
    proof (cases "st = FWUP_OK")
      case False
      with S Some k1 show ?thesis by simp
    next
      case True
      from Cons.IH [OF good, of s1 w1] obtain fl s2 w2 where
        I: "modules_loop io files dir tot progress es s1 w1 = Some (fl, s2, w2)" "content w2 = content w1"
          "kept_but (own \<union> targets es) (stored w1) (stored w2)"
          "fl = None \<longrightarrow> installed w2 w1 dir es" "\<forall>st n. fl = Some (st, n) \<longrightarrow> st \<noteq> FWUP_OK" by auto
      have "stored w2 ?t = Some (content w (dir @ bm_name e))"
        using I(3) S(4) True path own new by (simp add: kept_but_def)
      moreover have "kept_but (own \<union> targets (e # es)) (stored w) (stored w2)"
        using k1 by (rule kept_but_trans) (use I(3) in \<open>auto elim: kept_but_mono\<close>)
      ultimately show ?thesis using I S(1,2) Some True by simp
    qed
  qed
qed

text \<open>From the first progress call on: the modules, then \<^verbatim>\<open>BOOT.bin\<close>.\<close>

lemma transfer_result:
  assumes d: "good_modules es"
  shows "\<exists>st res w1. install_transfer io files boot dir progress es tot result w = Some (st, res, w1) \<and>
    kept_but (insert boot_name (own \<union> targets es)) (stored w) (stored w1) \<and>
    (st = FWUP_OK \<longrightarrow> installed w1 w dir es \<and> stored w1 boot_name = Some (content w boot) \<and>
       (\<forall>old. stored w boot_name = Some old \<longrightarrow> stored w1 (backup boot_name) = Some old)) \<and>
    (stored w1 boot_name \<noteq> stored w boot_name \<longrightarrow> installed w1 w dir es)"
proof -
  define w0 where "w0 = (case progress of None \<Rightarrow> w | Some p \<Rightarrow> p [] 0 tot w)"
  have w0: "stored w0 = stored w" "content w0 = content w"
    using progress_kept by (simp_all add: w0_def split: option.split)
  note G = good_targets [OF d] own_names(1)
  from modules_transfer [OF d, of dir tot 0 w0] obtain fl s1 w1 where
    M: "modules_loop io files dir tot progress es 0 w0 = Some (fl, s1, w1)" "content w1 = content w0"
      "kept_but (own \<union> targets es) (stored w0) (stored w1)"
      "fl = None \<longrightarrow> installed w1 w0 dir es" "\<forall>st n. fl = Some (st, n) \<longrightarrow> st \<noteq> FWUP_OK" by blast
  have boot: "stored w1 boot_name = stored w boot_name" using M(3) G w0 by (simp add: kept_but_def)
  have k1: "kept_but (insert boot_name (own \<union> targets es)) (stored w) (stored w1)"
    using M(3) w0 by (auto elim: kept_but_mono)
  show ?thesis
  proof (cases fl)
    case (Some x)
    obtain st failed where x: "x = (st, failed)" by fastforce
    with M Some have "install_transfer io files boot dir progress es tot result w =
        Some (st, (case failed of None \<Rightarrow> result
           | Some name \<Rightarrow> on_result (\<lambda>r. r\<lparr>br_status := st, br_outcome := Bundle_Module_Failed, br_failed := name\<rparr>) result), w1)"
      by (simp add: install_transfer_def w0_def)
    with M boot k1 Some x show ?thesis by simp
  next
    case None
    from send_file [OF own_names(1), of boot tot s1 w1] obtain st s2 w2 where
      S: "send_bundle_file io files boot boot_name tot progress s1 w1 = Some (st, s2, w2)"
        "content w2 = content w1" "kept_but (insert boot_name own) (stored w1) (stored w2)"
        "st = FWUP_OK \<longrightarrow> stored w2 boot_name = Some (content w1 boot) \<and>
          (\<forall>old. stored w1 boot_name = Some old \<longrightarrow> stored w2 (backup boot_name) = Some old)" by blast
    have "install_transfer io files boot dir progress es tot result w =
        Some (st, on_result (\<lambda>r. r\<lparr>br_status := st\<rparr>) result, w2)"
      using M None S by (simp add: install_transfer_def w0_def)
    moreover have "installed w2 w dir es"
    proof
      fix e assume e: "e \<in> set es"
      then have "module_dir @ bm_name e \<notin> insert boot_name own" using G module_target_not_boot by auto
      then have "stored w2 (module_dir @ bm_name e) = stored w1 (module_dir @ bm_name e)"
        using S(3) unfolding kept_but_def by blast
      with M(4) None e w0 show "stored w2 (module_dir @ bm_name e) = Some (content w (dir @ bm_name e))" by simp
    qed
    moreover have "kept_but (insert boot_name (own \<union> targets es)) (stored w) (stored w2)"
      using k1 by (rule kept_but_trans) (use S(3) in \<open>auto elim: kept_but_mono\<close>)
    ultimately show ?thesis using M(2) S w0 boot by simp
  qed
qed

lemma scan_result:
  assumes "bf_list_dir files dir (\<lambda>n. collect_module (Some n)) no_modules w = (lr, ms, w1)" "0 \<le> lr"
  shows "mset (bm_entries ms) = mset (module_entries (listing w dir))" "good_modules (bm_entries ms)"
proof -
  note L = list_dir [OF assms(1)]
  from L assms(2) have d: "distinct (map fst (listing w dir))"
    and v: "visit_all (\<lambda>n. collect_module (Some n)) (listing w dir) no_modules = (False, ms)" by auto
  note C = collect_all [OF v no_modules_ok]
  then show m: "mset (bm_entries ms) = mset (module_entries (listing w dir))" by simp
  have "map bm_name (module_entries es) = map fst (filter (\<lambda>(n, s). module_name_has_extension (Some n)) es)" for es
    by (simp add: module_entries_def comp_def split_beta)
  then have "distinct (map bm_name (module_entries (listing w dir)))"
    using d by (simp add: distinct_map_filter)
  then have "distinct (map bm_name (bm_entries ms))"
    using m by (metis mset_map mset_eq_imp_distinct_iff)
  with C show "good_modules (bm_entries ms)" by (simp add: good_modules_def modules_ok_def)
qed

abbreviation "modules_stored dir w w1 \<equiv> all_stored (listing w dir) (content w) dir (stored w1)"

lemma install_result:
  "\<exists>st res w1. fwup_install_bundle (Some io) caps (Some boot) (Some files) progress result w = Some (st, res, w1) \<and>
    (\<forall>n. n \<notin> own \<and> n \<noteq> boot_name \<and> n \<notin> (if bit caps 14 then module_targets (listing w) boot else {}) \<longrightarrow>
       stored w1 n = stored w n) \<and>
    (st = FWUP_OK \<longrightarrow> stored w1 boot_name = Some (content w boot) \<and>
       (\<forall>old. stored w boot_name = Some old \<longrightarrow> stored w1 (backup boot_name) = Some old)) \<and>
    (st = FWUP_OK \<or> stored w1 boot_name \<noteq> stored w boot_name \<longrightarrow>
       bit caps 14 \<longrightarrow> (\<exists>dir. make_module_dir (Some boot) = Some dir \<and> modules_stored dir w w1))"
proof -
  obtain sz wa where fs: "bf_file_size files boot w = (sz, wa)" by fastforce
  note F = size_kept [OF fs]
  define result1 where
    "result1 = on_result (\<lambda>r. \<lparr>br_status = FWUP_OK, br_outcome = Bundle_Installed, br_failed = []\<rparr>) result"
  note inst = fwup_install_bundle_def [of "Some io" caps "Some boot" "Some files" progress result w,
      unfolded prod.case option.case result1_def [symmetric] Let_def fs]
  show ?thesis
  proof (cases sz)
    case None
    with F show ?thesis by (simp add: inst)
  next
    case (Some boot_size)
    show ?thesis
    proof (cases "bit caps 14")
      case False
      have "good_modules []" by (simp add: good_modules_def)
      from transfer_result [OF this, of boot "[]" boot_size "on_result (\<lambda>r. r\<lparr>br_outcome := Bundle_Boot_Only\<rparr>) result1" wa]
      obtain st res w1 where T:
        "install_transfer io files boot [] progress [] boot_size (on_result (\<lambda>r. r\<lparr>br_outcome := Bundle_Boot_Only\<rparr>) result1) wa
           = Some (st, res, w1)"
        "kept_but (insert boot_name own) (stored wa) (stored w1)"
        "st = FWUP_OK \<longrightarrow> stored w1 boot_name = Some (content wa boot) \<and>
          (\<forall>old. stored wa boot_name = Some old \<longrightarrow> stored w1 (backup boot_name) = Some old)"
        by auto
      with F False Some show ?thesis by (simp add: inst kept_but_def)
    next
      case caps: True
      show ?thesis
      proof (cases "make_module_dir (Some boot)")
        case None
        with F Some caps show ?thesis by (simp add: inst)
      next
        case dir: (Some dir)
        obtain lr ms wb where ld: "bf_list_dir files dir (\<lambda>n. collect_module (Some n)) no_modules wa = (lr, ms, wb)"
          using prod_cases3 by blast
        note L = list_dir [OF ld]
        show ?thesis
        proof (cases "lr < 0")
          case True
          with F L Some caps dir ld show ?thesis by (simp add: inst)
        next
          case False
          note S = scan_result [OF ld] False
          show ?thesis
          proof (cases "sum_sizes boot_size (bm_entries ms)")
            case None
            with F L Some caps dir ld False show ?thesis by (simp add: inst)
          next
            case tot: (Some tot)
            let ?es = "bm_entries ms"
            from transfer_result [OF S(2), of boot dir tot result1 wb] False obtain st res w1 where T:
              "install_transfer io files boot dir progress ?es tot result1 wb = Some (st, res, w1)"
              "kept_but (insert boot_name (own \<union> targets ?es)) (stored wb) (stored w1)"
              "st = FWUP_OK \<longrightarrow> installed w1 wb dir ?es \<and> stored w1 boot_name = Some (content wb boot) \<and>
                (\<forall>old. stored wb boot_name = Some old \<longrightarrow> stored w1 (backup boot_name) = Some old)"
              "stored w1 boot_name \<noteq> stored wb boot_name \<longrightarrow> installed w1 wb dir ?es" by auto
            have res: "fwup_install_bundle (Some io) caps (Some boot) (Some files) progress result w = Some (st, res, w1)"
              using Some caps dir ld False tot T(1) by (simp add: inst)
            have ent: "set ?es = set (module_entries (listing w dir))"
              using S(1) False F by (metis mset_eq_setD not_less)
            have all: "modules_stored dir w w1" if "installed w1 wb dir ?es"
              using that F L unfolding all_stored_def ent module_entries_def by force
            have "targets ?es = module_targets (listing w) boot"
              unfolding ent module_targets_def module_entries_def dir by force
            then have "stored w1 n = stored w n"
              if "n \<notin> own" "n \<noteq> boot_name" "n \<notin> module_targets (listing w) boot" for n
              using that T(2) F L by (simp add: kept_but_def)
            moreover have "st = FWUP_OK \<longrightarrow> stored w1 boot_name = Some (content w boot) \<and>
                (\<forall>old. stored w boot_name = Some old \<longrightarrow> stored w1 (backup boot_name) = Some old)"
              using T(3) F L by simp
            moreover have "modules_stored dir w w1" if "st = FWUP_OK \<or> stored w1 boot_name \<noteq> stored w boot_name"
              using that T(3,4) all F L by auto
            ultimately show ?thesis using res dir caps by simp
          qed
        qed
      qed
    qed
  qed
qed

end

section \<open>The reference card\<close>

text \<open>A card that finishes every command at once, and a host with one directory.\<close>

record ref_card =
  rc_files :: "bytes \<Rightarrow> bytes option"
  rc_open :: "(bytes \<times> bytes) option"
  rc_buf :: bytes
  rc_len :: u16
  rc_status :: u16
  rc_host :: "bytes \<Rightarrow> bytes"
  rc_dir :: "(bytes \<times> u32) list"
  rc_rest :: bytes

definition rc_fill :: "bytes \<Rightarrow> ref_card \<Rightarrow> ref_card" where
  "rc_fill d w = w\<lparr>rc_buf := d @ drop (length d) (rc_buf w)\<rparr>"

text \<open>The backup of a file has the extension \<^verbatim>\<open>.bak\<close> instead of its own.\<close>

definition bak_name :: "bytes \<Rightarrow> bytes" where
  "bak_name n = takeWhile (\<lambda>c. c \<noteq> c_dot) n @ of_string ''.bak''"

definition bak_names :: "bytes set" where
  "bak_names = {n. drop (length n - 4) n = of_string ''.bak''}"

definition keep_backup :: "bytes \<Rightarrow> (bytes \<Rightarrow> bytes option) \<Rightarrow> bytes \<Rightarrow> bytes option" where
  "keep_backup n fs = (case fs n of None \<Rightarrow> fs | Some old \<Rightarrow> fs(bak_name n \<mapsto> old))"

lemma bak_name_own: "bak_name n \<in> bak_names"
  by (simp add: bak_name_def bak_names_def of_string_def)

lemma keep_backup_kept: "kept_but bak_names fs (keep_backup n fs)"
  using bak_name_own by (auto simp: keep_backup_def kept_but_def split: option.split)

lemma keep_backup_old: "fs n = Some old \<Longrightarrow> keep_backup n fs (bak_name n) = Some old"
  by (simp add: keep_backup_def)

lemma module_not_bak: "fwup_module_name_valid (Some m) \<Longrightarrow> module_dir @ m \<notin> bak_names"
proof
  assume v: "fwup_module_name_valid (Some m)" and "module_dir @ m \<in> bak_names"
  then have "drop (length (module_dir @ m) - 4) (module_dir @ m) = of_string ''.bak''"
    by (simp add: bak_names_def)
  moreover have "drop (length m - 4) m = module_ext" "4 \<le> length m"
    using v by (auto simp: fwup_module_name_valid_def split: if_splits)
  ultimately show False
    by (simp add: drop_append module_parts(2) of_string_def)
qed

lemma boot_not_bak: "boot_name \<notin> bak_names"
  by (simp add: bak_names_def boot_name_def of_string_def)

definition rc_command :: "u16 \<Rightarrow> ref_card \<Rightarrow> ref_card" where
  "rc_command cmd w =
     (if cmd = FWUP_CMD_OPEN then w\<lparr>rc_open := Some (cstr (rc_buf w), []), rc_status := FWUP_OK\<rparr>
      else if cmd = FWUP_CMD_WRITE then
        (case rc_open w of None \<Rightarrow> w\<lparr>rc_status := FWUP_ERR_STATE\<rparr>
         | Some (n, got) \<Rightarrow>
             if rc_len w = 0 then w\<lparr>rc_status := FWUP_ERR_LEN\<rparr>
             else w\<lparr>rc_open := Some (n, got @ take (unat (rc_len w)) (rc_buf w)), rc_status := FWUP_OK\<rparr>)
      else if cmd = FWUP_CMD_CLOSE then
        (case rc_open w of None \<Rightarrow> w\<lparr>rc_status := FWUP_ERR_STATE\<rparr>
         | Some (n, got) \<Rightarrow> w\<lparr>rc_files := (keep_backup n (rc_files w))(n \<mapsto> got), rc_open := None, rc_status := FWUP_OK\<rparr>)
      else if cmd = FWUP_CMD_ABORT then w\<lparr>rc_open := None, rc_status := FWUP_OK\<rparr>
      else w\<lparr>rc_status := FWUP_ERR_NO_BACKUP\<rparr>)"

definition ref_io :: "ref_card fwup_io" where
  "ref_io = \<lparr>io_read_status = \<lambda>w. (rc_status w, w), io_write_cmd = rc_command,
     io_write_len = \<lambda>n w. w\<lparr>rc_len := n\<rparr>, io_put = rc_fill, io_read_mirror = None, io_idle = None\<rparr>"

definition ref_files :: "(ref_card, unit) bundle_files" where
  "ref_files = \<lparr>
     bf_list_dir = \<lambda>p v ms w. case visit_all v (rc_dir w) ms of
        (stop, ms1) \<Rightarrow> (if stop \<or> \<not> distinct (map fst (rc_dir w)) then - 1 else 1, ms1, w),
     bf_file_size = \<lambda>p w. (Some (of_nat (length (rc_host w p))), w),
     bf_open = \<lambda>p w. (Some (), w\<lparr>rc_rest := rc_host w p\<rparr>),
     bf_read = \<lambda>h cap w. let d = take cap (rc_rest w) in
        (Some (of_nat (length d)), rc_fill d (w\<lparr>rc_rest := drop cap (rc_rest w)\<rparr>)),
     bf_close = \<lambda>h w. w\<rparr>"

lemma ref_io_fields:
  "io_read_status ref_io = (\<lambda>w. (rc_status w, w))" "io_write_cmd ref_io = rc_command"
  "io_write_len ref_io = (\<lambda>n w. w\<lparr>rc_len := n\<rparr>)" "io_put ref_io = rc_fill"
  "io_read_mirror ref_io = None" "io_idle ref_io = None"
  by (simp_all add: ref_io_def)

lemma ref_run: "run_command ref_io cmd w = (rc_status (rc_command cmd w), rc_command cmd w)"
proof -
  have "rc_status (rc_command cmd w) \<noteq> FWUP_STATUS_BUSY"
    by (auto simp: rc_command_def split: option.split)
  moreover have "0 < n \<Longrightarrow> st \<noteq> FWUP_STATUS_BUSY \<Longrightarrow> rc_status v = st \<Longrightarrow> poll_tight ref_io n v = (st, v)" for n st v
    by (cases n) (simp_all add: ref_io_fields)
  ultimately show ?thesis by (simp add: run_command_def poll_status_def ref_io_fields Let_def)
qed

lemma take_min_length: "take (min (length xs) n) xs = take n xs"
  by (simp add: min_def)

lemma chunk_word_zero:
  assumes "(of_nat (min (length xs) 16384) :: u16) = 0"
  shows "xs = []"
proof -
  have "unat (of_nat (min (length xs) 16384) :: u16) = min (length xs) 16384"
    by (simp add: unat_of_nat)
  with assms show ?thesis by (auto simp: min_def split: if_splits)
qed

lemma ref_close:
  assumes "run_command ref_io FWUP_CMD_CLOSE w = (st, w1)"
  shows "kept_but (bak_names \<union> transfer_name (rc_open w)) (rc_files w) (rc_files w1) \<and>
    (st = FWUP_OK \<longrightarrow> (\<exists>name got. rc_open w = Some (name, got) \<and>
      (name \<notin> bak_names \<longrightarrow> rc_files w1 name = Some got \<and>
        (\<forall>old. rc_files w name = Some old \<longrightarrow> rc_files w1 (bak_name name) = Some old))))"
proof (cases "rc_open w")
  case None
  with assms show ?thesis by (auto simp: ref_run rc_command_def)
next
  case (Some t)
  then obtain n got where t: "rc_open w = Some (n, got)" by (cases t) auto
  then have w1: "rc_files w1 = (keep_backup n (rc_files w))(n \<mapsto> got)"
    using assms by (auto simp: ref_run rc_command_def)
  have "kept_but (bak_names \<union> {n}) (rc_files w) (rc_files w1)"
    using keep_backup_kept [of "rc_files w" n] by (auto simp: w1 kept_but_def)
  moreover have "rc_files w1 (bak_name n) = Some old" if "rc_files w n = Some old" "n \<notin> bak_names" for old
    using that bak_name_own [of n] keep_backup_old [of "rc_files w" n old] by (auto simp: w1)
  ultimately show ?thesis using t by (simp add: w1)
qed

interpretation ref_card: fwup_card ref_io ref_files None rc_files rc_open rc_buf rc_len rc_host "\<lambda>w _. rc_rest w"
  "\<lambda>w _. rc_dir w" bak_names bak_name
proof unfold_locales
  show "kept_but (bak_names \<union> transfer_name (rc_open w)) (rc_files w) (rc_files w1) \<and>
    (st = FWUP_OK \<longrightarrow> (\<exists>name got. rc_open w = Some (name, got) \<and>
      (name \<notin> bak_names \<longrightarrow> rc_files w1 name = Some got \<and>
        (\<forall>old. rc_files w name = Some old \<longrightarrow> rc_files w1 (bak_name name) = Some old))))"
    if "run_command ref_io FWUP_CMD_CLOSE w = (st, w1)" for w st w1
    by (rule ref_close [OF that])
qed (auto simp: ref_run rc_command_def ref_io_fields ref_files_def rc_fill_def Let_def unat_of_nat
    module_not_bak boot_not_bak
    take_min_length dest: chunk_word_zero split: option.splits prod.splits if_splits)

section \<open>Properties of the installer\<close>

text \<open>C22: installing a bundle on any card and host that behave as documented always ends. If it reports
  success, the card holds \<^verbatim>\<open>BOOT.bin\<close> with the bytes of the host file, the image it replaced is kept as its
  backup, and, when the card takes modules, every \<^verbatim>\<open>.ZZM\<close> file next to it is stored under \<^verbatim>\<open>ZZ9K/\<close>.
  Whatever happens, no file of the card changes but these and the ones the card
  keeps for itself (backups and temporary files), and \<^verbatim>\<open>BOOT.bin\<close> changes only once all the modules
  are in place, so a failing module never leaves a new boot image without them.\<close>

theorem install_bundle_order:
  assumes "fwup_card io files progress stored opened staged pending content unread listing own backup"
  shows "\<exists>st res w1.
    fwup_install_bundle (Some io) caps (Some boot) (Some files) progress result w = Some (st, res, w1) \<and>
    (\<forall>n. n \<notin> own \<and> n \<noteq> boot_name \<and> n \<notin> (if bit caps 14 then module_targets (listing w) boot else {}) \<longrightarrow>
       stored w1 n = stored w n) \<and>
    (st = FWUP_OK \<longrightarrow> stored w1 boot_name = Some (content w boot) \<and>
       (\<forall>old. stored w boot_name = Some old \<longrightarrow> stored w1 (backup boot_name) = Some old)) \<and>
    (st = FWUP_OK \<or> stored w1 boot_name \<noteq> stored w boot_name \<longrightarrow> bit caps 14 \<longrightarrow>
      (\<exists>dir. make_module_dir (Some boot) = Some dir \<and> all_stored (listing w dir) (content w) dir (stored w1)))"
  by (rule fwup_card.install_result [OF assms])

text \<open>The reference card: a release with two modules replaces an older image.\<close>

definition demo_card :: ref_card where
  "demo_card = \<lparr>rc_files = [boot_name \<mapsto> [7]], rc_open = None, rc_buf = [], rc_len = 0, rc_status = 0,
     rc_host = (\<lambda>p. [1, 2, 3]), rc_dir = [(of_string ''B.ZZM'', 3), (of_string ''A.ZZM'', 3)], rc_rest = []\<rparr>"

theorem install_bundle_order_witness:
  "\<exists>st res w1. fwup_install_bundle (Some ref_io) (mask 16) (Some boot_name) (Some ref_files) None None demo_card
      = Some (st, res, w1) \<and> rc_files w1 [1] = None \<and>
    (st = FWUP_OK \<longrightarrow> rc_files w1 (of_string ''ZZ9K/A.ZZM'') = Some [1, 2, 3] \<and>
      rc_files w1 (of_string ''BOOT.bak'') = Some [7])"
proof -
  obtain st res w1 where I:
    "fwup_install_bundle (Some ref_io) (mask 16) (Some boot_name) (Some ref_files) None None demo_card = Some (st, res, w1)"
    "\<forall>n. n \<notin> bak_names \<and> n \<noteq> boot_name \<and> n \<notin> (if bit (mask 16 :: u16) 14 then module_targets (\<lambda>_. rc_dir demo_card) boot_name else {}) \<longrightarrow>
       rc_files w1 n = rc_files demo_card n"
    "st = FWUP_OK \<longrightarrow> (\<forall>old. rc_files demo_card boot_name = Some old \<longrightarrow> rc_files w1 (bak_name boot_name) = Some old)"
    "st = FWUP_OK \<or> rc_files w1 boot_name \<noteq> rc_files demo_card boot_name \<longrightarrow> bit (mask 16 :: u16) 14 \<longrightarrow>
      (\<exists>dir. make_module_dir (Some boot_name) = Some dir \<and>
        all_stored (rc_dir demo_card) (rc_host demo_card) dir (rc_files w1))"
    using install_bundle_order [OF ref_card.fwup_card_axioms, of "mask 16" boot_name None demo_card] by blast
  have "bit (mask 16 :: u16) 14" by (simp add: bit_mask_iff)
  moreover have "(of_string ''A.ZZM'', 3) \<in> set (rc_dir demo_card)" by (simp add: demo_card_def)
  moreover have "module_name_has_extension (Some (of_string ''A.ZZM''))"
    by (simp add: module_name_has_extension_def module_ext_def of_string_def)
  moreover have "module_dir @ of_string ''A.ZZM'' = of_string ''ZZ9K/A.ZZM''"
    by (simp add: module_dir_def of_string_def)
  moreover have "[1] \<notin> bak_names" "[1] \<noteq> boot_name" "[1] \<notin> module_targets l b" for l b
    by (auto simp: bak_names_def of_string_def boot_name_def module_targets_def module_parts split: option.splits)
  then have "rc_files w1 [1] = None" using I(2) by (simp add: demo_card_def boot_name_def of_string_def)
  moreover have "rc_host demo_card p = [1, 2, 3]" for p by (simp add: demo_card_def)
  moreover have "rc_files demo_card boot_name = Some [7]" "bak_name boot_name = of_string ''BOOT.bak''"
    by (simp_all add: demo_card_def bak_name_def boot_name_def of_string_def)
  ultimately show ?thesis using I(1,3,4) unfolding all_stored_def by metis
qed

end
