(* ===== verification/VcapLive.thy ===== *)
theory VcapLive
  imports Prelude
begin

text \<open>
  The state model of native-video calibration (\<^verbatim>\<open>common/zz_vcap_live.c\<close>) and the tracking of edited
  capture-window fields (\<^verbatim>\<open>common/zz_vcap_edit.h\<close>). A pointer that the code tests for NULL is an option; out
  parameters are results.
\<close>

section \<open>Types\<close>

datatype vcap_standard = Standard_Unknown | Standard_PAL | Standard_NTSC

datatype request_result = Request_Conflict | Request_Pending | Request_Applied

record vcap_control =
  vc_sample :: u16
  vc_full_width :: u16
  vc_crop_h :: u16
  vc_crop_v :: u16
  vc_crop_h_present :: u16
  vc_crop_v_present :: u16

record vcap_status =
  vs_request_sequence :: u8
  vs_applied_sequence :: u8
  vs_standard_valid :: bool
  vs_ntsc :: bool
  vs_rejected :: bool
  vs_applied_valid :: bool
  vs_busy :: bool

record vcap_path =
  vp_sample :: u16
  vp_full_width :: u16

record vcap_working =
  vw_control :: vcap_control
  vw_crop_h :: u16
  vw_crop_v :: u16

record vcap_snapshot =
  vn_status :: u32
  vn_raw :: u32
  vn_effective_h :: u16
  vn_effective_v :: u16

record vcap_anchors =
  va_value :: "vcap_snapshot list"
  va_valid :: "bool list"

datatype phase_domain = Phase_None | Phase_E7M | Phase_C28

abbreviation (input) "VCAP_CROP_MAX \<equiv> (4095 :: u16)"
abbreviation (input) "ANCHOR_COUNT \<equiv> (4 :: nat)"
abbreviation (input) "CROP_H_COMPAT \<equiv> (188 :: u32)"
abbreviation (input) "CROP_V_COMPAT \<equiv> (26 :: u32)"

section \<open>Capability and phase\<close>

definition live_supported :: "u16 \<Rightarrow> u16 \<Rightarrow> u32 \<Rightarrow> bool" where
  "live_supported firmware_revision firmware_capabilities rtl_capability =
     (firmware_revision \<ge> 0x0208 \<and> firmware_capabilities AND 2 \<noteq> 0 \<and> rtl_capability = 0x564c010f)"

definition phase_domain_of :: "u32 \<Rightarrow> phase_domain" where
  "phase_domain_of cap =
     (if cap = 0x56510206 then Phase_C28 else if cap = 0x56510106 then Phase_E7M else Phase_None)"

definition phase_valid :: "int \<Rightarrow> phase_domain \<Rightarrow> bool" where
  "phase_valid phase pd =
     (case pd of Phase_E7M \<Rightarrow> - 255 \<le> phase \<and> phase \<le> 255
      | Phase_C28 \<Rightarrow> - 896 \<le> phase \<and> phase \<le> 895
      | Phase_None \<Rightarrow> False)"

definition phase_encode :: "int \<Rightarrow> u16" where
  "phase_encode phase = word_of_int phase"

text \<open>The sum must fit \<^verbatim>\<open>int\<close>; every caller passes a valid phase and a small step.\<close>

definition phase_step :: "int \<Rightarrow> int \<Rightarrow> phase_domain \<Rightarrow> int" where
  "phase_step phase delta pd =
     (case (case pd of Phase_E7M \<Rightarrow> Some (- 255, 255) | Phase_C28 \<Rightarrow> Some (- 896, 895) | Phase_None \<Rightarrow> None) of
        None \<Rightarrow> 0
      | Some (lo, hi) \<Rightarrow>
          let p1 = phase + delta;
              p2 = (if p1 > hi then hi else p1)
          in if p2 < lo then lo else p2)"

section \<open>The control word\<close>

definition control_valid :: "vcap_control option \<Rightarrow> bool" where
  "control_valid c =
     (case c of None \<Rightarrow> False
      | Some c \<Rightarrow> vc_sample c \<le> 2 \<and> vc_full_width c \<le> 1 \<and> vc_crop_h c \<le> VCAP_CROP_MAX \<and>
          vc_crop_v c \<le> VCAP_CROP_MAX \<and> vc_crop_h_present c \<le> 1 \<and> vc_crop_v_present c \<le> 1)"

definition control_pack :: "vcap_control option \<Rightarrow> u32" where
  "control_pack cp =
     (if \<not> control_valid cp then 0
      else
        let c = the cp;
            crop_h = (if vc_crop_h_present c \<noteq> 0 then ucast (vc_crop_h c) else CROP_H_COMPAT);
            crop_v = (if vc_crop_v_present c \<noteq> 0 then ucast (vc_crop_v c) else CROP_V_COMPAT);
            raw0 = push_bit 16 crop_v OR push_bit 4 crop_h OR push_bit 2 (ucast (vc_full_width c)) OR ucast (vc_sample c);
            raw1 = (if vc_crop_h_present c = 0 then raw0 OR push_bit 28 1 else raw0)
        in if vc_crop_v_present c = 0 then raw1 OR push_bit 29 1 else raw1)"

definition control_unpack :: "u32 \<Rightarrow> vcap_control option" where
  "control_unpack raw =
     (if raw AND 0xc0000000 \<noteq> 0 \<or> raw AND 3 > 2 then None
      else Some \<lparr>vc_sample = ucast (raw AND 3),
                vc_full_width = ucast (drop_bit 2 raw AND 1),
                vc_crop_h = ucast (drop_bit 4 raw AND 0x0fff),
                vc_crop_v = ucast (drop_bit 16 raw AND 0x0fff),
                vc_crop_h_present = (if raw AND push_bit 28 1 = 0 then 1 else 0),
                vc_crop_v_present = (if raw AND push_bit 29 1 = 0 then 1 else 0)\<rparr>)"

definition effective_unpack :: "u32 \<Rightarrow> u16 \<times> u16" where
  "effective_unpack raw = (ucast (raw AND 0x0fff), ucast (drop_bit 16 raw AND 0x0fff))"

definition status_unpack :: "u32 \<Rightarrow> vcap_status" where
  "status_unpack raw =
     \<lparr>vs_request_sequence = ucast (drop_bit 24 raw AND 0xff),
      vs_applied_sequence = ucast (drop_bit 16 raw AND 0xff),
      vs_standard_valid = (raw AND push_bit 15 1 \<noteq> 0),
      vs_ntsc = (raw AND push_bit 14 1 \<noteq> 0),
      vs_rejected = (raw AND push_bit 13 1 \<noteq> 0),
      vs_applied_valid = (raw AND push_bit 1 1 \<noteq> 0),
      vs_busy = (raw AND 1 \<noteq> 0)\<rparr>"

section \<open>Requests\<close>

definition next_sequence :: "u8 \<Rightarrow> u8" where
  "next_sequence request_sequence = request_sequence + 1"

definition request_complete :: "u32 \<Rightarrow> u8 \<Rightarrow> bool" where
  "request_complete raw expected =
     (let s = status_unpack raw in
      vs_request_sequence s = expected \<and> vs_applied_sequence s = expected \<and> vs_applied_valid s \<and> \<not> vs_busy s)"

definition request_result_of :: "u32 \<Rightarrow> u8 \<Rightarrow> u32 \<Rightarrow> u32 \<Rightarrow> request_result" where
  "request_result_of status expected applied_raw expected_raw =
     (if \<not> request_complete status expected then Request_Pending
      else if applied_raw = expected_raw then Request_Applied else Request_Conflict)"

definition snapshot_status_valid :: "u32 \<Rightarrow> u32 \<Rightarrow> bool" where
  "snapshot_status_valid before after =
     (if before \<noteq> after then False
      else let s = status_unpack before in
        vs_applied_valid s \<and> \<not> vs_busy s \<and> vs_request_sequence s = vs_applied_sequence s)"

definition detect_standard :: "u32 \<Rightarrow> u16 \<Rightarrow> vcap_standard" where
  "detect_standard raw lines =
     (let s = status_unpack raw in
      if lines = 0 \<or> \<not> vs_standard_valid s then Standard_Unknown
      else if vs_ntsc s then Standard_NTSC else Standard_PAL)"

definition calibration_standard :: "u32 \<Rightarrow> u16 \<Rightarrow> u16 \<Rightarrow> vcap_standard" where
  "calibration_standard status lines caller_is_foreign =
     (if caller_is_foreign \<noteq> 0 then Standard_Unknown else detect_standard status lines)"

section \<open>The working crop\<close>

text \<open>The comparison of the code is in \<^verbatim>\<open>int\<close>; both amounts are below the maximum, so it is the comparison in 16 bits.\<close>

definition add_clamped :: "u16 \<Rightarrow> u16 \<Rightarrow> u16" where
  "add_clamped v amount = (if v \<ge> VCAP_CROP_MAX - amount then VCAP_CROP_MAX else v + amount)"

definition sub_clamped :: "u16 \<Rightarrow> u16 \<Rightarrow> u16" where
  "sub_clamped v amount = (if v \<le> amount then 0 else v - amount)"

definition vcap_accept :: "vcap_working \<Rightarrow> vcap_working" where
  "vcap_accept w = w\<lparr>vw_control := (vw_control w)\<lparr>vc_crop_h := vw_crop_h w, vc_crop_v := vw_crop_v w,
     vc_crop_h_present := 1, vc_crop_v_present := 1\<rparr>\<rparr>"

definition vcap_adjust :: "vcap_working option \<Rightarrow> u16 \<Rightarrow> u16 \<Rightarrow> bool \<times> vcap_working option" where
  "vcap_adjust wp move coarse =
     (case wp of None \<Rightarrow> (False, None)
      | Some w \<Rightarrow>
          if \<not> control_valid (Some (vw_control w)) \<or> vw_crop_h w > VCAP_CROP_MAX \<or> vw_crop_v w > VCAP_CROP_MAX
          then (False, Some w)
          else
            let amount = (if coarse \<noteq> 0 then 16 else 1);
                target = (if move = 0 then Some (add_clamped (vw_crop_h w) amount, vw_crop_v w)
                  else if move = 1 then Some (sub_clamped (vw_crop_h w) amount, vw_crop_v w)
                  else if move = 2 then Some (vw_crop_h w, add_clamped (vw_crop_v w) amount)
                  else if move = 3 then Some (vw_crop_h w, sub_clamped (vw_crop_v w) amount)
                  else None)
            in case target of None \<Rightarrow> (False, Some w)
               | Some (h, v) \<Rightarrow>
                   if h = vw_crop_h w \<and> v = vw_crop_v w then (False, Some w)
                   else (True, Some (vcap_accept (w\<lparr>vw_crop_h := h, vw_crop_v := v\<rparr>))))"

definition path_equal :: "vcap_path option \<Rightarrow> vcap_path option \<Rightarrow> bool" where
  "path_equal a b = (case (a, b) of
     (Some x, Some y) \<Rightarrow> vp_sample x = vp_sample y \<and> vp_full_width x = vp_full_width y | _ \<Rightarrow> False)"

definition control_equal :: "vcap_control option \<Rightarrow> vcap_control option \<Rightarrow> bool" where
  "control_equal a b = (case (a, b) of
     (Some x, Some y) \<Rightarrow> vc_sample x = vc_sample y \<and> vc_full_width x = vc_full_width y \<and> vc_crop_h x = vc_crop_h y
       \<and> vc_crop_v x = vc_crop_v y \<and> vc_crop_h_present x = vc_crop_h_present y
       \<and> vc_crop_v_present x = vc_crop_v_present y
   | _ \<Rightarrow> False)"

section \<open>Anchors\<close>

definition anchors_init :: "vcap_anchors option \<Rightarrow> vcap_anchors option" where
  "anchors_init a = map_option (\<lambda>a. a\<lparr>va_valid := replicate ANCHOR_COUNT False\<rparr>) a"

definition anchor_store :: "vcap_anchors option \<Rightarrow> u16 \<Rightarrow> vcap_snapshot option \<Rightarrow> vcap_anchors option" where
  "anchor_store a owner snapshot =
     (case (a, snapshot) of
        (Some x, Some s) \<Rightarrow>
          if unat owner \<ge> ANCHOR_COUNT then a
          else Some (x\<lparr>va_value := (va_value x)[unat owner := s], va_valid := (va_valid x)[unat owner := True]\<rparr>)
      | _ \<Rightarrow> a)"

text \<open>The snapshot argument is the caller's object; the result is that object after the call.\<close>

definition anchor_load :: "vcap_anchors option \<Rightarrow> u16 \<Rightarrow> vcap_snapshot option \<Rightarrow> bool \<times> vcap_snapshot option" where
  "anchor_load a owner snapshot =
     (case (a, snapshot) of
        (Some x, Some s) \<Rightarrow>
          if unat owner \<ge> ANCHOR_COUNT \<or> \<not> va_valid x ! unat owner then (False, snapshot)
          else (True, Some (va_value x ! unat owner))
      | _ \<Rightarrow> (False, snapshot))"

definition anchor_clear :: "vcap_anchors option \<Rightarrow> u16 \<Rightarrow> vcap_anchors option" where
  "anchor_clear a owner =
     (case a of None \<Rightarrow> None
      | Some x \<Rightarrow> if unat owner < ANCHOR_COUNT then Some (x\<lparr>va_valid := (va_valid x)[unat owner := False]\<rparr>) else a)"

section \<open>Edited fields\<close>

text \<open>The video-capture part of \<^verbatim>\<open>struct zzcfg_values\<close>; the rest of it is copied unchanged.\<close>

record vcap_values =
  cv_sample :: u16
  cv_crop_h_present :: bool
  cv_crop_h :: u16
  cv_crop_v_present :: bool
  cv_crop_v :: u16
  cv_width_present :: bool
  cv_width :: u16
  cv_height_present :: bool
  cv_height :: u16
  cv_c28_phase_present :: bool
  cv_c28_phase :: int
  cv_phase_present :: bool
  cv_phase :: int

datatype edit_field = Edit_Crop_H | Edit_Crop_V | Edit_Width | Edit_Height | Edit_Phase

text \<open>The two bit sets of \<^verbatim>\<open>struct zz_vcap_edit\<close>.\<close>

record vcap_edit =
  ve_present :: "edit_field set"
  ve_edited :: "edit_field set"

definition edit_init :: "vcap_values \<Rightarrow> phase_domain \<Rightarrow> vcap_edit" where
  "edit_init saved pd =
     \<lparr>ve_present = (if cv_crop_h_present saved then {Edit_Crop_H} else {})
        \<union> (if cv_crop_v_present saved then {Edit_Crop_V} else {})
        \<union> (if cv_width_present saved then {Edit_Width} else {})
        \<union> (if cv_height_present saved then {Edit_Height} else {})
        \<union> (if (case pd of Phase_C28 \<Rightarrow> cv_c28_phase_present saved | Phase_E7M \<Rightarrow> cv_phase_present saved
               | Phase_None \<Rightarrow> False) then {Edit_Phase} else {}),
      ve_edited = {}\<rparr>"

definition edit_set :: "vcap_edit \<Rightarrow> edit_field set \<Rightarrow> bool \<Rightarrow> vcap_edit" where
  "edit_set e field present =
     e\<lparr>ve_edited := ve_edited e \<union> field, ve_present := if present then ve_present e \<union> field else ve_present e - field\<rparr>"

definition edit_automatic :: "vcap_edit \<Rightarrow> vcap_edit" where
  "edit_automatic e = e\<lparr>ve_edited := {Edit_Crop_H, Edit_Crop_V, Edit_Width, Edit_Height, Edit_Phase}, ve_present := {}\<rparr>"

definition stage_crop_h :: "vcap_edit \<Rightarrow> u16 \<Rightarrow> vcap_values \<Rightarrow> vcap_values" where
  "stage_crop_h e crop_h c =
     (if Edit_Crop_H \<in> ve_edited e then
        (let p = (Edit_Crop_H \<in> ve_present e); c1 = c\<lparr>cv_crop_h_present := p\<rparr>
         in if p then c1\<lparr>cv_crop_h := crop_h\<rparr> else c1)
      else c)"

definition stage_crop_v :: "vcap_edit \<Rightarrow> u16 \<Rightarrow> vcap_values \<Rightarrow> vcap_values" where
  "stage_crop_v e crop_v c =
     (if Edit_Crop_V \<in> ve_edited e then
        (let p = (Edit_Crop_V \<in> ve_present e); c1 = c\<lparr>cv_crop_v_present := p\<rparr>
         in if p then c1\<lparr>cv_crop_v := crop_v\<rparr> else c1)
      else c)"

definition stage_size :: "vcap_edit \<Rightarrow> u16 \<Rightarrow> u16 \<Rightarrow> vcap_values \<Rightarrow> vcap_values" where
  "stage_size e width height c =
     (let c1 = (if Edit_Width \<in> ve_edited e then
          (let p = (Edit_Width \<in> ve_present e) in c\<lparr>cv_width_present := p, cv_width := if p then width else 0\<rparr>)
          else c)
      in if Edit_Height \<in> ve_edited e then
          (let p = (Edit_Height \<in> ve_present e) in c1\<lparr>cv_height_present := p, cv_height := if p then height else 0\<rparr>)
          else c1)"

definition stage_phase :: "vcap_edit \<Rightarrow> phase_domain \<Rightarrow> int \<Rightarrow> vcap_values \<Rightarrow> vcap_values" where
  "stage_phase e pd phase c =
     (let p = (Edit_Phase \<in> ve_present e) in
      if Edit_Phase \<in> ve_edited e \<and> pd = Phase_C28 then
        c\<lparr>cv_c28_phase_present := p, cv_c28_phase := if p then phase else 0\<rparr>
      else if Edit_Phase \<in> ve_edited e \<and> pd = Phase_E7M then
        c\<lparr>cv_phase_present := p, cv_phase := if p then phase else 0\<rparr>
      else c)"

definition values_differ :: "vcap_values \<Rightarrow> vcap_values \<Rightarrow> bool" where
  "values_differ c b =
     (cv_sample c \<noteq> cv_sample b
      \<or> cv_crop_h_present c \<noteq> cv_crop_h_present b \<or> cv_crop_h_present c \<and> cv_crop_h c \<noteq> cv_crop_h b
      \<or> cv_crop_v_present c \<noteq> cv_crop_v_present b \<or> cv_crop_v_present c \<and> cv_crop_v c \<noteq> cv_crop_v b
      \<or> cv_width_present c \<noteq> cv_width_present b \<or> cv_width_present c \<and> cv_width c \<noteq> cv_width b
      \<or> cv_height_present c \<noteq> cv_height_present b \<or> cv_height_present c \<and> cv_height c \<noteq> cv_height b
      \<or> cv_c28_phase_present c \<noteq> cv_c28_phase_present b \<or> cv_c28_phase_present c \<and> cv_c28_phase c \<noteq> cv_c28_phase b
      \<or> cv_phase_present c \<noteq> cv_phase_present b \<or> cv_phase_present c \<and> cv_phase c \<noteq> cv_phase b)"

definition edit_stage ::
  "vcap_edit \<Rightarrow> vcap_values \<Rightarrow> phase_domain \<Rightarrow> u16 \<Rightarrow> u16 \<Rightarrow> u16 \<Rightarrow> u16 \<Rightarrow> u16 \<Rightarrow> int \<Rightarrow> bool \<times> vcap_values" where
  "edit_stage e base pd sample crop_h crop_v width height phase =
     (let c = stage_phase e pd phase (stage_size e width height (stage_crop_v e crop_v
                (stage_crop_h e crop_h (base\<lparr>cv_sample := sample\<rparr>))))
      in (values_differ c base, c))"

end
