(* ===== verification/VcapCal.thy ===== *)
theory VcapCal
  imports VcapLive "HOL-Library.Signed_Division"
begin

text \<open>
  The measurements of the capture calibration (\<^verbatim>\<open>include/zz9000_capture_calibration.h\<close> and
  \<^verbatim>\<open>zz9000_sampling_calibration.h\<close>): the phase circle, the bisection of an eye boundary, the choice of the
  eye, and the test pattern. Phases are \<^verbatim>\<open>int\<close>; the unsigned offsets and counts stay below
  \<open>2 ^ 16\<close> and are natural numbers; pixels and pens are 32-bit words. Arrays are lists of the size of the C array.
\<close>

section \<open>The phase circle\<close>

abbreviation (input) "PHASE_STEPS \<equiv> (1792 :: int)"
abbreviation (input) "PHASE_MIN \<equiv> (- 896 :: int)"
abbreviation (input) "PHASE_MAX \<equiv> (895 :: int)"
abbreviation (input) "CAL_BINS \<equiv> (64 :: nat)"
abbreviation (input) "CAL_BIN_STEPS \<equiv> (28 :: nat)"
abbreviation (input) "CAL_MIN_EYE \<equiv> (3 :: nat)"
abbreviation (input) "CAL_COLUMNS \<equiv> (256 :: nat)"
abbreviation (input) "CAL_SAMPLES \<equiv> (1024 :: nat)"

definition cal_phase_valid :: "int \<Rightarrow> bool" where
  "cal_phase_valid phase = (phase \<ge> PHASE_MIN \<and> phase \<le> PHASE_MAX)"

definition cal_phase_encode :: "int \<Rightarrow> u32" where
  "cal_phase_encode phase = ucast (word_of_int phase :: u16)"

definition cal_phase_decode :: "u32 \<Rightarrow> int" where
  "cal_phase_decode status =
     (let phase = status AND 0xfff in if phase AND 0x800 \<noteq> 0 then uint phase - 4096 else uint phase)"

definition phase_wrap :: "int \<Rightarrow> int" where
  "phase_wrap phase0 =
     (let p1 = phase0 smod PHASE_STEPS;
          p2 = (if p1 < PHASE_MIN then p1 + PHASE_STEPS else p1)
      in if p2 > PHASE_MAX then p2 - PHASE_STEPS else p2)"

definition phase_distance :: "int \<Rightarrow> int \<Rightarrow> nat" where
  "phase_distance a b = (let distance = phase_wrap (a - b) in nat (if distance < 0 then - distance else distance))"

section \<open>The boundary of an eye\<close>

record boundary =
  bd_origin :: int
  bd_good :: nat
  bd_bad :: nat

definition boundary_pending :: "boundary \<Rightarrow> bool" where
  "boundary_pending e =
     (if bd_good e > bd_bad e then bd_good e - bd_bad e > 1 else bd_bad e - bd_good e > 1)"

definition boundary_next :: "boundary \<Rightarrow> int" where
  "boundary_next e = phase_wrap (bd_origin e + int ((bd_good e + bd_bad e) div 2))"

definition boundary_record :: "boundary \<Rightarrow> bool \<Rightarrow> boundary" where
  "boundary_record e clean =
     (let middle = (bd_good e + bd_bad e) div 2
      in if clean then e\<lparr>bd_good := middle\<rparr> else e\<lparr>bd_bad := middle\<rparr>)"

definition boundary_good_phase :: "boundary \<Rightarrow> int" where
  "boundary_good_phase e = phase_wrap (bd_origin e + int (bd_good e))"

section \<open>The eye\<close>

record cal_eye =
  ey_start_bin :: nat
  ey_bins :: nat
  ey_phase :: int
  ey_margin :: nat
  ey_full_circle :: bool

text \<open>The inner loop: the clean bins from \<open>i\<close> on, at most \<open>n\<close> of them.\<close>

fun run_length :: "bool list \<Rightarrow> nat \<Rightarrow> nat \<Rightarrow> nat" where
  "run_length clean i 0 = 0"
| "run_length clean i (Suc n) =
     (if clean ! (i mod CAL_BINS) then Suc (run_length clean (i + 1) n) else 0)"

text \<open>One bin: the best length, its distance, and the eye so far.\<close>

definition eye_step :: "bool list \<Rightarrow> int \<Rightarrow> nat \<Rightarrow> nat \<times> nat \<times> cal_eye \<Rightarrow> nat \<times> nat \<times> cal_eye" where
  "eye_step clean entry_phase i = (\<lambda>(best, best_distance, eye).
     if \<not> clean ! i \<or> clean ! ((i + CAL_BINS - 1) mod CAL_BINS) then (best, best_distance, eye)
     else
       let len = run_length clean i CAL_BINS;
           center = phase_wrap (PHASE_MIN + int (i * CAL_BIN_STEPS + (len - 1) * CAL_BIN_STEPS div 2));
           distance = phase_distance center entry_phase
       in if len < CAL_MIN_EYE \<or> len < best \<or> (len = best \<and> distance \<ge> best_distance)
          then (best, best_distance, eye)
          else (len, distance, eye\<lparr>ey_start_bin := i, ey_bins := len, ey_phase := center,
                 ey_margin := (len - 1) * CAL_BIN_STEPS div 2\<rparr>))"

definition select_eye :: "bool list \<Rightarrow> int \<Rightarrow> cal_eye \<Rightarrow> bool \<times> cal_eye" where
  "select_eye clean entry_phase eye0 =
     (if length (filter (\<lambda>b. b) clean) = CAL_BINS then
        (True, \<lparr>ey_start_bin = 0, ey_bins = CAL_BINS, ey_phase = phase_wrap entry_phase,
                ey_margin = nat (PHASE_STEPS div 2), ey_full_circle = True\<rparr>)
      else
        case fold (eye_step clean entry_phase) [0..<CAL_BINS] (0, nat PHASE_STEPS, eye0\<lparr>ey_full_circle := False\<rparr>) of
          (best, _, eye) \<Rightarrow> (best \<noteq> 0, eye))"

section \<open>The test pattern\<close>

definition pattern_rgb :: "u32 \<Rightarrow> u32" where
  "pattern_rgb pen =
     (let r = (pen * 197 + 101) AND 255;
          g = ((push_bit 3 r OR drop_bit 5 r) AND 255) XOR 0x5a;
          b = ((push_bit 5 r OR drop_bit 3 r) AND 255) XOR 0xa5
      in push_bit 16 r OR push_bit 8 g OR b)"

definition pattern_errors :: "u32 list \<Rightarrow> nat" where
  "pattern_errors samples =
     (case find (\<lambda>origin. samples ! 0 = pattern_rgb (of_nat origin)) [0..<256] of
        None \<Rightarrow> CAL_SAMPLES
      | Some origin \<Rightarrow>
          sum_list (map (\<lambda>i. if samples ! i \<noteq> pattern_rgb (of_nat (origin + i mod CAL_COLUMNS)) then 1 else 0)
            [0..<CAL_SAMPLES]))"

definition changed_pixels :: "u32 list \<Rightarrow> u32 list \<Rightarrow> nat" where
  "changed_pixels a b = sum_list (map (\<lambda>i. if a ! i \<noteq> b ! i then 1 else 0) [0..<CAL_SAMPLES])"

record row_analysis =
  ra_origin :: int
  ra_ties :: nat
  ra_residual_pixels :: nat
  ra_residual_bits :: nat
  ra_bit_mask :: u32

definition vote_step :: "u32 list \<Rightarrow> nat \<Rightarrow> nat list \<Rightarrow> nat list" where
  "vote_step pixels x votes =
     (let pen = ((drop_bit 16 (pixels ! x) - 101) * 13) AND 255
      in if pixels ! x = pattern_rgb pen then
           (let k = unat ((pen - of_nat x) AND 255) in votes[k := votes ! k + 1])
         else votes)"

text \<open>Best vote, its origin, and the number of origins that have it.\<close>

definition best_step :: "nat list \<Rightarrow> nat \<Rightarrow> nat \<times> nat \<times> nat \<Rightarrow> nat \<times> nat \<times> nat" where
  "best_step votes x = (\<lambda>(best, origin, ties).
     if votes ! x > best then (votes ! x, x, 1)
     else if votes ! x = best then (best, origin, ties + 1) else (best, origin, ties))"

function bit_count :: "u32 \<Rightarrow> nat" where
  "bit_count bits = (if bits = 0 then 0 else Suc (bit_count (bits AND (bits - 1))))"
  by pat_completeness auto
termination
proof (relation "measure unat")
  fix bits :: u32 assume "bits \<noteq> 0"
  have "bits AND (bits - 1) \<le> bits - 1" by (rule word_and_le1)
  also have "bits - 1 < bits" using \<open>bits \<noteq> 0\<close> by (simp add: word_less_nat_alt unat_minus_one unat_gt_0)
  finally show "(bits AND (bits - 1), bits) \<in> measure unat" by (simp add: word_less_nat_alt)
qed simp

declare bit_count.simps [simp del]

definition residual_step :: "u32 list \<Rightarrow> nat \<Rightarrow> nat \<Rightarrow> nat \<times> u32 \<Rightarrow> nat \<times> u32" where
  "residual_step pixels origin x = (\<lambda>(n, m).
     let bits = pixels ! x XOR pattern_rgb (of_nat (origin + x)) in (n + bit_count bits, m OR bits))"

definition analyze_row :: "u32 list \<Rightarrow> row_analysis" where
  "analyze_row pixels =
     (let votes = fold (vote_step pixels) [0..<CAL_COLUMNS] (replicate CAL_COLUMNS 0) in
      case fold (best_step votes) [0..<CAL_COLUMNS] (0, 0, 0) of (best, origin, ties) \<Rightarrow>
        if ties \<noteq> 1 then
          \<lparr>ra_origin = - 1, ra_ties = ties, ra_residual_pixels = CAL_COLUMNS - best, ra_residual_bits = 0, ra_bit_mask = 0\<rparr>
        else
          case fold (residual_step pixels origin) [0..<CAL_COLUMNS] (0, 0) of (n, m) \<Rightarrow>
            \<lparr>ra_origin = int origin, ra_ties = ties, ra_residual_pixels = CAL_COLUMNS - best, ra_residual_bits = n, ra_bit_mask = m\<rparr>)"

section \<open>Sampling\<close>

definition score_clean :: "nat \<Rightarrow> nat \<Rightarrow> bool" where
  "score_clean wrong changed = (wrong = 0 \<and> changed = 0)"

definition sampling_phase_bin :: "int \<Rightarrow> nat" where
  "sampling_phase_bin phase = (nat (phase_wrap phase - PHASE_MIN) div CAL_BIN_STEPS) mod CAL_BINS"

end
