(* ===== verification/VcapCal_Correct.thy ===== *)
theory VcapCal_Correct
  imports VcapCal
begin

text \<open>
  The row analysis is the exhaustive alignment; the eye is a longest run of clean bins on the
  circle; the bisection closes on the boundary.
\<close>

section \<open>The pattern is a permutation\<close>

lemma mask_8: "(255 :: u32) = mask 8"
  by (simp add: mask_eq_exp_minus_1)

lemma and_255: "(x :: u32) AND 255 = take_bit 8 x"
  unfolding mask_8 by (simp add: take_bit_eq_mask)

lemma pattern_red: "drop_bit 16 (pattern_rgb pen) = take_bit 8 (pen * 197 + 101)"
proof -
  define r where "r = take_bit 8 (pen * 197 + 101)"
  define g where "g = ((push_bit 3 r OR drop_bit 5 r) AND 255) XOR 0x5a"
  define b where "b = ((push_bit 5 r OR drop_bit 3 r) AND 255) XOR 0xa5"
  have c: "(0x5a :: u32) = take_bit 8 0x5a" "(0xa5 :: u32) = take_bit 8 0xa5"
    by (simp_all add: take_bit_eq_mask mask_eq_exp_minus_1)
  have g: "g = take_bit 8 g" "b = take_bit 8 b" "r = take_bit 8 r"
    unfolding g_def b_def r_def and_255 by (subst c, simp add: take_bit_xor)+ simp
  have n: "\<not> bit g n" "\<not> bit b n" "\<not> bit r n" if "8 \<le> n" for n
    using that g by (metis bit_take_bit_iff not_less)+
  have "pattern_rgb pen = push_bit 16 r OR push_bit 8 g OR b"
    by (simp add: pattern_rgb_def Let_def r_def g_def b_def and_255)
  moreover have "drop_bit 16 (push_bit 16 r OR push_bit 8 g OR b) = r"
  proof (rule bit_word_eqI)
    fix k :: nat
    show "bit (drop_bit 16 (push_bit 16 r OR push_bit 8 g OR b)) k \<longleftrightarrow> bit r k"
      using n(1) [of "8 + k"] n(2) [of "16 + k"] n(3) [of k] bit_imp_le_length [of r k]
      by (cases "k < 16") (auto simp: bit_simps)
  qed
  ultimately show ?thesis by (simp add: r_def)
qed

lemma uint_take_8: "uint (take_bit 8 (x :: u32)) = uint x mod 256"
proof -
  have "uint (take_bit 8 x) = take_bit 8 (uint x)" by (rule unsigned_take_bit_eq)
  then show ?thesis by (simp only: take_bit_eq_mod) simp
qed

lemma uint_mod_256: "(uint (a + b * c :: u32)) mod 256 = (uint a + uint b * uint c) mod 256"
  "(uint ((a - b) * c :: u32)) mod 256 = ((uint a - uint b) * uint c) mod 256"
proof -
  have drop: "(x mod 4294967296) mod 256 = (x :: int) mod 256" for x by (rule mod_mod_cancel) simp
  have cong: "(x mod 4294967296 * y) mod 256 = (x * y) mod 256"
    "(z + x mod 4294967296) mod 256 = (z + x) mod 256" for x y z :: int
    by (metis drop mod_mult_left_eq) (metis drop mod_add_right_eq)
  show "(uint (a + b * c)) mod 256 = (uint a + uint b * uint c) mod 256"
    "(uint ((a - b) * c)) mod 256 = ((uint a - uint b) * uint c) mod 256"
    unfolding uint_word_ariths by (simp_all only: drop cong len_num1 len_bit0 len_bit1) (simp_all add: drop cong)
qed

lemma pattern_numerals: "uint (101 :: u32) = 101" "uint (197 :: u32) = 197" "uint (13 :: u32) = 13"
  by simp_all

lemma uint_red: "uint (take_bit 8 (pen * 197 + 101 :: u32)) = (uint pen * 197 + 101) mod 256"
  unfolding uint_take_8 using uint_mod_256(1) [of 101 pen 197]
  by (simp only: add.commute [of _ 101] pattern_numerals)

lemma uint_pen: "uint (take_bit 8 ((r - 101 :: u32) * 13)) = ((uint r - 101) * 13) mod 256"
  unfolding uint_take_8 using uint_mod_256(2) [of r 101 13] by (simp only: pattern_numerals)

lemma inverse_197: "(((p * 197 + 101) mod 256 - 101) * 13) mod 256 = (p :: int) mod 256"
proof -
  define q where "q = (p * 197 + 101) div 256"
  have "(p * 197 + 101) mod 256 = p * 197 + 101 - 256 * q"
    by (simp add: q_def minus_mult_div_eq_mod)
  then have "((p * 197 + 101) mod 256 - 101) * 13 = p + 256 * (10 * p - 13 * q)" by simp
  then show ?thesis by (simp only: mod_mult_self2)
qed

text \<open>The pen of a pattern colour is recovered from its red value.\<close>

definition pen_of :: "u32 \<Rightarrow> u32" where
  "pen_of px = ((drop_bit 16 px - 101) * 13) AND 255"

lemma pen_of_pattern: "pen_of (pattern_rgb pen) = take_bit 8 pen"
proof -
  have "uint (take_bit 8 ((take_bit 8 (pen * 197 + 101) - 101) * 13)) = uint (take_bit 8 pen)"
    unfolding uint_pen uint_red inverse_197 by (rule uint_take_8 [symmetric])
  then show ?thesis by (simp add: pen_of_def pattern_red and_255 word_uint_eq_iff)
qed

lemma pattern_take_bit: "pattern_rgb pen = pattern_rgb (take_bit 8 pen)"
proof -
  have "(a * 197 + 101) mod 256 = (a mod 256 * 197 + 101) mod 256" for a :: int
    by (metis mod_add_left_eq mod_mult_left_eq)
  then have "uint (take_bit 8 (pen * 197 + 101)) = uint (take_bit 8 (take_bit 8 pen * 197 + 101))"
    unfolding uint_red by (simp only: uint_take_8)
  then have "take_bit 8 (pen * 197 + 101) = take_bit 8 (take_bit 8 pen * 197 + 101)"
    by (simp only: word_uint_eq_iff)
  then show ?thesis by (simp add: pattern_rgb_def and_255)
qed

lemma pattern_inject: "pattern_rgb a = pattern_rgb b \<longleftrightarrow> take_bit 8 a = take_bit 8 b"
  using pen_of_pattern pattern_take_bit by metis

section \<open>Votes\<close>

text \<open>The pixels of a row that agree with the pattern shifted by \<open>k\<close>, and those that do not.\<close>

definition agrees :: "u32 list \<Rightarrow> nat \<Rightarrow> nat \<Rightarrow> bool" where
  "agrees pixels k x \<longleftrightarrow> pixels ! x = pattern_rgb (of_nat (k + x))"

definition mismatches :: "u32 list \<Rightarrow> nat \<Rightarrow> nat" where
  "mismatches pixels k = card {x. x < 256 \<and> \<not> agrees pixels k x}"

lemma vote_target:
  assumes "k < 256"
  shows "agrees pixels k x \<longleftrightarrow> pixels ! x = pattern_rgb (pen_of (pixels ! x)) \<and>
    unat ((pen_of (pixels ! x) - of_nat x) AND 255) = k"
proof -
  let ?px = "pixels ! x"
  let ?d = "take_bit 8 (pen_of ?px - of_nat x)"
  have ud: "uint ?d = (uint (pen_of ?px) - uint (of_nat x :: u32)) mod 256"
    unfolding uint_take_8 using uint_mod_256(2) [of "pen_of ?px" "of_nat x" 1]
    by (simp only: mult_1_right uint_1)
  have us: "uint (of_nat (k + x) :: u32) mod 256 = (int k + uint (of_nat x :: u32)) mod 256"
  proof -
    have "uint (of_nat k :: u32) = int k" using assms by (simp add: uint_nat unat_of_nat)
    with uint_mod_256(1) [of "of_nat k" "of_nat x" 1] show ?thesis
      by (simp only: of_nat_add mult_1_right uint_1)
  qed
  have "unat ?d = k \<longleftrightarrow> uint ?d = int k"
    unfolding uint_nat by (rule of_nat_eq_iff [symmetric])
  also have "\<dots> \<longleftrightarrow> (uint (pen_of ?px) - uint (of_nat x :: u32)) mod 256 = int k mod 256"
    using assms by (simp add: ud)
  also have "\<dots> \<longleftrightarrow> uint (pen_of ?px) mod 256 = (int k + uint (of_nat x :: u32)) mod 256"
    by (simp add: mod_eq_dvd_iff algebra_simps)
  also have "\<dots> \<longleftrightarrow> take_bit 8 (pen_of ?px) = take_bit 8 (of_nat (k + x))"
    by (simp only: word_uint_eq_iff uint_take_8 us)
  finally have d: "unat ((pen_of ?px - of_nat x) AND 255) = k \<longleftrightarrow>
      take_bit 8 (pen_of ?px) = take_bit 8 (of_nat (k + x))" by (simp only: and_255)
  show ?thesis
  proof
    assume a: "agrees pixels k x"
    then have "pen_of ?px = take_bit 8 (of_nat (k + x))" by (simp only: agrees_def pen_of_pattern)
    then have "take_bit 8 (pen_of ?px) = take_bit 8 (of_nat (k + x))" by simp
    with a d show "?px = pattern_rgb (pen_of ?px) \<and> unat ((pen_of ?px - of_nat x) AND 255) = k"
      by (metis agrees_def pattern_inject)
  next
    assume "?px = pattern_rgb (pen_of ?px) \<and> unat ((pen_of ?px - of_nat x) AND 255) = k"
    then show "agrees pixels k x" unfolding agrees_def using d pattern_inject by metis
  qed
qed

lemma vote_step_nth:
  assumes "length votes = 256" "k < 256"
  shows "length (vote_step pixels x votes) = 256"
    "vote_step pixels x votes ! k = (if agrees pixels k x then votes ! k + 1 else votes ! k)"
proof -
  let ?pen = "pen_of (pixels ! x)"
  have step: "vote_step pixels x votes = (if pixels ! x = pattern_rgb ?pen then
      (let j = unat ((?pen - of_nat x) AND 255) in votes[j := votes ! j + 1]) else votes)"
    by (simp add: vote_step_def pen_of_def Let_def)
  show "length (vote_step pixels x votes) = 256" using assms by (simp add: step Let_def)
  show "vote_step pixels x votes ! k = (if agrees pixels k x then votes ! k + 1 else votes ! k)"
    unfolding step vote_target [OF assms(2)] using assms by (auto simp: Let_def nth_list_update)
qed

lemma card_less_Suc: "card {x. x < Suc n \<and> P x} = card {x. x < n \<and> P x} + (if P n then 1 else 0)"
proof (cases "P n")
  case True
  then have "{x. x < Suc n \<and> P x} = insert n {x. x < n \<and> P x}" by (auto simp: less_Suc_eq)
  with True show ?thesis by simp
next
  case False
  then have "{x. x < Suc n \<and> P x} = {x. x < n \<and> P x}" by (auto simp: less_Suc_eq)
  with False show ?thesis by simp
qed

lemma votes_count:
  "length (fold (vote_step pixels) [0..<n] (replicate 256 0)) = 256 \<and>
   (\<forall>k < 256. fold (vote_step pixels) [0..<n] (replicate 256 0) ! k = card {x. x < n \<and> agrees pixels k x})"
proof (induction n)
  case (Suc n)
  let ?v = "fold (vote_step pixels) [0..<n] (replicate 256 0)"
  from Suc have l: "length ?v = 256" and c: "\<And>k. k < 256 \<Longrightarrow> ?v ! k = card {x. x < n \<and> agrees pixels k x}" by auto
  have f: "fold (vote_step pixels) [0..<Suc n] (replicate 256 0) = vote_step pixels n ?v" by simp
  show ?case unfolding f card_less_Suc
    using vote_step_nth(1) [OF l, of 0] vote_step_nth(2) [OF l] c by simp
qed simp

definition best_ok :: "nat list \<Rightarrow> nat \<Rightarrow> nat \<times> nat \<times> nat \<Rightarrow> bool" where
  "best_ok votes n = (\<lambda>(best, origin, ties).
     (\<forall>k < n. votes ! k \<le> best) \<and> ties = card {k. k < n \<and> votes ! k = best} \<and>
     (0 < n \<longrightarrow> (\<exists>k < n. votes ! k = best)) \<and> (0 < best \<longrightarrow> origin < n \<and> votes ! origin = best))"

lemma best_fold: "best_ok votes n (fold (best_step votes) [0..<n] (0, 0, 0))"
proof (induction n)
  case 0
  show ?case by (simp add: best_ok_def)
next
  case (Suc n)
  obtain best origin ties where s: "fold (best_step votes) [0..<n] (0, 0, 0) = (best, origin, ties)"
    using prod_cases3 by blast
  have f: "fold (best_step votes) [0..<Suc n] (0, 0, 0) = best_step votes n (best, origin, ties)" by (simp add: s)
  from Suc s have I: "\<forall>k < n. votes ! k \<le> best" "ties = card {k. k < n \<and> votes ! k = best}"
    "0 < n \<longrightarrow> (\<exists>k < n. votes ! k = best)" "0 < best \<longrightarrow> origin < n \<and> votes ! origin = best"
    by (auto simp: best_ok_def)
  consider "votes ! n > best" | "votes ! n = best" | "votes ! n < best" by linarith
  then show ?case
  proof cases
    case 1
    have "{k. k < n \<and> votes ! k = votes ! n} = {}" using I(1) 1 by fastforce
    then have none: "card {k. k < n \<and> votes ! k = votes ! n} = 0" by (simp only: card.empty)
    show ?thesis unfolding f using 1 I none
      by (auto simp: best_step_def best_ok_def card_less_Suc All_less_Suc Ex_less_Suc)
  next
    case 2
    with I show ?thesis unfolding f
      by (auto simp: best_step_def best_ok_def card_less_Suc All_less_Suc Ex_less_Suc)
  next
    case 3
    then have "0 < n" using I(4) by linarith
    with 3 I show ?thesis unfolding f
      by (auto simp: best_step_def best_ok_def card_less_Suc All_less_Suc Ex_less_Suc)
  qed
qed

lemma mismatches_votes:
  assumes "k < 256"
  shows "mismatches pixels k = 256 - fold (vote_step pixels) [0..<256] (replicate 256 0) ! k"
    and "fold (vote_step pixels) [0..<256] (replicate 256 0) ! k \<le> 256"
proof -
  have "card {x. x < 256 \<and> \<not> agrees pixels k x} + card {x. x < 256 \<and> agrees pixels k x}
      = card ({x. x < 256 \<and> \<not> agrees pixels k x} \<union> {x. x < 256 \<and> agrees pixels k x})"
    by (rule card_Un_disjoint [symmetric]) auto
  also have "{x. x < 256 \<and> \<not> agrees pixels k x} \<union> {x. x < 256 \<and> agrees pixels k x} = {..<256}" by auto
  finally have "mismatches pixels k + fold (vote_step pixels) [0..<256] (replicate 256 0) ! k = 256"
    using votes_count [of pixels 256] assms by (simp add: mismatches_def)
  then show "mismatches pixels k = 256 - fold (vote_step pixels) [0..<256] (replicate 256 0) ! k"
    "fold (vote_step pixels) [0..<256] (replicate 256 0) ! k \<le> 256" by simp_all
qed

lemma residual_mask:
  "i < 32 \<Longrightarrow> bit (snd (fold (residual_step pixels o1) [0..<n] (0, 0))) i \<longleftrightarrow>
    (\<exists>x < n. bit (pixels ! x) i \<noteq> bit (pattern_rgb (of_nat (o1 + x))) i)"
  by (induction n) (auto simp: residual_step_def split_beta Let_def bit_or_iff bit_xor_iff Ex_less_Suc)

lemma best_positive:
  fixes votes :: "nat list"
  assumes "\<forall>k < n. votes ! k \<le> best" "card {k. k < n \<and> votes ! k = best} = 1" "1 < n"
  shows "0 < best"
proof (rule ccontr)
  assume "\<not> 0 < best"
  then have "{k. k < n \<and> votes ! k = best} = {..<n}" using assms(1) by auto
  then show False using assms(2,3) by simp
qed

text \<open>C30: The row analysis of the test pattern is the exhaustive one. Its residual is the least number of
  pixels that differ from the pattern over all 256 shifts, its tie count is the number of shifts that reach
  it, and an origin is reported exactly when one shift does, and is that shift; the bit mask then holds exactly the bits in which
  some pixel differs from the pattern at that shift.\<close>

theorem row_analysis_exhaustive:
  "(\<forall>k < 256. ra_residual_pixels (analyze_row pixels) \<le> mismatches pixels k) \<and>
   ra_ties (analyze_row pixels) = card {k. k < 256 \<and> mismatches pixels k = ra_residual_pixels (analyze_row pixels)} \<and>
   0 < ra_ties (analyze_row pixels) \<and>
   (ra_ties (analyze_row pixels) \<noteq> 1 \<longrightarrow> ra_origin (analyze_row pixels) = - 1) \<and>
   (ra_ties (analyze_row pixels) = 1 \<longrightarrow>
     (\<exists>k < 256. ra_origin (analyze_row pixels) = int k \<and> mismatches pixels k = ra_residual_pixels (analyze_row pixels) \<and>
        (\<forall>i < 32. bit (ra_bit_mask (analyze_row pixels)) i \<longleftrightarrow>
          (\<exists>x < 256. bit (pixels ! x) i \<noteq> bit (pattern_rgb (of_nat (k + x))) i))))"
proof -
  define votes where "votes = fold (vote_step pixels) [0..<256] (replicate 256 0)"
  obtain best origin ties where b: "fold (best_step votes) [0..<256] (0, 0, 0) = (best, origin, ties)"
    using prod_cases3 by blast
  note m = mismatches_votes [of _ pixels, folded votes_def]
  from best_fold [of votes 256] b have I: "\<forall>k < 256. votes ! k \<le> best" "ties = card {k. k < 256 \<and> votes ! k = best}"
    "\<exists>k < 256. votes ! k = best" "0 < best \<longrightarrow> origin < 256 \<and> votes ! origin = best"
    by (simp_all add: best_ok_def)
  from I(3) m(2) have "best \<le> 256" by blast
  have eq: "votes ! k = best \<longleftrightarrow> mismatches pixels k = 256 - best" if "k < 256" for k
    using m [OF that] I(1) that \<open>best \<le> 256\<close> by force
  have ties: "ties = card {k. k < 256 \<and> mismatches pixels k = 256 - best}"
    unfolding I(2) using eq by metis
  have pos: "0 < ties" unfolding I(2) using I(3) by (auto simp: card_gt_0_iff)
  have "ra_residual_pixels (analyze_row pixels) = 256 - best" "ra_ties (analyze_row pixels) = ties"
    "ties \<noteq> 1 \<longrightarrow> ra_origin (analyze_row pixels) = - 1"
    "ties = 1 \<longrightarrow> ra_origin (analyze_row pixels) = int origin \<and>
       ra_bit_mask (analyze_row pixels) = snd (fold (residual_step pixels origin) [0..<256] (0, 0))"
    unfolding analyze_row_def Let_def votes_def [symmetric] b prod.case
    by (cases "ties = 1"; simp split: prod.split)+
  moreover have "origin < 256 \<and> mismatches pixels origin = 256 - best" if "ties = 1"
    using I(4) eq best_positive [OF I(1)] that [unfolded I(2)] by auto
  moreover have "\<forall>k < 256. 256 - best \<le> mismatches pixels k" using m I(1) by (auto intro: diff_le_mono2)
  ultimately show ?thesis using ties pos residual_mask by auto
qed

theorem row_analysis_exhaustive_witness:
  "ra_residual_pixels (analyze_row (map (\<lambda>x. pattern_rgb (of_nat x)) [0..<256])) = 0"
proof -
  let ?px = "map (\<lambda>x. pattern_rgb (of_nat x)) [0..<256]"
  have "{x. x < 256 \<and> \<not> agrees ?px 0 x} = {}" by (auto simp: agrees_def)
  then have "mismatches ?px 0 = 0" by (simp only: mismatches_def card.empty)
  moreover have "ra_residual_pixels (analyze_row ?px) \<le> mismatches ?px 0"
    by (rule row_analysis_exhaustive [THEN conjunct1, rule_format]) simp
  ultimately show ?thesis by simp
qed

section \<open>The eye\<close>

definition eye_start :: "bool list \<Rightarrow> nat \<Rightarrow> bool" where
  "eye_start clean i \<longleftrightarrow> clean ! i \<and> \<not> clean ! ((i + 63) mod 64)"

abbreviation "eye_run clean i \<equiv> run_length clean i 64"

definition eye_center :: "bool list \<Rightarrow> nat \<Rightarrow> int" where
  "eye_center clean i = phase_wrap (PHASE_MIN + int (i * 28 + (eye_run clean i - 1) * 28 div 2))"

lemma run_length_spec:
  "run_length clean i n \<le> n \<and> (\<forall>j < run_length clean i n. clean ! ((i + j) mod 64)) \<and>
    (run_length clean i n < n \<longrightarrow> \<not> clean ! ((i + run_length clean i n) mod 64))"
proof (induction clean i n rule: run_length.induct)
  case (2 clean i n)
  show ?case
  proof (cases "clean ! (i mod 64)")
    case True
    with 2 show ?thesis by (auto simp: All_less_Suc2)
  qed simp
qed simp

definition eye_inv :: "bool list \<Rightarrow> int \<Rightarrow> nat \<Rightarrow> nat \<times> nat \<times> cal_eye \<Rightarrow> bool" where
  "eye_inv clean entry n = (\<lambda>(best, bd, eye).
     (\<forall>i < n. eye_start clean i \<and> 3 \<le> eye_run clean i \<longrightarrow>
        eye_run clean i < best \<or> (eye_run clean i = best \<and> bd \<le> phase_distance (eye_center clean i) entry)) \<and>
     (best \<noteq> 0 \<longrightarrow> 3 \<le> best \<and> ey_start_bin eye < n \<and> eye_start clean (ey_start_bin eye) \<and>
        eye_run clean (ey_start_bin eye) = best \<and> ey_bins eye = best \<and>
        ey_phase eye = eye_center clean (ey_start_bin eye) \<and> bd = phase_distance (ey_phase eye) entry \<and>
        ey_margin eye = (best - 1) * 28 div 2) \<and> \<not> ey_full_circle eye)"

lemma eye_fold:
  assumes "\<not> ey_full_circle eye0"
  shows "eye_inv clean entry n (fold (eye_step clean entry) [0..<n] (0, d0, eye0))"
proof (induction n)
  case 0
  show ?case using assms by (simp add: eye_inv_def)
next
  case (Suc n)
  obtain best bd eye where s: "fold (eye_step clean entry) [0..<n] (0, d0, eye0) = (best, bd, eye)"
    using prod_cases3 by blast
  have f: "fold (eye_step clean entry) [0..<Suc n] (0, d0, eye0) = eye_step clean entry n (best, bd, eye)"
    by (simp add: s)
  define dn where "dn = phase_distance (eye_center clean n) entry"
  have st: "eye_step clean entry n (best, bd, eye) =
      (if \<not> eye_start clean n \<or> eye_run clean n < 3 \<or> eye_run clean n < best \<or> (eye_run clean n = best \<and> dn \<ge> bd)
       then (best, bd, eye)
       else (eye_run clean n, dn, eye\<lparr>ey_start_bin := n, ey_bins := eye_run clean n, ey_phase := eye_center clean n,
          ey_margin := (eye_run clean n - 1) * 28 div 2\<rparr>))"
  proof -
    have "n + 64 - 1 = n + 63" by simp
    then show ?thesis
      unfolding eye_step_def prod.case Let_def eye_center_def [symmetric] dn_def [symmetric] eye_start_def
      by (simp only:) auto
  qed
  have I: "eye_inv clean entry n (best, bd, eye)" using Suc s by simp
  show ?case
  proof (cases "\<not> eye_start clean n \<or> eye_run clean n < 3 \<or> eye_run clean n < best \<or> (eye_run clean n = best \<and> dn \<ge> bd)")
    case True
    then have "eye_step clean entry n (best, bd, eye) = (best, bd, eye)" unfolding st by simp
    with I True show ?thesis unfolding f
      by (auto simp: eye_inv_def All_less_Suc dn_def)
  next
    case False
    then have e: "eye_step clean entry n (best, bd, eye) = (eye_run clean n, dn,
        eye\<lparr>ey_start_bin := n, ey_bins := eye_run clean n, ey_phase := eye_center clean n,
          ey_margin := (eye_run clean n - 1) * 28 div 2\<rparr>)" unfolding st by (simp only: if_not_P if_False)
    have "eye_run clean i < eye_run clean n \<or> (eye_run clean i = eye_run clean n \<and>
        dn \<le> phase_distance (eye_center clean i) entry)"
      if "i < n" "eye_start clean i" "3 \<le> eye_run clean i" for i
      using I that False by (auto simp: eye_inv_def)
    with False I show ?thesis unfolding f e
      by (simp add: eye_inv_def All_less_Suc dn_def not_less)
  qed
qed

text \<open>Choosing the eye. Unless every bin is clean, an eye is found exactly when the circle has a run of at
  least three clean bins. The one reported is a maximal run, no run is longer, none of the same length has its center closer to
  the entry phase, and the reported phase and margin are those of its middle.\<close>

theorem select_eye_best:
  assumes "length clean = 64" "\<not> list_all (\<lambda>b. b) clean" "select_eye clean entry eye0 = (found, eye)"
  shows "(found \<longleftrightarrow> (\<exists>i < 64. eye_start clean i \<and> 3 \<le> eye_run clean i)) \<and>
    (found \<longrightarrow> \<not> ey_full_circle eye \<and> ey_start_bin eye < 64 \<and>
      \<not> clean ! ((ey_start_bin eye + 63) mod 64) \<and>
      (\<forall>j < ey_bins eye. clean ! ((ey_start_bin eye + j) mod 64)) \<and>
      \<not> clean ! ((ey_start_bin eye + ey_bins eye) mod 64) \<and>
      (\<forall>i < 64. eye_start clean i \<longrightarrow> eye_run clean i < ey_bins eye \<or> (eye_run clean i = ey_bins eye \<and>
         phase_distance (ey_phase eye) entry \<le> phase_distance (eye_center clean i) entry)) \<and>
      ey_phase eye = eye_center clean (ey_start_bin eye) \<and> ey_margin eye = (ey_bins eye - 1) * 28 div 2)"
proof -
  have "length (filter (\<lambda>b. b) clean) \<noteq> 64"
    using assms(1,2) by (metis filter_id_conv length_filter_less list_all_iff order_less_irrefl)
  with assms(3) obtain best bd where
    r: "fold (eye_step clean entry) [0..<64] (0, 1792, eye0\<lparr>ey_full_circle := False\<rparr>) = (best, bd, eye)"
    and found: "found \<longleftrightarrow> best \<noteq> 0"
    by (auto simp: select_eye_def split: prod.splits)
  have I: "eye_inv clean entry 64 (best, bd, eye)"
    using eye_fold [of "eye0\<lparr>ey_full_circle := False\<rparr>" clean entry 64 1792] r by simp
  show ?thesis
  proof (cases "best = 0")
    case True
    with I found show ?thesis by (auto simp: eye_inv_def)
  next
    case False
    let ?s = "ey_start_bin eye"
    from I False have E: "3 \<le> best" "?s < 64" "eye_start clean ?s" "eye_run clean ?s = best" "ey_bins eye = best"
      "ey_phase eye = eye_center clean ?s" "bd = phase_distance (ey_phase eye) entry"
      "ey_margin eye = (best - 1) * 28 div 2" "\<not> ey_full_circle eye"
      by (auto simp: eye_inv_def)
    from run_length_spec [of clean ?s 64] E(4) have R: "best \<le> 64" "\<forall>j < best. clean ! ((?s + j) mod 64)"
      "best < 64 \<longrightarrow> \<not> clean ! ((?s + best) mod 64)" by auto
    have dirty: "\<not> clean ! ((?s + 63) mod 64)" "clean ! ?s" using E(3) by (auto simp: eye_start_def)
    have "best \<noteq> 64" using R(2) dirty(1) by auto
    with R have last: "\<not> clean ! ((?s + best) mod 64)" by simp
    have max: "eye_run clean i < best \<or> (eye_run clean i = best \<and>
        bd \<le> phase_distance (eye_center clean i) entry)" if "i < 64" "eye_start clean i" for i
      using I that E(1) by (cases "3 \<le> eye_run clean i") (auto simp: eye_inv_def)
    show ?thesis using E R dirty last max found False by auto
  qed
qed

theorem select_eye_best_witness:
  "\<exists>found eye. select_eye ([False] @ replicate 5 True @ replicate 58 False) 0
      \<lparr>ey_start_bin = 0, ey_bins = 0, ey_phase = 0, ey_margin = 0, ey_full_circle = True\<rparr> = (found, eye) \<and>
    (found \<longrightarrow> \<not> ey_full_circle eye)"
proof -
  let ?c = "[False] @ replicate 5 True @ replicate 58 False"
  let ?e = "\<lparr>ey_start_bin = 0, ey_bins = 0, ey_phase = 0, ey_margin = 0, ey_full_circle = True\<rparr>"
  obtain found eye where s: "select_eye ?c 0 ?e = (found, eye)" by fastforce
  have "length ?c = 64" "\<not> list_all (\<lambda>b. b) ?c" by simp_all
  from select_eye_best [OF this s] s show ?thesis by blast
qed

end
