(* ===== verification/VcapClient.thy ===== *)
theory VcapClient
  imports VcapCal "HOL-Library.State_Monad"
begin

text \<open>
  The clients of the capture registers: phase control and frozen fields (\<^verbatim>\<open>common/zz_vcap_client.c\<close>)
  and the capture window (\<^verbatim>\<open>common/zz_vcap_geometry.c\<close>). The register seam \<^verbatim>\<open>struct zz_vcap_io\<close> is a parameter:
  state-monadic operations on an abstract world, absent when the function pointer is NULL. A function returns a
  result code on the left or its value on the right, so a result other than
  \<^verbatim>\<open>ZZ_VCAP_OK\<close> and an early return are the same thing; out parameters, never NULL in the callers, are part of the value.
\<close>

datatype vcap_result = Vcap_Unsupported | Vcap_Invalid | Vcap_Clock_Unqualified | Vcap_Busy | Vcap_Engine_Error
  | Vcap_Timeout | Vcap_Cancelled | Vcap_State_Changed | Vcap_Unstable | Vcap_Rejected

record 'w vcap_io =
  vi_read16 :: "(u32 \<Rightarrow> ('w, u16) state) option"
  vi_write16 :: "(u32 \<Rightarrow> u16 \<Rightarrow> ('w, unit) state) option"
  vi_delay :: "('w, unit) state option"
  vi_keep_running :: "('w, bool) state option"
  vi_lock :: "('w, unit) state option"
  vi_unlock :: "('w, unit) state option"

type_synonym ('w, 'a) vcap_op = "('w, vcap_result + 'a) state"

abbreviation "done_ok x \<equiv> State_Monad.return (Inr x)"
abbreviation "done_err e \<equiv> State_Monad.return (Inl e)"

text \<open>Go on with the value, or return the result code.\<close>

definition on_ok :: "('w, 'a) vcap_op \<Rightarrow> ('a \<Rightarrow> ('w, 'b) vcap_op) \<Rightarrow> ('w, 'b) vcap_op" where
  "on_ok m f = do { r \<leftarrow> m; case r of Inl e \<Rightarrow> done_err e | Inr x \<Rightarrow> f x }"

section \<open>Register access\<close>

definition can_read :: "'w vcap_io option \<Rightarrow> bool" where
  "can_read io = (case io of None \<Rightarrow> False | Some i \<Rightarrow> vi_read16 i \<noteq> None)"

definition can_write :: "'w vcap_io option \<Rightarrow> bool" where
  "can_write io = (can_read io \<and> (case io of None \<Rightarrow> False | Some i \<Rightarrow> vi_write16 i \<noteq> None))"

definition keep_running :: "'w vcap_io \<Rightarrow> bool \<Rightarrow> ('w, bool) state" where
  "keep_running io restoring =
     (if restoring then State_Monad.return True
      else case vi_keep_running io of None \<Rightarrow> State_Monad.return True | Some k \<Rightarrow> k)"

definition vcap_delay :: "'w vcap_io \<Rightarrow> ('w, unit) state" where
  "vcap_delay io = (case vi_delay io of None \<Rightarrow> State_Monad.return () | Some d \<Rightarrow> d)"

definition write_reg :: "'w vcap_io \<Rightarrow> u32 \<Rightarrow> u16 \<Rightarrow> ('w, unit) state" where
  "write_reg io offset v = the (vi_write16 io) offset v"

definition vcap_read32 :: "'w vcap_io option \<Rightarrow> u32 \<Rightarrow> ('w, u32) state" where
  "vcap_read32 io offset =
     (if \<not> can_read io then State_Monad.return 0
      else do {
        high \<leftarrow> the (vi_read16 (the io)) offset;
        low \<leftarrow> the (vi_read16 (the io)) (offset + 2);
        State_Monad.return (push_bit 16 (ucast high) OR ucast low) })"

fun stable_loop :: "nat \<Rightarrow> 'w vcap_io option \<Rightarrow> u32 \<Rightarrow> ('w, u32) vcap_op" where
  "stable_loop 0 io offset = done_err Vcap_Unstable"
| "stable_loop (Suc n) io offset = do {
     first \<leftarrow> vcap_read32 io offset;
     second \<leftarrow> vcap_read32 io offset;
     if first = second then done_ok first else stable_loop n io offset }"

definition read_stable :: "'w vcap_io option \<Rightarrow> u32 \<Rightarrow> ('w, u32) vcap_op" where
  "read_stable io offset = (if \<not> can_read io then done_err Vcap_Invalid else stable_loop 8 io offset)"

section \<open>Phase\<close>

abbreviation (input) "CAP_REG \<equiv> (0x1240 :: u32)"
abbreviation (input) "PHASE_TARGET_REG \<equiv> (0x1246 :: u32)"
abbreviation (input) "PHASE_COMMIT_REG \<equiv> (0x1248 :: u32)"
abbreviation (input) "PHASE_TOKEN \<equiv> (0xf05a :: u16)"
abbreviation (input) "PHASE_STATUS_REG \<equiv> (0x124c :: u32)"
abbreviation (input) "CLOCK_STATUS_REG \<equiv> (0x1250 :: u32)"
abbreviation (input) "SNAPSHOT_REG \<equiv> (0x1260 :: u32)"
abbreviation (input) "ARM_REG \<equiv> (0x1264 :: u32)"
abbreviation (input) "ARM_TOKEN \<equiv> (0xca1c :: u16)"
abbreviation (input) "ADDRESS_REG \<equiv> (0x126a :: u32)"
abbreviation (input) "DATA_REG \<equiv> (0x126c :: u32)"
abbreviation (input) "GEOMETRY_REG \<equiv> (0x1270 :: u32)"
abbreviation (input) "METADATA_CAP_REG \<equiv> (0x1274 :: u32)"
abbreviation (input) "METADATA_CAP \<equiv> (0x564d010c :: u32)"
abbreviation (input) "METADATA_ADDR_REG \<equiv> (0x1278 :: u32)"
abbreviation (input) "METADATA_DATA_REG \<equiv> (0x127c :: u32)"

record phase_state =
  ps_domain :: phase_domain
  ps_applied :: int
  ps_ready :: bool
  ps_busy :: bool
  ps_done :: bool
  ps_error :: bool
  ps_clock_raw :: u32
  ps_phase_raw :: u32

text \<open>The clock bits: frequency, locked, ready, fault and C28 are bits 0 to 4.\<close>

definition clock_qualified :: "phase_domain \<Rightarrow> u32 \<Rightarrow> bool" where
  "clock_qualified pd clocks =
     (if clocks AND 8 \<noteq> 0 then False
      else if pd = Phase_E7M then clocks AND 4 \<noteq> 0
      else clocks AND 0x17 = 0x17)"

definition phase_decode :: "phase_domain \<Rightarrow> u32 \<Rightarrow> int" where
  "phase_decode pd raw =
     (let bits = (if pd = Phase_E7M then 10 else 12);
          v = raw AND (push_bit bits 1 - 1)
      in if v AND push_bit (bits - 1) 1 \<noteq> 0 then uint v - 2 ^ bits else uint v)"

definition phase_busy :: "phase_domain \<Rightarrow> u32 \<Rightarrow> bool" where
  "phase_busy pd raw = (drop_bit (if pd = Phase_E7M then 10 else 12) raw AND 1 \<noteq> 0)"

definition phase_done :: "phase_domain \<Rightarrow> u32 \<Rightarrow> bool" where
  "phase_done pd raw = (drop_bit (if pd = Phase_E7M then 11 else 13) raw AND 1 \<noteq> 0)"

definition phase_error :: "phase_domain \<Rightarrow> u32 \<Rightarrow> bool" where
  "phase_error pd raw = (drop_bit (if pd = Phase_E7M then 12 else 14) raw AND 1 \<noteq> 0)"

definition phase_read :: "'w vcap_io option \<Rightarrow> ('w, phase_state) vcap_op" where
  "phase_read io =
     (if \<not> can_read io then done_err Vcap_Invalid
      else do {
        cap \<leftarrow> vcap_read32 io CAP_REG;
        let pd = phase_domain_of cap;
        if pd = Phase_None then done_err Vcap_Unsupported
        else do {
          clock_raw \<leftarrow> vcap_read32 io CLOCK_STATUS_REG;
          phase_raw \<leftarrow> vcap_read32 io PHASE_STATUS_REG;
          done_ok \<lparr>ps_domain = pd, ps_applied = phase_decode pd phase_raw,
            ps_ready = (if pd = Phase_C28 then drop_bit 15 phase_raw AND 1 \<noteq> 0 else True),
            ps_busy = phase_busy pd phase_raw, ps_done = phase_done pd phase_raw,
            ps_error = phase_error pd phase_raw, ps_clock_raw = clock_raw, ps_phase_raw = phase_raw\<rparr> } })"

definition phase_verdict :: "phase_state \<Rightarrow> int \<Rightarrow> vcap_result + unit" where
  "phase_verdict st target =
     (if \<not> phase_valid target (ps_domain st) then Inl Vcap_Invalid
      else if \<not> clock_qualified (ps_domain st) (ps_clock_raw st) then Inl Vcap_Clock_Unqualified
      else if ps_busy st then Inl Vcap_Busy
      else if ps_error st then Inl Vcap_Engine_Error
      else if \<not> ps_done st \<or> \<not> ps_ready st \<or> ps_applied st \<noteq> target then Inl Vcap_State_Changed
      else Inr ())"

definition phase_check :: "'w vcap_io option \<Rightarrow> int \<Rightarrow> ('w, unit) vcap_op" where
  "phase_check io target = on_ok (phase_read io) (\<lambda>st. State_Monad.return (phase_verdict st target))"

text \<open>The two waiting loops: until the engine is idle, and until it has reached the target.\<close>

fun wait_idle :: "nat \<Rightarrow> 'w vcap_io \<Rightarrow> bool \<Rightarrow> ('w, phase_state) vcap_op" where
  "wait_idle 0 io restoring = done_err Vcap_Timeout"
| "wait_idle (Suc n) io restoring = on_ok (phase_read (Some io)) (\<lambda>st.
     if \<not> ps_busy st then done_ok st
     else do {
       run \<leftarrow> keep_running io restoring;
       if \<not> run then done_err Vcap_Cancelled
       else do { vcap_delay io; wait_idle n io restoring } })"

definition phase_reached :: "phase_state \<Rightarrow> int \<Rightarrow> bool" where
  "phase_reached st target =
     (ps_done st \<and> ps_ready st \<and> \<not> ps_busy st \<and> \<not> ps_error st \<and> ps_applied st = target)"

fun wait_target :: "nat \<Rightarrow> 'w vcap_io \<Rightarrow> int \<Rightarrow> bool \<Rightarrow> ('w, unit) vcap_op" where
  "wait_target 0 io target restoring = done_err Vcap_Timeout"
| "wait_target (Suc n) io target restoring = on_ok (phase_read (Some io)) (\<lambda>st.
     if phase_reached st target then
       (if clock_qualified (ps_domain st) (ps_clock_raw st) then done_ok () else done_err Vcap_Clock_Unqualified)
     else do {
       run \<leftarrow> keep_running io restoring;
       if \<not> run then done_err Vcap_Cancelled
       else do { vcap_delay io; wait_target n io target restoring } })"

abbreviation (input) "PHASE_WAIT_TICKS \<equiv> (250 :: nat)"

definition phase_apply :: "'w vcap_io option \<Rightarrow> int \<Rightarrow> bool \<Rightarrow> ('w, unit) vcap_op" where
  "phase_apply io_ptr target restoring =
     (if \<not> can_write io_ptr then done_err Vcap_Invalid
      else let io = the io_ptr in
        on_ok (phase_read io_ptr) (\<lambda>st0.
          if \<not> phase_valid target (ps_domain st0) then done_err Vcap_Invalid
          else on_ok (wait_idle PHASE_WAIT_TICKS io restoring) (\<lambda>st.
            if \<not> clock_qualified (ps_domain st) (ps_clock_raw st) then done_err Vcap_Clock_Unqualified
            else if ps_error st \<and> \<not> restoring then done_err Vcap_Engine_Error
            else do {
              write_reg io PHASE_TARGET_REG (phase_encode target);
              write_reg io PHASE_COMMIT_REG PHASE_TOKEN;
              vcap_delay io;
              wait_target PHASE_WAIT_TICKS io target restoring })))"

section \<open>Frozen fields\<close>

record capture_context =
  cx_phase :: int
  cx_require_phase :: bool
  cx_ntsc :: bool
  cx_lace :: bool
  cx_have_geometry :: bool
  cx_geometry :: u32

record capture_data =
  cd_status :: u32
  cd_geometry :: u32
  cd_pixels :: "u32 list option"
  cd_metadata :: "u32 list option"

definition capture_capability :: "'w vcap_io option \<Rightarrow> ('w, phase_domain) vcap_op" where
  "capture_capability io =
     (if \<not> can_read io then done_err Vcap_Invalid
      else do {
        cap \<leftarrow> vcap_read32 io CAP_REG;
        let pd = phase_domain_of cap;
        if pd = Phase_None then done_err Vcap_Unsupported
        else do {
          meta \<leftarrow> vcap_read32 io METADATA_CAP_REG;
          if meta \<noteq> METADATA_CAP then done_err Vcap_Unsupported else done_ok pd } })"

text \<open>The check of the phase, when the context requires one.\<close>

definition require_phase :: "'w vcap_io option \<Rightarrow> capture_context \<Rightarrow> ('w, unit) vcap_op" where
  "require_phase io cx = (if cx_require_phase cx then phase_check io (cx_phase cx) else done_ok ())"

text \<open>A new field: valid, not busy, the arm toggle changed, and another field number.\<close>

definition snapshot_fresh :: "u32 \<Rightarrow> u32 \<Rightarrow> bool" where
  "snapshot_fresh before status =
     (status AND 3 = 1 \<and> (status XOR before) AND 4 \<noteq> 0 \<and>
      (before AND 1 = 0 \<or> drop_bit 16 status \<noteq> drop_bit 16 before))"

fun wait_field :: "nat \<Rightarrow> 'w vcap_io \<Rightarrow> capture_context \<Rightarrow> u32 \<Rightarrow> ('w, u32) vcap_op" where
  "wait_field 0 io cx before = done_err Vcap_Timeout"
| "wait_field (Suc n) io cx before = do {
     run \<leftarrow> keep_running io False;
     if \<not> run then done_err Vcap_Cancelled
     else on_ok (require_phase (Some io) cx) (\<lambda>_.
       on_ok (read_stable (Some io) SNAPSHOT_REG) (\<lambda>status.
         if snapshot_fresh before status then done_ok status
         else do { vcap_delay io; wait_field n io cx before })) }"

text \<open>The payload loops: write the index, read the word.\<close>

fun read_words :: "'w vcap_io \<Rightarrow> u32 \<Rightarrow> u32 \<Rightarrow> nat list \<Rightarrow> ('w, u32 list) state" where
  "read_words io addr_reg data_reg [] = State_Monad.return []"
| "read_words io addr_reg data_reg (i # is) = do {
     write_reg io addr_reg (of_nat i);
     x \<leftarrow> vcap_read32 (Some io) data_reg;
     xs \<leftarrow> read_words io addr_reg data_reg is;
     State_Monad.return (x # xs) }"

definition read_payload :: "'w vcap_io \<Rightarrow> bool \<Rightarrow> u32 \<Rightarrow> u32 \<Rightarrow> nat \<Rightarrow> ('w, u32 list option) state" where
  "read_payload io wanted addr_reg data_reg n =
     (if wanted then do { xs \<leftarrow> read_words io addr_reg data_reg [0..<n]; State_Monad.return (Some xs) }
      else State_Monad.return None)"

text \<open>The context after the call and the data; \<open>want_pixels\<close> and \<open>want_metadata\<close> say that the buffers are not NULL.\<close>

definition vcap_capture ::
  "'w vcap_io option \<Rightarrow> capture_context \<Rightarrow> bool \<Rightarrow> bool \<Rightarrow> ('w, capture_context \<times> capture_data) vcap_op" where
  "vcap_capture io_ptr cx want_pixels want_metadata =
     (if \<not> can_write io_ptr then done_err Vcap_Invalid
      else let io = the io_ptr in
        on_ok (capture_capability io_ptr) (\<lambda>pd.
          if cx_require_phase cx \<and> \<not> phase_valid (cx_phase cx) pd then done_err Vcap_Invalid
          else on_ok (require_phase io_ptr cx) (\<lambda>_.
            on_ok (read_stable io_ptr SNAPSHOT_REG) (\<lambda>before.
              if before AND 2 \<noteq> 0 then done_err Vcap_Busy
              else do {
                write_reg io ARM_REG ARM_TOKEN;
                on_ok (wait_field 100 io cx before) (\<lambda>status. do {
                  geometry \<leftarrow> vcap_read32 io_ptr GEOMETRY_REG;
                  if cx_require_phase cx \<and> ((status AND 32 \<noteq> 0) \<noteq> cx_ntsc cx \<or> (status AND 8 \<noteq> 0) \<noteq> cx_lace cx)
                  then done_err Vcap_State_Changed
                  else if cx_have_geometry cx \<and> geometry \<noteq> cx_geometry cx then done_err Vcap_State_Changed
                  else do {
                    px \<leftarrow> read_payload io want_pixels ADDRESS_REG DATA_REG 1024;
                    md \<leftarrow> read_payload io want_metadata METADATA_ADDR_REG METADATA_DATA_REG 12;
                    on_ok (read_stable io_ptr SNAPSHOT_REG) (\<lambda>after.
                      on_ok (require_phase io_ptr cx) (\<lambda>_.
                        if after \<noteq> status then done_err Vcap_State_Changed
                        else do {
                          geometry2 \<leftarrow> vcap_read32 io_ptr GEOMETRY_REG;
                          if geometry2 \<noteq> geometry then done_err Vcap_State_Changed
                          else done_ok
                            (if \<not> cx_have_geometry cx then cx\<lparr>cx_geometry := geometry, cx_have_geometry := True\<rparr> else cx,
                             \<lparr>cd_status = status, cd_geometry = geometry, cd_pixels = px, cd_metadata = md\<rparr>) })) } }) }))))"

definition vcap_result_text :: "vcap_result + unit \<Rightarrow> string" where
  "vcap_result_text r =
     (case r of Inr _ \<Rightarrow> ''ok''
      | Inl Vcap_Unsupported \<Rightarrow> ''unsupported capture protocol''
      | Inl Vcap_Invalid \<Rightarrow> ''invalid capture request''
      | Inl Vcap_Clock_Unqualified \<Rightarrow> ''capture clock is not qualified''
      | Inl Vcap_Busy \<Rightarrow> ''capture controller is busy''
      | Inl Vcap_Engine_Error \<Rightarrow> ''capture controller reported an error''
      | Inl Vcap_Timeout \<Rightarrow> ''capture controller timed out''
      | Inl Vcap_Cancelled \<Rightarrow> ''capture operation cancelled''
      | Inl Vcap_State_Changed \<Rightarrow> ''capture source state changed''
      | Inl Vcap_Unstable \<Rightarrow> ''capture register read was unstable''
      | Inl Vcap_Rejected \<Rightarrow> ''capture request was rejected'')"

section \<open>The capture window\<close>

record geometry_state =
  gs_requested_width :: u16
  gs_requested_height :: u16
  gs_applied_width :: u16
  gs_applied_height :: u16
  gs_request_serial :: u16
  gs_applied_serial :: u16
  gs_status :: u16

definition geometry_supported :: "'w vcap_io \<Rightarrow> ('w, bool) state" where
  "geometry_supported io = do {
     caps \<leftarrow> the (vi_read16 io) 0xE6;
     State_Monad.return (caps AND 0x500 = 0x500) }"

definition geometry_query :: "'w vcap_io \<Rightarrow> u16 \<Rightarrow> ('w, u16) vcap_op" where
  "geometry_query io key = do {
     write_reg io 0xE8 key;
     raw \<leftarrow> vcap_read32 (Some io) 0xE8;
     if raw AND 0xffff \<noteq> 1 then done_err Vcap_Unsupported
     else done_ok (ucast (drop_bit 16 raw)) }"

definition dedicated_registers :: "'w vcap_io \<Rightarrow> ('w, bool) state" where
  "dedicated_registers io = do {
     r \<leftarrow> geometry_query io 36;
     State_Monad.return (case r of Inl _ \<Rightarrow> False | Inr abi \<Rightarrow> abi = 1) }"

definition opt_call :: "('w, unit) state option \<Rightarrow> ('w, unit) state" where
  "opt_call f = (case f of None \<Rightarrow> State_Monad.return () | Some g \<Rightarrow> g)"

definition write_request :: "'w vcap_io \<Rightarrow> bool \<Rightarrow> u16 \<Rightarrow> u16 \<Rightarrow> ('w, unit) state" where
  "write_request io registers width height = do {
     opt_call (vi_lock io);
     (if registers then do { write_reg io 0xA8 width; write_reg io 0xAA height }
      else do { write_reg io 0x42 width; write_reg io 0x40 5; write_reg io 0x60 height });
     opt_call (vi_unlock io) }"

text \<open>One attempt: the ten queries, and whether the serials and the status were stable.\<close>

definition geometry_attempt :: "'w vcap_io \<Rightarrow> ('w, bool \<times> geometry_state) vcap_op" where
  "geometry_attempt io =
     on_ok (geometry_query io 32) (\<lambda>request_before.
     on_ok (geometry_query io 33) (\<lambda>applied_before.
     on_ok (geometry_query io 34) (\<lambda>status_before.
     on_ok (geometry_query io 28) (\<lambda>rw.
     on_ok (geometry_query io 29) (\<lambda>rh.
     on_ok (geometry_query io 30) (\<lambda>aw.
     on_ok (geometry_query io 31) (\<lambda>ah.
     on_ok (geometry_query io 32) (\<lambda>rs.
     on_ok (geometry_query io 33) (\<lambda>as.
     on_ok (geometry_query io 34) (\<lambda>st.
       done_ok (request_before = rs \<and> applied_before = as \<and> status_before = st,
         \<lparr>gs_requested_width = rw, gs_requested_height = rh, gs_applied_width = aw, gs_applied_height = ah,
          gs_request_serial = rs, gs_applied_serial = as, gs_status = st\<rparr>)))))))))))"

fun geometry_loop :: "nat \<Rightarrow> 'w vcap_io \<Rightarrow> ('w, geometry_state) vcap_op" where
  "geometry_loop 0 io = done_err Vcap_Unstable"
| "geometry_loop (Suc n) io = on_ok (geometry_attempt io) (\<lambda>(stable, st).
     if stable then done_ok st else geometry_loop n io)"

definition geometry_read :: "'w vcap_io \<Rightarrow> ('w, geometry_state) vcap_op" where
  "geometry_read io = do {
     ok \<leftarrow> geometry_supported io;
     if \<not> ok then done_err Vcap_Unsupported else geometry_loop 8 io }"

text \<open>The status bits: applied valid, pending and rejected are bits 0 to 2.\<close>

definition geometry_check :: "'w vcap_io \<Rightarrow> u16 \<Rightarrow> u16 \<Rightarrow> ('w, unit) vcap_op" where
  "geometry_check io width height = on_ok (geometry_read io) (\<lambda>s.
     if gs_status s AND 4 \<noteq> 0 then done_err Vcap_Rejected
     else if gs_status s AND 1 = 0 \<or> gs_status s AND 2 \<noteq> 0 \<or> gs_request_serial s \<noteq> gs_applied_serial s
     then done_err Vcap_Busy
     else if gs_requested_width s = width \<and> gs_requested_height s = height then done_ok ()
     else done_err Vcap_State_Changed)"

definition window_ok :: "u16 \<Rightarrow> u16 \<Rightarrow> bool" where
  "window_ok width height =
     (\<not> (width \<noteq> 0 \<and> (width < 256 \<or> width > 1280 \<or> width AND 15 \<noteq> 0) \<or>
         height \<noteq> 0 \<and> (height < 100 \<or> height > 1024)))"

fun geometry_wait :: "nat \<Rightarrow> 'w vcap_io \<Rightarrow> u16 \<Rightarrow> u16 \<Rightarrow> bool \<Rightarrow> u16 \<Rightarrow> u16 \<Rightarrow> ('w, unit) vcap_op" where
  "geometry_wait 0 io width height restoring before expected = done_err Vcap_Timeout"
| "geometry_wait (Suc n) io width height restoring before expected = do {
     run \<leftarrow> keep_running io restoring;
     if \<not> run then done_err Vcap_Cancelled
     else on_ok (geometry_read io) (\<lambda>s.
       if gs_status s AND 4 \<noteq> 0 then done_err Vcap_Rejected
       else if gs_request_serial s \<noteq> before \<and> gs_request_serial s \<noteq> expected then done_err Vcap_State_Changed
       else if gs_request_serial s = expected \<and> gs_applied_serial s = expected \<and>
               gs_status s AND 1 \<noteq> 0 \<and> gs_status s AND 2 = 0 then
         (if gs_requested_width s = width \<and> gs_requested_height s = height then done_ok ()
          else done_err Vcap_State_Changed)
       else do { the (vi_delay io); geometry_wait n io width height restoring before expected }) }"

definition geometry_apply :: "'w vcap_io \<Rightarrow> u16 \<Rightarrow> u16 \<Rightarrow> bool \<Rightarrow> ('w, unit) vcap_op" where
  "geometry_apply io width height restoring =
     (if \<not> window_ok width height then done_err Vcap_Invalid
      else on_ok (geometry_read io) (\<lambda>before. do {
        run \<leftarrow> keep_running io restoring;
        if \<not> run then done_err Vcap_Cancelled
        else if gs_status before AND 1 \<noteq> 0 \<and> gs_status before AND 6 = 0 \<and>
                gs_request_serial before = gs_applied_serial before \<and>
                gs_requested_width before = width \<and> gs_requested_height before = height
        then done_ok ()
        else do {
          registers \<leftarrow> dedicated_registers io;
          write_request io registers width height;
          geometry_wait 150 io width height restoring (gs_request_serial before) (gs_request_serial before + 1) } }))"

end
