(* ===== verification/VcapClient_Correct.thy ===== *)
theory VcapClient_Correct
  imports VcapClient
begin

text \<open>
  Acknowledged requests: a phase request that succeeds was read back from the engine, and one that
  is refused wrote nothing; the same for requests of a capture window, over the log of the register writes.
\<close>

lemma run_on_ok: "run_state (on_ok m f) w = (case run_state m w of (Inl e, w1) \<Rightarrow> (Inl e, w1) | (Inr x, w1) \<Rightarrow> run_state (f x) w1)"
  by (simp add: on_ok_def split: prod.split sum.split)

lemma run_on_ok_Inr: "run_state (on_ok m f) w = (Inr x, w1) \<longleftrightarrow>
    (\<exists>y w2. run_state m w = (Inr y, w2) \<and> run_state (f y) w2 = (Inr x, w1))"
  by (auto simp: run_on_ok split: prod.splits sum.splits)

text \<open>Operations that relate the world before and after by a preorder.\<close>

lemma rel_return: "(\<And>a. R a a) \<Longrightarrow> state_io_rel R (State_Monad.return x)"
  by (simp add: state_io_rel_def)

lemma rel_bind:
  assumes "\<And>a b c. R a b \<Longrightarrow> R b c \<Longrightarrow> R a c" "state_io_rel R m" "\<And>x. state_io_rel R (f x)"
  shows "state_io_rel R (State_Monad.bind m f)"
  unfolding state_io_rel_def
proof
  fix w
  obtain x w2 where m: "run_state m w = (x, w2)" by fastforce
  obtain y w3 where f: "run_state (f x) w2 = (y, w3)" by fastforce
  have "R w w2" "R w2 w3" using assms(2,3) m f by (metis state_io_relD)+
  with assms(1) m f show "R w (snd (run_state (State_Monad.bind m f) w))" by auto
qed

lemma rel_on_ok:
  assumes "\<And>a. R a a" "\<And>a b c. R a b \<Longrightarrow> R b c \<Longrightarrow> R a c" "state_io_rel R m" "\<And>x. state_io_rel R (f x)"
  shows "state_io_rel R (on_ok m f)"
  unfolding on_ok_def
  by (rule rel_bind [OF assms(2,3)]) (use assms in \<open>auto intro: rel_return split: sum.split\<close>)

lemma run_unit:
  obtains w1 where "run_state m w = ((), w1)"
  by (cases "run_state m w") auto

section \<open>Phase requests\<close>

text \<open>A log of the register writes; reading, waiting and the caller's hook do not write.\<close>

locale register_log =
  fixes io :: "'w vcap_io"
    and sent :: "'w \<Rightarrow> (u32 \<times> u16) list"
  assumes usable: "can_write (Some io)"
    and read_sent: "state_io_rel (\<lambda>a b. sent b = sent a) (the (vi_read16 io) offset)"
    and delay_sent: "vi_delay io = Some d \<Longrightarrow> state_io_rel (\<lambda>a b. sent b = sent a) d"
    and keep_sent: "vi_keep_running io = Some k \<Longrightarrow> state_io_rel (\<lambda>a b. sent b = sent a) k"
    and write_sent: "run_state (write_reg io offset v) w = (u, w1) \<Longrightarrow> sent w1 = sent w @ [(offset, v)]"
begin

abbreviation "quiet m \<equiv> state_io_rel (\<lambda>a b. sent b = sent a) m"

lemma quiet_bind: "quiet m \<Longrightarrow> (\<And>x. quiet (f x)) \<Longrightarrow> quiet (State_Monad.bind m f)"
  by (rule rel_bind) simp_all

lemma quiet_on_ok: "quiet m \<Longrightarrow> (\<And>x. quiet (f x)) \<Longrightarrow> quiet (on_ok m f)"
  by (rule rel_on_ok) simp_all

lemma quiet_return: "quiet (State_Monad.return x)"
  by (rule rel_return) simp

lemma quiet_run: "quiet m \<Longrightarrow> run_state m w = (r, w1) \<Longrightarrow> sent w1 = sent w"
  by (rule state_io_relD)

lemma quiet_read32: "quiet (vcap_read32 (Some io) offset)"
  by (auto simp: vcap_read32_def intro!: quiet_bind quiet_return read_sent)

lemma quiet_phase_read: "quiet (phase_read (Some io))"
  by (auto simp: phase_read_def Let_def intro!: quiet_bind quiet_return quiet_read32)

lemma quiet_delay: "quiet (vcap_delay io)"
  by (auto simp: vcap_delay_def intro: quiet_return delay_sent split: option.split)

lemma quiet_keep: "quiet (keep_running io restoring)"
  by (auto simp: keep_running_def intro: quiet_return keep_sent split: option.split)

lemma phase_read_results:
  assumes "run_state (phase_read (Some io)) w = (Inl e, w1)"
  shows "e = Vcap_Unsupported"
  using assms usable by (auto simp: phase_read_def can_write_def Let_def split: if_splits prod.splits)

lemma quiet_wait_idle: "quiet (wait_idle n io restoring)"
  by (induction n) (auto intro!: quiet_on_ok quiet_bind quiet_return quiet_phase_read quiet_delay quiet_keep)

lemma quiet_wait_target: "quiet (wait_target n io target restoring)"
  by (induction n) (auto intro!: quiet_on_ok quiet_bind quiet_return quiet_phase_read quiet_delay quiet_keep)

lemma wait_idle_result:
  "run_state (wait_idle n io restoring) w = (r, w1) \<Longrightarrow>
    (\<forall>st. r = Inr st \<longrightarrow> \<not> ps_busy st \<and> (\<exists>w2. run_state (phase_read (Some io)) w2 = (Inr st, w1))) \<and>
    (\<forall>e. r = Inl e \<longrightarrow> e \<in> {Vcap_Timeout, Vcap_Cancelled, Vcap_Unsupported})"
proof (induction n arbitrary: w)
  case (Suc n)
  obtain r1 w2 where p: "run_state (phase_read (Some io)) w = (r1, w2)" by fastforce
  show ?case
  proof (cases r1)
    case (Inl e)
    with Suc.prems p phase_read_results show ?thesis by (auto simp: run_on_ok)
  next
    case (Inr st)
    obtain run w3 where k: "run_state (keep_running io restoring) w2 = (run, w3)" by fastforce
    obtain w4 where d: "run_state (vcap_delay io) w3 = ((), w4)" by (rule run_unit)
    from Suc.IH [of w4] Suc.prems p Inr k d show ?thesis
      by (auto simp: run_on_ok split: if_splits)
  qed
qed auto

lemma wait_target_result:
  "run_state (wait_target n io target restoring) w = (r, w1) \<Longrightarrow>
    (r = Inr () \<longrightarrow> (\<exists>w2 st. run_state (phase_read (Some io)) w2 = (Inr st, w1) \<and> phase_reached st target \<and>
       clock_qualified (ps_domain st) (ps_clock_raw st))) \<and>
    (\<forall>e. r = Inl e \<longrightarrow> e \<in> {Vcap_Timeout, Vcap_Cancelled, Vcap_Unsupported, Vcap_Clock_Unqualified})"
proof (induction n arbitrary: w)
  case (Suc n)
  obtain r1 w2 where p: "run_state (phase_read (Some io)) w = (r1, w2)" by fastforce
  show ?case
  proof (cases r1)
    case (Inl e)
    with Suc.prems p phase_read_results show ?thesis by (auto simp: run_on_ok)
  next
    case (Inr st)
    obtain run w3 where k: "run_state (keep_running io restoring) w2 = (run, w3)" by fastforce
    obtain w4 where d: "run_state (vcap_delay io) w3 = ((), w4)" by (rule run_unit)
    from Suc.IH [of w4] Suc.prems p Inr k d show ?thesis
      by (auto simp: run_on_ok split: if_splits)
  qed
qed auto

abbreviation "request target \<equiv> [(PHASE_TARGET_REG, phase_encode target), (PHASE_COMMIT_REG, PHASE_TOKEN)]"

lemma apply_result:
  assumes "run_state (phase_apply (Some io) target restoring) w = (r, w1)"
  shows "(sent w1 = sent w \<and> r \<noteq> Inr ()) \<or>
    (sent w1 = sent w @ request target \<and> r \<noteq> Inl Vcap_Invalid \<and> r \<noteq> Inl Vcap_Engine_Error \<and>
     (\<exists>st0 w0. run_state (phase_read (Some io)) w = (Inr st0, w0) \<and> phase_valid target (ps_domain st0)) \<and>
     (\<exists>w2 st w3. run_state (phase_read (Some io)) w2 = (Inr st, w3) \<and> sent w3 = sent w \<and> \<not> ps_busy st \<and>
        clock_qualified (ps_domain st) (ps_clock_raw st) \<and> (\<not> ps_error st \<or> restoring)) \<and>
     (r = Inr () \<longrightarrow> (\<exists>w2 st. run_state (phase_read (Some io)) w2 = (Inr st, w1) \<and> phase_reached st target \<and>
        clock_qualified (ps_domain st) (ps_clock_raw st))))"
proof -
  obtain r0 wa where p: "run_state (phase_read (Some io)) w = (r0, wa)" by fastforce
  note qa = quiet_run [OF quiet_phase_read p]
  show ?thesis
  proof (cases "\<exists>st0. r0 = Inr st0 \<and> phase_valid target (ps_domain st0)")
    case False
    with assms p qa usable show ?thesis
      by (auto simp: phase_apply_def run_on_ok split: sum.splits if_splits)
  next
    case True
    then obtain st0 where st0: "r0 = Inr st0" "phase_valid target (ps_domain st0)" by blast
    obtain r1 wb where i: "run_state (wait_idle 250 io restoring) wa = (r1, wb)" by fastforce
    note qb = quiet_run [OF quiet_wait_idle i] and I = wait_idle_result [OF i]
    show ?thesis
    proof (cases "\<exists>st. r1 = Inr st \<and> clock_qualified (ps_domain st) (ps_clock_raw st) \<and> (\<not> ps_error st \<or> restoring)")
      case False
      with assms p qa st0 i qb usable show ?thesis
        by (auto simp: phase_apply_def run_on_ok split: sum.splits if_splits)
    next
      case True
      then obtain st where st: "r1 = Inr st" "clock_qualified (ps_domain st) (ps_clock_raw st)" "\<not> ps_error st \<or> restoring"
        by blast
      obtain wc where c: "run_state (write_reg io PHASE_TARGET_REG (phase_encode target)) wb = ((), wc)" by (rule run_unit)
      obtain wd where d: "run_state (write_reg io PHASE_COMMIT_REG PHASE_TOKEN) wc = ((), wd)" by (rule run_unit)
      obtain we where e: "run_state (vcap_delay io) wd = ((), we)" by (rule run_unit)
      have t: "run_state (wait_target 250 io target restoring) we = (r, w1)"
        using assms p st0 i st c d e usable by (auto simp: phase_apply_def run_on_ok)
      have "sent w1 = sent w @ request target"
        using quiet_run [OF quiet_wait_target t] quiet_run [OF quiet_delay e] write_sent [OF c] write_sent [OF d] qa qb
        by simp
      moreover have "sent wb = sent w" using qa qb by simp
      ultimately show ?thesis using wait_target_result [OF t] I st p st0 by blast
    qed
  qed
qed

end

section \<open>A reference card\<close>

text \<open>
  It reports a phase engine at rest, and takes one window request through the dedicated registers,
  which it applies when the client waits.
\<close>

definition geometry_field :: "u16 \<Rightarrow> geometry_state \<Rightarrow> u16" where
  "geometry_field key g =
     (if key = 28 then gs_requested_width g else if key = 29 then gs_requested_height g
      else if key = 30 then gs_applied_width g else if key = 31 then gs_applied_height g
      else if key = 32 then gs_request_serial g else if key = 33 then gs_applied_serial g
      else if key = 34 then gs_status g else 1)"

record ref_firmware =
  rf_key :: u16
  rf_width :: u16
  rf_geo :: geometry_state
  rf_sent :: "(u32 \<times> u16) list"

definition rf_value :: "u32 \<Rightarrow> ref_firmware \<Rightarrow> u16" where
  "rf_value offset w =
     (if offset = 0xE6 then 0x500 else if offset = 0xE8 then geometry_field (rf_key w) (rf_geo w)
      else if offset = 0xEA then 1
      else if offset = CAP_REG then 0x5651 else if offset = CAP_REG + 2 then 0x0206
      else if offset = CLOCK_STATUS_REG + 2 then 0x17 else if offset = PHASE_STATUS_REG + 2 then 0xA005 else 0)"

definition rf_write :: "u32 \<Rightarrow> u16 \<Rightarrow> ref_firmware \<Rightarrow> ref_firmware" where
  "rf_write offset v w =
     (let w1 = w\<lparr>rf_sent := rf_sent w @ [(offset, v)]\<rparr> in
      if offset = 0xE8 then w\<lparr>rf_key := v, rf_sent := rf_sent w @ [(offset, v)]\<rparr>
      else if offset = 0xA8 then w1\<lparr>rf_width := v\<rparr>
      else if offset = 0xAA then
        w1\<lparr>rf_geo := (rf_geo w)\<lparr>gs_requested_width := rf_width w, gs_requested_height := v,
           gs_request_serial := gs_request_serial (rf_geo w) + 1, gs_status := 3\<rparr>\<rparr>
      else w1)"

definition rf_apply :: "geometry_state \<Rightarrow> geometry_state" where
  "rf_apply g = g\<lparr>gs_applied_width := gs_requested_width g, gs_applied_height := gs_requested_height g,
     gs_applied_serial := gs_request_serial g, gs_status := 1\<rparr>"

definition ref_vcap :: "ref_firmware vcap_io" where
  "ref_vcap = \<lparr>
     vi_read16 = Some (\<lambda>offset. State (\<lambda>w. (rf_value offset w, w))),
     vi_write16 = Some (\<lambda>offset v. State (\<lambda>w. ((), rf_write offset v w))),
     vi_delay = Some (State (\<lambda>w. ((), w\<lparr>rf_geo := rf_apply (rf_geo w)\<rparr>))),
     vi_keep_running = None, vi_lock = None, vi_unlock = None\<rparr>"

lemma ref_vcap_simps:
  "run_state (the (vi_read16 ref_vcap) offset) w = (rf_value offset w, w)"
  "can_read (Some ref_vcap)" "can_write (Some ref_vcap)"
  "run_state (write_reg ref_vcap offset v) w = ((), rf_write offset v w)"
  "vi_keep_running ref_vcap = None"
  "vi_delay ref_vcap = Some (State (\<lambda>w. ((), w\<lparr>rf_geo := rf_apply (rf_geo w)\<rparr>)))"
  "vi_lock ref_vcap = None" "vi_unlock ref_vcap = None"
  by (simp_all add: ref_vcap_def can_read_def can_write_def write_reg_def)

lemma hi_lo:
  fixes h l :: u16
  defines "w \<equiv> push_bit 16 (ucast h) OR (ucast l :: u32)"
  shows "w AND 0xffff = ucast l" "(ucast (drop_bit 16 w) :: u16) = h"
proof -
  have m: "(0xffff :: u32) = mask 16" by (simp add: mask_eq_exp_minus_1)
  show "w AND 0xffff = ucast l" unfolding m w_def
    by (rule bit_word_eqI) (auto simp: bit_simps dest: bit_imp_le_length)
  show "(ucast (drop_bit 16 w) :: u16) = h" unfolding w_def
    by (rule bit_word_eqI) (auto simp: bit_simps dest: bit_imp_le_length)
qed

lemma ref_query:
  "run_state (geometry_query ref_vcap key) w =
     (Inr (geometry_field key (rf_geo w)), w\<lparr>rf_key := key, rf_sent := rf_sent w @ [(0xE8, key)]\<rparr>)"
proof -
  let ?w = "w\<lparr>rf_key := key, rf_sent := rf_sent w @ [(0xE8, key)]\<rparr>"
  let ?f = "geometry_field key (rf_geo w)"
  have "run_state (vcap_read32 (Some ref_vcap) 0xE8) ?w = (push_bit 16 (ucast ?f) OR ucast (1 :: u16), ?w)"
    by (simp add: vcap_read32_def ref_vcap_simps rf_value_def)
  then show ?thesis
    unfolding geometry_query_def using hi_lo(1) [of ?f 1] hi_lo(2) [of ?f 1]
    by (simp add: ref_vcap_simps rf_write_def Let_def del: ucast_1)
qed

interpretation ref_log: register_log ref_vcap rf_sent
proof unfold_locales
  show "state_io_rel (\<lambda>a b. rf_sent b = rf_sent a) (the (vi_read16 ref_vcap) offset)" for offset
    by (simp add: state_io_rel_def ref_vcap_simps)
  show "state_io_rel (\<lambda>a b. rf_sent b = rf_sent a) d" if "vi_delay ref_vcap = Some d" for d
    using that by (auto simp: state_io_rel_def ref_vcap_simps)
qed (simp_all add: ref_vcap_simps rf_write_def Let_def)

text \<open>The card at rest with a window of 640 by 200.\<close>

definition ref_idle :: ref_firmware where
  "ref_idle = \<lparr>rf_key = 0, rf_width = 0, rf_geo = \<lparr>gs_requested_width = 640, gs_requested_height = 200,
     gs_applied_width = 640, gs_applied_height = 200, gs_request_serial = 4, gs_applied_serial = 4, gs_status = 1\<rparr>,
     rf_sent = []\<rparr>"

text \<open>C25: A phase request. One that succeeds wrote the target and the commit token, and the
  engine was then read back idle, without error and at exactly that target under a qualified clock. The two registers are
  written at most once each and in this order, only after the target was found valid for the phase domain that the card
  reported when the request began, and the engine read back idle under a qualified clock; a request refused as invalid or for an engine error wrote nothing.\<close>

theorem phase_apply_acknowledged:
  assumes "register_log io sent" "run_state (phase_apply (Some io) target restoring) w = (r, w1)"
  shows "(sent w1 = sent w \<and> r \<noteq> Inr ()) \<or>
    (sent w1 = sent w @ [(0x1246, phase_encode target), (0x1248, 0xf05a)] \<and>
     r \<noteq> Inl Vcap_Invalid \<and> r \<noteq> Inl Vcap_Engine_Error \<and>
     (\<exists>st0 w0. run_state (phase_read (Some io)) w = (Inr st0, w0) \<and> phase_valid target (ps_domain st0)) \<and>
     (\<exists>w2 st w3. run_state (phase_read (Some io)) w2 = (Inr st, w3) \<and> sent w3 = sent w \<and> \<not> ps_busy st \<and>
        clock_qualified (ps_domain st) (ps_clock_raw st) \<and> (\<not> ps_error st \<or> restoring)) \<and>
     (r = Inr () \<longrightarrow> (\<exists>w2 st. run_state (phase_read (Some io)) w2 = (Inr st, w1) \<and>
        ps_applied st = target \<and> ps_done st \<and> ps_ready st \<and> \<not> ps_busy st \<and> \<not> ps_error st \<and>
        clock_qualified (ps_domain st) (ps_clock_raw st))))"
  using register_log.apply_result [OF assms] unfolding phase_reached_def by (simp add: conj_ac)

lemma ref_phase_read:
  "run_state (phase_read (Some ref_vcap)) w =
    (Inr \<lparr>ps_domain = Phase_C28, ps_applied = 5, ps_ready = True, ps_busy = False, ps_done = True, ps_error = False,
       ps_clock_raw = 0x17, ps_phase_raw = 0xA005\<rparr>, w)"
  by (simp add: phase_read_def vcap_read32_def ref_vcap_simps rf_value_def phase_domain_of_def phase_decode_def
    phase_busy_def phase_done_def phase_error_def)

lemma ref_phase_loops:
  "0 < n \<Longrightarrow> run_state (wait_idle n ref_vcap b) w = run_state (phase_read (Some ref_vcap)) w"
  "0 < n \<Longrightarrow> run_state (wait_target n ref_vcap 5 b) w = (Inr (), snd (run_state (phase_read (Some ref_vcap)) w))"
  by (cases n; simp add: run_on_ok ref_phase_read phase_reached_def clock_qualified_def)+

theorem phase_apply_acknowledged_witness:
  "\<exists>w1. run_state (phase_apply (Some ref_vcap) 5 False) ref_idle = (Inr (), w1) \<and>
     rf_sent w1 = [(0x1246, phase_encode 5), (0x1248, 0xf05a)]"
proof -
  let ?w = "ref_idle"
  have "\<exists>w1. run_state (phase_apply (Some ref_vcap) 5 False) ?w = (Inr (), w1)"
    by (simp add: phase_apply_def ref_vcap_simps vcap_delay_def run_on_ok ref_phase_loops ref_phase_read phase_valid_def clock_qualified_def)
  then obtain w1 where r: "run_state (phase_apply (Some ref_vcap) 5 False) ?w = (Inr (), w1)" by blast
  have "rf_sent ref_idle = []" by (simp add: ref_idle_def)
  with phase_apply_acknowledged [OF ref_log.register_log_axioms r] r show ?thesis by auto
qed

section \<open>Window requests\<close>

text \<open>The register writes of a log other than the selection of a key to query.\<close>

definition requests :: "(u32 \<times> u16) list \<Rightarrow> (u32 \<times> u16) list" where
  "requests l = filter (\<lambda>(offset, v). offset \<noteq> 0xE8) l"

lemma requests_simps [simp]:
  "requests [] = []" "requests (a @ b) = requests a @ requests b"
  "requests ((offset, v) # l) = (if offset = 0xE8 then requests l else (offset, v) # requests l)"
  by (simp_all add: requests_def)

text \<open>Queries one after the other, with their answers.\<close>

fun answers :: "'w vcap_io \<Rightarrow> (u16 \<times> u16) list \<Rightarrow> 'w \<Rightarrow> 'w \<Rightarrow> bool" where
  "answers io [] w w1 \<longleftrightarrow> w1 = w"
| "answers io ((key, v) # qs) w w1 \<longleftrightarrow>
     (\<exists>w2. run_state (geometry_query io key) w = (Inr v, w2) \<and> answers io qs w2 w1)"

text \<open>A readback: the four sizes, between two identical answers of the serials and the status.\<close>

definition readback :: "'w vcap_io \<Rightarrow> geometry_state \<Rightarrow> 'w \<Rightarrow> 'w \<Rightarrow> bool" where
  "readback io s w w1 \<longleftrightarrow> answers io
     [(32, gs_request_serial s), (33, gs_applied_serial s), (34, gs_status s),
      (28, gs_requested_width s), (29, gs_requested_height s), (30, gs_applied_width s), (31, gs_applied_height s),
      (32, gs_request_serial s), (33, gs_applied_serial s), (34, gs_status s)] w w1"

lemma attempt_readback:
  "run_state (geometry_attempt io) w = (Inr (True, s), w1) \<Longrightarrow> readback io s w w1"
  unfolding geometry_attempt_def readback_def run_on_ok_Inr by auto

lemma loop_readback:
  "run_state (geometry_loop n io) w = (Inr s, w1) \<Longrightarrow> \<exists>wa. readback io s wa w1"
proof (induction n arbitrary: w)
  case (Suc n)
  then show ?case by (auto simp: run_on_ok_Inr split: if_splits dest: attempt_readback)
qed simp

lemma read_readback:
  assumes "run_state (geometry_read io) w = (Inr s, w1)"
  shows "\<exists>wa. readback io s wa w1"
proof -
  obtain ok w2 where "run_state (geometry_supported io) w = (ok, w2)" by fastforce
  with assms show ?thesis by (auto simp: geometry_read_def split: if_splits dest: loop_readback)
qed

lemma query_errors: "run_state (geometry_query io key) w = (Inl e, w1) \<Longrightarrow> e = Vcap_Unsupported"
  by (auto simp: geometry_query_def split: prod.splits if_splits)

lemma attempt_errors: "run_state (geometry_attempt io) w = (Inl e, w1) \<Longrightarrow> e = Vcap_Unsupported"
  by (auto simp: geometry_attempt_def run_on_ok split: prod.splits sum.splits dest: query_errors)

lemma read_errors: "run_state (geometry_read io) w = (Inl e, w1) \<Longrightarrow> e \<in> {Vcap_Unsupported, Vcap_Unstable}"
proof -
  have loop: "run_state (geometry_loop n io) w = (Inl e, w1) \<Longrightarrow> e \<in> {Vcap_Unsupported, Vcap_Unstable}" for n w
    by (induction n arbitrary: w)
      (auto simp: run_on_ok split: prod.splits sum.splits if_splits dest: attempt_errors)
  assume "run_state (geometry_read io) w = (Inl e, w1)"
  then show ?thesis
    by (auto simp: geometry_read_def split: prod.splits if_splits dest: loop)
qed

definition selects_only :: "(u32 \<times> u16) list \<Rightarrow> (u32 \<times> u16) list \<Rightarrow> bool" where
  "selects_only l l1 \<longleftrightarrow> (\<exists>ex. l1 = l @ ex \<and> requests ex = [])"

lemma selects_only_refl [simp]: "selects_only l l"
  by (simp add: selects_only_def)

lemma selects_only_trans: "selects_only a b \<Longrightarrow> selects_only b c \<Longrightarrow> selects_only a c"
  by (auto simp: selects_only_def)

lemma selects_requests: "selects_only l l1 \<Longrightarrow> requests l1 = requests l \<and> (\<exists>ex. l1 = l @ ex)"
  by (auto simp: selects_only_def)

lemma status_bits:
  fixes st :: u16
  shows "st AND 1 = 0 \<longleftrightarrow> \<not> bit st 0" "st AND 2 = 0 \<longleftrightarrow> \<not> bit st 1" "st AND 4 = 0 \<longleftrightarrow> \<not> bit st 2"
    "st AND 6 = 0 \<longleftrightarrow> \<not> bit st 1 \<and> \<not> bit st 2"
proof -
  show b: "st AND 1 = 0 \<longleftrightarrow> \<not> bit st 0" "st AND 2 = 0 \<longleftrightarrow> \<not> bit st 1" "st AND 4 = 0 \<longleftrightarrow> \<not> bit st 2"
    using and_exp_eq_0_iff_not_bit [of st 0] and_exp_eq_0_iff_not_bit [of st 1] and_exp_eq_0_iff_not_bit [of st 2]
    by simp_all
  have "(6 :: u16) = 2 OR 4" by simp
  then have "st AND 6 = (st AND 2) OR (st AND 4)" by (simp only: bit.conj_disj_distrib)
  with b show "st AND 6 = 0 \<longleftrightarrow> \<not> bit st 1 \<and> \<not> bit st 2" by (simp add: or_eq_0_iff)
qed

text \<open>The window client also takes the caller's lock, and always waits between its readings.\<close>

locale window_log = register_log +
  assumes has_delay: "vi_delay io \<noteq> None"
    and lock_sent: "vi_lock io = Some l \<Longrightarrow> state_io_rel (\<lambda>a b. sent b = sent a) l"
    and unlock_sent: "vi_unlock io = Some l \<Longrightarrow> state_io_rel (\<lambda>a b. sent b = sent a) l"
begin

abbreviation "asking m \<equiv> state_io_rel (\<lambda>a b. selects_only (sent a) (sent b)) m"

lemma asking_run: "asking m \<Longrightarrow> run_state m w = (r, w1) \<Longrightarrow> selects_only (sent w) (sent w1)"
  by (rule state_io_relD)

lemma quiet_asking: "quiet m \<Longrightarrow> asking m"
  by (simp add: state_io_rel_def)

lemma asking_return: "asking (State_Monad.return x)"
  by (rule rel_return) simp

lemma asking_bind: "asking m \<Longrightarrow> (\<And>x. asking (f x)) \<Longrightarrow> asking (State_Monad.bind m f)"
  by (rule rel_bind) (blast intro: selects_only_trans)+

lemma asking_on_ok: "asking m \<Longrightarrow> (\<And>x. asking (f x)) \<Longrightarrow> asking (on_ok m f)"
  by (rule rel_on_ok) (auto intro: selects_only_trans)

lemma asking_select: "asking (write_reg io 0xE8 key)"
  unfolding state_io_rel_def
proof
  fix w
  obtain w1 where r: "run_state (write_reg io 0xE8 key) w = ((), w1)" by (rule run_unit)
  from write_sent [OF r] r show "selects_only (sent w) (sent (snd (run_state (write_reg io 0xE8 key) w)))"
    by (auto simp: selects_only_def)
qed

lemma asking_query: "asking (geometry_query io key)"
  unfolding geometry_query_def
  by (auto intro!: asking_bind asking_select asking_return quiet_asking [OF quiet_read32])

lemma asking_attempt: "asking (geometry_attempt io)"
  unfolding geometry_attempt_def by (intro asking_on_ok asking_query asking_return)

lemma asking_loop: "asking (geometry_loop n io)"
  by (induction n) (auto intro!: asking_on_ok asking_attempt asking_return)

lemma asking_read: "asking (geometry_read io)"
  unfolding geometry_read_def geometry_supported_def
  by (auto intro!: asking_bind asking_return asking_loop quiet_asking [OF read_sent])

lemma asking_dedicated: "asking (dedicated_registers io)"
  unfolding dedicated_registers_def by (auto intro!: asking_bind asking_query asking_return)

lemma quiet_opt: "(\<And>l. f = Some l \<Longrightarrow> quiet l) \<Longrightarrow> quiet (opt_call f)"
  by (cases f) (auto simp: opt_call_def intro: quiet_return)

abbreviation "window_request registers width height \<equiv>
  (if registers then [(0xA8 :: u32, width :: u16), (0xAA, height)] else [(0x42, width), (0x40, 5), (0x60, height)])"

lemma write_request_sent:
  assumes "run_state (write_request io registers width height) w = (u, w1)"
  shows "sent w1 = sent w @ window_request registers width height"
proof -
  obtain wa where a: "run_state (opt_call (vi_lock io)) w = ((), wa)" by (rule run_unit)
  have qa: "sent wa = sent w" by (rule quiet_run [OF quiet_opt a]) (rule lock_sent)
  have qu: "run_state (opt_call (vi_unlock io)) x = ((), y) \<Longrightarrow> sent y = sent x" for x y
    by (rule quiet_run [OF quiet_opt]) (rule unlock_sent)
  have wr: "run_state (write_reg io offset v) x = ((), y) \<Longrightarrow> sent y = sent x @ [(offset, v)]" for offset v x y
    by (rule write_sent)
  show ?thesis
  proof (cases registers)
    case True
    obtain wb where b: "run_state (write_reg io 0xA8 width) wa = ((), wb)" by (rule run_unit)
    obtain wc where c: "run_state (write_reg io 0xAA height) wb = ((), wc)" by (rule run_unit)
    from assms True a b c have "run_state (opt_call (vi_unlock io)) wc = ((), w1)"
      by (simp add: write_request_def)
    from qu [OF this] wr [OF c] wr [OF b] qa True show ?thesis by simp
  next
    case False
    obtain wb where b: "run_state (write_reg io 0x42 width) wa = ((), wb)" by (rule run_unit)
    obtain wc where c: "run_state (write_reg io 0x40 5) wb = ((), wc)" by (rule run_unit)
    obtain wd where d: "run_state (write_reg io 0x60 height) wc = ((), wd)" by (rule run_unit)
    from assms False a b c d have "run_state (opt_call (vi_unlock io)) wd = ((), w1)"
      by (simp add: write_request_def)
    from qu [OF this] wr [OF d] wr [OF c] wr [OF b] qa False show ?thesis by simp
  qed
qed

abbreviation "applied s width height serial \<equiv>
  gs_request_serial s = serial \<and> gs_applied_serial s = serial \<and>
  bit (gs_status s) 0 \<and> \<not> bit (gs_status s) 1 \<and> \<not> bit (gs_status s) 2 \<and>
  gs_requested_width s = width \<and> gs_requested_height s = height"

lemma wait_result:
  "run_state (geometry_wait n io width height restoring before expected) w = (r, w1) \<Longrightarrow>
    selects_only (sent w) (sent w1) \<and> r \<noteq> Inl Vcap_Invalid \<and>
    (r = Inr () \<longrightarrow> (\<exists>w2 s. run_state (geometry_read io) w2 = (Inr s, w1) \<and> applied s width height expected))"
proof (induction n arbitrary: w)
  case (Suc n)
  obtain run wa where k: "run_state (keep_running io restoring) w = (run, wa)" by fastforce
  obtain r1 wb where g: "run_state (geometry_read io) wa = (r1, wb)" by fastforce
  have sa: "sent wa = sent w" by (rule quiet_run [OF quiet_keep k])
  have sb: "selects_only (sent w) (sent wb)" using asking_run [OF asking_read g] sa by simp
  obtain wc where d: "run_state (the (vi_delay io)) wb = ((), wc)" by (rule run_unit)
  have sc: "sent wc = sent wb"
    using has_delay by (auto intro!: quiet_run [OF delay_sent d])
  show ?case
  proof (cases "run \<and> (\<exists>s. r1 = Inr s)")
    case False
    with Suc.prems k g sa sb show ?thesis
      by (auto simp: run_on_ok split: if_splits sum.splits dest: read_errors)
  next
    case True
    then obtain s where s: "run" "r1 = Inr s" by blast
    have ev: "run_state (if gs_status s AND 4 \<noteq> 0 then done_err Vcap_Rejected
       else if gs_request_serial s \<noteq> before \<and> gs_request_serial s \<noteq> expected then done_err Vcap_State_Changed
       else if gs_request_serial s = expected \<and> gs_applied_serial s = expected \<and>
               gs_status s AND 1 \<noteq> 0 \<and> gs_status s AND 2 = 0 then
         (if gs_requested_width s = width \<and> gs_requested_height s = height then done_ok ()
          else done_err Vcap_State_Changed)
       else do { the (vi_delay io); geometry_wait n io width height restoring before expected }) wb = (r, w1)"
      using Suc.prems k g s by (simp add: run_on_ok)
    consider "gs_status s AND 4 \<noteq> 0"
      | "gs_status s AND 4 = 0" "gs_request_serial s \<noteq> before" "gs_request_serial s \<noteq> expected"
      | "gs_status s AND 4 = 0" "gs_request_serial s = expected" "gs_applied_serial s = expected"
        "gs_status s AND 1 \<noteq> 0" "gs_status s AND 2 = 0"
      | "gs_status s AND 4 = 0" "gs_request_serial s = before \<or> gs_request_serial s = expected"
        "\<not> (gs_request_serial s = expected \<and> gs_applied_serial s = expected \<and>
          gs_status s AND 1 \<noteq> 0 \<and> gs_status s AND 2 = 0)" by blast
    then show ?thesis
    proof cases
      case 1
      with ev sb show ?thesis by auto
    next
      case 2
      with ev sb show ?thesis by auto
    next
      case 3
      then have a: "\<not> bit (gs_status s) 2 \<and> bit (gs_status s) 0 \<and> \<not> bit (gs_status s) 1"
        using status_bits [of "gs_status s"] by simp
      show ?thesis
      proof (cases "gs_requested_width s = width \<and> gs_requested_height s = height")
        case True
        with ev 3 have "r = Inr ()" "w1 = wb" by simp_all
        with a 3 True sb g s show ?thesis by blast
      next
        case False
        with ev 3 have "r = Inl Vcap_State_Changed" "w1 = wb" by simp_all
        with sb show ?thesis by simp
      qed
    next
      case 4
      have c: "\<not> gs_status s AND 4 \<noteq> 0" "\<not> (gs_request_serial s \<noteq> before \<and> gs_request_serial s \<noteq> expected)"
        using 4 by simp_all
      have "run_state (do { the (vi_delay io); geometry_wait n io width height restoring before expected }) wb
          = (r, w1)"
        using ev unfolding if_not_P [OF c(1)] if_not_P [OF c(2)] if_not_P [OF 4(3)] .
      then have w: "run_state (geometry_wait n io width height restoring before expected) wc = (r, w1)"
        using d by simp
      note I = Suc.IH [OF w]
      have "selects_only (sent w) (sent w1)"
        using selects_only_trans [OF sb] I sc by metis
      with I show ?thesis by blast
    qed
  qed
qed auto

lemma apply_window:
  assumes "run_state (geometry_apply io width height restoring) w = (r, w1)"
  shows "(r = Inl Vcap_Invalid \<longleftrightarrow> \<not> window_ok width height) \<and> (r = Inl Vcap_Invalid \<longrightarrow> sent w1 = sent w) \<and>
    (\<exists>written. requests (sent w1) = requests (sent w) @ written \<and>
      (written \<noteq> [] \<longrightarrow> (\<exists>w2 registers w3. run_state (dedicated_registers io) w2 = (registers, w3) \<and>
         written = window_request registers width height)) \<and>
      (r = Inr () \<longrightarrow> (\<exists>before wa w2. run_state (geometry_read io) w = (Inr before, w2) \<and>
         readback io before wa w2 \<and>
         (if written = [] then applied before width height (gs_request_serial before)
          else \<exists>last w3. readback io last w3 w1 \<and> applied last width height (gs_request_serial before + 1)))))"
proof (cases "window_ok width height")
  case False
  with assms show ?thesis by (auto simp: geometry_apply_def)
next
  case ok: True
  obtain r0 wa where g: "run_state (geometry_read io) w = (r0, wa)" by fastforce
  note sa = selects_requests [OF asking_run [OF asking_read g]]
  show ?thesis
  proof (cases r0)
    case (Inl e)
    with assms ok g sa read_errors [of io w e wa] show ?thesis
      by (auto simp: geometry_apply_def run_on_ok)
  next
    case (Inr b)
    obtain run wb where k: "run_state (keep_running io restoring) wa = (run, wb)" by fastforce
    note sb = quiet_run [OF quiet_keep k]
    let ?same = "gs_status b AND 1 \<noteq> 0 \<and> gs_status b AND 6 = 0 \<and> gs_request_serial b = gs_applied_serial b \<and>
      gs_requested_width b = width \<and> gs_requested_height b = height"
    consider "\<not> run" | "run" "?same" | "run" "\<not> ?same" by blast
    then show ?thesis
    proof cases
      case 1
      with assms ok g Inr k sa sb show ?thesis by (auto simp: geometry_apply_def run_on_ok)
    next
      case 2
      then have "r = Inr ()" "w1 = wb"
        using assms ok g Inr k by (auto simp: geometry_apply_def run_on_ok)
      moreover have "applied b width height (gs_request_serial b)"
        using 2 status_bits [of "gs_status b"] by simp
      moreover obtain w0 where "readback io b w0 wa"
        using read_readback [of io w b wa] g Inr by auto
      ultimately show ?thesis using ok g Inr sa sb by (intro conjI exI [of _ "[]"]) auto
    next
      case 3
      obtain regs wc where d: "run_state (dedicated_registers io) wb = (regs, wc)" by fastforce
      obtain wd where q: "run_state (write_request io regs width height) wc = ((), wd)" by (rule run_unit)
      have t: "run_state (geometry_wait 150 io width height restoring (gs_request_serial b) (gs_request_serial b + 1)) wd
          = (r, w1)"
        using assms ok g Inr k d q 3 by (auto simp: geometry_apply_def run_on_ok split: if_splits)
      note W = wait_result [OF t]
      define L where "L = window_request regs width height"
      have L: "L \<noteq> []" by (simp add: L_def)
      have "requests L = L" by (simp add: L_def)
      then have log: "requests (sent w1) = requests (sent w) @ L"
        using selects_requests [OF conjunct1 [OF W]] write_request_sent [OF q, folded L_def] sa sb
          selects_requests [OF asking_run [OF asking_dedicated d]] by simp
      have form: "L \<noteq> [] \<longrightarrow> (\<exists>w2 registers w3. run_state (dedicated_registers io) w2 = (registers, w3) \<and>
          L = window_request registers width height)"
        unfolding L_def using d by blast
      obtain w0 where b: "readback io b w0 wa"
        using read_readback [of io w b wa] g Inr by auto
      have "\<exists>last w3. readback io last w3 w1 \<and> applied last width height (gs_request_serial b + 1)"
        if r: "r = Inr ()"
      proof -
        obtain w2 s where s: "run_state (geometry_read io) w2 = (Inr s, w1)"
          and a: "applied s width height (gs_request_serial b + 1)"
          using W r by auto
        from read_readback [OF s] a show ?thesis by blast
      qed
      then have success: "r = Inr () \<longrightarrow> (\<exists>before wa w2. run_state (geometry_read io) w = (Inr before, w2) \<and>
         readback io before wa w2 \<and>
         (if L = [] then applied before width height (gs_request_serial before)
          else \<exists>last w3. readback io last w3 w1 \<and> applied last width height (gs_request_serial before + 1)))"
        unfolding if_not_P [OF L] using g Inr b by blast
      have "r \<noteq> Inl Vcap_Invalid" using W by blast
      with log form success ok show ?thesis by blast
    qed
  qed
qed

end

interpretation ref_window: window_log ref_vcap rf_sent
  by unfold_locales (auto simp: ref_vcap_simps)

text \<open>C24: a request of a capture window. It is refused as invalid exactly when the size is out of range,
  and then nothing is written. Otherwise at most one request is written, and whole: the two dedicated registers if
  the firmware reports them, else the three writes of the card-feature form. Success means that the
  window asked for was in force already, with no request written, or that after the one request a
  readback showed the request serial advanced by exactly one and applied, the window valid, nothing pending or
  rejected, and the size asked for; each readback saw the serials and the status the same before and after the sizes.\<close>

theorem geometry_apply_acknowledged:
  assumes "window_log io sent" "run_state (geometry_apply io width height restoring) w = (r, w1)"
  shows "(r = Inl Vcap_Invalid \<longleftrightarrow>
      \<not> ((width = 0 \<or> 256 \<le> width \<and> width \<le> 1280 \<and> width AND 15 = 0) \<and>
         (height = 0 \<or> 100 \<le> height \<and> height \<le> 1024))) \<and>
    (r = Inl Vcap_Invalid \<longrightarrow> sent w1 = sent w) \<and>
    (\<exists>written. requests (sent w1) = requests (sent w) @ written \<and>
      (written \<noteq> [] \<longrightarrow> (\<exists>w2 registers w3. run_state (dedicated_registers io) w2 = (registers, w3) \<and>
         written = (if registers then [(0xA8, width), (0xAA, height)] else [(0x42, width), (0x40, 5), (0x60, height)]))) \<and>
      (r = Inr () \<longrightarrow> (\<exists>before wa w2. run_state (geometry_read io) w = (Inr before, w2) \<and>
         readback io before wa w2 \<and>
         (if written = [] then
            gs_request_serial before = gs_applied_serial before \<and>
            bit (gs_status before) 0 \<and> \<not> bit (gs_status before) 1 \<and> \<not> bit (gs_status before) 2 \<and>
            gs_requested_width before = width \<and> gs_requested_height before = height
          else \<exists>last w3. readback io last w3 w1 \<and>
            gs_request_serial last = gs_request_serial before + 1 \<and>
            gs_applied_serial last = gs_request_serial before + 1 \<and>
            bit (gs_status last) 0 \<and> \<not> bit (gs_status last) 1 \<and> \<not> bit (gs_status last) 2 \<and>
            gs_requested_width last = width \<and> gs_requested_height last = height))))"
proof -
  have range: "window_ok width height \<longleftrightarrow>
      (width = 0 \<or> 256 \<le> width \<and> width \<le> 1280 \<and> width AND 15 = 0) \<and>
      (height = 0 \<or> 100 \<le> height \<and> height \<le> 1024)"
    by (auto simp: window_ok_def not_less)
  show ?thesis
    using window_log.apply_window [OF assms] unfolding range by (simp only: simp_thms eq_commute) blast
qed

lemma ref_attempt:
  "run_state (geometry_attempt ref_vcap) w = (Inr (True, rf_geo w), w\<lparr>rf_key := 34,
     rf_sent := rf_sent w @ map (Pair 0xE8) [32, 33, 34, 28, 29, 30, 31, 32, 33, 34]\<rparr>)"
  unfolding geometry_attempt_def by (simp add: run_on_ok ref_query geometry_field_def)

lemma ref_read:
  "run_state (geometry_read ref_vcap) w = (Inr (rf_geo w), w\<lparr>rf_key := 34,
     rf_sent := rf_sent w @ map (Pair 0xE8) [32, 33, 34, 28, 29, 30, 31, 32, 33, 34]\<rparr>)"
proof -
  have "run_state (geometry_loop (Suc 7) ref_vcap) w = (Inr (rf_geo w), w\<lparr>rf_key := 34,
     rf_sent := rf_sent w @ map (Pair 0xE8) [32, 33, 34, 28, 29, 30, 31, 32, 33, 34]\<rparr>)"
    unfolding geometry_loop.simps run_on_ok ref_attempt by simp
  then show ?thesis
    by (simp add: geometry_read_def geometry_supported_def ref_vcap_simps rf_value_def)
qed

text \<open>The second reading of the reference card finds the request applied.\<close>

lemma ref_wait:
  assumes "2 \<le> n" "gs_request_serial (rf_geo w) = expected" "gs_applied_serial (rf_geo w) \<noteq> expected"
    "gs_status (rf_geo w) = 3" "gs_requested_width (rf_geo w) = width" "gs_requested_height (rf_geo w) = height"
  shows "\<exists>ex. requests ex = [] \<and> run_state (geometry_wait n ref_vcap width height restoring before expected) w =
    (Inr (), w\<lparr>rf_geo := rf_apply (rf_geo w), rf_key := 34, rf_sent := rf_sent w @ ex\<rparr>)"
proof -
  obtain k where "n = Suc (Suc k)" using assms(1) by (metis add_2_eq_Suc le_Suc_ex)
  with assms(2-) show ?thesis
    by (intro exI [of _ "map (Pair 0xE8) ([32, 33, 34, 28, 29, 30, 31, 32, 33, 34] @ [32, 33, 34, 28, 29, 30, 31, 32, 33, 34])"])
      (simp add: run_on_ok ref_read keep_running_def ref_vcap_simps rf_apply_def)
qed

theorem geometry_apply_acknowledged_witness:
  "\<exists>w1. run_state (geometry_apply ref_vcap 720 256 False) ref_idle = (Inr (), w1) \<and>
     requests (rf_sent w1) = [(0xA8, 720), (0xAA, 256)] \<and> gs_applied_width (rf_geo w1) = 720 \<and>
     (\<exists>before last w2 w3. run_state (geometry_read ref_vcap) ref_idle = (Inr before, w2) \<and>
        readback ref_vcap last w3 w1 \<and> gs_applied_serial last = gs_request_serial before + 1)"
proof -
  define w0 where "w0 = ref_idle\<lparr>rf_key := 36, rf_width := 720, rf_geo := (rf_geo ref_idle)\<lparr>gs_requested_width := 720,
     gs_requested_height := 256, gs_request_serial := 5, gs_status := 3\<rparr>,
     rf_sent := map (Pair 0xE8) [32, 33, 34, 28, 29, 30, 31, 32, 33, 34, 36] @ [(0xA8, 720), (0xAA, 256)]\<rparr>"
  have a: "run_state (geometry_apply ref_vcap 720 256 False) ref_idle =
      run_state (geometry_wait 150 ref_vcap 720 256 False 4 5) w0"
    by (simp add: geometry_apply_def window_ok_def run_on_ok ref_read keep_running_def ref_vcap_simps
      dedicated_registers_def ref_query geometry_field_def write_request_def opt_call_def rf_write_def
      ref_idle_def w0_def Let_def)
  obtain ex where "requests ex = []" "run_state (geometry_wait 150 ref_vcap 720 256 False 4 5) w0 =
      (Inr (), w0\<lparr>rf_geo := rf_apply (rf_geo w0), rf_key := 34, rf_sent := rf_sent w0 @ ex\<rparr>)"
    using ref_wait [of 150 w0 5 720 256 False 4] by (auto simp: w0_def ref_idle_def)
  with a have "\<exists>w1. run_state (geometry_apply ref_vcap 720 256 False) ref_idle = (Inr (), w1) \<and>
      requests (rf_sent w1) = [(0xA8, 720), (0xAA, 256)] \<and> gs_applied_width (rf_geo w1) = 720"
    by (simp add: w0_def rf_apply_def)
  then obtain w1 where r: "run_state (geometry_apply ref_vcap 720 256 False) ref_idle = (Inr (), w1)"
    and q: "requests (rf_sent w1) = [(0xA8, 720), (0xAA, 256)]" "gs_applied_width (rf_geo w1) = 720" by blast
  have e: "requests (rf_sent ref_idle) = []" by (simp add: ref_idle_def)
  from geometry_apply_acknowledged [OF ref_window.window_log_axioms r] q(1) e
  have "\<exists>before last w2 w3. run_state (geometry_read ref_vcap) ref_idle = (Inr before, w2) \<and>
        readback ref_vcap last w3 w1 \<and> gs_applied_serial last = gs_request_serial before + 1"
    by (fastforce split: if_splits)
  with r q show ?thesis by blast
qed

end
