(* ===== verification/RtgMode.thy ===== *)
theory RtgMode
  imports Prelude
begin

text \<open>
  Graphics modes of the Picasso96 driver: the fixed timing table (\<^verbatim>\<open>rtg/mode_timing.h\<close>), the PLL of
  the card and the resolution of a requested pixel clock (\<^verbatim>\<open>include/zz_custom_mode.h\<close>), the
  conversion of a Picasso96 mode into a preset or a custom modeline and the register transaction that
  programs a custom one (\<^verbatim>\<open>rtg/custom_modeline.h\<close>).
\<close>

section \<open>Fixed timings\<close>

record mode_timing =
  mt_width :: u16
  mt_height :: u16
  mt_mode_id :: u16
  mt_hsync_start :: u16
  mt_hsync_end :: u16
  mt_htotal :: u16
  mt_vsync_start :: u16
  mt_vsync_end :: u16
  mt_vtotal :: u16
  mt_clock :: u32

definition timing_row ::
  "u16 \<Rightarrow> u16 \<Rightarrow> u16 \<Rightarrow> u16 \<Rightarrow> u16 \<Rightarrow> u16 \<Rightarrow> u16 \<Rightarrow> u16 \<Rightarrow> u16 \<Rightarrow> u32 \<Rightarrow> mode_timing" where
  "timing_row w h m hs he ht vs ve vt clk =
     \<lparr>mt_width = w, mt_height = h, mt_mode_id = m, mt_hsync_start = hs, mt_hsync_end = he, mt_htotal = ht,
      mt_vsync_start = vs, mt_vsync_end = ve, mt_vtotal = vt, mt_clock = clk\<rparr>"

definition mode_timings :: "mode_timing list" where
  "mode_timings =
    [timing_row 1280  720  0 1390 1430 1650  725  730  750  75000000,
     timing_row  800  600  1  840  968 1056  601  605  628  40000000,
     timing_row  640  480  2  656  752  800  490  492  525  25000000,
     timing_row  640  400 16  656  752  800  490  492  525  25000000,
     timing_row 1024  768  3 1048 1184 1344  771  777  806  65000000,
     timing_row 1280 1024  4 1328 1440 1688 1025 1028 1066 108000000,
     timing_row 1920 1080  5 2008 2052 2200 1084 1089 1125 148571429,
     timing_row  720  576  6  732  796  864  581  586  625  27108434,
     timing_row  720  480  8  736  768  800  490  492  525  25333333,
     timing_row  640  512  9  840  968 1056  601  605  628  40000000,
     timing_row 1600 1200 10 1704 1880 2160 1201 1204 1242 161538462,
     timing_row 2560 1440 11 2680 2944 3328 1441 1444 1465 146428571,
     timing_row 1920  800 17 2024 2224 2528  801  804  828 125000000]"

definition timing_for_output_size :: "u16 \<Rightarrow> u16 \<Rightarrow> mode_timing option" where
  "timing_for_output_size width height =
     List.find (\<lambda>t. mt_width t = width \<and> mt_height t = height) mode_timings"

definition timing_for_logical_size :: "u16 \<Rightarrow> u16 \<Rightarrow> mode_timing option" where
  "timing_for_logical_size width height =
     (if width < 640 \<and> height < 480 then timing_for_output_size (width * 2) (height * 2)
      else timing_for_output_size width height)"

section \<open>The PLL\<close>

record custom_mode =
  cm_width :: u16
  cm_height :: u16
  cm_hsync_start :: u16
  cm_hsync_end :: u16
  cm_htotal :: u16
  cm_vsync_start :: u16
  cm_vsync_end :: u16
  cm_vtotal :: u16
  cm_polarity :: u16
  cm_mul :: u16
  cm_div :: u16
  cm_div2 :: u16

definition MIN_CLOCK_HZ :: u32 where "MIN_CLOCK_HZ = 25000000"
definition MAX_CLOCK_HZ :: u32 where "MAX_CLOCK_HZ = 165000000"

definition custom_clock_hz :: "u16 \<Rightarrow> u16 \<Rightarrow> u16 \<Rightarrow> u32" where
  "custom_clock_hz mul div' div2 =
     (let m = (ucast mul :: u32); d = (ucast div' :: u32); e = (ucast div2 :: u32) in
      if m < 2 \<or> m > 64 \<or> d < 1 \<or> d > 5 \<or> e < 1 \<or> e > 128 \<or>
         100 * m < 1000 * d \<or> 100 * m > 1500 * d then 0
      else
        let denominator = d * e;
            numerator = (100000000 :: u64) * ucast mul
        in ucast ((numerator + ucast (denominator div 2)) div ucast denominator))"

definition custom_geometry_valid :: "custom_mode \<Rightarrow> bool" where
  "custom_geometry_valid m =
     (cm_width m \<ge> 320 \<and> cm_width m \<le> 2560 \<and> cm_width m mod 8 = 0 \<and> cm_height m \<ge> 200 \<and>
      cm_width m < cm_hsync_start m \<and> cm_hsync_start m < cm_hsync_end m \<and>
      cm_hsync_end m < cm_htotal m \<and> cm_htotal m \<le> 4095 \<and>
      cm_height m < cm_vsync_start m \<and> cm_vsync_start m < cm_vsync_end m \<and>
      cm_vsync_end m < cm_vtotal m \<and> cm_vtotal m \<le> 4095 \<and> cm_polarity m \<le> 1)"

definition custom_mode_valid :: "custom_mode \<Rightarrow> bool" where
  "custom_mode_valid m =
     (let hz = custom_clock_hz (cm_mul m) (cm_div m) (cm_div2 m)
      in custom_geometry_valid m \<and> hz \<ge> MIN_CLOCK_HZ \<and> hz \<le> MAX_CLOCK_HZ)"

text \<open>
  The search for the nearest clock is three nested \<^verbatim>\<open>for\<close> loops whose conditions all contain
  \<^verbatim>\<open>best_error != 0\<close>; \<open>search body xs b\<close> is such a loop over the counter values \<open>xs\<close>.
\<close>

record pll_best =
  pb_error :: u32
  pb_hz :: u32
  pb_mul :: u16
  pb_div :: u16
  pb_div2 :: u16

fun search :: "('a \<Rightarrow> pll_best \<Rightarrow> pll_best) \<Rightarrow> 'a list \<Rightarrow> pll_best \<Rightarrow> pll_best" where
  "search body [] b = b"
| "search body (x # xs) b = (if pb_error b = 0 then b else search body xs (body x b))"

definition try_divider :: "u32 \<Rightarrow> u16 \<Rightarrow> u16 \<Rightarrow> u32 \<Rightarrow> pll_best \<Rightarrow> pll_best" where
  "try_divider requested mul div' candidate b =
     (if candidate < 1 \<or> candidate > 128 then b
      else let hz = custom_clock_hz mul div' (ucast candidate) in
        if hz < MIN_CLOCK_HZ \<or> hz > MAX_CLOCK_HZ then b
        else let err = (if hz > requested then hz - requested else requested - hz) in
          if err < pb_error b
          then \<lparr>pb_error = err, pb_hz = hz, pb_mul = mul, pb_div = div', pb_div2 = ucast candidate\<rparr>
          else b)"

definition output_divider :: "u32 \<Rightarrow> u16 \<Rightarrow> u16 \<Rightarrow> u32" where
  "output_divider requested mul div' =
     ucast ((100000000 :: u64) * ucast mul div (ucast requested * ucast div'))"

definition try_pair :: "u32 \<Rightarrow> u16 \<Rightarrow> u16 \<Rightarrow> pll_best \<Rightarrow> pll_best" where
  "try_pair requested mul div' =
     search (try_divider requested mul div')
       [output_divider requested mul div', output_divider requested mul div' + 1]"

definition resolve_search :: "u32 \<Rightarrow> pll_best" where
  "resolve_search requested =
     search (\<lambda>d. search (\<lambda>m. try_pair requested (of_nat m) (of_nat d)) [10 * d..<min 65 (15 * d + 1)]) [1..<6]
       \<lparr>pb_error = - 1, pb_hz = 0, pb_mul = 0, pb_div = 0, pb_div2 = 0\<rparr>"

definition resolve_clock :: "u32 \<Rightarrow> custom_mode \<Rightarrow> u32 \<times> custom_mode" where
  "resolve_clock requested mode =
     (if requested < MIN_CLOCK_HZ \<or> requested > MAX_CLOCK_HZ then (0, mode)
      else let b = resolve_search requested in
        if pb_hz b = 0 \<or> pb_error b > requested div 200 then (0, mode)
        else (pb_hz b, mode\<lparr>cm_mul := pb_mul b, cm_div := pb_div b, cm_div2 := pb_div2 b\<rparr>))"

section \<open>Picasso96 modes\<close>

record p96_mode =
  p_width :: u16
  p_height :: u16
  p_hor_total :: u16
  p_hor_sync_start :: u16
  p_hor_sync_size :: u16
  p_ver_total :: u16
  p_ver_sync_start :: u16
  p_ver_sync_size :: u16
  p_flags :: u16
  p_pixel_clock :: u32

definition GMF_UNSUPPORTED :: u16 where "GMF_UNSUPPORTED = 0x47"
definition GMF_HPOLARITY :: u16 where "GMF_HPOLARITY = 0x08"
definition GMF_VPOLARITY :: u16 where "GMF_VPOLARITY = 0x10"
definition FW_CAP_CUSTOM_MODE :: u16 where "FW_CAP_CUSTOM_MODE = 0x80"

datatype modeline_action = Modeline_Reject | Modeline_Preset | Modeline_Custom

record modeline_plan =
  mp_action :: modeline_action
  mp_scale :: u8
  mp_preset :: "mode_timing option"
  mp_custom :: custom_mode
  mp_achieved :: u32

text \<open>
  The scale is an out-parameter: the second component is the value the caller finds there, untouched when the mode is too small.
\<close>

definition preset_for_dimensions :: "p96_mode \<Rightarrow> u16 \<Rightarrow> mode_timing option \<times> u16" where
  "preset_for_dimensions p scale =
     (if p_width p < 320 \<or> p_height p < 200 then (None, scale)
      else (timing_for_logical_size (p_width p) (p_height p),
            if p_width p < 640 \<and> p_height p < 480 then 3 else 0))"

definition matching_preset :: "p96_mode \<Rightarrow> u16 \<Rightarrow> mode_timing option \<times> u16" where
  "matching_preset p scale =
     (case preset_for_dimensions p scale of
        (None, s) \<Rightarrow> (None, s)
      | (Some t, s) \<Rightarrow>
          (if p_hor_total p \<noteq> mt_htotal t \<or> p_hor_sync_start p \<noteq> mt_hsync_start t - p_width p \<or>
              p_hor_sync_size p \<noteq> mt_hsync_end t - mt_hsync_start t \<or>
              p_ver_total p \<noteq> mt_vtotal t \<or> p_ver_sync_start p \<noteq> mt_vsync_start t - p_height p \<or>
              p_ver_sync_size p \<noteq> mt_vsync_end t - mt_vsync_start t \<or>
              p_pixel_clock p \<noteq> mt_clock t
           then None else Some t, s))"

definition to_custom_mode :: "p96_mode \<Rightarrow> custom_mode \<Rightarrow> bool \<times> custom_mode" where
  "to_custom_mode p mode =
     (if p_flags p AND GMF_UNSUPPORTED \<noteq> 0 then (False, mode)
      else let h_negative = (if p_flags p AND GMF_HPOLARITY \<noteq> 0 then 1 else 0 :: u16);
               v_negative = (if p_flags p AND GMF_VPOLARITY \<noteq> 0 then 1 else 0 :: u16) in
        if h_negative \<noteq> v_negative then (False, mode)
        else let hsync_start = (ucast (p_width p) :: u32) + ucast (p_hor_sync_start p);
                 hsync_end = hsync_start + ucast (p_hor_sync_size p);
                 vsync_start = (ucast (p_height p) :: u32) + ucast (p_ver_sync_start p);
                 vsync_end = vsync_start + ucast (p_ver_sync_size p) in
          if hsync_end > 0xffff \<or> vsync_end > 0xffff then (False, mode)
          else let m = \<lparr>cm_width = p_width p, cm_height = p_height p, cm_hsync_start = ucast hsync_start,
                        cm_hsync_end = ucast hsync_end, cm_htotal = p_hor_total p,
                        cm_vsync_start = ucast vsync_start, cm_vsync_end = ucast vsync_end,
                        cm_vtotal = p_ver_total p, cm_polarity = h_negative,
                        cm_mul = 0, cm_div = 0, cm_div2 = 0\<rparr>
               in (custom_geometry_valid m, m))"

definition plan_core :: "p96_mode \<Rightarrow> u16 \<Rightarrow> bool \<Rightarrow> modeline_plan \<Rightarrow> bool \<times> modeline_plan" where
  "plan_core p caps complete plan0 =
     (let plan = plan0\<lparr>mp_action := Modeline_Reject, mp_scale := 0, mp_preset := None, mp_achieved := 0\<rparr> in
      if caps AND FW_CAP_CUSTOM_MODE \<noteq> 0 then
        (case matching_preset p 0 of
           (Some t, s) \<Rightarrow> (True, plan\<lparr>mp_preset := Some t, mp_scale := ucast s, mp_action := Modeline_Preset\<rparr>)
         | (None, s) \<Rightarrow>
             (case (if complete then to_custom_mode p (mp_custom plan) else (True, mp_custom plan)) of (ok, cm) \<Rightarrow>
                if \<not> ok then (False, plan\<lparr>mp_custom := cm\<rparr>)
                else case resolve_clock (p_pixel_clock p) cm of (hz, cm1) \<Rightarrow>
                  let plan1 = plan\<lparr>mp_custom := cm1, mp_achieved := hz\<rparr> in
                  if hz = 0 then (False, plan1) else (True, plan1\<lparr>mp_action := Modeline_Custom\<rparr>)))
      else
        (case preset_for_dimensions p 0 of
           (None, s) \<Rightarrow> (False, plan)
         | (Some t, s) \<Rightarrow> (True, plan\<lparr>mp_preset := Some t, mp_scale := ucast s, mp_action := Modeline_Preset\<rparr>)))"

definition plan_modeline :: "p96_mode \<Rightarrow> u16 \<Rightarrow> modeline_plan \<Rightarrow> bool \<times> modeline_plan" where
  "plan_modeline p caps plan = plan_core p caps True plan"

definition negotiate_pixel_clock :: "p96_mode \<Rightarrow> u16 \<Rightarrow> modeline_plan \<Rightarrow> bool \<times> modeline_plan" where
  "negotiate_pixel_clock p caps plan = plan_core p caps False plan"

section \<open>Programming a custom modeline\<close>

definition REG_PARAM :: u16 where "REG_PARAM = 0x52"
definition REG_VALUE :: u16 where "REG_VALUE = 0x54"
definition REG_SELECT :: u16 where "REG_SELECT = 0x56"
definition REG_COMMIT :: u16 where "REG_COMMIT = 0x58"
definition CUSTOM_MODE_SLOT :: u16 where "CUSTOM_MODE_SLOT = 20"

text \<open>The parameter of each \<^verbatim>\<open>PARAM\<close>/\<^verbatim>\<open>VALUE\<close> pair in the order the code stages them.\<close>

definition staged_fields :: "custom_mode \<Rightarrow> (u16 \<times> u16) list" where
  "staged_fields m =
     [(0, cm_width m), (1, cm_height m), (2, cm_hsync_start m), (3, cm_hsync_end m), (4, cm_htotal m),
      (5, cm_vsync_start m), (6, cm_vsync_end m), (7, cm_vtotal m), (8, cm_polarity m),
      (13, cm_mul m), (14, cm_div m), (15, cm_div2 m)]"

text \<open>
  The write and status callbacks act on a world of the caller's type.
\<close>

definition stage_and_commit ::
    "custom_mode \<Rightarrow> u8 \<Rightarrow> (u16 \<Rightarrow> u16 \<Rightarrow> 'w \<Rightarrow> 'w) \<Rightarrow> ('w \<Rightarrow> u16 \<times> 'w) \<Rightarrow> 'w \<Rightarrow> bool \<times> 'w" where
  "stage_and_commit m colormode write read_status w =
     (let w1 = write REG_SELECT CUSTOM_MODE_SLOT w;
          w2 = fold (\<lambda>(f, v). write REG_VALUE v \<circ> write REG_PARAM f) (staged_fields m) w1;
          w3 = write REG_COMMIT (CUSTOM_MODE_SLOT OR push_bit 8 (ucast colormode)) w2
      in case read_status w3 of (st, w4) \<Rightarrow> (st = 1, w4))"

end
