(* ===== verification/RtgMode_Correct.thy ===== *)
theory RtgMode_Correct
  imports RtgMode
begin

text \<open>
  The resolved pixel clock is the nearest one over every legal PLL tuple whose clock lies between 25 and
  165 MHz, a planned custom modeline
  is valid and is the timing Picasso96 asked for, and the register transaction transfers exactly the
  required fields.
\<close>

section \<open>The clock of a tuple\<close>

definition legal_tuple :: "nat \<Rightarrow> nat \<Rightarrow> nat \<Rightarrow> bool" where
  "legal_tuple m d e = (2 \<le> m \<and> m \<le> 64 \<and> 1 \<le> d \<and> d \<le> 5 \<and> 1 \<le> e \<and> e \<le> 128 \<and> 10 * d \<le> m \<and> m \<le> 15 * d)"

definition clock_nat :: "nat \<Rightarrow> nat \<Rightarrow> nat \<Rightarrow> nat" where
  "clock_nat m d e = (100000000 * m + d * e div 2) div (d * e)"

lemma unat_u16_less: "unat (x :: u16) < 65536"
  using unat_lt [of x] by simp

lemma unat_scaled:
  "100 * unat (ucast (x :: u16) :: u32) < 4294967296" "unat (100 * (ucast x :: u32)) = 100 * unat x"
  "unat (1000 * (ucast x :: u32)) = 1000 * unat x" "unat (1500 * (ucast x :: u32)) = 1500 * unat x"
  using unat_u16_less [of x] by (simp_all add: unat_word_ariths)

lemma clock_nat_bound:
  assumes "legal_tuple m d e"
  shows "clock_nat m d e < 4294967296"
    and "100000000 * m + d * e div 2 < 18446744073709551616" and "d * e \<le> 640" and "1 \<le> d * e"
proof -
  from assms have b: "m \<le> 64" "d \<le> 5" "e \<le> 128" "m \<le> 15 * d" "1 \<le> d" "1 \<le> e" by (simp_all add: legal_tuple_def)
  show de: "d * e \<le> 640" using mult_le_mono [OF b(2,3)] by simp
  show pos: "1 \<le> d * e" using b by (simp add: Suc_le_eq)
  show "100000000 * m + d * e div 2 < 18446744073709551616" using b de by linarith
  have "100000000 * m + d * e div 2 \<le> 1500000001 * (d * e)"
  proof -
    have "d \<le> d * e" using b by simp
    then show ?thesis using b by linarith
  qed
  then have "clock_nat m d e \<le> 1500000001 * (d * e) div (d * e)" unfolding clock_nat_def
    by (rule div_le_mono)
  then have "clock_nat m d e \<le> 1500000001" using pos by simp
  then show "clock_nat m d e < 4294967296" by simp
qed

lemma custom_clock_hz_nat:
  "unat (custom_clock_hz mul d e) =
    (if legal_tuple (unat mul) (unat d) (unat e) then clock_nat (unat mul) (unat d) (unat e) else 0)"
proof (cases "legal_tuple (unat mul) (unat d) (unat e)")
  case False
  then show ?thesis
    by (simp add: custom_clock_hz_def Let_def legal_tuple_def word_less_nat_alt unat_scaled) linarith
next
  case True
  note b = clock_nat_bound [OF True]
  have u: "unat ((ucast d :: u32) * ucast e) = unat d * unat e"
    using b(3) by (simp add: unat_word_ariths)
  have n: "unat ((100000000 :: u64) * ucast mul + ucast ((ucast d :: u32) * ucast e div 2))
      = 100000000 * unat mul + unat d * unat e div 2"
    using b(2,3) by (simp add: unat_word_ariths u unat_div)
  have "unat (((100000000 :: u64) * ucast mul + ucast ((ucast d :: u32) * ucast e div 2)) div ucast ((ucast d :: u32) * ucast e))
      = clock_nat (unat mul) (unat d) (unat e)"
    unfolding unat_div n by (simp add: u clock_nat_def)
  with b(1) have "unat (ucast (((100000000 :: u64) * ucast mul + ucast ((ucast d :: u32) * ucast e div 2)) div ucast ((ucast d :: u32) * ucast e)) :: u32)
      = clock_nat (unat mul) (unat d) (unat e)"
    by (subst unat_ucast_down) simp_all
  with True show ?thesis
    by (simp add: custom_clock_hz_def Let_def legal_tuple_def word_less_nat_alt unat_scaled)
qed

section \<open>The nearest clock\<close>

lemma rounded_div_antimono:
  assumes "0 < a" "a \<le> (b :: nat)"
  shows "(n + b div 2) div b \<le> (n + a div 2) div a"
proof (cases "(n + b div 2) div b")
  case (Suc k)
  let ?q = "Suc k"
  have "?q * b \<le> n + b div 2" using assms Suc [symmetric] by (simp add: less_eq_div_iff_mult_less_eq [symmetric])
  then have "(2 * k + 1) * b \<le> 2 * n" by (simp add: algebra_simps)
  moreover have "(2 * k + 1) * a \<le> (2 * k + 1) * b" using assms by (intro mult_le_mono) simp_all
  ultimately have "(2 * k + 1) * a \<le> 2 * n" by linarith
  then have "?q * a \<le> n + a div 2" by (simp add: algebra_simps)
  then show ?thesis unfolding Suc using assms by (simp add: less_eq_div_iff_mult_less_eq)
qed simp

lemma clock_nat_antimono: "0 < d \<Longrightarrow> 0 < e \<Longrightarrow> e \<le> e' \<Longrightarrow> clock_nat m d e' \<le> clock_nat m d e"
  unfolding clock_nat_def by (rule rounded_div_antimono) simp_all

text \<open>Rounding to nearest does not cross an integer: at or above, or at or below.\<close>

lemma clock_nat_above: "0 < d \<Longrightarrow> 0 < e \<Longrightarrow> r * (d * e) \<le> 100000000 * m \<Longrightarrow> r \<le> clock_nat m d e"
  unfolding clock_nat_def by (simp add: less_eq_div_iff_mult_less_eq)

lemma clock_nat_below: "0 < d \<Longrightarrow> 0 < e \<Longrightarrow> 100000000 * m \<le> r * (d * e) \<Longrightarrow> clock_nat m d e \<le> r"
proof -
  assume a: "0 < d" "0 < e" "100000000 * m \<le> r * (d * e)"
  then have "d * e div 2 < d * e" by simp
  with a(3) have "100000000 * m + d * e div 2 < Suc r * (d * e)" unfolding mult_Suc by linarith
  then show ?thesis unfolding clock_nat_def using a by (simp add: less_mult_imp_div_less less_Suc_eq_le [symmetric])
qed

definition dist :: "nat \<Rightarrow> nat \<Rightarrow> nat" where
  "dist r h = (if h > r then h - r else r - h)"

text \<open>For one feedback pair only the two output dividers around the exact quotient matter.\<close>

lemma adjacent_divider:
  assumes "legal_tuple m d e" "25000000 \<le> clock_nat m d e" "clock_nat m d e \<le> 165000000"
    and r: "25000000 \<le> r" "r \<le> 165000000"
  defines "od \<equiv> 100000000 * m div (r * d)"
  shows "od \<le> 60 \<and> (\<exists>c \<in> {od, od + 1}. legal_tuple m d c \<and> 25000000 \<le> clock_nat m d c \<and> clock_nat m d c \<le> 165000000 \<and>
    dist r (clock_nat m d c) \<le> dist r (clock_nat m d e))"
proof -
  from assms(1) have b: "1 \<le> d" "1 \<le> e" "m \<le> 15 * d" by (simp_all add: legal_tuple_def)
  have rd: "0 < r * d" using r b by simp
  have quot: "od * (r * d) \<le> 100000000 * m" "100000000 * m < (od + 1) * (r * d)"
    unfolding od_def using div_mult_mod_eq [of "100000000 * m" "r * d"] mod_less_divisor [OF rd, of "100000000 * m"]
    by (simp_all add: algebra_simps)
  have "25000000 * d \<le> r * d" using r by simp
  then have "100000000 * m \<le> 60 * (r * d)" using b by linarith
  then have od: "od \<le> 60" unfolding od_def using rd by (metis div_le_mono nonzero_mult_div_cancel_right less_numeral_extra(3))
  show ?thesis
  proof (cases "e \<le> od")
    case True
    with b od have legal: "legal_tuple m d od" using assms(1) by (simp add: legal_tuple_def)
    have "clock_nat m d od \<le> clock_nat m d e" using b True by (intro clock_nat_antimono) simp_all
    moreover have "r \<le> clock_nat m d od" using b True quot(1) by (intro clock_nat_above) (simp_all add: ac_simps)
    ultimately show ?thesis using legal od r assms(3) by (auto simp: dist_def)
  next
    case False
    with od have legal: "legal_tuple m d (od + 1)" using assms(1) by (simp add: legal_tuple_def)
    have "clock_nat m d e \<le> clock_nat m d (od + 1)" using False b by (intro clock_nat_antimono) simp_all
    moreover have "100000000 * m \<le> r * (d * (od + 1))" using quot(2) by (simp only: ac_simps less_imp_le)
    then have "clock_nat m d (od + 1) \<le> r" using b by (intro clock_nat_below) simp_all
    ultimately show ?thesis using legal od r assms(2) by (auto simp: dist_def)
  qed
qed

section \<open>The search\<close>

lemma search_invariant: "(\<And>x b. P b \<Longrightarrow> P (body x b)) \<Longrightarrow> P b \<Longrightarrow> P (search body xs b)"
  by (induction xs arbitrary: b) simp_all

lemma search_descends: "(\<And>x b. pb_error (body x b) \<le> pb_error b) \<Longrightarrow> pb_error (search body xs b) \<le> pb_error b"
  by (induction xs arbitrary: b) (auto intro: order_trans)

lemma search_covers:
  assumes "\<And>x b. pb_error (body x b) \<le> pb_error b" "x \<in> set xs" "\<And>b. unat (pb_error (body x b)) \<le> k"
  shows "unat (pb_error (search body xs b)) \<le> k"
  using assms(2)
proof (induction xs arbitrary: b)
  case (Cons y ys)
  show ?case
  proof (cases "pb_error b = 0")
    case False
    show ?thesis
    proof (cases "x = y")
      case True
      with False show ?thesis
        using search_descends [of body ys "body x b", OF assms(1)] assms(3) [of b]
        by (simp add: word_le_nat_alt)
    qed (use Cons False in simp)
  qed simp
qed simp

definition pll_ok :: "u32 \<Rightarrow> pll_best \<Rightarrow> bool" where
  "pll_ok requested b = ((pb_hz b = 0 \<and> pb_error b = - 1) \<or>
     (pb_hz b = custom_clock_hz (pb_mul b) (pb_div b) (pb_div2 b) \<and> MIN_CLOCK_HZ \<le> pb_hz b \<and> pb_hz b \<le> MAX_CLOCK_HZ \<and>
      unat (pb_error b) = dist (unat requested) (unat (pb_hz b))))"

lemma unat_distance: "unat (if hz > requested then hz - requested else requested - hz :: u32) = dist (unat requested) (unat hz)"
  by (simp add: dist_def word_less_nat_alt unat_minus_le word_le_nat_alt)

lemma try_divider_cases:
  obtains "try_divider requested mul d c b = b"
  | hz err where "hz = custom_clock_hz mul d (ucast c)" "MIN_CLOCK_HZ \<le> hz" "hz \<le> MAX_CLOCK_HZ"
    "unat err = dist (unat requested) (unat hz)" "err < pb_error b"
    "try_divider requested mul d c b = \<lparr>pb_error = err, pb_hz = hz, pb_mul = mul, pb_div = d, pb_div2 = ucast c\<rparr>"
proof -
  define hz where "hz = custom_clock_hz mul d (ucast c)"
  define err where "err = (if hz > requested then hz - requested else requested - hz)"
  have t: "try_divider requested mul d c b =
      (if c < 1 \<or> c > 128 \<or> hz < MIN_CLOCK_HZ \<or> hz > MAX_CLOCK_HZ \<or> \<not> err < pb_error b then b
       else \<lparr>pb_error = err, pb_hz = hz, pb_mul = mul, pb_div = d, pb_div2 = ucast c\<rparr>)"
    unfolding try_divider_def Let_def hz_def [symmetric] err_def [symmetric] by simp
  show thesis
  proof (cases "c < 1 \<or> c > 128 \<or> hz < MIN_CLOCK_HZ \<or> hz > MAX_CLOCK_HZ \<or> \<not> err < pb_error b")
    case True
    with t that(1) show ?thesis by (simp only: if_True)
  next
    case False
    with t have "try_divider requested mul d c b = \<lparr>pb_error = err, pb_hz = hz, pb_mul = mul, pb_div = d, pb_div2 = ucast c\<rparr>"
      by (simp only: if_False)
    with False that(2) [OF hz_def, of err] show ?thesis
      using unat_distance [of requested hz, folded err_def] by (auto simp: not_less not_le)
  qed
qed

lemma try_divider_ok: "pll_ok requested b \<Longrightarrow> pll_ok requested (try_divider requested mul d c b)"
  by (cases rule: try_divider_cases [of requested mul d c b]) (simp_all add: pll_ok_def)

lemma try_divider_descends: "pb_error (try_divider requested mul d c b) \<le> pb_error b"
  by (cases rule: try_divider_cases [of requested mul d c b]) simp_all

lemma try_divider_reaches:
  assumes "1 \<le> c" "c \<le> 128" "MIN_CLOCK_HZ \<le> custom_clock_hz mul d (ucast c)"
    "custom_clock_hz mul d (ucast c) \<le> MAX_CLOCK_HZ"
  shows "unat (pb_error (try_divider requested mul d c b)) \<le> dist (unat requested) (unat (custom_clock_hz mul d (ucast c)))"
proof -
  define hz where "hz = custom_clock_hz mul d (ucast c)"
  define err where "err = (if hz > requested then hz - requested else requested - hz)"
  have "try_divider requested mul d c b = (if err < pb_error b
      then \<lparr>pb_error = err, pb_hz = hz, pb_mul = mul, pb_div = d, pb_div2 = ucast c\<rparr> else b)"
    using assms unfolding try_divider_def Let_def hz_def [symmetric] err_def [symmetric]
    by (simp add: not_less [symmetric])
  then have "pb_error (try_divider requested mul d c b) \<le> err" by (simp add: not_less)
  then show ?thesis
    using unat_distance [of requested hz, folded err_def] by (simp add: word_le_nat_alt hz_def [symmetric])
qed

lemma try_pair_ok: "pll_ok requested b \<Longrightarrow> pll_ok requested (try_pair requested mul d b)"
  unfolding try_pair_def by (rule search_invariant) (rule try_divider_ok)

lemma try_pair_descends: "pb_error (try_pair requested mul d b) \<le> pb_error b"
  unfolding try_pair_def by (rule search_descends) (rule try_divider_descends)

lemma resolve_search_ok: "pll_ok requested (resolve_search requested)"
  unfolding resolve_search_def
  by (intro search_invariant [where P = "pll_ok requested"] try_pair_ok) (simp_all add: pll_ok_def)

lemma output_divider_nat:
  assumes "25000000 \<le> unat requested" "1 \<le> unat d" "unat d \<le> 5"
  shows "unat (output_divider requested mul d) = 100000000 * unat mul div (unat requested * unat d)"
proof -
  have "unat requested * unat d \<le> 4294967295 * 5"
    using unat_lt [of requested] assms by (intro mult_le_mono) simp_all
  then have den: "unat ((ucast requested :: u64) * ucast d) = unat requested * unat d"
    by (simp add: unat_word_ariths)
  have num: "unat ((100000000 :: u64) * ucast mul) = 100000000 * unat mul"
    using unat_u16_less [of mul] by (simp add: unat_word_ariths)
  have "100000000 * unat mul div (unat requested * unat d) \<le> 100000000 * unat mul div 25000000"
    using assms by (intro div_le_mono2) (simp_all add: le_trans [OF _ mult_le_mono [of 25000000 "unat requested" 1]])
  also have "\<dots> < 4294967296" using unat_u16_less [of mul] by simp
  finally show ?thesis unfolding output_divider_def
    by (subst unat_ucast_down) (simp_all add: unat_div den num)
qed

lemma range_nat:
  "MIN_CLOCK_HZ \<le> x \<longleftrightarrow> 25000000 \<le> unat x" "x \<le> MAX_CLOCK_HZ \<longleftrightarrow> unat x \<le> 165000000"
  "x < MIN_CLOCK_HZ \<longleftrightarrow> unat x < 25000000" "x > MAX_CLOCK_HZ \<longleftrightarrow> unat x > 165000000"
  by (simp_all add: MIN_CLOCK_HZ_def MAX_CLOCK_HZ_def word_le_nat_alt word_less_nat_alt)

lemma try_pair_reaches:
  assumes "legal_tuple (unat mul) (unat d) e" "25000000 \<le> clock_nat (unat mul) (unat d) e"
    "clock_nat (unat mul) (unat d) e \<le> 165000000" "25000000 \<le> unat requested" "unat requested \<le> 165000000"
  shows "unat (pb_error (try_pair requested mul d b)) \<le> dist (unat requested) (clock_nat (unat mul) (unat d) e)"
proof -
  let ?od = "output_divider requested mul d"
  have od: "unat ?od = 100000000 * unat mul div (unat requested * unat d)"
    using assms by (intro output_divider_nat) (simp_all add: legal_tuple_def)
  from adjacent_divider [OF assms] obtain c where c: "unat ?od \<le> 60" "c = unat ?od \<or> c = unat ?od + 1"
      "legal_tuple (unat mul) (unat d) c" "25000000 \<le> clock_nat (unat mul) (unat d) c"
      "clock_nat (unat mul) (unat d) c \<le> 165000000"
      "dist (unat requested) (clock_nat (unat mul) (unat d) c) \<le> dist (unat requested) (clock_nat (unat mul) (unat d) e)"
    unfolding od by auto
  have suc: "unat (?od + 1) = unat ?od + 1" using c(1) unat_plus_nowrap [of ?od 1] by simp
  define x where "x = (if c = unat ?od then ?od else ?od + 1)"
  have x: "x \<in> set [?od, ?od + 1]" "unat x = c" using c(2) suc by (auto simp: x_def)
  have small: "c \<le> 128" "1 \<le> c" using c(3) by (simp_all add: legal_tuple_def)
  then have u: "unat (ucast x :: u16) = c" using x by (subst unat_ucast_down) simp_all
  have hz: "unat (custom_clock_hz mul d (ucast x)) = clock_nat (unat mul) (unat d) c"
    using c(3) by (simp add: custom_clock_hz_nat u)
  have "unat (pb_error (try_divider requested mul d x b)) \<le> dist (unat requested) (clock_nat (unat mul) (unat d) c)" for b
    using try_divider_reaches [of x mul d requested b] c(4,5) small x(2)
    by (simp add: MIN_CLOCK_HZ_def MAX_CLOCK_HZ_def hz word_le_nat_alt)
  then have "unat (pb_error (try_pair requested mul d b)) \<le> dist (unat requested) (clock_nat (unat mul) (unat d) c)"
    unfolding try_pair_def by (intro search_covers [OF try_divider_descends x(1)])
  with c(6) show ?thesis by simp
qed

lemma resolve_search_nearest:
  assumes "legal_tuple m d e" "25000000 \<le> clock_nat m d e" "clock_nat m d e \<le> 165000000"
    "25000000 \<le> unat requested" "unat requested \<le> 165000000"
  shows "unat (pb_error (resolve_search requested)) \<le> dist (unat requested) (clock_nat m d e)"
  unfolding resolve_search_def
proof (rule search_covers)
  show "d \<in> set [1..<6]" using assms(1) by (auto simp: legal_tuple_def)
  show "unat (pb_error (search (\<lambda>m. try_pair requested (of_nat m) (of_nat d)) [10 * d..<min 65 (15 * d + 1)] b))
      \<le> dist (unat requested) (clock_nat m d e)" for b
  proof (rule search_covers)
    show "m \<in> set [10 * d..<min 65 (15 * d + 1)]" using assms(1) by (auto simp: legal_tuple_def)
    have u: "unat (of_nat m :: u16) = m" "unat (of_nat d :: u16) = d"
      using assms(1) by (simp_all add: legal_tuple_def unat_of_nat)
    show "unat (pb_error (try_pair requested (of_nat m) (of_nat d) b)) \<le> dist (unat requested) (clock_nat m d e)" for b
      using try_pair_reaches [of "of_nat m" "of_nat d" e requested b] assms unfolding u by simp
  qed (rule try_pair_descends)
qed (intro search_descends try_pair_descends)

text \<open>C27: The clock resolution is exact among the tuples whose clock the card supports, 25 to 165 MHz. A nonzero answer is
  the clock of the tuple stored in the mode, within that range and within half a percent of the request, the rest of the mode is
  untouched, and no tuple with a clock in that range is nearer to the request, although only two output dividers per
  feedback pair are tried. A zero answer leaves the mode alone and means that the request is outside the range or that every tuple with a clock
  in the range misses it by more than half a percent.\<close>

theorem resolve_clock_nearest:
  assumes "resolve_clock requested mode = (hz, mode1)"
  shows "if hz = 0 then mode1 = mode \<and> (requested < 25000000 \<or> requested > 165000000 \<or>
      (\<forall>mul d e. let c = unat (custom_clock_hz mul d e) in
         25000000 \<le> c \<and> c \<le> 165000000 \<longrightarrow> unat requested div 200 < dist (unat requested) c))
    else mode1 = mode\<lparr>cm_mul := cm_mul mode1, cm_div := cm_div mode1, cm_div2 := cm_div2 mode1\<rparr> \<and>
      hz = custom_clock_hz (cm_mul mode1) (cm_div mode1) (cm_div2 mode1) \<and> 25000000 \<le> hz \<and> hz \<le> 165000000 \<and>
      dist (unat requested) (unat hz) \<le> unat requested div 200 \<and>
      (\<forall>mul d e. let c = unat (custom_clock_hz mul d e) in
         25000000 \<le> c \<and> c \<le> 165000000 \<longrightarrow> dist (unat requested) (unat hz) \<le> dist (unat requested) c)"
proof (cases "requested < MIN_CLOCK_HZ \<or> requested > MAX_CLOCK_HZ")
  case True
  with assms show ?thesis by (auto simp: resolve_clock_def MIN_CLOCK_HZ_def MAX_CLOCK_HZ_def)
next
  case False
  let ?b = "resolve_search requested"
  have near: "unat (pb_error ?b) \<le> dist (unat requested) c"
    if "c = unat (custom_clock_hz mul d e)" "25000000 \<le> c" "c \<le> 165000000" for mul d e c
    using that resolve_search_nearest [of "unat mul" "unat d" "unat e" requested] False
    by (auto simp: custom_clock_hz_nat range_nat split: if_splits)
  from resolve_search_ok [of requested] consider "pb_hz ?b = 0" "pb_error ?b = - 1"
    | "pb_hz ?b = custom_clock_hz (pb_mul ?b) (pb_div ?b) (pb_div2 ?b)" "MIN_CLOCK_HZ \<le> pb_hz ?b" "pb_hz ?b \<le> MAX_CLOCK_HZ"
      "unat (pb_error ?b) = dist (unat requested) (unat (pb_hz ?b))"
    by (auto simp: pll_ok_def)
  then show ?thesis
  proof cases
    case 1
    have "unat requested div 200 \<le> unat requested" by (rule div_le_dividend)
    moreover have "unat requested \<le> 165000000" using False by (simp add: range_nat)
    ultimately have "unat requested div 200 < 4294967295" by linarith
    then have "unat requested div 200 < unat (pb_error ?b)"
      by (simp add: 1(2) unsigned_minus_1_eq_mask mask_eq_exp_minus_1)
    with assms 1 False near show ?thesis by (auto simp: resolve_clock_def Let_def intro: less_le_trans)
  next
    case 2
    have lim: "pb_error ?b > requested div 200 \<longleftrightarrow> unat requested div 200 < unat (pb_error ?b)"
      by (simp add: word_less_nat_alt unat_div)
    show ?thesis
    proof (cases "pb_error ?b > requested div 200")
      case True
      with assms 2 False near show ?thesis
        by (auto simp: resolve_clock_def Let_def lim intro: less_le_trans)
    next
      case in_limit: False
      have "pb_hz ?b \<noteq> 0" using 2(2) by (auto simp: range_nat)
      with assms in_limit False 2 near show ?thesis
        by (auto simp: resolve_clock_def Let_def lim MIN_CLOCK_HZ_def MAX_CLOCK_HZ_def)
    qed
  qed
qed

text \<open>One preset row is exact: 40 MHz is hit by the first pair tried.\<close>

lemma search_stop: "pb_error b = 0 \<Longrightarrow> search body xs b = b"
  by (cases xs) simp_all

lemma search_first: "pb_error b \<noteq> 0 \<Longrightarrow> pb_error (body x b) = 0 \<Longrightarrow> search body (x # xs) b = body x b"
  by (simp add: search_stop)

lemma resolve_40: "resolve_clock 40000000 mode = (40000000, mode\<lparr>cm_mul := 10, cm_div := 1, cm_div2 := 25\<rparr>)"
proof -
  let ?b = "\<lparr>pb_error = - 1, pb_hz = 0, pb_mul = 0, pb_div = 0, pb_div2 = 0\<rparr>"
  let ?c = "\<lparr>pb_error = 0, pb_hz = 40000000, pb_mul = 10, pb_div = 1, pb_div2 = 25\<rparr>"
  have d: "try_divider 40000000 10 1 25 ?b = ?c"
    by (simp add: try_divider_def custom_clock_hz_def MIN_CLOCK_HZ_def MAX_CLOCK_HZ_def word_less_nat_alt
      unsigned_minus_1_eq_mask)
  have o: "output_divider 40000000 10 1 = 25" by (simp add: output_divider_def)
  have p: "try_pair 40000000 10 1 ?b = ?c"
    unfolding try_pair_def o by (subst search_first) (simp_all add: d)
  have l: "[1..<6] = 1 # [2..<6]" "[10 * 1..<min 65 (15 * 1 + 1)] = 10 # [11..<16]"
    by (simp_all add: upt_conv_Cons)
  have m: "search (\<lambda>m. try_pair 40000000 (of_nat m) (of_nat 1)) [10 * 1..<min 65 (15 * 1 + 1)] ?b = ?c"
    unfolding l(2) by (subst search_first) (simp_all add: p)
  have "resolve_search 40000000 = ?c"
    unfolding resolve_search_def l(1) by (subst search_first) (simp_all only: m, simp_all)
  then show ?thesis by (simp add: resolve_clock_def MIN_CLOCK_HZ_def MAX_CLOCK_HZ_def)
qed

theorem resolve_clock_nearest_witness:
  "\<forall>mul d e. let c = unat (custom_clock_hz mul d e) in 25000000 \<le> c \<and> c \<le> 165000000 \<longrightarrow> dist 40000000 40000000 \<le> dist 40000000 c"
  using resolve_clock_nearest [OF resolve_40] by simp

section \<open>Planning a mode\<close>

lemma unat_sum16:
  "unat ((ucast (a :: u16) :: u32) + ucast (b :: u16)) = unat a + unat b"
  "unat ((ucast (a :: u16) :: u32) + ucast (b :: u16) + ucast (c :: u16)) = unat a + unat b + unat c"
  using unat_u16_less [of a] unat_u16_less [of b] unat_u16_less [of c]
  by (simp_all add: unat_word_ariths)

lemma sum16_fits: "\<not> (x :: u32) > 0xffff \<Longrightarrow> unat (ucast x :: u16) = unat x"
  by (simp add: word_less_nat_alt unat_ucast_down)

lemma to_custom_fields:
  assumes "to_custom_mode p m0 = (True, m)"
  shows "custom_geometry_valid m" "p_flags p AND GMF_UNSUPPORTED = 0"
    "(p_flags p AND GMF_HPOLARITY \<noteq> 0) = (p_flags p AND GMF_VPOLARITY \<noteq> 0)"
    "cm_polarity m = (if p_flags p AND GMF_HPOLARITY \<noteq> 0 then 1 else 0)"
    "cm_width m = p_width p" "cm_height m = p_height p" "cm_htotal m = p_hor_total p" "cm_vtotal m = p_ver_total p"
    "unat (cm_hsync_start m) = unat (p_width p) + unat (p_hor_sync_start p)"
    "unat (cm_hsync_end m) = unat (p_width p) + unat (p_hor_sync_start p) + unat (p_hor_sync_size p)"
    "unat (cm_vsync_start m) = unat (p_height p) + unat (p_ver_sync_start p)"
    "unat (cm_vsync_end m) = unat (p_height p) + unat (p_ver_sync_start p) + unat (p_ver_sync_size p)"
proof -
  let ?hs = "(ucast (p_width p) :: u32) + ucast (p_hor_sync_start p)"
  let ?vs = "(ucast (p_height p) :: u32) + ucast (p_ver_sync_start p)"
  let ?he = "?hs + ucast (p_hor_sync_size p)" and ?ve = "?vs + ucast (p_ver_sync_size p)"
  from assms have c: "p_flags p AND GMF_UNSUPPORTED = 0"
      "(p_flags p AND GMF_HPOLARITY \<noteq> 0) = (p_flags p AND GMF_VPOLARITY \<noteq> 0)"
      "\<not> ?he > 0xffff" "\<not> ?ve > 0xffff" "custom_geometry_valid m"
      "m = \<lparr>cm_width = p_width p, cm_height = p_height p, cm_hsync_start = ucast ?hs, cm_hsync_end = ucast ?he,
         cm_htotal = p_hor_total p, cm_vsync_start = ucast ?vs, cm_vsync_end = ucast ?ve, cm_vtotal = p_ver_total p,
         cm_polarity = (if p_flags p AND GMF_HPOLARITY \<noteq> 0 then 1 else 0), cm_mul = 0, cm_div = 0, cm_div2 = 0\<rparr>"
    by (auto simp: to_custom_mode_def Let_def split: if_splits)
  from c(3,4) have s: "\<not> ?hs > 0xffff" "\<not> ?vs > 0xffff" by (simp_all add: word_less_nat_alt unat_sum16)
  show "custom_geometry_valid m" "p_flags p AND GMF_UNSUPPORTED = 0"
    "(p_flags p AND GMF_HPOLARITY \<noteq> 0) = (p_flags p AND GMF_VPOLARITY \<noteq> 0)" by (fact c)+
  show "cm_polarity m = (if p_flags p AND GMF_HPOLARITY \<noteq> 0 then 1 else 0)"
    "cm_width m = p_width p" "cm_height m = p_height p" "cm_htotal m = p_hor_total p" "cm_vtotal m = p_ver_total p"
    by (simp_all add: c(6))
  show "unat (cm_hsync_start m) = unat (p_width p) + unat (p_hor_sync_start p)"
    "unat (cm_hsync_end m) = unat (p_width p) + unat (p_hor_sync_start p) + unat (p_hor_sync_size p)"
    "unat (cm_vsync_start m) = unat (p_height p) + unat (p_ver_sync_start p)"
    "unat (cm_vsync_end m) = unat (p_height p) + unat (p_ver_sync_start p) + unat (p_ver_sync_size p)"
    by (simp_all add: c(6) sum16_fits [OF c(3)] sum16_fits [OF c(4)] sum16_fits [OF s(1)] sum16_fits [OF s(2)] unat_sum16)
qed

lemma matching_preset_exact:
  assumes "matching_preset p s0 = (Some t, s)"
  shows "timing_for_logical_size (p_width p) (p_height p) = Some t \<and> p_hor_total p = mt_htotal t \<and>
    p_ver_total p = mt_vtotal t \<and> p_pixel_clock p = mt_clock t \<and>
    p_width p + p_hor_sync_start p = mt_hsync_start t \<and> p_height p + p_ver_sync_start p = mt_vsync_start t \<and>
    mt_hsync_start t + p_hor_sync_size p = mt_hsync_end t \<and> mt_vsync_start t + p_ver_sync_size p = mt_vsync_end t"
  using assms by (auto simp: matching_preset_def preset_for_dimensions_def split: prod.splits option.splits if_splits)

text \<open>C28: The decision of \<^verbatim>\<open>SetGC\<close> on firmware that takes custom modes. A mode is programmed as a preset only
  when its whole timing is the table row's. Otherwise a custom modeline is planned only when the flags ask for nothing the
  scanout cannot do, both polarities agree, and the modeline is valid and has exactly the requested active area, sync edges
  and totals, with a clock within half a percent of the request; in every other case the mode is refused.\<close>

theorem plan_modeline_sound:
  assumes "plan_modeline p caps plan0 = (ok, plan)" "caps AND FW_CAP_CUSTOM_MODE \<noteq> 0"
  shows "(ok \<longleftrightarrow> mp_action plan \<noteq> Modeline_Reject) \<and>
    (mp_action plan = Modeline_Preset \<longrightarrow> (\<exists>t. mp_preset plan = Some t \<and> t \<in> set mode_timings \<and>
       p_hor_total p = mt_htotal t \<and> p_ver_total p = mt_vtotal t \<and> p_pixel_clock p = mt_clock t \<and>
       p_width p + p_hor_sync_start p = mt_hsync_start t \<and> p_height p + p_ver_sync_start p = mt_vsync_start t \<and>
       mt_hsync_start t + p_hor_sync_size p = mt_hsync_end t \<and> mt_vsync_start t + p_ver_sync_size p = mt_vsync_end t)) \<and>
    (mp_action plan = Modeline_Custom \<longrightarrow> (let m = mp_custom plan in
       mp_preset plan = None \<and> custom_mode_valid m \<and> mp_achieved plan = custom_clock_hz (cm_mul m) (cm_div m) (cm_div2 m) \<and>
       200 * dist (unat (p_pixel_clock p)) (unat (mp_achieved plan)) \<le> unat (p_pixel_clock p) \<and>
       p_flags p AND GMF_UNSUPPORTED = 0 \<and>
       (p_flags p AND GMF_HPOLARITY \<noteq> 0) = (p_flags p AND GMF_VPOLARITY \<noteq> 0) \<and>
       (cm_polarity m = 1 \<longleftrightarrow> p_flags p AND GMF_HPOLARITY \<noteq> 0) \<and>
       cm_width m = p_width p \<and> cm_height m = p_height p \<and> cm_htotal m = p_hor_total p \<and> cm_vtotal m = p_ver_total p \<and>
       unat (cm_hsync_start m) = unat (p_width p) + unat (p_hor_sync_start p) \<and>
       unat (cm_hsync_end m) = unat (p_width p) + unat (p_hor_sync_start p) + unat (p_hor_sync_size p) \<and>
       unat (cm_vsync_start m) = unat (p_height p) + unat (p_ver_sync_start p) \<and>
       unat (cm_vsync_end m) = unat (p_height p) + unat (p_ver_sync_start p) + unat (p_ver_sync_size p)))"
proof (cases "matching_preset p 0")
  case (Pair t0 s)
  show ?thesis
  proof (cases t0)
    case (Some t)
    have "t \<in> set mode_timings"
      using matching_preset_exact [OF Pair [unfolded Some]]
      by (auto simp: timing_for_logical_size_def timing_for_output_size_def find_Some_iff split: if_splits)
    with assms matching_preset_exact [OF Pair [unfolded Some]] show ?thesis
      by (auto simp: plan_modeline_def plan_core_def Pair Some)
  next
    case None
    obtain good m where m: "to_custom_mode p (mp_custom plan0) = (good, m)" by fastforce
    show ?thesis
    proof (cases good)
      case False
      with assms m show ?thesis by (auto simp: plan_modeline_def plan_core_def Pair None Let_def)
    next
      case True
      obtain hz m1 where r: "resolve_clock (p_pixel_clock p) m = (hz, m1)" by fastforce
      have m1: "to_custom_mode p (mp_custom plan0) = (True, m)" using m True by simp
      note f = to_custom_fields [OF m1]
      show ?thesis
      proof (cases "hz = 0")
        case True
        with assms m r \<open>good\<close> show ?thesis by (auto simp: plan_modeline_def plan_core_def Pair None Let_def)
      next
        case False
        note c = resolve_clock_nearest [OF r, unfolded if_not_P [OF False]]
        then have g: "m1 = m\<lparr>cm_mul := cm_mul m1, cm_div := cm_div m1, cm_div2 := cm_div2 m1\<rparr>" by blast
        have same: "custom_geometry_valid m1" "cm_polarity m1 = cm_polarity m" "cm_width m1 = cm_width m"
          "cm_height m1 = cm_height m" "cm_htotal m1 = cm_htotal m" "cm_vtotal m1 = cm_vtotal m"
          "cm_hsync_start m1 = cm_hsync_start m" "cm_hsync_end m1 = cm_hsync_end m"
          "cm_vsync_start m1 = cm_vsync_start m" "cm_vsync_end m1 = cm_vsync_end m"
          using f(1) by (subst g, simp add: custom_geometry_valid_def)+
        have "plan = plan0\<lparr>mp_action := Modeline_Custom, mp_scale := 0, mp_preset := None, mp_custom := m1, mp_achieved := hz\<rparr>" "ok"
          using assms m r True False by (auto simp: plan_modeline_def plan_core_def Pair None Let_def)
        with c f same show ?thesis
          by (auto simp: Let_def custom_mode_valid_def MIN_CLOCK_HZ_def MAX_CLOCK_HZ_def)
      qed
    qed
  qed
qed

text \<open>A PAL 720x288 mode that no preset has, refused nowhere, with the clock of the row above.\<close>

definition sample_mode :: p96_mode where
  "sample_mode = \<lparr>p_width = 720, p_height = 288, p_hor_total = 864, p_hor_sync_start = 12, p_hor_sync_size = 64,
     p_ver_total = 312, p_ver_sync_start = 3, p_ver_sync_size = 3, p_flags = 0x18, p_pixel_clock = 40000000\<rparr>"

theorem plan_modeline_sound_witness:
  fixes plan0 :: modeline_plan
  shows "\<forall>plan0. custom_mode_valid (mp_custom (snd (plan_modeline sample_mode 0x80 plan0)))"
proof
  fix plan0
  obtain ok plan where r: "plan_modeline sample_mode 0x80 plan0 = (ok, plan)" by fastforce
  have "mp_action plan = Modeline_Custom"
    using r by (auto simp: plan_modeline_def plan_core_def sample_mode_def FW_CAP_CUSTOM_MODE_def matching_preset_def
      preset_for_dimensions_def timing_for_logical_size_def timing_for_output_size_def mode_timings_def timing_row_def
      to_custom_mode_def GMF_UNSUPPORTED_def GMF_HPOLARITY_def GMF_VPOLARITY_def custom_geometry_valid_def Let_def resolve_40)
  moreover have "(0x80 :: u16) AND FW_CAP_CUSTOM_MODE \<noteq> 0" by (simp add: FW_CAP_CUSTOM_MODE_def)
  ultimately show "custom_mode_valid (mp_custom (snd (plan_modeline sample_mode 0x80 plan0)))"
    using plan_modeline_sound [OF r] by (simp add: r Let_def)
qed

section \<open>The register transaction\<close>

text \<open>
  What the card makes of the writes, after the protocol stated in \<^verbatim>\<open>zz_custom_mode.h\<close>: a select
  starts a fresh transaction, a parameter write names the field that the next value write sets, a commit word ends it.
\<close>

record staging =
  sg_slot :: u16
  sg_param :: u16
  sg_fields :: "u16 \<Rightarrow> u16 option"
  sg_commits :: "(u16 \<times> u16 \<times> (u16 \<Rightarrow> u16 option)) list"

definition card_write :: "u16 \<Rightarrow> u16 \<Rightarrow> staging \<Rightarrow> staging" where
  "card_write reg v s =
     (if reg = REG_SELECT then s\<lparr>sg_slot := v, sg_fields := Map.empty\<rparr>
      else if reg = REG_PARAM then s\<lparr>sg_param := v\<rparr>
      else if reg = REG_VALUE then s\<lparr>sg_fields := (sg_fields s)(sg_param s \<mapsto> v)\<rparr>
      else if reg = REG_COMMIT then s\<lparr>sg_commits := (sg_slot s, v, sg_fields s) # sg_commits s\<rparr>
      else s)"

lemma reg_neq [simp]:
  "REG_SELECT \<noteq> REG_PARAM" "REG_SELECT \<noteq> REG_VALUE" "REG_SELECT \<noteq> REG_COMMIT" "REG_PARAM \<noteq> REG_VALUE"
  "REG_PARAM \<noteq> REG_SELECT" "REG_VALUE \<noteq> REG_SELECT" "REG_COMMIT \<noteq> REG_SELECT" "REG_VALUE \<noteq> REG_PARAM"
  "REG_COMMIT \<noteq> REG_PARAM" "REG_COMMIT \<noteq> REG_VALUE"
  by (simp_all add: REG_SELECT_def REG_PARAM_def REG_VALUE_def REG_COMMIT_def)

lemma card_pair:
  "(\<lambda>(f, v). card_write REG_VALUE v \<circ> card_write REG_PARAM f) =
    (\<lambda>(f, v) s. s\<lparr>sg_param := f, sg_fields := (sg_fields s)(f \<mapsto> v)\<rparr>)"
  by (auto simp: card_write_def fun_eq_iff)

lemma card_fields:
  "sg_fields (fold (\<lambda>(f, v) s. s\<lparr>sg_param := f, sg_fields := (sg_fields s)(f \<mapsto> v)\<rparr>) fs s) = sg_fields s ++ map_of (rev fs)"
  "sg_slot (fold (\<lambda>(f, v) s. s\<lparr>sg_param := f, sg_fields := (sg_fields s)(f \<mapsto> v)\<rparr>) fs s) = sg_slot s"
  "sg_commits (fold (\<lambda>(f, v) s. s\<lparr>sg_param := f, sg_fields := (sg_fields s)(f \<mapsto> v)\<rparr>) fs s) = sg_commits s"
  by (induction fs arbitrary: s) (auto simp: map_add_def fun_eq_iff split: option.splits)

lemma required_bits:
  assumes "n < 16"
  shows "bit (0xe1ff :: u16) n = (n \<in> {0, 1, 2, 3, 4, 5, 6, 7, 8, 13, 14, 15})"
proof -
  from assms have "(n = 7 \<or> n = 6 \<or> n = 5 \<or> n = 4 \<or> n = 3 \<or> n = 2 \<or> n = 1 \<or> n = 0) \<or>
      (n = 15 \<or> n = 14 \<or> n = 13 \<or> n = 12 \<or> n = 11 \<or> n = 10 \<or> n = 9 \<or> n = 8)" by presburger
  then show ?thesis by (elim disjE) simp_all
qed

text \<open>C29: One transaction carries the mode, whatever the card held before: exactly one commit is made, for the custom slot with the color
  mode in its high byte, and at that moment the fresh transaction holds exactly the fields of the required mask, each with the
  mode's value. Success is reported exactly when the status read back is OK.\<close>

theorem stage_and_commit_complete:
  "let r = stage_and_commit m colormode card_write (\<lambda>s. (status, s)) s in
   fst r = (status = 1) \<and>
   (\<exists>fields. sg_commits (snd r) = (20, push_bit 8 (ucast colormode) OR 20, fields) # sg_commits s \<and>
      (\<forall>f. f \<in> dom fields \<longleftrightarrow> unat f < 16 \<and> bit (0xe1ff :: u16) (unat f)) \<and>
      fields 0 = Some (cm_width m) \<and> fields 1 = Some (cm_height m) \<and> fields 2 = Some (cm_hsync_start m) \<and>
      fields 3 = Some (cm_hsync_end m) \<and> fields 4 = Some (cm_htotal m) \<and> fields 5 = Some (cm_vsync_start m) \<and>
      fields 6 = Some (cm_vsync_end m) \<and> fields 7 = Some (cm_vtotal m) \<and> fields 8 = Some (cm_polarity m) \<and>
      fields 13 = Some (cm_mul m) \<and> fields 14 = Some (cm_div m) \<and> fields 15 = Some (cm_div2 m))"
proof -
  define fields where "fields = map_of (rev (staged_fields m))"
  have commits: "sg_commits (snd (stage_and_commit m colormode card_write (\<lambda>s. (status, s)) s)) =
      (20, push_bit 8 (ucast colormode) OR 20, fields) # sg_commits s"
    unfolding stage_and_commit_def Let_def prod.case snd_conv
    by (simp add: card_pair card_write_def [of REG_COMMIT] card_fields fields_def CUSTOM_MODE_SLOT_def or.commute)
      (simp add: card_write_def)
  have "dom fields = {0, 1, 2, 3, 4, 5, 6, 7, 8, 13, 14, 15}"
    unfolding fields_def dom_map_of_conv_image_fst by (auto simp: staged_fields_def)
  then have d: "f \<in> dom fields \<longleftrightarrow> unat f \<in> {0, 1, 2, 3, 4, 5, 6, 7, 8, 13, 14, 15}" for f
    by (auto simp: word_unat_eq_iff)
  have bits: "(n < 16 \<and> bit (0xe1ff :: u16) n) \<longleftrightarrow> n \<in> {0, 1, 2, 3, 4, 5, 6, 7, 8, 13, 14, 15}" for n
    using required_bits by (cases "n < 16") auto
  have "fst (stage_and_commit m colormode card_write (\<lambda>s. (status, s)) s) = (status = 1)"
    by (simp add: stage_and_commit_def Let_def)
  moreover have "fields 0 = Some (cm_width m)" "fields 1 = Some (cm_height m)" "fields 2 = Some (cm_hsync_start m)"
    "fields 3 = Some (cm_hsync_end m)" "fields 4 = Some (cm_htotal m)" "fields 5 = Some (cm_vsync_start m)"
    "fields 6 = Some (cm_vsync_end m)" "fields 7 = Some (cm_vtotal m)" "fields 8 = Some (cm_polarity m)"
    "fields 13 = Some (cm_mul m)" "fields 14 = Some (cm_div m)" "fields 15 = Some (cm_div2 m)"
    by (simp_all add: fields_def staged_fields_def)
  ultimately show ?thesis unfolding Let_def using commits d bits by blast
qed

end
