(* ===== verification/RtgMemory.thy ===== *)
theory RtgMemory
  imports Prelude
begin

text \<open>
  The memory of the card as the graphics driver sees it: the negotiation of the Zorro II
  aperture (\<^verbatim>\<open>include/zz9000_aperture.h\<close>), the Zorro II staging area (\<^verbatim>\<open>rtg/memory_layout.h\<close>) and bitmaps in
  card memory (\<^verbatim>\<open>rtg/offscreen_bitmap.h\<close>).
\<close>

section \<open>The Zorro II aperture\<close>

record region =
  rg_base :: u32
  rg_size :: u32

record aperture_layout =
  al_descriptor :: u32
  al_aperture_size :: u32
  al_framebuffer :: region
  al_pip :: region
  al_template :: region
  al_host_window :: region
  al_audio :: region

datatype negotiation = Aperture_Invalid | Aperture_Legacy | Aperture_Valid

definition REGISTER_SPACE :: u32 where "REGISTER_SPACE = 0x00010000"
definition TEMPLATE_SIZE :: u32 where "TEMPLATE_SIZE = 0x00010000"
definition AUDIO_SIZE :: u32 where "AUDIO_SIZE = 0x00010000"
definition FW_CAP_APERTURE :: u16 where "FW_CAP_APERTURE = 4"

definition aperture_ack_token :: "u32 \<Rightarrow> u16" where
  "aperture_ack_token descriptor =
     (if descriptor AND 0x00ff0000 = 0x00020000 then 0xa502 else 0xa501)"

definition region_end :: "u32 \<Rightarrow> u32 \<Rightarrow> u32 option" where
  "region_end base sz = (if sz > - 1 - base then None else Some (base + sz))"

definition region_valid :: "region option \<Rightarrow> u32 \<Rightarrow> bool \<Rightarrow> bool" where
  "region_valid region aperture_size allow_empty =
     (case region of
        None \<Rightarrow> False
      | Some r \<Rightarrow>
          if \<not> allow_empty \<and> rg_size r = 0 then False
          else if rg_size r = 0 then rg_base r = 0
          else case region_end (rg_base r) (rg_size r) of
                 None \<Rightarrow> False
               | Some e \<Rightarrow> e \<le> aperture_size)"

definition regions_overlap :: "region \<Rightarrow> region \<Rightarrow> bool" where
  "regions_overlap a b =
     (if rg_size a = 0 \<or> rg_size b = 0 then False
      else case (region_end (rg_base a) (rg_size a), region_end (rg_base b) (rg_size b)) of
             (Some a_end, Some b_end) \<Rightarrow> rg_base a < b_end \<and> rg_base b < a_end
           | _ \<Rightarrow> True)"

fun any_overlap :: "region list \<Rightarrow> bool" where
  "any_overlap [] = False"
| "any_overlap (r # rs) = (list_ex (regions_overlap r) rs \<or> any_overlap rs)"

definition layout_regions :: "aperture_layout \<Rightarrow> region list" where
  "layout_regions l = [al_framebuffer l, al_pip l, al_template l, al_host_window l, al_audio l]"

definition layout_valid :: "aperture_layout option \<Rightarrow> bool" where
  "layout_valid layout =
     (case layout of
        None \<Rightarrow> False
      | Some l \<Rightarrow>
          if al_aperture_size l < REGISTER_SPACE \<or> rg_base (al_framebuffer l) \<noteq> REGISTER_SPACE then False
          else if \<not> region_valid (Some (al_framebuffer l)) (al_aperture_size l) False \<or>
                  \<not> region_valid (Some (al_pip l)) (al_aperture_size l) True \<or>
                  \<not> region_valid (Some (al_template l)) (al_aperture_size l) False \<or>
                  \<not> region_valid (Some (al_host_window l)) (al_aperture_size l) False \<or>
                  \<not> region_valid (Some (al_audio l)) (al_aperture_size l) False then False
          else if any_overlap (layout_regions l) then False
          else rg_size (al_template l) = TEMPLATE_SIZE \<and> rg_size (al_audio l) = AUDIO_SIZE \<and>
               rg_base (al_audio l) + rg_size (al_audio l) = al_aperture_size l)"

definition mk_region :: "u32 \<Rightarrow> u32 \<Rightarrow> region" where
  "mk_region b s = \<lparr>rg_base = b, rg_size = s\<rparr>"

definition profile_layout :: "u32 \<Rightarrow> u32 \<Rightarrow> region \<Rightarrow> region \<Rightarrow> region \<Rightarrow> region \<Rightarrow> region \<Rightarrow> aperture_layout" where
  "profile_layout d sz fb pip tmpl host audio =
     \<lparr>al_descriptor = d, al_aperture_size = sz, al_framebuffer = fb, al_pip = pip, al_template = tmpl,
      al_host_window = host, al_audio = audio\<rparr>"

definition profile_table :: "u32 \<Rightarrow> aperture_layout option" where
  "profile_table d =
     (if d = 0x5a020502 then Some (profile_layout d 0x00200000 (mk_region 0x00010000 0x001c0000) (mk_region 0 0)
        (mk_region 0x001d0000 0x00010000) (mk_region 0x001e0000 0x00004000) (mk_region 0x001f0000 0x00010000))
      else if d = 0x5a020704 then Some (profile_layout d 0x00400000 (mk_region 0x00010000 0x00388000)
        (mk_region 0x00398000 0x00038000) (mk_region 0x003d0000 0x00010000) (mk_region 0x003e0000 0x00004000)
        (mk_region 0x003f0000 0x00010000))
      else if d = 0x5a020708 then Some (profile_layout d 0x00800000 (mk_region 0x00010000 0x00770000)
        (mk_region 0x00780000 0x00040000) (mk_region 0x007c0000 0x00010000) (mk_region 0x007d0000 0x00014000)
        (mk_region 0x007f0000 0x00010000))
      else if d = 0x5a010502 then Some (profile_layout d 0x00200000 (mk_region 0x00010000 0x001c0000) (mk_region 0 0)
        (mk_region 0x001d0000 0x00010000) (mk_region 0x001e0000 0x00010000) (mk_region 0x001f0000 0x00010000))
      else if d = 0x5a010704 then Some (profile_layout d 0x00400000 (mk_region 0x00010000 0x00388000)
        (mk_region 0x00398000 0x00038000) (mk_region 0x003d0000 0x00010000) (mk_region 0x003e0000 0x00010000)
        (mk_region 0x003f0000 0x00010000))
      else if d = 0x5a010708 then Some (profile_layout d 0x00800000 (mk_region 0x00010000 0x00770000)
        (mk_region 0x00780000 0x00040000) (mk_region 0x007c0000 0x00010000) (mk_region 0x007d0000 0x00020000)
        (mk_region 0x007f0000 0x00010000))
      else None)"

definition aperture_profile :: "u32 \<Rightarrow> aperture_layout option" where
  "aperture_profile d =
     (case profile_table d of
        None \<Rightarrow> None
      | Some v \<Rightarrow> if layout_valid (Some v) then Some v else None)"

text \<open>The layout the caller passes in is written only on a valid negotiation.\<close>

definition aperture_negotiate ::
  "u32 \<Rightarrow> u32 \<Rightarrow> u16 \<Rightarrow> aperture_layout option \<Rightarrow> negotiation \<times> aperture_layout option" where
  "aperture_negotiate descriptor board_size caps layout =
     (if caps AND FW_CAP_APERTURE = 0 then (Aperture_Legacy, layout)
      else if descriptor AND 0xff000000 \<noteq> 0x5a000000 then (Aperture_Legacy, layout)
      else case aperture_profile descriptor of
             None \<Rightarrow> (Aperture_Invalid, layout)
           | Some v \<Rightarrow> if al_aperture_size v \<noteq> board_size then (Aperture_Invalid, layout)
                       else (Aperture_Valid, map_option (\<lambda>_. v) layout))"

definition aperture_memory_offset :: "u32 \<Rightarrow> u32" where
  "aperture_memory_offset board_offset = board_offset - REGISTER_SPACE"

definition staging_fits :: "u32 \<Rightarrow> u32 \<Rightarrow> u32 \<Rightarrow> bool" where
  "staging_fits prefix unit_size n =
     (prefix \<le> TEMPLATE_SIZE \<and> (n = 0 \<or> unit_size \<le> (TEMPLATE_SIZE - prefix) div n))"

section \<open>Bitmaps in card memory\<close>

definition OFFSCREEN_MAGIC :: u32 where "OFFSCREEN_MAGIC = 0x5A5A424D"

definition align_valid :: "u32 \<Rightarrow> bool" where
  "align_valid align = (align \<noteq> 0 \<and> align AND (align - 1) = 0 \<and> align \<le> 256)"

definition pad_pitch_to :: "u32 \<Rightarrow> u32 \<Rightarrow> u32" where
  "pad_pitch_to bytesperrow align0 =
     (let align = (if align0 < 4 then 4 else align0) in
      if bytesperrow > - 1 - (align - 1) then 0
      else (bytesperrow + align - 1) AND NOT (align - 1))"

definition pad_pitch :: "u32 \<Rightarrow> u32" where
  "pad_pitch bytesperrow = pad_pitch_to bytesperrow 4"

definition format_bytes :: "u32 \<Rightarrow> u32" where
  "format_bytes f =
     (if f = 1 then 1 else if f = 9 then 4 else if f = 10 then 2 else if f = 11 then 2
      else if f = 14 then 2 else if f = 17 then 2 else if f = 18 then 2 else 0)"

definition bytes_per_row :: "u32 \<Rightarrow> u32 \<Rightarrow> u32" where
  "bytes_per_row f width =
     (let bpp = format_bytes f in if bpp = 0 \<or> width > (- 1) div bpp then 0 else width * bpp)"

definition format_depth :: "u32 \<Rightarrow> u32" where
  "format_depth f =
     (if f = 1 then 8 else if f = 9 then 32 else if f = 10 then 16 else if f = 11 then 15
      else if f = 14 \<or> f = 17 \<or> f = 18 then 16 else 0)"

definition format_storage_bits :: "u32 \<Rightarrow> u32" where
  "format_storage_bits f = format_bytes f * 8"

definition range_within :: "u32 \<Rightarrow> u32 \<Rightarrow> u32 \<Rightarrow> u32 \<Rightarrow> bool" where
  "range_within pixels n membase memsize =
     (if n = 0 \<or> pixels < membase then False
      else let offset = pixels - membase in offset < memsize \<and> n \<le> memsize - offset)"

definition range_is_ours :: "u32 \<Rightarrow> u32 \<Rightarrow> u32 \<Rightarrow> u32 \<Rightarrow> u32 \<Rightarrow> bool" where
  "range_is_ours magic pixels n membase memsize =
     (magic = OFFSCREEN_MAGIC \<and> range_within pixels n membase memsize)"

definition is_ours :: "u32 \<Rightarrow> u32 \<Rightarrow> u32 \<Rightarrow> u32 \<Rightarrow> bool" where
  "is_ours magic pixels membase memsize = range_is_ours magic pixels 1 membase memsize"

record bitmap_attrs =
  ba_memory :: u32
  ba_basememory :: u32
  ba_bytesperrow :: u32
  ba_bytesperpixel :: u32
  ba_bitsperpixel :: u32
  ba_rgbformat :: u32
  ba_width :: u32
  ba_height :: u32
  ba_depth :: u32

definition offscreen_attr :: "bitmap_attrs \<Rightarrow> u32 \<Rightarrow> u32" where
  "offscreen_attr a attr =
     (if attr = 0x80000000 then ba_memory a else if attr = 0x80000001 then ba_basememory a
      else if attr = 0x80000002 then ba_bytesperrow a else if attr = 0x80000003 then ba_bytesperpixel a
      else if attr = 0x80000004 then ba_bitsperpixel a else if attr = 0x80000006 then ba_rgbformat a
      else if attr = 0x80000007 then ba_width a else if attr = 0x80000008 then ba_height a
      else if attr = 0x80000009 then ba_depth a else 0)"

end
