(* ===== verification/RtgMemory_Correct.thy ===== *)
theory RtgMemory_Correct
  imports RtgMemory
begin

text \<open>
  An accepted aperture layout splits the window into disjoint regions, the range checks are exact
  on natural numbers, that is free of wrap-around, and a padded pitch is the least one that fits.
\<close>

section \<open>Address ranges\<close>

text \<open>The board-relative addresses of a region.\<close>

definition span_of :: "region \<Rightarrow> nat set" where
  "span_of r = {unat (rg_base r)..<unat (rg_base r) + unat (rg_size r)}"

lemma region_end_Some:
  "region_end b s = Some e \<longleftrightarrow> unat b + unat s < 4294967296 \<and> unat e = unat b + unat s"
proof -
  have lim: "unat (- 1 - b) = 4294967295 - unat b"
    using unat_minus_le [of b "- 1"] by (simp add: unsigned_minus_1_eq_mask mask_eq_exp_minus_1)
  have "unat b < 4294967296" using unat_lt [of b] by simp
  then have c: "s > - 1 - b \<longleftrightarrow> \<not> unat b + unat s < 4294967296"
    by (simp only: word_less_nat_alt lim) linarith
  show ?thesis
  proof (cases "s > - 1 - b")
    case True
    then show ?thesis using c by (simp add: region_end_def)
  next
    case False
    then have "unat (b + s) = unat b + unat s" using c unat_plus_nowrap [of b s] by simp
    with False c show ?thesis by (auto simp: region_end_def word_unat_eq_iff)
  qed
qed

lemma region_end_None: "region_end b s = None \<longleftrightarrow> 4294967296 \<le> unat b + unat s"
proof (cases "region_end b s")
  case None
  have "\<not> (unat b + unat s < 4294967296)"
  proof
    assume "unat b + unat s < 4294967296"
    then have "region_end b s = Some (b + s)" using unat_plus_nowrap [of b s] by (simp add: region_end_Some)
    with None show False by simp
  qed
  with None show ?thesis by simp
next
  case (Some e)
  with region_end_Some [of b s e] show ?thesis by simp
qed

lemma region_valid_span:
  "region_valid (Some r) sz e \<Longrightarrow> span_of r \<subseteq> {..<unat sz}"
  by (auto simp: region_valid_def span_of_def region_end_Some word_le_nat_alt intro: less_le_trans
    split: if_splits option.splits)

lemma region_valid_nonempty: "region_valid (Some r) sz False \<Longrightarrow> span_of r \<noteq> {}"
  by (auto simp: region_valid_def span_of_def word_unat_eq_iff split: if_splits)

lemma overlap_exact:
  assumes "unat (rg_base a) + unat (rg_size a) < 4294967296" "unat (rg_base b) + unat (rg_size b) < 4294967296"
  shows "regions_overlap a b \<longleftrightarrow> span_of a \<inter> span_of b \<noteq> {}"
proof -
  obtain ea where ea: "region_end (rg_base a) (rg_size a) = Some ea" "unat ea = unat (rg_base a) + unat (rg_size a)"
    using assms(1) region_end_None by (metis not_le option.exhaust region_end_Some)
  obtain eb where eb: "region_end (rg_base b) (rg_size b) = Some eb" "unat eb = unat (rg_base b) + unat (rg_size b)"
    using assms(2) region_end_None by (metis not_le option.exhaust region_end_Some)
  have "span_of a \<inter> span_of b \<noteq> {} \<longleftrightarrow> 0 < unat (rg_size a) \<and> 0 < unat (rg_size b) \<and>
      unat (rg_base a) < unat (rg_base b) + unat (rg_size b) \<and> unat (rg_base b) < unat (rg_base a) + unat (rg_size a)"
    unfolding span_of_def by (auto simp: ivl_disj_int_one Int_atLeastLessThan) 
  then show ?thesis using ea eb
    by (auto simp: regions_overlap_def word_less_nat_alt word_unat_eq_iff)
qed

lemma overlap_separates: "\<not> regions_overlap a b \<Longrightarrow> span_of a \<inter> span_of b = {}"
  by (auto simp: regions_overlap_def span_of_def word_less_nat_alt not_less region_end_Some split: if_splits option.splits)

lemma any_overlap_separates:
  "\<not> any_overlap rs \<Longrightarrow> i < j \<Longrightarrow> j < length rs \<Longrightarrow> span_of (rs ! i) \<inter> span_of (rs ! j) = {}"
proof (induction rs arbitrary: i j)
  case (Cons r rs)
  obtain j' where j: "j = Suc j'" using Cons.prems by (cases j) simp_all
  show ?case
  proof (cases i)
    case 0
    have "\<not> regions_overlap r (rs ! j')" using Cons.prems j by (auto simp: list_ex_iff)
    with 0 j show ?thesis by (simp add: overlap_separates)
  next
    case (Suc i')
    with Cons j show ?thesis by simp
  qed
qed simp

section \<open>The aperture\<close>

text \<open>C31: The layout check promises a partition: in a layout it accepts, the five regions lie inside the
  aperture, no two of them share an address, only the video pool may be empty, the framebuffer follows the register space directly and
  the audio buffer ends exactly where the aperture ends.\<close>

theorem aperture_layout_partition:
  assumes "layout_valid (Some l)"
  shows "(\<forall>i < 5. span_of (layout_regions l ! i) \<subseteq> {..<unat (al_aperture_size l)} \<and>
      (span_of (layout_regions l ! i) = {} \<longrightarrow> i = 1) \<and>
      (\<forall>j < 5. j \<noteq> i \<longrightarrow> span_of (layout_regions l ! i) \<inter> span_of (layout_regions l ! j) = {})) \<and>
    rg_base (al_framebuffer l) = REGISTER_SPACE \<and>
    unat (rg_base (al_audio l)) + unat (rg_size (al_audio l)) = unat (al_aperture_size l)"
proof -
  let ?sz = "al_aperture_size l"
  from assms have v: "region_valid (Some (al_framebuffer l)) ?sz False" "region_valid (Some (al_pip l)) ?sz True"
      "region_valid (Some (al_template l)) ?sz False" "region_valid (Some (al_host_window l)) ?sz False"
      "region_valid (Some (al_audio l)) ?sz False" "\<not> any_overlap (layout_regions l)"
      "rg_base (al_audio l) + rg_size (al_audio l) = ?sz" "rg_base (al_framebuffer l) = REGISTER_SPACE"
    by (auto simp: layout_valid_def split: if_splits)
  have five: "i < 5 \<Longrightarrow> i = 0 \<or> i = 1 \<or> i = 2 \<or> i = 3 \<or> i = 4" for i :: nat by presburger
  have len: "length (layout_regions l) = 5" by (simp add: layout_regions_def)
  have "span_of (layout_regions l ! i) \<subseteq> {..<unat ?sz}" if "i < 5" for i
    using five [OF that] v(1-5) [THEN region_valid_span] by (auto simp: layout_regions_def)
  moreover have "i = 1" if "span_of (layout_regions l ! i) = {}" "i < 5" for i
    using five [OF that(2)] v(1,3-5) [THEN region_valid_nonempty] that(1) by (auto simp: layout_regions_def)
  moreover have "span_of (layout_regions l ! i) \<inter> span_of (layout_regions l ! j) = {}" if "i < 5" "j < 5" "j \<noteq> i" for i j
    using any_overlap_separates [OF v(6), of i j] any_overlap_separates [OF v(6), of j i] that len
    by (cases i j rule: linorder_cases) auto
  moreover have "unat (rg_base (al_audio l)) + unat (rg_size (al_audio l)) = unat ?sz"
  proof -
    have "unat (rg_base (al_audio l)) + unat (rg_size (al_audio l)) < 4294967296"
      using v(5) by (auto simp: region_valid_def region_end_Some split: if_splits option.splits)
    then show ?thesis using unat_plus_nowrap [of "rg_base (al_audio l)" "rg_size (al_audio l)"] v(7) by simp
  qed
  ultimately show ?thesis using v(8) by blast
qed

lemma profile_valid: "profile_table d = Some v \<Longrightarrow> layout_valid (Some v)"
  by (simp add: profile_table_def split: if_splits; hypsubst;
    simp add: layout_valid_def layout_regions_def region_valid_def region_end_def regions_overlap_def
      profile_layout_def mk_region_def REGISTER_SPACE_def TEMPLATE_SIZE_def AUDIO_SIZE_def)

definition aperture_profiles :: "(u32 \<times> u32) set" where
  "aperture_profiles = {(0x5a020502, 0x00200000), (0x5a020704, 0x00400000), (0x5a020708, 0x00800000),
     (0x5a010502, 0x00200000), (0x5a010704, 0x00400000), (0x5a010708, 0x00800000)}"

lemma profile_known: "profile_table d = Some v \<Longrightarrow> (d, al_aperture_size v) \<in> aperture_profiles \<and> al_descriptor v = d \<and>
    d AND 0xff000000 = 0x5a000000 \<and>
    (aperture_ack_token d = 0xa502 \<longrightarrow> rg_base (al_host_window v) + rg_size (al_host_window v) + 0xC000 = rg_base (al_audio v)) \<and>
    (aperture_ack_token d = 0xa501 \<longrightarrow> rg_base (al_host_window v) + rg_size (al_host_window v) = rg_base (al_audio v))"
  by (simp add: profile_table_def split: if_splits; hypsubst; simp add: profile_layout_def mk_region_def aperture_profiles_def aperture_ack_token_def)

lemma profile_none: "profile_table d = None \<Longrightarrow> (d, sz) \<notin> aperture_profiles"
  by (auto simp: profile_table_def aperture_profiles_def split: if_splits)

lemma profile_size: "profile_table d = Some v \<Longrightarrow> (d, sz) \<in> aperture_profiles \<Longrightarrow> al_aperture_size v = sz"
  using profile_known [of d v] by (auto simp: aperture_profiles_def)

text \<open>C32: The negotiation. Ownership changes only for one of the six descriptors with exactly its window size on firmware that has
  the capability; the legacy answer is given exactly when the capability or the magic is missing. Only a valid
  answer writes the caller's layout, and what it writes is a valid layout for that board in which a
  generation 2 descriptor, and no other, leaves the 48 KiB ring reserve free between host window and audio buffer.\<close>

theorem aperture_negotiation_exact:
  assumes "aperture_negotiate descriptor board_size caps (Some l0) = (verdict, out)"
  shows "(verdict = Aperture_Valid \<longleftrightarrow> caps AND FW_CAP_APERTURE \<noteq> 0 \<and> (descriptor, board_size) \<in> aperture_profiles) \<and>
    (verdict = Aperture_Legacy \<longleftrightarrow> caps AND FW_CAP_APERTURE = 0 \<or> descriptor AND 0xff000000 \<noteq> 0x5a000000) \<and>
    (verdict \<noteq> Aperture_Valid \<longrightarrow> out = Some l0) \<and>
    (verdict = Aperture_Valid \<longrightarrow> (\<exists>l. out = Some l \<and> layout_valid (Some l) \<and> al_aperture_size l = board_size \<and>
       al_descriptor l = descriptor \<and>
       rg_base (al_audio l) - (rg_base (al_host_window l) + rg_size (al_host_window l)) =
         (if aperture_ack_token descriptor = 0xa502 then 0xC000 else 0)))"
proof (cases "profile_table descriptor")
  case None
  with assms profile_none [OF None] show ?thesis
    by (auto simp: aperture_negotiate_def aperture_profile_def split: if_splits)
next
  case (Some v)
  note k = profile_known [OF Some]
  have tok: "aperture_ack_token descriptor = 0xa502 \<or> aperture_ack_token descriptor = 0xa501"
    by (simp add: aperture_ack_token_def)
  have gap: "rg_base (al_audio v) - (rg_base (al_host_window v) + rg_size (al_host_window v)) =
      (if aperture_ack_token descriptor = 0xa502 then 0xC000 else 0)"
  proof (cases "aperture_ack_token descriptor = 0xa502")
    case True
    with k have "rg_base (al_audio v) = (rg_base (al_host_window v) + rg_size (al_host_window v)) + 0xC000" by simp
    with True show ?thesis by simp
  qed (use k tok in simp)
  show ?thesis
  proof (cases "al_aperture_size v = board_size")
    case True
    have p: "aperture_profile descriptor = Some v" using Some profile_valid [OF Some] by (simp add: aperture_profile_def)
    show ?thesis
      using assms k gap profile_valid [OF Some] True unfolding aperture_negotiate_def p
      by (auto split: if_splits)
  next
    case False
    then have "(descriptor, board_size) \<notin> aperture_profiles" using profile_size [OF Some] by blast
    with assms Some k False profile_valid [OF Some] show ?thesis
      by (auto simp: aperture_negotiate_def aperture_profile_def split: if_splits)
  qed
qed

theorem aperture_layout_partition_witness:
  "\<exists>l. aperture_profile 0x5a020708 = Some l \<and> rg_base (al_framebuffer l) = REGISTER_SPACE"
proof -
  obtain l where l: "profile_table 0x5a020708 = Some l" by (simp add: profile_table_def)
  from aperture_layout_partition [OF profile_valid [OF l]] l profile_valid [OF l] show ?thesis
    by (auto simp: aperture_profile_def)
qed

theorem aperture_negotiation_exact_witness:
  "\<forall>l0. fst (aperture_negotiate 0x5a010704 0x00400000 4 (Some l0)) = Aperture_Valid"
proof
  fix l0
  obtain verdict out where n: "aperture_negotiate 0x5a010704 0x00400000 4 (Some l0) = (verdict, out)" by force
  from aperture_negotiation_exact [OF n] n show "fst (aperture_negotiate 0x5a010704 0x00400000 4 (Some l0)) = Aperture_Valid"
    by (simp add: FW_CAP_APERTURE_def aperture_profiles_def)
qed

section \<open>Sizes\<close>

lemma staging_fits_exact:
  "staging_fits prefix unit n \<longleftrightarrow> unat prefix + unat unit * unat n \<le> 0x10000"
proof (cases "prefix \<le> TEMPLATE_SIZE")
  case True
  have d: "unat ((TEMPLATE_SIZE - prefix) div n) = (0x10000 - unat prefix) div unat n"
    using True by (simp add: unat_div unat_minus_le TEMPLATE_SIZE_def)
  have p: "unat prefix \<le> 0x10000" using True by (simp add: TEMPLATE_SIZE_def word_le_nat_alt)
  show ?thesis
  proof (cases "n = 0")
    case False
    then have "0 < unat n" by (simp add: word_unat_eq_iff)
    with True d p False show ?thesis
      by (simp add: staging_fits_def word_le_nat_alt less_eq_div_iff_mult_less_eq) linarith
  qed (use True p in \<open>simp add: staging_fits_def\<close>)
qed (auto simp: staging_fits_def TEMPLATE_SIZE_def word_le_nat_alt)

lemma range_within_exact:
  "range_within pixels n membase memsize \<longleftrightarrow>
    0 < unat n \<and> unat membase \<le> unat pixels \<and> unat pixels + unat n \<le> unat membase + unat memsize"
proof (cases "n = 0 \<or> pixels < membase")
  case False
  then have m: "unat membase \<le> unat pixels" "membase \<le> pixels" "0 < unat n"
    by (auto simp: word_less_nat_alt word_le_nat_alt word_unat_eq_iff)
  note o = unat_minus_le [OF m(2)]
  show ?thesis
  proof (cases "pixels - membase < memsize")
    case True
    then have "unat (memsize - (pixels - membase)) = unat memsize - (unat pixels - unat membase)"
      using unat_minus_le [of "pixels - membase" memsize] by (simp add: o)
    with True False m o show ?thesis
      by (simp add: range_within_def Let_def word_le_nat_alt word_less_nat_alt) linarith
  next
    case f: False
    with False m o show ?thesis by (simp add: range_within_def Let_def word_less_nat_alt)
  qed
qed (auto simp: range_within_def word_less_nat_alt)

lemma single_bit_power: "0 < x \<Longrightarrow> x AND (x - 1) = 0 \<Longrightarrow> \<exists>k. x = 2 ^ k" for x :: nat
proof (induction x rule: less_induct)
  case (less x)
  show ?case
  proof (cases "even x")
    case True
    then obtain y where y: "x = 2 * y" by blast
    with less.prems have pos: "0 < y" by simp
    have m: "x - 1 = 2 * (y - 1) + 1" using y pos by simp
    have "x AND (x - 1) = 2 * (y AND (y - 1))"
      unfolding y m [unfolded y] by (subst and_rec) (simp add: pos)
    with less.prems have "y AND (y - 1) = 0" by simp
    with less.IH [of y] y pos obtain k where "y = 2 ^ k" by auto
    with y show ?thesis by (intro exI [of _ "Suc k"]) simp
  next
    case False
    then obtain y where y: "x = 2 * y + 1" by (elim oddE)
    have "x AND (x - 1) = 2 * y" unfolding y by (subst and_rec) simp
    with less.prems y have "x = 2 ^ 0" by simp
    then show ?thesis by blast
  qed
qed

lemma align_valid_power: "align_valid a \<longleftrightarrow> (\<exists>k \<le> 8. a = 2 ^ k)"
proof
  assume v: "align_valid a"
  then have nz: "1 \<le> a" by (simp add: align_valid_def word_le_nat_alt word_unat_eq_iff Suc_le_eq)
  have "unat a AND (unat a - 1) = 0"
    using v unat_minus_le [OF nz] by (metis align_valid_def unat_0 unat_1 unsigned_and_eq)
  then obtain k where k: "unat a = 2 ^ k" using single_bit_power [of "unat a"] nz by (auto simp: word_le_nat_alt)
  have "(2 :: nat) ^ k \<le> 2 ^ 8" using v k by (simp add: align_valid_def word_le_nat_alt)
  then have "k \<le> 8" by (rule power_le_imp_le_exp [rotated]) simp
  moreover from \<open>k \<le> 8\<close> have "k \<in> {0, 1, 2, 3, 4, 5, 6, 7, 8}" by auto
  then have "a = 2 ^ k" using k by (auto simp: word_unat_eq_iff)
  ultimately show "\<exists>k \<le> 8. a = 2 ^ k" by blast
next
  assume "\<exists>k \<le> 8. a = 2 ^ k"
  then obtain k where k: "k \<le> 8" "a = 2 ^ k" by blast
  then have "k \<in> {0, 1, 2, 3, 4, 5, 6, 7, 8}" by auto
  with k(2) show "align_valid a" by (auto simp: align_valid_def)
qed

lemma clear_low_bits:
  fixes x :: u32
  shows "unat (x AND NOT (mask k)) = unat x - unat x mod 2 ^ k" and "2 ^ k dvd unat (x AND NOT (mask k))"
proof -
  have "(x AND mask k) + (x AND NOT (mask k)) = x"
    by (subst disjunctive_add) (auto simp: bit_simps intro: bit_word_eqI)
  moreover have "unat (x AND mask k) = take_bit k (unat x)"
    by (simp only: take_bit_eq_mask [symmetric] unsigned_take_bit_eq)
  then have m: "unat (x AND mask k) = unat x mod 2 ^ k" by (simp only: take_bit_eq_mod)
  moreover have "unat (x AND NOT (mask k)) \<le> unat x" by (metis word_and_le2 word_le_nat_alt)
  ultimately show e: "unat (x AND NOT (mask k)) = unat x - unat x mod 2 ^ k"
    by (metis add_diff_cancel_left' unat_minus_le word_and_le2)
  show "2 ^ k dvd unat (x AND NOT (mask k))" unfolding e by (simp add: minus_mod_eq_mult_div)
qed

lemma round_up_least:
  fixes n al :: nat
  assumes "0 < al"
  shows "n \<le> (n + al - 1) div al * al" and "al dvd m' \<Longrightarrow> n \<le> m' \<Longrightarrow> (n + al - 1) div al * al \<le> m'"
proof -
  have "(n + al - 1) mod al < al" using assms by simp
  then show "n \<le> (n + al - 1) div al * al" using div_mult_mod_eq [of "n + al - 1" al] by linarith
  show "(n + al - 1) div al * al \<le> m'" if "al dvd m'" "n \<le> m'"
  proof -
    from that(1) obtain q where q: "m' = al * q" by blast
    have "(n + al - 1) div al \<le> (al * q + (al - 1)) div al" using that(2) q assms by (intro div_le_mono) simp
    also have "\<dots> = q" using assms div_mult_self4 [of al q "al - 1"] by simp
    finally show ?thesis by (simp add: q mult.commute)
  qed
qed

text \<open>Padding a pitch. For every alignment the driver can honour the result is the least multiple of the stronger of
  that alignment and the blitter's four bytes that holds the row, and it is zero exactly when that multiple
  does not fit 32 bits or the row is empty.\<close>

lemma pitch_padding_least:
  assumes "align_valid a"
  shows "let al = max 4 (unat a); m = (unat bytes + al - 1) div al * al in
    unat (pad_pitch_to bytes a) = (if m < 4294967296 then m else 0) \<and> unat bytes \<le> m \<and> al dvd m \<and>
    (\<forall>m'. al dvd m' \<longrightarrow> unat bytes \<le> m' \<longrightarrow> m \<le> m')"
proof -
  obtain k where k: "k \<le> 8" "a = 2 ^ k" using assms by (auto simp: align_valid_power)
  define j where "j = max 2 k"
  define al :: u32 where "al = 2 ^ j"
  have "k \<in> {0, 1, 2, 3, 4, 5, 6, 7, 8}" using k(1) by auto
  then have al: "(if a < 4 then 4 else a) = al" "max 4 (unat a) = 2 ^ j" "unat al = 2 ^ j" "4 \<le> unat al" "unat al \<le> 256" "j \<le> 8"
    by (auto simp: k(2) al_def j_def)
  have lim: "unat (- 1 - (al - 1)) = 4294967295 - (2 ^ j - 1)"
    using unat_minus_le [of 1 al] unat_minus_le [of "al - 1" "- 1"] al
    by (simp add: unsigned_minus_1_eq_mask mask_eq_exp_minus_1 word_le_nat_alt)
  have small: "(2 :: nat) ^ j \<le> 256" "4 \<le> (2 :: nat) ^ j" using al by simp_all
  have over: "bytes > - 1 - (al - 1) \<longleftrightarrow> 4294967296 \<le> unat bytes + 2 ^ j - 1"
    using small by (simp only: word_less_nat_alt lim) linarith
  let ?m = "(unat bytes + 2 ^ j - 1) div 2 ^ j * 2 ^ j"
  have "(2 :: nat) ^ j dvd 2 ^ 32" using \<open>j \<le> 8\<close> by (intro le_imp_power_dvd) simp
  then obtain q where q: "(2 :: nat) ^ 32 = q * 2 ^ j" by (auto simp: dvd_def mult.commute)
  have "?m < q * 2 ^ j \<longleftrightarrow> unat bytes + 2 ^ j - 1 < q * 2 ^ j" by (simp add: div_less_iff_less_mult)
  then have fits: "?m < 4294967296 \<longleftrightarrow> unat bytes + 2 ^ j - 1 < 4294967296"
    unfolding q [symmetric] by simp
  have "unat (pad_pitch_to bytes a) = (if ?m < 4294967296 then ?m else 0)"
  proof (cases "bytes > - 1 - (al - 1)")
    case True
    then have "pad_pitch_to bytes a = 0" unfolding pad_pitch_to_def al(1) Let_def by (rule if_P)
    with True fits over show ?thesis by simp
  next
    case False
    then have lt: "unat bytes + 2 ^ j - 1 < 4294967296" using over by simp
    have "unat (al - 1) = 2 ^ j - 1" using unat_minus_le [of 1 al] al by (simp add: word_le_nat_alt)
    then have "unat (bytes + (al - 1)) = unat bytes + 2 ^ j - 1"
      using lt small unat_plus_nowrap [of bytes "al - 1"] by simp
    then have "unat (bytes + al - 1) = unat bytes + 2 ^ j - 1" by (simp only: add_diff_eq)
    moreover have "al - 1 = mask j" by (simp add: al_def mask_eq_exp_minus_1)
    moreover have "pad_pitch_to bytes a = (bytes + al - 1) AND NOT (al - 1)"
      using False unfolding pad_pitch_to_def al(1) Let_def by (rule if_not_P)
    ultimately show ?thesis using lt fits clear_low_bits(1) [of "bytes + al - 1" j]
      by (simp add: minus_mod_eq_div_mult)
  qed
  then show ?thesis using round_up_least(1) [of "2 ^ j" "unat bytes"]
      round_up_least(2) [where al = "2 ^ j" and n = "unat bytes"] by (simp add: Let_def al(2))
qed

end
