(* ===== verification/RtgOverlay.thy ===== *)
theory RtgOverlay
  imports Prelude
begin

text \<open>
  The video window of the graphics driver (\<^verbatim>\<open>rtg/overlay_feature.h\<close>): validation and sizing of its
  source surface, and the feature record that Picasso96 sets and queries by tags. A settable tag read back gives
  what was stored, and no tag disturbs another.
\<close>

section \<open>Source surfaces\<close>

definition overlay_variant :: "u32 \<Rightarrow> int" where
  "overlay_variant f = (if f = 14 then 0 else if f = 17 then 1 else if f = 18 then 2 else - 1)"

definition overlay_source_valid :: "u32 \<Rightarrow> u32 \<Rightarrow> u32 \<Rightarrow> bool" where
  "overlay_source_valid w h f =
     (w \<ge> 16 \<and> h \<ge> 16 \<and> w \<le> 4096 \<and> h \<le> 4096 \<and> w AND 1 = 0 \<and> overlay_variant f \<ge> 0)"

definition overlay_line_bytes :: "u32 \<Rightarrow> u32" where
  "overlay_line_bytes w = (if w = 0 \<or> w > 4096 then 0 else (w + 1) div 2 * 4)"

definition overlay_pitch_valid :: "u32 \<Rightarrow> u32 \<Rightarrow> bool" where
  "overlay_pitch_valid w pitch = (let expected = overlay_line_bytes w in expected \<noteq> 0 \<and> pitch = expected)"

text \<open>\<open>None\<close> is the failing return; the size pointer is never NULL at the call sites.\<close>

definition overlay_surface_size :: "u32 \<Rightarrow> u32 \<Rightarrow> u32 option" where
  "overlay_surface_size w h =
     (let pitch = overlay_line_bytes w in
      if pitch = 0 \<or> h = 0 \<or> h > (- 1) div pitch then None
      else if pitch * h \<noteq> 0 then Some (pitch * h) else None)"

definition overlay_surface_fits :: "u32 \<Rightarrow> u32 \<Rightarrow> u32 \<Rightarrow> bool" where
  "overlay_surface_fits w h pool =
     (case overlay_surface_size w h of None \<Rightarrow> False | Some sz \<Rightarrow> sz \<le> pool)"

definition overlay_tighten_pitch :: "u32 \<Rightarrow> u16 option \<Rightarrow> bool \<times> u16 option" where
  "overlay_tighten_pitch w pitch =
     (let expected = overlay_line_bytes w in
      case pitch of
        None \<Rightarrow> (False, None)
      | Some p \<Rightarrow> if expected = 0 \<or> ucast p < expected then (False, Some p) else (True, Some (ucast expected)))"

definition overlay_friend_width :: "u32 \<Rightarrow> u32 \<Rightarrow> u32" where
  "overlay_friend_width w bpp =
     (if bpp = 0 \<or> bpp > 4 then 0
      else let n = overlay_line_bytes w in if n = 0 then 0 else (n + bpp - 1) div bpp)"

section \<open>The feature record\<close>

record overlay_state =
  ov_magic :: u32
  ov_rgbformat :: u32
  ov_src_w :: u16
  ov_src_h :: u16
  ov_dst_x :: u16
  ov_dst_y :: u16
  ov_dst_w :: u16
  ov_dst_h :: u16
  ov_color_key :: u32
  ov_pen :: u32
  ov_occlusion :: u8
  ov_active :: u8
  ov_clip_l :: u16
  ov_clip_t :: u16
  ov_clip_w :: u16
  ov_clip_h :: u16
  ov_brightness :: u32

text \<open>
  The \<^verbatim>\<open>int16_t\<close> fields are kept as words; reading one back sign-extends it (\<^verbatim>\<open>scast\<close>).
\<close>

definition overlay_apply_tag :: "overlay_state \<Rightarrow> u32 \<Rightarrow> u32 \<Rightarrow> bool \<times> overlay_state" where
  "overlay_apply_tag st tag d =
     (if tag = 0x80000002 then (True, st\<lparr>ov_active := if d \<noteq> 0 then 1 else 0\<rparr>)
      else if tag = 0x80000003 then (True, st\<lparr>ov_dst_x := ucast d\<rparr>)
      else if tag = 0x80000004 then (True, st\<lparr>ov_dst_y := ucast d\<rparr>)
      else if tag = 0x80000005 then (True, st\<lparr>ov_dst_w := ucast d\<rparr>)
      else if tag = 0x80000006 then (True, st\<lparr>ov_dst_h := ucast d\<rparr>)
      else if tag = 0x80000009 then (True, st\<lparr>ov_occlusion := if d \<noteq> 0 then 1 else 0\<rparr>)
      else if tag = 0x80000008 then (True, st\<lparr>ov_color_key := d\<rparr>)
      else if tag = 0x8000001F then (False, st\<lparr>ov_pen := d\<rparr>)
      else if tag = 0x80000007 then (True, st\<lparr>ov_rgbformat := d\<rparr>)
      else if tag = 0x8000000A then (True, st\<lparr>ov_src_w := ucast d\<rparr>)
      else if tag = 0x8000000B then (True, st\<lparr>ov_src_h := ucast d\<rparr>)
      else if tag = 0x80000021 then (False, st\<lparr>ov_clip_l := ucast d\<rparr>)
      else if tag = 0x80000022 then (False, st\<lparr>ov_clip_t := ucast d\<rparr>)
      else if tag = 0x80000023 then (False, st\<lparr>ov_clip_w := ucast d\<rparr>)
      else if tag = 0x80000024 then (False, st\<lparr>ov_clip_h := ucast d\<rparr>)
      else if tag = 0x80000013 then (False, st\<lparr>ov_brightness := d\<rparr>)
      else (False, st))"

definition overlay_tag_create_only :: "u32 \<Rightarrow> bool" where
  "overlay_tag_create_only tag = (tag = 0x80000007 \<or> tag = 0x8000000A \<or> tag = 0x8000000B)"

definition overlay_query_tag :: "overlay_state \<Rightarrow> bool \<Rightarrow> u32 \<Rightarrow> u32 \<Rightarrow> u32 option" where
  "overlay_query_tag st have_feature bitmap tag =
     (if tag = 0x8000000C \<or> tag = 0x8000000D then Some 16
      else if tag = 0x8000000E \<or> tag = 0x8000000F then Some 4096
      else if \<not> have_feature then None
      else if tag = 0x80000002 then Some (ucast (ov_active st))
      else if tag = 0x80000009 then Some (ucast (ov_occlusion st))
      else if tag = 0x80000003 then Some (scast (ov_dst_x st))
      else if tag = 0x80000004 then Some (scast (ov_dst_y st))
      else if tag = 0x80000005 then Some (scast (ov_dst_w st))
      else if tag = 0x80000006 then Some (scast (ov_dst_h st))
      else if tag = 0x8000000A then Some (ucast (ov_src_w st))
      else if tag = 0x8000000B then Some (ucast (ov_src_h st))
      else if tag = 0x80000007 then Some (ov_rgbformat st)
      else if tag = 0x80000008 then Some (ov_color_key st)
      else if tag = 0x8000001F then Some (ov_pen st)
      else if tag = 0x80000012 then Some bitmap
      else if tag = 0x80000013 then Some (ov_brightness st)
      else if tag = 0x80000021 then Some (scast (ov_clip_l st))
      else if tag = 0x80000022 then Some (scast (ov_clip_t st))
      else if tag = 0x80000023 then Some (scast (ov_clip_w st))
      else if tag = 0x80000024 then Some (scast (ov_clip_h st))
      else None)"

section \<open>What the tags store\<close>

definition settable_tags :: "u32 set" where
  "settable_tags = {0x80000002, 0x80000003, 0x80000004, 0x80000005, 0x80000006, 0x80000007, 0x80000008, 0x80000009,
     0x8000000A, 0x8000000B, 0x80000013, 0x8000001F, 0x80000021, 0x80000022, 0x80000023, 0x80000024}"

text \<open>The value a tag is read back with: a truth value, a signed or an unsigned 16-bit value, or the word itself.\<close>

definition tag_value :: "u32 \<Rightarrow> u32 \<Rightarrow> u32" where
  "tag_value tag d =
     (if tag \<in> {0x80000002, 0x80000009} then (if d \<noteq> 0 then 1 else 0)
      else if tag \<in> {0x80000003, 0x80000004, 0x80000005, 0x80000006, 0x80000021, 0x80000022, 0x80000023, 0x80000024}
      then scast (ucast d :: u16)
      else if tag \<in> {0x8000000A, 0x8000000B} then ucast (ucast d :: u16) else d)"

lemma query_unset:
  "tag \<notin> settable_tags \<Longrightarrow> overlay_query_tag st b bm tag = overlay_query_tag st' b bm tag"
  by (simp add: settable_tags_def overlay_query_tag_def)

lemma apply_other: "tag \<notin> settable_tags \<Longrightarrow> overlay_apply_tag st tag d = (False, st)"
  by (simp add: settable_tags_def overlay_apply_tag_def)

text \<open>Setting and querying the video window. A tag the driver stores is read back as the value its field holds, every other tag
  answers as before, and the firmware is told exactly when a tag other than the pen, the clip box and the brightness is stored.\<close>

theorem overlay_tags_independent:
  "overlay_query_tag (snd (overlay_apply_tag st tag d)) True bitmap tag' =
     (if tag' = tag \<and> tag \<in> settable_tags then Some (tag_value tag d) else overlay_query_tag st True bitmap tag') \<and>
   fst (overlay_apply_tag st tag d) =
     (tag \<in> settable_tags - {0x8000001F, 0x80000021, 0x80000022, 0x80000023, 0x80000024, 0x80000013})"
proof (cases "tag \<in> settable_tags")
  case False
  then show ?thesis by (simp add: apply_other)
next
  case True
  then show ?thesis
    unfolding settable_tags_def
    by (elim insertE; simp add: overlay_apply_tag_def overlay_query_tag_def tag_value_def)
qed

end
