(* ===== verification/RtgBlitter.thy ===== *)
theory RtgBlitter
  imports RtgMode
begin

text \<open>
  What the hooks of the graphics driver (\<^verbatim>\<open>rtg/mntgfx-gcc.c\<close>) act on: the card, the driver's own state, and the caches that spare slow bus
  writes (\<^verbatim>\<open>rtg/blitter_cache.h\<close> and the function-static copies of the last value). A Zorro II board is
  commanded through its blitter registers, a Zorro III board through the descriptor in card memory; what the card is
  told is recorded as the operation together with the register file or descriptor it then reads.
\<close>

section \<open>The card\<close>

datatype breg = R_Src | R_Dst | R_Rgb | R_Rgb2 | R_Src_Pitch | R_Row_Pitch | R_Color_Mode
  | R_X1 | R_Y1 | R_X2 | R_Y2 | R_X3 | R_Y3 | R_User1 | R_User2 | R_User3

datatype blit_op = Op_Fill | Op_Copy | Op_Template | Op_Line | Op_Invert | Op_P2C | Op_P2D
  | Op_Sprite_Bitmap | Op_Sprite_XY | Op_Sprite_Colors | Op_Split_Pos

datatype dma_op = Dma_Draw_Line | Dma_Fill_Rect | Dma_Copy_Rect | Dma_Copy_Rect_No_Mask | Dma_Rect_Template
  | Dma_Rect_Pattern | Dma_P2C | Dma_P2D | Dma_Invert_Rect | Dma_Pan | Dma_Sprite_XY | Dma_Sprite_Color | Dma_Sprite_Bitmap
  | Dma_Set_Split_Pos | Dma_Set_Palette | Dma_Video_Overlay

datatype acc_op = Acc_Alloc_Surface | Acc_Free_Surface

record gfx_data =
  gd_offset :: "nat \<Rightarrow> u32"
  gd_rgb :: "nat \<Rightarrow> u32"
  gd_x :: "nat \<Rightarrow> u16"
  gd_y :: "nat \<Rightarrow> u16"
  gd_user :: "nat \<Rightarrow> u16"
  gd_pitch :: "nat \<Rightarrow> u16"
  gd_u8 :: "nat \<Rightarrow> u8"
  gd_mask :: u8
  gd_minterm :: u8
  gd_u8offset :: u8
  gd_u32 :: "nat \<Rightarrow> u32"
  gd_clut1 :: "nat \<Rightarrow> u8"

datatype draw_fn = Fn_Fill_Rect | Fn_Invert_Rect | Fn_Blit_Rect | Fn_Blit_No_Mask | Fn_Template | Fn_Pattern | Fn_Line
  | Fn_P2C | Fn_P2D

text \<open>
  What the card (or Picasso96's own code, for the fallbacks) is told: a blitter operation or a register with an effect, with the registers
  or the descriptor it reads. \<open>Issue_Pan\<close> is the Zorro II panning pointer, \<open>Issue_Origin\<close> its two halves
  for the native screen, \<open>Issue_Color\<close> one Zorro II palette entry, \<open>Issue_Mode\<close> the mode register, \<open>Issue_Reg\<close> the
  custom-mode registers, \<open>Issue_Feature\<close> the value of the feature selected by the first user register \<open>Issue_Capture\<close> the
  capture switch and \<open>Issue_Acc\<close> a request to the firmware's allocator of surfaces.
\<close>

datatype issued =
    Issue_Z2 blit_op u16 "breg \<Rightarrow> u32"
  | Issue_Z3 dma_op gfx_data
  | Issue_Default draw_fn
  | Issue_Pan u32 "breg \<Rightarrow> u32"
  | Issue_Origin u16 u16
  | Issue_Color u32 u16
  | Issue_Mode u16
  | Issue_Reg u16 u16
  | Issue_Feature u16 "breg \<Rightarrow> u32"
  | Issue_Capture u16
  | Issue_Acc acc_op gfx_data

section \<open>Caches\<close>

record blitter_cache =
  bc_registers :: u32
  bc_valid :: u32
  bc_src_pitch :: u16
  bc_user1 :: u16
  bc_user2 :: u16
  bc_rgb2 :: u32

definition CACHE_SRC_PITCH :: u32 where "CACHE_SRC_PITCH = 1"
definition CACHE_USER1 :: u32 where "CACHE_USER1 = 2"
definition CACHE_USER2 :: u32 where "CACHE_USER2 = 4"
definition CACHE_RGB2 :: u32 where "CACHE_RGB2 = 8"

definition cache_reset :: "blitter_cache \<Rightarrow> blitter_cache" where
  "cache_reset c = c\<lparr>bc_registers := 0, bc_valid := 0, bc_src_pitch := 0, bc_user1 := 0, bc_user2 := 0, bc_rgb2 := 0\<rparr>"

definition cache_select :: "u32 \<Rightarrow> blitter_cache \<Rightarrow> blitter_cache" where
  "cache_select registers c =
     (if bc_registers c \<noteq> registers then c\<lparr>bc_registers := registers, bc_valid := 0\<rparr> else c)"

definition cache_invalidate :: "u32 \<Rightarrow> u32 \<Rightarrow> blitter_cache \<Rightarrow> blitter_cache" where
  "cache_invalidate registers bits c =
     (let c1 = cache_select registers c in c1\<lparr>bc_valid := bc_valid c1 AND NOT bits\<rparr>)"

text \<open>
  The slot pointer of the C functions is one of the record's own fields: it is passed as the
  pair of its selector and its update.
\<close>

definition write_needed ::
  "(blitter_cache \<Rightarrow> 'v) \<Rightarrow> ('v \<Rightarrow> blitter_cache \<Rightarrow> blitter_cache) \<Rightarrow> u32 \<Rightarrow> u32 \<Rightarrow> 'v \<Rightarrow> blitter_cache \<Rightarrow> bool \<times> blitter_cache" where
  "write_needed slot set_slot registers flag v c =
     (let c1 = cache_select registers c in
      if bc_valid c1 AND flag = 0 \<or> slot c1 \<noteq> v
      then (True, (set_slot v c1)\<lparr>bc_valid := bc_valid c1 OR flag\<rparr>) else (False, c1))"

definition src_pitch_write_needed :: "u32 \<Rightarrow> u16 \<Rightarrow> blitter_cache \<Rightarrow> bool \<times> blitter_cache" where
  "src_pitch_write_needed registers v c =
     (let c1 = cache_select registers c in
      (True, c1\<lparr>bc_src_pitch := v, bc_valid := bc_valid c1 AND NOT CACHE_SRC_PITCH\<rparr>))"

record byte_cache =
  by_owner :: u32
  by_value :: "nat \<Rightarrow> u8"
  by_valid :: u8

definition byte_cache_reset :: "byte_cache \<Rightarrow> byte_cache" where
  "byte_cache_reset c = c\<lparr>by_owner := 0, by_valid := 0\<rparr>"

section \<open>The driver's own state\<close>

text \<open>The mode object of Picasso96, as far as the driver uses it, and the fields of the board structure and of its
  \<^verbatim>\<open>CardData\<close> that the hooks change. Mode objects live in a store, because the board keeps a pointer to one (0 is NULL).\<close>

record mode_info =
  mi_width :: u16
  mi_height :: u16
  mi_hor_total :: u16
  mi_hor_sync_start :: u16
  mi_hor_sync_size :: u16
  mi_ver_total :: u16
  mi_ver_sync_start :: u16
  mi_ver_sync_size :: u16
  mi_flags :: u8
  mi_pixel_clock :: u32
  mi_pll1_clock :: u8
  mi_pll2_divide :: u8

record desk =
  dk_x_offset :: u16
  dk_y_offset :: u16
  dk_y_split :: u16
  dk_mouse_x :: u16
  dk_mouse_y :: u16
  dk_gc_rejected :: bool
  dk_mode_info :: u32
  dk_border :: bool
  dk_modes :: "u32 \<Rightarrow> mode_info"
  dk_monitor_switch :: u16
  dk_moni_switch :: u16
  dk_display_enabled :: u16
  dk_secondary_palette :: bool

definition no_mode_info :: mode_info where
  "no_mode_info = \<lparr>mi_width = 0, mi_height = 0, mi_hor_total = 0, mi_hor_sync_start = 0, mi_hor_sync_size = 0, mi_ver_total = 0,
     mi_ver_sync_start = 0, mi_ver_sync_size = 0, mi_flags = 0, mi_pixel_clock = 0, mi_pll1_clock = 0, mi_pll2_divide = 0\<rparr>"

definition boot_desk :: desk where
  "boot_desk = \<lparr>dk_x_offset = 0, dk_y_offset = 0, dk_y_split = 0, dk_mouse_x = 0, dk_mouse_y = 0, dk_gc_rejected = False,
     dk_mode_info = 0, dk_border = False, dk_modes = \<lambda>_. no_mode_info, dk_monitor_switch = 1, dk_moni_switch = 1,
     dk_display_enabled = 1, dk_secondary_palette = False\<rparr>"

text \<open>The function-static last values are the map \<open>st_old\<close>, one entry per register writer.\<close>

record rtg =
  st_regs :: "u32 \<Rightarrow> breg \<Rightarrow> u32"
  st_old :: "breg \<Rightarrow> u32"
  st_cache :: blitter_cache
  st_gfx :: "u32 \<Rightarrow> gfx_data"
  st_bytes :: byte_cache
  st_mem :: "u32 \<Rightarrow> u8"
  st_issued :: "issued list"
  st_desk :: desk

section \<open>Register writers\<close>

definition put_reg :: "u32 \<Rightarrow> breg \<Rightarrow> u32 \<Rightarrow> rtg \<Rightarrow> rtg" where
  "put_reg base r v s = s\<lparr>st_regs := (st_regs s)(base := (st_regs s base)(r := v))\<rparr>"

definition put_once :: "breg \<Rightarrow> u32 \<Rightarrow> u32 \<Rightarrow> rtg \<Rightarrow> rtg" where
  "put_once r base v s =
     (if v \<noteq> st_old s r then (put_reg base r v s)\<lparr>st_old := (st_old s)(r := v)\<rparr> else s)"

definition write_src_offset :: "u32 \<Rightarrow> u32 \<Rightarrow> rtg \<Rightarrow> rtg" where "write_src_offset = put_once R_Src"
definition write_dst_offset :: "u32 \<Rightarrow> u32 \<Rightarrow> rtg \<Rightarrow> rtg" where "write_dst_offset = put_once R_Dst"
definition write_rgb :: "u32 \<Rightarrow> u32 \<Rightarrow> rtg \<Rightarrow> rtg" where "write_rgb = put_once R_Rgb"
definition write_dst_pitch :: "u32 \<Rightarrow> u16 \<Rightarrow> rtg \<Rightarrow> rtg" where "write_dst_pitch base v = put_once R_Row_Pitch base (ucast v)"
definition write_color_mode :: "u32 \<Rightarrow> u16 \<Rightarrow> rtg \<Rightarrow> rtg" where "write_color_mode base v = put_once R_Color_Mode base (ucast v)"
definition write_x1 :: "u32 \<Rightarrow> u16 \<Rightarrow> rtg \<Rightarrow> rtg" where "write_x1 base v = put_once R_X1 base (ucast v)"
definition write_y1 :: "u32 \<Rightarrow> u16 \<Rightarrow> rtg \<Rightarrow> rtg" where "write_y1 base v = put_once R_Y1 base (ucast v)"
definition write_x2 :: "u32 \<Rightarrow> u16 \<Rightarrow> rtg \<Rightarrow> rtg" where "write_x2 base v = put_once R_X2 base (ucast v)"
definition write_y2 :: "u32 \<Rightarrow> u16 \<Rightarrow> rtg \<Rightarrow> rtg" where "write_y2 base v = put_once R_Y2 base (ucast v)"
definition write_x3 :: "u32 \<Rightarrow> u16 \<Rightarrow> rtg \<Rightarrow> rtg" where "write_x3 base v = put_once R_X3 base (ucast v)"
definition write_y3 :: "u32 \<Rightarrow> u16 \<Rightarrow> rtg \<Rightarrow> rtg" where "write_y3 base v = put_once R_Y3 base (ucast v)"

definition write_src_pitch :: "u32 \<Rightarrow> u16 \<Rightarrow> rtg \<Rightarrow> rtg" where
  "write_src_pitch base v s =
     (case src_pitch_write_needed base v (st_cache s) of (needed, c) \<Rightarrow>
        let s1 = s\<lparr>st_cache := c\<rparr> in if needed then put_reg base R_Src_Pitch (ucast v) s1 else s1)"

definition write_rgb2 :: "u32 \<Rightarrow> u32 \<Rightarrow> rtg \<Rightarrow> rtg" where
  "write_rgb2 base v s =
     (case write_needed bc_rgb2 (\<lambda>v c. c\<lparr>bc_rgb2 := v\<rparr>) base CACHE_RGB2 v (st_cache s) of (needed, c) \<Rightarrow>
        let s1 = s\<lparr>st_cache := c\<rparr> in if needed then put_reg base R_Rgb2 v s1 else s1)"

definition write_user1 :: "u32 \<Rightarrow> u16 \<Rightarrow> rtg \<Rightarrow> rtg" where
  "write_user1 base v s =
     (case write_needed bc_user1 (\<lambda>v c. c\<lparr>bc_user1 := v\<rparr>) base CACHE_USER1 v (st_cache s) of (needed, c) \<Rightarrow>
        let s1 = s\<lparr>st_cache := c\<rparr> in if needed then put_reg base R_User1 (ucast v) s1 else s1)"

definition write_user2 :: "u32 \<Rightarrow> u16 \<Rightarrow> rtg \<Rightarrow> rtg" where
  "write_user2 base v s =
     (case write_needed bc_user2 (\<lambda>v c. c\<lparr>bc_user2 := v\<rparr>) base CACHE_USER2 v (st_cache s) of (needed, c) \<Rightarrow>
        let s1 = s\<lparr>st_cache := c\<rparr> in if needed then put_reg base R_User2 (ucast v) s1 else s1)"

definition write_user3 :: "u32 \<Rightarrow> u16 \<Rightarrow> rtg \<Rightarrow> rtg" where
  "write_user3 base v = put_reg base R_User3 (ucast v)"

definition select_card_feature :: "u32 \<Rightarrow> u16 \<Rightarrow> rtg \<Rightarrow> rtg" where
  "select_card_feature base feature s =
     (let s1 = put_reg base R_User1 (ucast feature) s
      in s1\<lparr>st_cache := cache_invalidate base CACHE_USER1 (st_cache s1)\<rparr>)"

section \<open>Descriptor writers\<close>

definition upd_gfx :: "u32 \<Rightarrow> (gfx_data \<Rightarrow> gfx_data) \<Rightarrow> rtg \<Rightarrow> rtg" where
  "upd_gfx p f s = s\<lparr>st_gfx := (st_gfx s)(p := f (st_gfx s p))\<rparr>"

definition write_gfx_byte :: "u32 \<Rightarrow> (u8 \<Rightarrow> gfx_data \<Rightarrow> gfx_data) \<Rightarrow> nat \<Rightarrow> u8 \<Rightarrow> rtg \<Rightarrow> rtg" where
  "write_gfx_byte p field slot v s =
     (let c0 = st_bytes s;
          c = (if by_owner c0 \<noteq> p then c0\<lparr>by_owner := p, by_valid := 0\<rparr> else c0);
          s1 = s\<lparr>st_bytes := c\<rparr>
      in if \<not> bit (by_valid c) slot \<or> by_value c slot \<noteq> v
         then (upd_gfx p (field v) s1)\<lparr>st_bytes := c\<lparr>by_value := (by_value c)(slot := v), by_valid := set_bit slot (by_valid c)\<rparr>\<rparr>
         else s1)"

definition BYTE_MASK :: nat where "BYTE_MASK = 2"
definition BYTE_MINTERM :: nat where "BYTE_MINTERM = 3"

definition write_gfx_u8 :: "u32 \<Rightarrow> nat \<Rightarrow> u8 \<Rightarrow> rtg \<Rightarrow> rtg" where
  "write_gfx_u8 p index v = write_gfx_byte p (\<lambda>v g. g\<lparr>gd_u8 := (gd_u8 g)(index := v)\<rparr>) index v"

definition write_gfx_mask :: "u32 \<Rightarrow> u8 \<Rightarrow> rtg \<Rightarrow> rtg" where
  "write_gfx_mask p v = write_gfx_byte p (\<lambda>v g. g\<lparr>gd_mask := v\<rparr>) BYTE_MASK v"

definition write_gfx_minterm :: "u32 \<Rightarrow> u8 \<Rightarrow> rtg \<Rightarrow> rtg" where
  "write_gfx_minterm p v = write_gfx_byte p (\<lambda>v g. g\<lparr>gd_minterm := v\<rparr>) BYTE_MINTERM v"

definition descriptor_pair :: "nat \<Rightarrow> u16 \<Rightarrow> u16 \<Rightarrow> (nat \<Rightarrow> u16) \<Rightarrow> nat \<Rightarrow> u16" where
  "descriptor_pair i a b vs =
     (let w = push_bit 16 (ucast a) OR ucast b :: u32
      in vs(i := ucast (drop_bit 16 w), i + 1 := ucast w))"

definition set_offset :: "nat \<Rightarrow> u32 \<Rightarrow> gfx_data \<Rightarrow> gfx_data" where "set_offset i v g = g\<lparr>gd_offset := (gd_offset g)(i := v)\<rparr>"
definition set_rgb :: "nat \<Rightarrow> u32 \<Rightarrow> gfx_data \<Rightarrow> gfx_data" where "set_rgb i v g = g\<lparr>gd_rgb := (gd_rgb g)(i := v)\<rparr>"
definition set_x :: "nat \<Rightarrow> u16 \<Rightarrow> gfx_data \<Rightarrow> gfx_data" where "set_x i v g = g\<lparr>gd_x := (gd_x g)(i := v)\<rparr>"
definition set_y :: "nat \<Rightarrow> u16 \<Rightarrow> gfx_data \<Rightarrow> gfx_data" where "set_y i v g = g\<lparr>gd_y := (gd_y g)(i := v)\<rparr>"
definition set_user :: "nat \<Rightarrow> u16 \<Rightarrow> gfx_data \<Rightarrow> gfx_data" where "set_user i v g = g\<lparr>gd_user := (gd_user g)(i := v)\<rparr>"
definition set_pitch :: "nat \<Rightarrow> u16 \<Rightarrow> gfx_data \<Rightarrow> gfx_data" where "set_pitch i v g = g\<lparr>gd_pitch := (gd_pitch g)(i := v)\<rparr>"

definition emit :: "issued \<Rightarrow> rtg \<Rightarrow> rtg" where
  "emit i s = s\<lparr>st_issued := st_issued s @ [i]\<rparr>"

definition upd_desk :: "(desk \<Rightarrow> desk) \<Rightarrow> rtg \<Rightarrow> rtg" where
  "upd_desk f s = s\<lparr>st_desk := f (st_desk s)\<rparr>"

definition write_feature :: "u32 \<Rightarrow> u16 \<Rightarrow> u16 \<Rightarrow> rtg \<Rightarrow> rtg" where
  "write_feature base feature v s =
     (let s1 = select_card_feature base feature s in emit (Issue_Feature v (st_regs s1 base)) s1)"

definition issue_z2 :: "u32 \<Rightarrow> blit_op \<Rightarrow> u16 \<Rightarrow> rtg \<Rightarrow> rtg" where
  "issue_z2 base op v s = s\<lparr>st_issued := st_issued s @ [Issue_Z2 op v (st_regs s base)]\<rparr>"

definition issue_z3 :: "u32 \<Rightarrow> dma_op \<Rightarrow> rtg \<Rightarrow> rtg" where
  "issue_z3 p op s = s\<lparr>st_issued := st_issued s @ [Issue_Z3 op (st_gfx s p)]\<rparr>"

definition issue_acc :: "u32 \<Rightarrow> acc_op \<Rightarrow> rtg \<Rightarrow> rtg" where
  "issue_acc p op s = s\<lparr>st_issued := st_issued s @ [Issue_Acc op (st_gfx s p)]\<rparr>"

end
