(* ===== verification/RtgDraw.thy ===== *)
theory RtgDraw
  imports RtgBlitter
begin

text \<open>
  The drawing hooks themselves: \<^verbatim>\<open>FillRect\<close>, \<^verbatim>\<open>InvertRect\<close>, \<^verbatim>\<open>BlitRect\<close>, \<^verbatim>\<open>BlitRectNoMaskComplete\<close>,
  \<^verbatim>\<open>BlitTemplate\<close>, \<^verbatim>\<open>BlitPattern\<close> and \<^verbatim>\<open>DrawLine\<close> of \<^verbatim>\<open>rtg/mntgfx-gcc.c\<close>, each with its guards, its
  fallback to Picasso96's default and its two bus paths. NULL board, render-info and argument pointers return at once in
  every hook; they are not represented.
\<close>

section \<open>Arguments\<close>

record board =
  bd_registers :: u32
  bd_memory_base :: u32
  bd_memory_size :: u32
  bd_gfxdata :: u32
  bd_zorro3 :: bool
  bd_aperture_info :: u32
  bd_template_offset :: u32
  bd_default :: "draw_fn \<Rightarrow> bool"

record render_info =
  ri_memory :: u32
  ri_bytes_per_row :: u16

record template =
  tm_memory :: u32
  tm_bytes_per_row :: u16
  tm_xoffset :: u8
  tm_draw_mode :: u8
  tm_fg :: u32
  tm_bg :: u32

record pat =
  pt_memory :: u32
  pt_xoffset :: u16
  pt_yoffset :: u16
  pt_fg :: u32
  pt_bg :: u32
  pt_size :: u8
  pt_draw_mode :: u8

record line =
  ln_x :: u16
  ln_y :: u16
  ln_length :: u16
  ln_dx :: u16
  ln_dy :: u16
  ln_pattern :: u16
  ln_pattern_shift :: u16
  ln_fg :: u32
  ln_bg :: u32
  ln_draw_mode :: u8
  ln_pad :: u8
  ln_xorigin :: u16
  ln_yorigin :: u16

section \<open>Formats\<close>

definition COLOR_NO_USE :: u16 where "COLOR_NO_USE = 255"
definition COLOR_8BIT :: u16 where "COLOR_8BIT = 0"
definition COLOR_16BIT565 :: u16 where "COLOR_16BIT565 = 1"
definition COLOR_32BIT :: u16 where "COLOR_32BIT = 2"
definition COLOR_15BIT :: u16 where "COLOR_15BIT = 3"

definition rtg_to_mnt :: "u16 list" where
  "rtg_to_mnt = [COLOR_8BIT, COLOR_8BIT, COLOR_NO_USE, COLOR_NO_USE, COLOR_NO_USE, COLOR_NO_USE, COLOR_NO_USE, COLOR_NO_USE,
     COLOR_NO_USE, COLOR_32BIT, COLOR_16BIT565, COLOR_15BIT, COLOR_NO_USE, COLOR_NO_USE, COLOR_NO_USE, COLOR_NO_USE,
     COLOR_NO_USE, COLOR_NO_USE, COLOR_NO_USE, COLOR_NO_USE, COLOR_NO_USE]"

definition mnt_colormode :: "u16 \<Rightarrow> u16" where
  "mnt_colormode format =
     (if unat format < length rtg_to_mnt then rtg_to_mnt ! unat format else COLOR_NO_USE)"

definition panning_colormode :: "u16 \<Rightarrow> u16" where
  "panning_colormode colormode = (if colormode = COLOR_15BIT then COLOR_16BIT565 else colormode)"

definition direct_color_mask :: "u16 \<Rightarrow> u8 \<Rightarrow> u8" where
  "direct_color_mask colormode m = (if colormode = COLOR_32BIT then 0xFF else m)"

definition abs_word :: "u16 \<Rightarrow> u16" where
  "abs_word v = (if sint v < 0 then word_of_int (- sint v) else v)"

definition line_length :: "line \<Rightarrow> u16" where
  "line_length l =
     (if ln_length l \<noteq> 0 then ln_length l
      else let dx = abs_word (ln_dx l); dy = abs_word (ln_dy l) in if dx \<ge> dy then dx else dy)"

definition z2_layout_active :: "board \<Rightarrow> bool" where
  "z2_layout_active b = (\<not> bd_zorro3 b \<and> bd_aperture_info b \<noteq> 0 \<and> bd_template_offset b \<noteq> 0)"

definition z2_template_offset :: "board \<Rightarrow> u32" where
  "z2_template_offset b = (if z2_layout_active b then bd_template_offset b else bd_memory_size b)"

definition z2_template_fits :: "u32 \<Rightarrow> bool" where
  "z2_template_fits n = (n \<le> 0x00010000)"

definition shift2 :: "u16 \<Rightarrow> u16" where "shift2 v = word_of_int (sint v div 4)"

definition card_offset :: "board \<Rightarrow> render_info \<Rightarrow> u32" where
  "card_offset b r = ri_memory r - bd_memory_base b"

definition with_high :: "u16 \<Rightarrow> u8 \<Rightarrow> u16" where
  "with_high v h = v OR push_bit 8 (ucast h)"

definition call_default :: "draw_fn \<Rightarrow> rtg \<Rightarrow> rtg" where
  "call_default f s = s\<lparr>st_issued := st_issued s @ [Issue_Default f]\<rparr>"

definition default_or_nothing :: "board \<Rightarrow> draw_fn \<Rightarrow> rtg \<Rightarrow> rtg" where
  "default_or_nothing b f s = (if bd_default b f then call_default f s else s)"

text \<open>\<^verbatim>\<open>w<1 || h<1\<close> on signed words.\<close>

definition no_area :: "u16 \<Rightarrow> u16 \<Rightarrow> bool" where
  "no_area w h = (sint w < 1 \<or> sint h < 1)"

definition tiny :: "u16 \<Rightarrow> u16 \<Rightarrow> bool" where
  "tiny w h = (min (sint w) (sint h) < 6 \<and> max (sint w) (sint h) < 32)"

section \<open>Rectangles\<close>

definition fill_rect_accel ::
  "board \<Rightarrow> render_info \<Rightarrow> u16 \<Rightarrow> u16 \<Rightarrow> u16 \<Rightarrow> u16 \<Rightarrow> u32 \<Rightarrow> u8 \<Rightarrow> u16 \<Rightarrow> rtg \<Rightarrow> rtg" where
  "fill_rect_accel b r x y w h color m colormode s =
     (let g = bd_gfxdata b; base = bd_registers b in
      if bd_zorro3 b then
        (issue_z3 g Dma_Fill_Rect
          \<circ> upd_gfx g (set_y 1 h \<circ> set_y 0 y \<circ> set_x 1 w \<circ> set_x 0 x \<circ> set_rgb 0 color)
          \<circ> write_gfx_mask g m \<circ> write_gfx_u8 g 0 (ucast colormode)
          \<circ> upd_gfx g (set_pitch 0 (shift2 (ri_bytes_per_row r)) \<circ> set_offset 0 (card_offset b r))) s
      else if tiny w h then call_default Fn_Fill_Rect s
      else
        (issue_z2 base Op_Fill (ucast m)
          \<circ> write_y2 base h \<circ> write_x2 base w \<circ> write_y1 base y \<circ> write_x1 base x
          \<circ> write_color_mode base colormode \<circ> write_dst_pitch base (shift2 (ri_bytes_per_row r))
          \<circ> write_rgb base color \<circ> write_dst_offset base (card_offset b r)) s)"

definition Fill_Rect ::
  "board \<Rightarrow> render_info \<Rightarrow> u16 \<Rightarrow> u16 \<Rightarrow> u16 \<Rightarrow> u16 \<Rightarrow> u32 \<Rightarrow> u8 \<Rightarrow> u16 \<Rightarrow> rtg \<Rightarrow> rtg" where
  "Fill_Rect b r x y w h color m format s =
     (if no_area w h then s
      else let colormode = mnt_colormode format in
        if colormode = COLOR_NO_USE then default_or_nothing b Fn_Fill_Rect s
        else fill_rect_accel b r x y w h color (direct_color_mask colormode m) colormode s)"

definition Invert_Rect ::
  "board \<Rightarrow> render_info \<Rightarrow> u16 \<Rightarrow> u16 \<Rightarrow> u16 \<Rightarrow> u16 \<Rightarrow> u8 \<Rightarrow> u16 \<Rightarrow> rtg \<Rightarrow> rtg" where
  "Invert_Rect b r x y w h m0 format s =
     (let colormode = mnt_colormode format; m = direct_color_mask colormode m0;
          g = bd_gfxdata b; base = bd_registers b in
      if colormode = COLOR_NO_USE then default_or_nothing b Fn_Invert_Rect s
      else if bd_zorro3 b then
        (issue_z3 g Dma_Invert_Rect
          \<circ> upd_gfx g (set_y 1 h \<circ> set_y 0 y \<circ> set_x 1 w \<circ> set_x 0 x)
          \<circ> write_gfx_mask g m \<circ> write_gfx_u8 g 0 (ucast colormode)
          \<circ> upd_gfx g (set_pitch 0 (shift2 (ri_bytes_per_row r)) \<circ> set_offset 0 (card_offset b r))) s
      else if tiny w h then call_default Fn_Invert_Rect s
      else
        (issue_z2 base Op_Invert (ucast m)
          \<circ> write_y2 base h \<circ> write_x2 base w \<circ> write_y1 base y \<circ> write_x1 base x
          \<circ> write_color_mode base colormode \<circ> write_dst_pitch base (shift2 (ri_bytes_per_row r))
          \<circ> write_dst_offset base (card_offset b r)) s)"

definition Blit_Rect ::
  "board \<Rightarrow> render_info \<Rightarrow> u16 \<Rightarrow> u16 \<Rightarrow> u16 \<Rightarrow> u16 \<Rightarrow> u16 \<Rightarrow> u16 \<Rightarrow> u8 \<Rightarrow> u16 \<Rightarrow> rtg \<Rightarrow> rtg" where
  "Blit_Rect b r x y dx dy w h m format s =
     (if no_area w h then s
      else let colormode = mnt_colormode format; g = bd_gfxdata b; base = bd_registers b in
        if colormode = COLOR_NO_USE then default_or_nothing b Fn_Blit_Rect s
        else if bd_zorro3 b then
          (issue_z3 g Dma_Copy_Rect \<circ> write_gfx_mask g m \<circ> write_gfx_u8 g 0 (ucast colormode)
            \<circ> upd_gfx g (set_y 1 h \<circ> set_x 1 w \<circ> set_y 0 dy \<circ> set_x 0 dx \<circ> set_y 2 y \<circ> set_x 2 x
                \<circ> set_pitch 0 (shift2 (ri_bytes_per_row r)) \<circ> set_offset 1 (card_offset b r) \<circ> set_offset 0 (card_offset b r))) s
        else
          (issue_z2 base Op_Copy 1
            \<circ> write_dst_offset base (card_offset b r) \<circ> write_src_offset base (card_offset b r)
            \<circ> write_color_mode base (with_high colormode m) \<circ> write_dst_pitch base (shift2 (ri_bytes_per_row r))
            \<circ> write_x3 base x \<circ> write_x2 base w \<circ> write_x1 base dx
            \<circ> write_y3 base y \<circ> write_y2 base h \<circ> write_y1 base dy) s)"

definition Blit_Rect_No_Mask_Complete ::
  "board \<Rightarrow> render_info \<Rightarrow> render_info \<Rightarrow> u16 \<Rightarrow> u16 \<Rightarrow> u16 \<Rightarrow> u16 \<Rightarrow> u16 \<Rightarrow> u16 \<Rightarrow> u8 \<Rightarrow> u16 \<Rightarrow> rtg \<Rightarrow> rtg" where
  "Blit_Rect_No_Mask_Complete b rs rt x y dx dy w h minterm format s =
     (if no_area w h then s
      else let colormode = mnt_colormode format; g = bd_gfxdata b; base = bd_registers b in
        if colormode = COLOR_NO_USE then default_or_nothing b Fn_Blit_No_Mask s
        else if bd_zorro3 b then
          (issue_z3 g Dma_Copy_Rect_No_Mask \<circ> write_gfx_u8 g 0 (ucast colormode) \<circ> write_gfx_minterm g minterm
            \<circ> upd_gfx g (set_y 1 h \<circ> set_x 1 w \<circ> set_pitch 0 (shift2 (ri_bytes_per_row rt)) \<circ> set_offset 0 (card_offset b rt)
                \<circ> set_y 0 dy \<circ> set_x 0 dx \<circ> set_pitch 1 (shift2 (ri_bytes_per_row rs)) \<circ> set_offset 1 (card_offset b rs)
                \<circ> set_y 2 y \<circ> set_x 2 x)) s
        else
          (issue_z2 base Op_Copy 2
            \<circ> write_dst_offset base (card_offset b rt) \<circ> write_dst_pitch base (shift2 (ri_bytes_per_row rt))
            \<circ> write_src_offset base (card_offset b rs) \<circ> write_src_pitch base (shift2 (ri_bytes_per_row rs))
            \<circ> write_color_mode base (with_high colormode minterm)
            \<circ> write_x3 base x \<circ> write_x2 base w \<circ> write_x1 base dx
            \<circ> write_y3 base y \<circ> write_y2 base h \<circ> write_y1 base dy) s)"

section \<open>Templates and patterns\<close>

definition copy_mem :: "u32 \<Rightarrow> u32 \<Rightarrow> nat \<Rightarrow> rtg \<Rightarrow> rtg" where
  "copy_mem dst src n s =
     s\<lparr>st_mem := fold (\<lambda>i m. m(dst + of_nat i := st_mem s (src + of_nat i))) [0..<n] (st_mem s)\<rparr>"

definition Z3_TEMPLATE_ADDR :: u32 where "Z3_TEMPLATE_ADDR = 0x03200000"

definition Blit_Template ::
  "board \<Rightarrow> render_info \<Rightarrow> template \<Rightarrow> u16 \<Rightarrow> u16 \<Rightarrow> u16 \<Rightarrow> u16 \<Rightarrow> u8 \<Rightarrow> u16 \<Rightarrow> rtg \<Rightarrow> rtg" where
  "Blit_Template b r t x y w h m0 format s =
     (if no_area w h then s
      else let colormode = mnt_colormode format; m = direct_color_mask colormode m0;
               g = bd_gfxdata b; base = bd_registers b;
               bpr = (scast (tm_bytes_per_row t) :: u32); rows = (scast h :: u32) in
        if colormode = COLOR_NO_USE then default_or_nothing b Fn_Template s
        else if bd_zorro3 b then
          (issue_z3 g Dma_Rect_Template \<circ> write_gfx_mask g m \<circ> write_gfx_u8 g 1 (tm_draw_mode t)
            \<circ> write_gfx_u8 g 0 (ucast colormode)
            \<circ> upd_gfx g (set_rgb 1 (tm_bg t) \<circ> set_rgb 0 (tm_fg t) \<circ> set_pitch 1 (tm_bytes_per_row t)
                \<circ> set_pitch 0 (ri_bytes_per_row r) \<circ> set_offset 1 Z3_TEMPLATE_ADDR \<circ> set_offset 0 (card_offset b r)
                \<circ> set_y 1 h \<circ> set_y 0 y \<circ> set_x 2 (ucast (tm_xoffset t)) \<circ> set_x 1 w \<circ> set_x 0 x)
            \<circ> copy_mem (bd_memory_base b + Z3_TEMPLATE_ADDR) (tm_memory t) (unat (bpr * rows))) s
        else let s1 = write_dst_offset base (card_offset b r) s; addr = z2_template_offset b in
          if bpr = 0 \<or> rows > (- 1) div bpr then default_or_nothing b Fn_Template s1
          else if \<not> z2_template_fits (bpr * rows) then default_or_nothing b Fn_Template s1
          else
            (issue_z2 base Op_Template (ucast m)
              \<circ> write_x3 base (ucast (tm_xoffset t)) \<circ> write_y2 base h \<circ> write_x2 base w \<circ> write_y1 base y \<circ> write_x1 base x
              \<circ> write_color_mode base (with_high colormode (tm_draw_mode t))
              \<circ> write_dst_pitch base (ri_bytes_per_row r) \<circ> write_src_pitch base (tm_bytes_per_row t)
              \<circ> write_rgb2 base (tm_bg t) \<circ> write_rgb base (tm_fg t) \<circ> write_src_offset base addr
              \<circ> copy_mem (bd_memory_base b + addr) (tm_memory t) (unat (bpr * rows))) s1)"

definition Blit_Pattern ::
  "board \<Rightarrow> render_info \<Rightarrow> pat \<Rightarrow> u16 \<Rightarrow> u16 \<Rightarrow> u16 \<Rightarrow> u16 \<Rightarrow> u8 \<Rightarrow> u16 \<Rightarrow> rtg \<Rightarrow> rtg" where
  "Blit_Pattern b r p x y w h m0 format s =
     (if no_area w h then s
      else let colormode = mnt_colormode format; m = direct_color_mask colormode m0;
               g = bd_gfxdata b; base = bd_registers b in
        if colormode = COLOR_NO_USE then default_or_nothing b Fn_Pattern s
        else let s1 = (if bd_zorro3 b then s else write_dst_offset base (card_offset b r) s);
                 addr = (if bd_zorro3 b then Z3_TEMPLATE_ADDR else z2_template_offset b) in
          if pt_size p > 15 then s1
          else let n = 2 ^ unat (pt_size p);
                   s2 = copy_mem (bd_memory_base b + addr) (pt_memory p) (2 * n) s1 in
            if bd_zorro3 b then
              (issue_z3 g Dma_Rect_Pattern \<circ> write_gfx_mask g m \<circ> upd_gfx g (set_user 0 (of_nat n))
                \<circ> write_gfx_u8 g 1 (pt_draw_mode p) \<circ> write_gfx_u8 g 0 (ucast colormode)
                \<circ> upd_gfx g (set_rgb 1 (pt_bg p) \<circ> set_rgb 0 (pt_fg p) \<circ> set_pitch 0 (ri_bytes_per_row r)
                    \<circ> set_offset 1 addr \<circ> set_offset 0 (card_offset b r) \<circ> set_y 2 (pt_yoffset p) \<circ> set_y 1 h \<circ> set_y 0 y
                    \<circ> set_x 2 (pt_xoffset p) \<circ> set_x 1 w \<circ> set_x 0 x)) s2
            else
              (issue_z2 base Op_Template (of_nat n OR 0x8000)
                \<circ> write_y3 base (pt_yoffset p) \<circ> write_x3 base (pt_xoffset p)
                \<circ> write_y2 base h \<circ> write_x2 base w \<circ> write_y1 base y \<circ> write_x1 base x
                \<circ> write_color_mode base (with_high colormode (pt_draw_mode p)) \<circ> write_dst_pitch base (ri_bytes_per_row r)
                \<circ> write_user1 base (ucast m) \<circ> write_rgb2 base (pt_bg p) \<circ> write_rgb base (pt_fg p)
                \<circ> write_src_offset base addr) s2)"

section \<open>Lines\<close>

text \<open>Stores of the two widths on a big-endian host.\<close>

definition store16 :: "u32 \<Rightarrow> u16 \<Rightarrow> (u32 \<Rightarrow> u8) \<Rightarrow> u32 \<Rightarrow> u8" where
  "store16 a v m = m(a := ucast (drop_bit 8 v), a + 1 := ucast v)"

definition store32 :: "u32 \<Rightarrow> u32 \<Rightarrow> (u32 \<Rightarrow> u8) \<Rightarrow> u32 \<Rightarrow> u8" where
  "store32 a v m = m(a := ucast (drop_bit 24 v), a + 1 := ucast (drop_bit 16 v), a + 2 := ucast (drop_bit 8 v), a + 3 := ucast v)"

definition put_pixel :: "u16 \<Rightarrow> u32 \<Rightarrow> u32 \<Rightarrow> (u32 \<Rightarrow> u8) \<Rightarrow> u32 \<Rightarrow> u8" where
  "put_pixel colormode color a m =
     (if colormode = COLOR_8BIT then m(a := ucast (drop_bit 24 color))
      else if colormode = COLOR_16BIT565 \<or> colormode = COLOR_15BIT then store16 a (ucast color) m
      else if colormode = COLOR_32BIT then store32 a color m else m)"

definition pixel_bytes :: "u16 \<Rightarrow> u32" where
  "pixel_bytes colormode =
     (if colormode = COLOR_8BIT then 1 else if colormode = COLOR_16BIT565 \<or> colormode = COLOR_15BIT then 2 else 4)"

definition draw_hline_z2 :: "u32 \<Rightarrow> u16 \<Rightarrow> u16 \<Rightarrow> u16 \<Rightarrow> u32 \<Rightarrow> u16 \<Rightarrow> u16 \<Rightarrow> rtg \<Rightarrow> rtg" where
  "draw_hline_z2 fb x y w color bpr colormode s =
     (let row = fb + ucast y * ucast bpr; bpp = pixel_bytes colormode; p = row + scast x * bpp;
          n = (if colormode = COLOR_8BIT then unat (scast w :: u32) else unat w)
      in s\<lparr>st_mem := fold (\<lambda>i. put_pixel colormode color (p + of_nat i * bpp)) [0..<n] (st_mem s)\<rparr>)"

text \<open>The unrolled loop of \<^verbatim>\<open>draw_vline_z2\<close>: four pixels while at least four are left, then one at a time.\<close>

function vline_loop :: "u16 \<Rightarrow> u32 \<Rightarrow> u32 \<Rightarrow> nat \<Rightarrow> u32 \<Rightarrow> (u32 \<Rightarrow> u8) \<Rightarrow> u32 \<Rightarrow> u8" where
  "vline_loop colormode color stride h p m =
     (if h \<ge> 4 then
        vline_loop colormode color stride (h - 4) (p + stride * 4)
          (put_pixel colormode color (p + stride * 3) (put_pixel colormode color (p + stride * 2)
            (put_pixel colormode color (p + stride) (put_pixel colormode color p m))))
      else if h > 0 then vline_loop colormode color stride (h - 1) (p + stride) (put_pixel colormode color p m)
      else m)"
  by pat_completeness auto
termination by (relation "measure (\<lambda>(_, _, _, h, _, _). h)") auto

definition draw_vline_z2 :: "u32 \<Rightarrow> u16 \<Rightarrow> u16 \<Rightarrow> u16 \<Rightarrow> u32 \<Rightarrow> u16 \<Rightarrow> u16 \<Rightarrow> rtg \<Rightarrow> rtg" where
  "draw_vline_z2 fb x y h color bpr colormode s =
     (let bpp = pixel_bytes colormode; p = fb + ucast y * ucast bpr + scast x * bpp;
          stride = (ucast bpr div bpp) * bpp
      in s\<lparr>st_mem := vline_loop colormode color stride (unat h) p (st_mem s)\<rparr>)"

definition line_seed :: "line \<Rightarrow> u16" where
  "line_seed l =
     (let dxa = \<bar>sint (ln_dx l)\<bar>; dya = \<bar>sint (ln_dy l)\<bar>; major = (dxa \<ge> dya);
          L = (if major then dxa else dya); S = (if major then dya else dxa);
          dmaj = (if major then sint (ln_x l) - sint (ln_xorigin l) else sint (ln_y l) - sint (ln_yorigin l));
          dmin = (if major then sint (ln_y l) - sint (ln_yorigin l) else sint (ln_x l) - sint (ln_xorigin l));
          k = \<bar>dmaj\<bar>; m = \<bar>dmin\<bar>
      in word_of_int (S * k - L * m + L div 2))"

definition line_pat_off :: "line \<Rightarrow> u16" where
  "line_pat_off l = (15 - (ln_pattern_shift l AND 15)) AND 15"

definition Draw_Line :: "board \<Rightarrow> render_info \<Rightarrow> line \<Rightarrow> u8 \<Rightarrow> u16 \<Rightarrow> rtg \<Rightarrow> rtg" where
  "Draw_Line b r l m0 format s =
     (if ln_draw_mode l AND 2 \<noteq> 0 then default_or_nothing b Fn_Line s
      else let colormode = mnt_colormode format in
        if colormode = COLOR_NO_USE then default_or_nothing b Fn_Line s
        else if ln_length l = 0 then s
        else let m = direct_color_mask colormode m0; g = bd_gfxdata b; base = bd_registers b;
                 plain = (ln_draw_mode l = 0 \<and> ln_pattern l = 0xFFFF \<and> m = 0xFF) in
          if plain \<and> ln_dy l = 0 then
            let len = line_length l; w = len + 1;
                x = (if sint (ln_dx l) < 0 then ln_x l - len else ln_x l) in
            if \<not> bd_zorro3 b then draw_hline_z2 (ri_memory r) x (ln_y l) w (ln_fg l) (ri_bytes_per_row r) colormode s
            else fill_rect_accel b r x (ln_y l) w 1 (ln_fg l) m colormode s
          else if plain \<and> ln_dx l = 0 then
            let len = line_length l; h = len + 1;
                y = (if sint (ln_dy l) < 0 then ln_y l - len else ln_y l) in
            if \<not> bd_zorro3 b then draw_vline_z2 (ri_memory r) (ln_x l) y h (ln_fg l) (ri_bytes_per_row r) colormode s
            else fill_rect_accel b r (ln_x l) y 1 h (ln_fg l) m colormode s
          else if bd_zorro3 b then
            let submitted = (if ln_pattern l = 0xFFFF \<and> m = 0xFF \<and> ln_draw_mode l AND 6 = 0 then 0 else ln_draw_mode l) in
            (issue_z3 g Dma_Draw_Line \<circ> write_gfx_mask g m
              \<circ> upd_gfx g (\<lambda>gd. gd\<lparr>gd_user := descriptor_pair 2 (push_bit 8 (line_pat_off l) OR scast (ln_pad l)) (line_seed l) (gd_user gd)\<rparr>)
              \<circ> upd_gfx g (\<lambda>gd. gd\<lparr>gd_user := descriptor_pair 0 (ln_length l) (ln_pattern l) (gd_user gd)\<rparr>)
              \<circ> upd_gfx g (\<lambda>gd. gd\<lparr>gd_y := descriptor_pair 0 (ln_y l) (ln_dy l) (gd_y gd)\<rparr>)
              \<circ> upd_gfx g (\<lambda>gd. gd\<lparr>gd_x := descriptor_pair 0 (ln_x l) (ln_dx l) (gd_x gd)\<rparr>)
              \<circ> upd_gfx g (set_rgb 1 (ln_bg l) \<circ> set_rgb 0 (ln_fg l))
              \<circ> upd_gfx g (\<lambda>gd. gd\<lparr>gd_u8 := (gd_u8 gd)(2 := ucast (line_pat_off l), 3 := ln_pad l)\<rparr>)
              \<circ> write_gfx_u8 g 1 submitted \<circ> write_gfx_u8 g 0 (ucast colormode)
              \<circ> upd_gfx g (set_pitch 0 (shift2 (ri_bytes_per_row r)) \<circ> set_offset 0 (card_offset b r))) s
          else
            (issue_z2 base Op_Line (ucast m)
              \<circ> (if plain then (\<lambda>s. s) else write_y3 base (line_pat_off l OR push_bit 8 (ucast (ln_pad l))))
              \<circ> write_x3 base (ln_pattern l) \<circ> write_user3 base (line_seed l) \<circ> write_user1 base (ln_length l)
              \<circ> write_y2 base (ln_dy l) \<circ> write_x2 base (ln_dx l) \<circ> write_y1 base (ln_y l) \<circ> write_x1 base (ln_x l)
              \<circ> (if plain then (\<lambda>s. s) else write_rgb2 base (ln_bg l)) \<circ> write_rgb base (ln_fg l)
              \<circ> write_color_mode base (with_high colormode (ln_draw_mode l))
              \<circ> write_dst_pitch base (shift2 (ri_bytes_per_row r)) \<circ> write_dst_offset base (card_offset b r)) s)"

end
