(* ===== verification/RtgDraw_Correct.thy ===== *)
theory RtgDraw_Correct
  imports RtgDraw
begin

text \<open>
  The write caches are invisible: whatever was elided, the register file or descriptor that accompanies an operation is the
  one the hook was asked for, on both buses. Clipped line segments resume the line's staircase.
\<close>

section \<open>Caches in step with the card\<close>

definition cache_in_step :: "blitter_cache \<Rightarrow> u32 \<Rightarrow> (breg \<Rightarrow> u32) \<Rightarrow> bool" where
  "cache_in_step c base R = (bc_registers c = base \<longrightarrow>
     (bc_valid c AND CACHE_USER1 \<noteq> 0 \<longrightarrow> R R_User1 = ucast (bc_user1 c)) \<and>
     (bc_valid c AND CACHE_USER2 \<noteq> 0 \<longrightarrow> R R_User2 = ucast (bc_user2 c)) \<and>
     (bc_valid c AND CACHE_RGB2 \<noteq> 0 \<longrightarrow> R R_Rgb2 = bc_rgb2 c))"

definition bytes_in_step :: "byte_cache \<Rightarrow> u32 \<Rightarrow> gfx_data \<Rightarrow> bool" where
  "bytes_in_step c p g = (by_owner c = p \<longrightarrow>
     (\<forall>i \<in> {0, 1}. bit (by_valid c) i \<longrightarrow> gd_u8 g i = by_value c i) \<and>
     (bit (by_valid c) BYTE_MASK \<longrightarrow> gd_mask g = by_value c BYTE_MASK) \<and>
     (bit (by_valid c) BYTE_MINTERM \<longrightarrow> gd_minterm g = by_value c BYTE_MINTERM))"

definition once_regs :: "breg set" where
  "once_regs = {R_Src, R_Dst, R_Rgb, R_Row_Pitch, R_Color_Mode, R_X1, R_Y1, R_X2, R_Y2, R_X3, R_Y3}"

definition synced :: "board \<Rightarrow> rtg \<Rightarrow> bool" where
  "synced b s = ((\<forall>r \<in> once_regs. st_old s r = st_regs s (bd_registers b) r) \<and>
     cache_in_step (st_cache s) (bd_registers b) (st_regs s (bd_registers b)) \<and>
     bytes_in_step (st_bytes s) (bd_gfxdata b) (st_gfx s (bd_gfxdata b)))"

text \<open>\<open>tells b f g s s'\<close>: a writer that leaves the card's registers and descriptor changed by \<open>f\<close> and \<open>g\<close>, the caches
  in step and everything else alone.\<close>

definition tells :: "board \<Rightarrow> ((breg \<Rightarrow> u32) \<Rightarrow> breg \<Rightarrow> u32) \<Rightarrow> (gfx_data \<Rightarrow> gfx_data) \<Rightarrow> (rtg \<Rightarrow> rtg) \<Rightarrow> bool" where
  "tells b f g op = (\<forall>s. synced b s \<longrightarrow> synced b (op s) \<and>
     st_regs (op s) (bd_registers b) = f (st_regs s (bd_registers b)) \<and>
     st_gfx (op s) (bd_gfxdata b) = g (st_gfx s (bd_gfxdata b)) \<and> st_issued (op s) = st_issued s \<and> st_desk (op s) = st_desk s)"

lemma tells_comp: "tells b f2 g2 op2 \<Longrightarrow> tells b f1 g1 op1 \<Longrightarrow> tells b (f2 \<circ> f1) (g2 \<circ> g1) (op2 \<circ> op1)"
  by (simp add: tells_def)

lemma tells_id: "tells b (\<lambda>R. R) (\<lambda>g. g) (\<lambda>s. s)"
  by (simp add: tells_def)

lemma tells_once: "r \<in> once_regs \<Longrightarrow> tells b (\<lambda>R. R(r := v)) (\<lambda>g. g) (put_once r (bd_registers b) v)"
  by (auto simp: tells_def put_once_def put_reg_def synced_def cache_in_step_def once_regs_def)

lemma tells_writers:
  "tells b (\<lambda>R. R(R_Src := v)) (\<lambda>g. g) (write_src_offset (bd_registers b) v)"
  "tells b (\<lambda>R. R(R_Dst := v)) (\<lambda>g. g) (write_dst_offset (bd_registers b) v)"
  "tells b (\<lambda>R. R(R_Rgb := v)) (\<lambda>g. g) (write_rgb (bd_registers b) v)"
  "tells b (\<lambda>R. R(R_Row_Pitch := ucast n)) (\<lambda>g. g) (write_dst_pitch (bd_registers b) n)"
  "tells b (\<lambda>R. R(R_Color_Mode := ucast n)) (\<lambda>g. g) (write_color_mode (bd_registers b) n)"
  "tells b (\<lambda>R. R(R_X1 := ucast n)) (\<lambda>g. g) (write_x1 (bd_registers b) n)"
  "tells b (\<lambda>R. R(R_Y1 := ucast n)) (\<lambda>g. g) (write_y1 (bd_registers b) n)"
  "tells b (\<lambda>R. R(R_X2 := ucast n)) (\<lambda>g. g) (write_x2 (bd_registers b) n)"
  "tells b (\<lambda>R. R(R_Y2 := ucast n)) (\<lambda>g. g) (write_y2 (bd_registers b) n)"
  "tells b (\<lambda>R. R(R_X3 := ucast n)) (\<lambda>g. g) (write_x3 (bd_registers b) n)"
  "tells b (\<lambda>R. R(R_Y3 := ucast n)) (\<lambda>g. g) (write_y3 (bd_registers b) n)"
  by (simp_all add: write_src_offset_def write_dst_offset_def write_rgb_def write_dst_pitch_def write_color_mode_def
    write_x1_def write_y1_def write_x2_def write_y2_def write_x3_def write_y3_def tells_once once_regs_def)

lemma flag_facts:
  "(v OR CACHE_USER1) AND CACHE_USER1 \<noteq> 0" "(v OR CACHE_USER2) AND CACHE_USER2 \<noteq> 0" "(v OR CACHE_RGB2) AND CACHE_RGB2 \<noteq> 0"
  "(v OR CACHE_USER1) AND CACHE_USER2 = v AND CACHE_USER2" "(v OR CACHE_USER1) AND CACHE_RGB2 = v AND CACHE_RGB2"
  "(v OR CACHE_USER2) AND CACHE_USER1 = v AND CACHE_USER1" "(v OR CACHE_USER2) AND CACHE_RGB2 = v AND CACHE_RGB2"
  "(v OR CACHE_RGB2) AND CACHE_USER1 = v AND CACHE_USER1" "(v OR CACHE_RGB2) AND CACHE_USER2 = v AND CACHE_USER2"
  "(v AND NOT CACHE_SRC_PITCH) AND CACHE_USER1 = v AND CACHE_USER1"
  "(v AND NOT CACHE_SRC_PITCH) AND CACHE_USER2 = v AND CACHE_USER2"
  "(v AND NOT CACHE_SRC_PITCH) AND CACHE_RGB2 = v AND CACHE_RGB2"
  "(v AND NOT CACHE_USER1) AND CACHE_USER1 = 0"
  "(v AND NOT CACHE_USER1) AND CACHE_USER2 = v AND CACHE_USER2"
  "(v AND NOT CACHE_USER1) AND CACHE_RGB2 = v AND CACHE_RGB2"
  by (simp_all add: CACHE_USER1_def CACHE_USER2_def CACHE_RGB2_def CACHE_SRC_PITCH_def bit.conj_disj_distrib2 and.assoc)

lemma tells_cached:
  "tells b (\<lambda>R. R(R_Src_Pitch := ucast n)) (\<lambda>g. g) (write_src_pitch (bd_registers b) n)"
  "tells b (\<lambda>R. R(R_Rgb2 := v)) (\<lambda>g. g) (write_rgb2 (bd_registers b) v)"
  "tells b (\<lambda>R. R(R_User1 := ucast n)) (\<lambda>g. g) (write_user1 (bd_registers b) n)"
  "tells b (\<lambda>R. R(R_User2 := ucast n)) (\<lambda>g. g) (write_user2 (bd_registers b) n)"
  "tells b (\<lambda>R. R(R_User3 := ucast n)) (\<lambda>g. g) (write_user3 (bd_registers b) n)"
  by (auto simp: tells_def synced_def cache_in_step_def once_regs_def write_src_pitch_def src_pitch_write_needed_def write_rgb2_def
    write_user1_def write_user2_def write_user3_def write_needed_def cache_select_def put_reg_def Let_def flag_facts
    split: if_splits)

lemma tells_bytes:
  "i \<le> 1 \<Longrightarrow> tells b (\<lambda>R. R) (\<lambda>g. g\<lparr>gd_u8 := (gd_u8 g)(i := v)\<rparr>) (write_gfx_u8 (bd_gfxdata b) i v)"
  "tells b (\<lambda>R. R) (\<lambda>g. g\<lparr>gd_mask := v\<rparr>) (write_gfx_mask (bd_gfxdata b) v)"
  "tells b (\<lambda>R. R) (\<lambda>g. g\<lparr>gd_minterm := v\<rparr>) (write_gfx_minterm (bd_gfxdata b) v)"
  by (auto simp: tells_def synced_def bytes_in_step_def write_gfx_u8_def write_gfx_mask_def write_gfx_minterm_def
    write_gfx_byte_def upd_gfx_def Let_def BYTE_MASK_def BYTE_MINTERM_def bit_simps le_Suc_eq fun_eq_iff split: if_splits)

definition keeps_bytes :: "(gfx_data \<Rightarrow> gfx_data) \<Rightarrow> bool" where
  "keeps_bytes f = (\<forall>g. gd_u8 (f g) 0 = gd_u8 g 0 \<and> gd_u8 (f g) 1 = gd_u8 g 1 \<and> gd_mask (f g) = gd_mask g \<and>
     gd_minterm (f g) = gd_minterm g)"

lemma keeps_bytes_intros:
  "keeps_bytes f2 \<Longrightarrow> keeps_bytes f1 \<Longrightarrow> keeps_bytes (f2 \<circ> f1)"
  "keeps_bytes (set_offset i v)" "keeps_bytes (set_rgb i v)" "keeps_bytes (set_x i n)" "keeps_bytes (set_y i n)"
  "keeps_bytes (set_user i n)" "keeps_bytes (set_pitch i n)"
  "keeps_bytes (\<lambda>gd. gd\<lparr>gd_x := fx (gd_x gd)\<rparr>)" "keeps_bytes (\<lambda>gd. gd\<lparr>gd_y := fx (gd_y gd)\<rparr>)"
  "keeps_bytes (\<lambda>gd. gd\<lparr>gd_user := fx (gd_user gd)\<rparr>)"
  "keeps_bytes (\<lambda>gd. gd\<lparr>gd_u8 := (gd_u8 gd)(2 := c1, 3 := c2)\<rparr>)"
  by (simp_all add: keeps_bytes_def set_offset_def set_rgb_def set_x_def set_y_def set_user_def set_pitch_def)

lemma tells_gfx: "keeps_bytes f \<Longrightarrow> tells b (\<lambda>R. R) f (upd_gfx (bd_gfxdata b) f)"
  by (auto simp: tells_def synced_def bytes_in_step_def upd_gfx_def keeps_bytes_def)

lemma tells_copy: "tells b (\<lambda>R. R) (\<lambda>g. g) (copy_mem d a n)"
  by (simp add: tells_def copy_mem_def synced_def)

text \<open>The same along a chain of writers from the state \<open>s\<close>.\<close>

definition told :: "board \<Rightarrow> rtg \<Rightarrow> ((breg \<Rightarrow> u32) \<Rightarrow> breg \<Rightarrow> u32) \<Rightarrow> (gfx_data \<Rightarrow> gfx_data) \<Rightarrow> rtg \<Rightarrow> bool" where
  "told b s f g s' = (synced b s \<longrightarrow> synced b s' \<and>
     st_regs s' (bd_registers b) = f (st_regs s (bd_registers b)) \<and>
     st_gfx s' (bd_gfxdata b) = g (st_gfx s (bd_gfxdata b)) \<and> st_issued s' = st_issued s \<and> st_desk s' = st_desk s)"

lemma told_refl: "told b s (\<lambda>R. R) (\<lambda>g. g) s"
  by (simp add: told_def)

lemma told_step: "tells b f2 g2 op \<Longrightarrow> told b s f g s1 \<Longrightarrow> told b s (\<lambda>R. f2 (f R)) (\<lambda>x. g2 (g x)) (op s1)"
  by (simp add: told_def tells_def)

lemmas tells_u8 = tells_bytes(1) [of 0, simplified] tells_bytes(1) [of 1, simplified]

lemmas told_intros = tells_writers [THEN told_step] tells_cached [THEN told_step] tells_u8 [THEN told_step]
  tells_bytes(2,3) [THEN told_step] tells_copy [THEN told_step] tells_gfx [THEN told_step] keeps_bytes_intros told_refl

section \<open>Commands\<close>

text \<open>What a command asks of the card, whichever bus carried it. Coordinates and sizes are the 16-bit values themselves.\<close>

datatype draw_cmd =
    Cmd_Fill u32 u32 u16 u16 u32 u32 u32 u32 u32
  | Cmd_Invert u32 u32 u16 u16 u32 u32 u32 u32
  | Cmd_Copy u32 u32 u32 u16 u16 u32 u32 u32 u32 u32 u32
  | Cmd_Combine u32 u32 u32 u32 u16 u16 u32 u32 u32 u32 u32 u32
  | Cmd_Template u32 u32 u32 u32 u32 u32 u16 u16 u16 u32 u32 u32 u32 u32
  | Cmd_Pattern u32 u32 u32 u32 u32 u16 u16 u16 u16 u32 u32 u32 u32 u32 u32
  | Cmd_Line u32 u32 u32 u16 u16 u16 u32 u32 u32 u32 u32 u32 u32 u32 u32 u32
  | Cmd_P2C u32 u32 u32 u32 u16 u16 u16 u16 u32 u32 u32 u32 u32
  | Cmd_P2D u32 u32 u32 u32 u16 u16 u16 u16 u32 u32 u32 u32 u32 u16 u32
  | Cmd_Sprite_Visible bool
  | Cmd_Sprite_Image u32 u32 u32 u32 u32
  | Cmd_Sprite_Position u32 u32
  | Cmd_Sprite_Color u8 u8 u8 u8
  | Cmd_Split u16 u32
  | Cmd_Pan u32 u32 u32 u32 u16
  | Cmd_Palette bool u16 "(u8 \<times> u8 \<times> u8) list"
  | Cmd_Color u32 u16
  | Cmd_Origin u16 u16
  | Cmd_Mode u16
  | Cmd_Reg u16 u16
  | Cmd_Feature u16 u16
  | Cmd_Capture u16
  | Cmd_Default draw_fn
  | Cmd_Surface_Alloc u32 bool
  | Cmd_Surface_Free u32
  | Cmd_Overlay_Off
  | Cmd_Overlay u8 u32 u16 u16 u16 u16 u16 u16 u16 u16 u32

abbreviation lo8 :: "u32 \<Rightarrow> u16" where "lo8 v \<equiv> ucast (v AND 0xff)"
abbreviation hi8 :: "u32 \<Rightarrow> u16" where "hi8 v \<equiv> ucast (drop_bit 8 v)"

text \<open>
  A line with full pattern and mask in a plain mode uses neither the background pen nor the pattern offset, and its mode counts as 0: that is
  what both paths exploit.
\<close>

definition line_cmd ::
  "u32 \<Rightarrow> u32 \<Rightarrow> u32 \<Rightarrow> u32 \<Rightarrow> u16 \<Rightarrow> u16 \<Rightarrow> u16 \<Rightarrow> u32 \<Rightarrow> u32 \<Rightarrow> u32 \<Rightarrow> u32 \<Rightarrow> u32 \<Rightarrow> u32 \<Rightarrow> u32 \<Rightarrow> u32 \<Rightarrow> u32 \<Rightarrow> draw_cmd" where
  "line_cmd dst pitch fg bg colormode m mode pattern x y dx dy len seed off padding =
     (let mode' = (if pattern = 0xFFFF \<and> m = 0xFF \<and> mode AND 6 = 0 then 0 else mode);
          solid = (pattern = 0xFFFF \<and> m = 0xFF \<and> mode' = 0)
      in Cmd_Line dst pitch fg colormode m mode' pattern x y dx dy len seed
           (if solid then 0 else bg) (if solid then 0 else off) (if solid then 0 else padding))"

fun command :: "issued \<Rightarrow> draw_cmd" where
  "command (Issue_Default f) = Cmd_Default f"
| "command (Issue_Pan offset R) = Cmd_Pan offset (R R_X1) (R R_Y1) (R R_X2) (ucast (R R_Color_Mode))"
| "command (Issue_Origin hi lo) = Cmd_Origin hi lo"
| "command (Issue_Color c op) = Cmd_Color c op"
| "command (Issue_Mode v) = Cmd_Mode v"
| "command (Issue_Reg off v) = Cmd_Reg off v"
| "command (Issue_Feature v R) = Cmd_Feature (ucast (R R_User1)) v"
| "command (Issue_Capture v) = Cmd_Capture v"
| "command (Issue_Acc Acc_Alloc_Surface g) = Cmd_Surface_Alloc (gd_offset g 1) (gd_u8 g 3 = 0)"
| "command (Issue_Acc Acc_Free_Surface g) = Cmd_Surface_Free (gd_offset g 0)"
| "command (Issue_Z2 op v R) =
    (case op of
       Op_Fill \<Rightarrow> Cmd_Fill (R R_Dst) (R R_Row_Pitch) (ucast (R R_Color_Mode)) v (R R_Rgb) (R R_X1) (R R_Y1) (R R_X2) (R R_Y2)
     | Op_Invert \<Rightarrow> Cmd_Invert (R R_Dst) (R R_Row_Pitch) (ucast (R R_Color_Mode)) v (R R_X1) (R R_Y1) (R R_X2) (R R_Y2)
     | Op_Copy \<Rightarrow>
         (if v = 1 then Cmd_Copy (R R_Dst) (R R_Src) (R R_Row_Pitch) (lo8 (R R_Color_Mode)) (hi8 (R R_Color_Mode))
            (R R_X3) (R R_Y3) (R R_X1) (R R_Y1) (R R_X2) (R R_Y2)
          else Cmd_Combine (R R_Dst) (R R_Src) (R R_Row_Pitch) (R R_Src_Pitch) (lo8 (R R_Color_Mode)) (hi8 (R R_Color_Mode))
            (R R_X3) (R R_Y3) (R R_X1) (R R_Y1) (R R_X2) (R R_Y2))
     | Op_Template \<Rightarrow>
         (if v AND 0x8000 = 0 then Cmd_Template (R R_Dst) (R R_Src) (R R_Row_Pitch) (R R_Src_Pitch) (R R_Rgb) (R R_Rgb2)
            (lo8 (R R_Color_Mode)) (hi8 (R R_Color_Mode)) v (R R_X1) (R R_Y1) (R R_X2) (R R_Y2) (R R_X3)
          else Cmd_Pattern (R R_Dst) (R R_Src) (R R_Row_Pitch) (R R_Rgb) (R R_Rgb2)
            (lo8 (R R_Color_Mode)) (hi8 (R R_Color_Mode)) (ucast (R R_User1)) v (R R_X1) (R R_Y1) (R R_X2) (R R_Y2) (R R_X3) (R R_Y3))
     | Op_Line \<Rightarrow> line_cmd (R R_Dst) (R R_Row_Pitch) (R R_Rgb) (R R_Rgb2) (lo8 (R R_Color_Mode)) v (hi8 (R R_Color_Mode))
         (R R_X3) (R R_X1) (R R_Y1) (R R_X2) (R R_Y2) (R R_User1) (R R_User3) (R R_Y3 AND 0xff) (drop_bit 8 (R R_Y3))
     | Op_P2C \<Rightarrow> Cmd_P2C (R R_Dst) (R R_Src) (R R_Row_Pitch) (R R_Src_Pitch) (v AND 0xff) (hi8 (R R_Color_Mode)) (drop_bit 8 v)
         (ucast (R R_User2)) (R R_X1) (R R_X2) (R R_Y2) (R R_X3) (R R_Y3)
     | Op_P2D \<Rightarrow> Cmd_P2D (R R_Dst) (R R_Src) (R R_Row_Pitch) (R R_Src_Pitch) (v AND 0xff) (hi8 (R R_Color_Mode)) (drop_bit 8 v)
         (ucast (R R_User2)) (R R_X1) (R R_X2) (R R_Y2) (R R_X3) (R R_Y3) (lo8 (R R_Color_Mode)) (R R_Rgb)
     | Op_Sprite_Bitmap \<Rightarrow>
         (if v = 2 then Cmd_Sprite_Visible False else if v = 1 then Cmd_Sprite_Visible True
          else Cmd_Sprite_Image (R R_Src) (R R_X1) (R R_Y1) (R R_X2) (R R_Y2))
     | Op_Sprite_XY \<Rightarrow> Cmd_Sprite_Position (R R_X1) (R R_Y1)
     | Op_Sprite_Colors \<Rightarrow> Cmd_Sprite_Color (ucast v) (ucast (R R_User1)) (ucast (drop_bit 8 (R R_User2))) (ucast (R R_User2))
     | Op_Split_Pos \<Rightarrow> Cmd_Split v (R R_Src))"
| "command (Issue_Z3 op g) =
    (let x = \<lambda>i. ucast (gd_x g i); y = \<lambda>i. ucast (gd_y g i); p = \<lambda>i. ucast (gd_pitch g i);
         cm = ucast (gd_u8 g 0); mode = ucast (gd_u8 g 1); m = ucast (gd_mask g) in
     case op of
       Dma_Fill_Rect \<Rightarrow> Cmd_Fill (gd_offset g 0) (p 0) cm m (gd_rgb g 0) (x 0) (y 0) (x 1) (y 1)
     | Dma_Invert_Rect \<Rightarrow> Cmd_Invert (gd_offset g 0) (p 0) cm m (x 0) (y 0) (x 1) (y 1)
     | Dma_Copy_Rect \<Rightarrow> Cmd_Copy (gd_offset g 0) (gd_offset g 1) (p 0) cm m (x 2) (y 2) (x 0) (y 0) (x 1) (y 1)
     | Dma_Copy_Rect_No_Mask \<Rightarrow> Cmd_Combine (gd_offset g 0) (gd_offset g 1) (p 0) (p 1) cm (ucast (gd_minterm g))
         (x 2) (y 2) (x 0) (y 0) (x 1) (y 1)
     | Dma_Rect_Template \<Rightarrow> Cmd_Template (gd_offset g 0) (gd_offset g 1) (p 0) (p 1) (gd_rgb g 0) (gd_rgb g 1) cm mode m
         (x 0) (y 0) (x 1) (y 1) (x 2)
     | Dma_Rect_Pattern \<Rightarrow> Cmd_Pattern (gd_offset g 0) (gd_offset g 1) (p 0) (gd_rgb g 0) (gd_rgb g 1) cm mode m
         (gd_user g 0 OR 0x8000) (x 0) (y 0) (x 1) (y 1) (x 2) (y 2)
     | Dma_Draw_Line \<Rightarrow> line_cmd (gd_offset g 0) (p 0) (gd_rgb g 0) (gd_rgb g 1) cm m mode (ucast (gd_user g 1))
         (x 0) (y 0) (x 1) (y 1) (ucast (gd_user g 0)) (ucast (gd_user g 3)) (ucast (gd_u8 g 2)) (ucast (gd_u8 g 3))
     | Dma_P2C \<Rightarrow> Cmd_P2C (gd_offset g 0) (gd_offset g 1) (p 0) (p 1) m (ucast (gd_minterm g)) (gd_user g 1) (gd_user g 0)
         (x 0) (x 1) (y 1) (x 2) (y 2)
     | Dma_P2D \<Rightarrow> Cmd_P2D (gd_offset g 0) (gd_offset g 1) (p 0) (p 1) m (ucast (gd_minterm g)) (gd_user g 1) (gd_user g 0)
         (x 0) (x 1) (y 1) (x 2) (y 2) cm (gd_rgb g 0)
     | Dma_Sprite_Bitmap \<Rightarrow> Cmd_Sprite_Image (gd_offset g 1) (x 0) (y 0) (x 1) (y 1)
     | Dma_Sprite_XY \<Rightarrow> Cmd_Sprite_Position (x 0) (y 0)
     | Dma_Sprite_Color \<Rightarrow> Cmd_Sprite_Color (gd_u8offset g) (ucast (drop_bit 8 (gd_rgb g 0))) (ucast (drop_bit 16 (gd_rgb g 0)))
         (ucast (drop_bit 24 (gd_rgb g 0)))
     | Dma_Set_Split_Pos \<Rightarrow> Cmd_Split (gd_y g 0) (gd_offset g 0)
     | Dma_Pan \<Rightarrow> Cmd_Pan (gd_offset g 0) (x 0) (y 0) (x 1) cm
     | Dma_Video_Overlay \<Rightarrow> (if gd_u8 g 5 = 1 then Cmd_Overlay_Off
         else Cmd_Overlay (gd_u8 g 4) (gd_offset g 1) (gd_pitch g 1) (gd_x g 0) (gd_y g 0) (gd_x g 1) (gd_y g 1) (gd_x g 2) (gd_y g 2)
           (gd_user g 0) (gd_u32 g 1))
     | Dma_Set_Palette \<Rightarrow> Cmd_Palette (gd_u8 g 0 = 1) (gd_user g 0)
         (map (\<lambda>i. (gd_clut1 g (i * 3), gd_clut1 g (i * 3 + 1), gd_clut1 g (i * 3 + 2))) [0..<unat (gd_user g 1)]))"

section \<open>Requests\<close>

datatype draw_req =
    Req_Fill render_info u16 u16 u16 u16 u32 u8 u16
  | Req_Invert render_info u16 u16 u16 u16 u8 u16
  | Req_Copy render_info u16 u16 u16 u16 u16 u16 u8 u16
  | Req_Combine render_info render_info u16 u16 u16 u16 u16 u16 u8 u16
  | Req_Template render_info template u16 u16 u16 u16 u8 u16
  | Req_Pattern render_info pat u16 u16 u16 u16 u8 u16
  | Req_Line render_info line u8 u16
  | Req_Feature u16

fun run_req :: "board \<Rightarrow> draw_req \<Rightarrow> rtg \<Rightarrow> rtg" where
  "run_req b (Req_Fill r x y w h color m format) = Fill_Rect b r x y w h color m format"
| "run_req b (Req_Invert r x y w h m format) = Invert_Rect b r x y w h m format"
| "run_req b (Req_Copy r x y dx dy w h m format) = Blit_Rect b r x y dx dy w h m format"
| "run_req b (Req_Combine rs rt x y dx dy w h minterm format) = Blit_Rect_No_Mask_Complete b rs rt x y dx dy w h minterm format"
| "run_req b (Req_Template r t x y w h m format) = Blit_Template b r t x y w h m format"
| "run_req b (Req_Pattern r p x y w h m format) = Blit_Pattern b r p x y w h m format"
| "run_req b (Req_Line r l m format) = Draw_Line b r l m format"
| "run_req b (Req_Feature feature) = select_card_feature (bd_registers b) feature"

definition fallback :: "board \<Rightarrow> draw_fn \<Rightarrow> draw_cmd list" where
  "fallback b f = (if bd_default b f then [Cmd_Default f] else [])"

definition pitch_of :: "render_info \<Rightarrow> u32" where
  "pitch_of r = ucast (shift2 (ri_bytes_per_row r))"

definition wanted_fill :: "board \<Rightarrow> render_info \<Rightarrow> u16 \<Rightarrow> u16 \<Rightarrow> u16 \<Rightarrow> u16 \<Rightarrow> u32 \<Rightarrow> u8 \<Rightarrow> u16 \<Rightarrow> draw_cmd list" where
  "wanted_fill b r x y w h color m cm =
     (if \<not> bd_zorro3 b \<and> tiny w h then [Cmd_Default Fn_Fill_Rect]
      else [Cmd_Fill (card_offset b r) (pitch_of r) cm (ucast m) color (ucast x) (ucast y) (ucast w) (ucast h)])"

text \<open>\<open>wanted b req\<close>: the commands a request stands for. Only the fallbacks, the straight lines that a Zorro II board draws into its memory
  and the place of the staging area depend on the bus.\<close>

definition staging_of :: "board \<Rightarrow> u32" where
  "staging_of b = (if bd_zorro3 b then Z3_TEMPLATE_ADDR else z2_template_offset b)"

definition template_fits :: "board \<Rightarrow> template \<Rightarrow> u16 \<Rightarrow> bool" where
  "template_fits b t h = (let bpr = scast (tm_bytes_per_row t) :: u32; rows = scast h :: u32 in
     bd_zorro3 b \<or> (bpr \<noteq> 0 \<and> rows \<le> (- 1) div bpr \<and> bpr * rows \<le> 0x10000))"

definition straight :: "line \<Rightarrow> u8 \<Rightarrow> bool" where
  "straight l m = (ln_draw_mode l = 0 \<and> ln_pattern l = 0xFFFF \<and> m = 0xFF \<and> (ln_dy l = 0 \<or> ln_dx l = 0))"

fun wanted :: "board \<Rightarrow> draw_req \<Rightarrow> draw_cmd list" where
  "wanted b (Req_Fill r x y w h color m format) =
    (let cm = mnt_colormode format in
     if no_area w h then [] else if cm = COLOR_NO_USE then fallback b Fn_Fill_Rect
     else wanted_fill b r x y w h color (direct_color_mask cm m) cm)"
| "wanted b (Req_Invert r x y w h m format) =
    (let cm = mnt_colormode format in
     if cm = COLOR_NO_USE then fallback b Fn_Invert_Rect
     else if \<not> bd_zorro3 b \<and> tiny w h then [Cmd_Default Fn_Invert_Rect]
     else [Cmd_Invert (card_offset b r) (pitch_of r) cm (ucast (direct_color_mask cm m)) (ucast x) (ucast y) (ucast w) (ucast h)])"
| "wanted b (Req_Copy r x y dx dy w h m format) =
    (let cm = mnt_colormode format in
     if no_area w h then [] else if cm = COLOR_NO_USE then fallback b Fn_Blit_Rect
     else [Cmd_Copy (card_offset b r) (card_offset b r) (pitch_of r) cm (ucast m)
             (ucast x) (ucast y) (ucast dx) (ucast dy) (ucast w) (ucast h)])"
| "wanted b (Req_Combine rs rt x y dx dy w h minterm format) =
    (let cm = mnt_colormode format in
     if no_area w h then [] else if cm = COLOR_NO_USE then fallback b Fn_Blit_No_Mask
     else [Cmd_Combine (card_offset b rt) (card_offset b rs) (pitch_of rt) (pitch_of rs) cm (ucast minterm)
             (ucast x) (ucast y) (ucast dx) (ucast dy) (ucast w) (ucast h)])"
| "wanted b (Req_Template r t x y w h m format) =
    (let cm = mnt_colormode format in
     if no_area w h then [] else if cm = COLOR_NO_USE \<or> \<not> template_fits b t h then fallback b Fn_Template
     else [Cmd_Template (card_offset b r) (staging_of b) (ucast (ri_bytes_per_row r)) (ucast (tm_bytes_per_row t)) (tm_fg t) (tm_bg t)
             cm (ucast (tm_draw_mode t)) (ucast (direct_color_mask cm m))
             (ucast x) (ucast y) (ucast w) (ucast h) (ucast (tm_xoffset t))])"
| "wanted b (Req_Pattern r p x y w h m format) =
    (let cm = mnt_colormode format in
     if no_area w h then [] else if cm = COLOR_NO_USE then fallback b Fn_Pattern
     else if pt_size p > 15 then []
     else [Cmd_Pattern (card_offset b r) (staging_of b) (ucast (ri_bytes_per_row r)) (pt_fg p) (pt_bg p)
             cm (ucast (pt_draw_mode p)) (ucast (direct_color_mask cm m)) (of_nat (2 ^ unat (pt_size p)) OR 0x8000)
             (ucast x) (ucast y) (ucast w) (ucast h) (ucast (pt_xoffset p)) (ucast (pt_yoffset p))])"
| "wanted b (Req_Line r l m format) =
    (let cm = mnt_colormode format; m1 = direct_color_mask cm m; len = line_length l in
     if ln_draw_mode l AND 2 \<noteq> 0 \<or> cm = COLOR_NO_USE then fallback b Fn_Line
     else if ln_length l = 0 then []
     else if straight l m1 then
       (if \<not> bd_zorro3 b then []
        else if ln_dy l = 0 then wanted_fill b r (if sint (ln_dx l) < 0 then ln_x l - len else ln_x l) (ln_y l) (len + 1) 1 (ln_fg l) m1 cm
        else wanted_fill b r (ln_x l) (if sint (ln_dy l) < 0 then ln_y l - len else ln_y l) 1 (len + 1) (ln_fg l) m1 cm)
     else [line_cmd (card_offset b r) (pitch_of r) (ln_fg l) (ln_bg l) cm (ucast m1) (ucast (ln_draw_mode l)) (ucast (ln_pattern l))
             (ucast (ln_x l)) (ucast (ln_y l)) (ucast (ln_dx l)) (ucast (ln_dy l)) (ucast (ln_length l)) (ucast (line_seed l))
             (ucast (line_pat_off l)) (ucast (ln_pad l))])"
| "wanted b (Req_Feature feature) = []"

definition achieves :: "board \<Rightarrow> draw_cmd list \<Rightarrow> rtg \<Rightarrow> rtg \<Rightarrow> bool" where
  "achieves b cmds s s' =
     (synced b s \<longrightarrow> synced b s' \<and> st_desk s' = st_desk s \<and>
       map command (st_issued s') = map command (st_issued s) @ cmds)"

section \<open>Each hook does what was wanted\<close>

lemma colormode_cases:
  assumes "mnt_colormode f \<noteq> COLOR_NO_USE"
  shows "mnt_colormode f \<in> {0, 1, 2, 3}"
proof -
  have "set rtg_to_mnt \<subseteq> {0, 1, 2, 3, COLOR_NO_USE}"
    by (simp add: rtg_to_mnt_def COLOR_8BIT_def COLOR_16BIT565_def COLOR_32BIT_def COLOR_15BIT_def)
  then have "mnt_colormode f \<in> {0, 1, 2, 3, COLOR_NO_USE}"
    unfolding mnt_colormode_def using nth_mem by (metis (no_types, lifting) insertCI subsetD)
  with assms show ?thesis by blast
qed

lemma colormode_bytes:
  assumes "cm \<in> {0, 1, 2, 3 :: u16}"
  shows "ucast (ucast cm :: u8) = cm" "ucast (ucast cm :: u32) = cm"
    "lo8 (ucast (with_high cm h)) = cm" "hi8 (ucast (with_high cm h)) = ucast h"
proof -
  have small: "n < 8" if "bit cm n" for n
  proof -
    have "cm = take_bit 8 cm" using assms by auto
    with that show ?thesis by (metis bit_take_bit_iff)
  qed
  show "ucast (ucast cm :: u8) = cm" "ucast (ucast cm :: u32) = cm" using assms by auto
  have m: "(0xff :: u32) = mask 8" by (simp add: mask_eq_exp_minus_1)
  show "lo8 (ucast (with_high cm h)) = cm" unfolding m
    by (rule bit_word_eqI) (auto simp: with_high_def bit_simps dest: small bit_imp_le_length)
  show "hi8 (ucast (with_high cm h)) = ucast h"
    by (rule bit_word_eqI) (auto simp: with_high_def bit_simps dest: small bit_imp_le_length)
qed

lemma achieves_nothing: "achieves b [] s s"
  by (simp add: achieves_def)

lemma achieves_told: "told b s f g s' \<Longrightarrow> achieves b [] s s'"
  by (simp add: achieves_def told_def)

lemma achieves_after: "told b s f g s1 \<Longrightarrow> achieves b cmds s1 s' \<Longrightarrow> achieves b cmds s s'"
  by (simp add: achieves_def told_def)

lemma achieves_default: "achieves b [Cmd_Default f] s (call_default f s)"
  by (simp add: achieves_def call_default_def synced_def)

lemma achieves_fallback: "achieves b (fallback b f) s (default_or_nothing b f s)"
  by (simp add: achieves_def default_or_nothing_def call_default_def fallback_def synced_def)

lemma achieves_z2:
  assumes "told b s f g s'" "\<And>R. command (Issue_Z2 o1 v (f R)) = c"
  shows "achieves b [c] s (issue_z2 (bd_registers b) o1 v s')"
  using assms by (auto simp: achieves_def told_def issue_z2_def synced_def simp del: command.simps)

lemma achieves_z3:
  assumes "told b s f g s'" "\<And>gd. command (Issue_Z3 o1 (g gd)) = c"
  shows "achieves b [c] s (issue_z3 (bd_gfxdata b) o1 s')"
  using assms by (auto simp: achieves_def told_def issue_z3_def synced_def simp del: command.simps)

lemmas gfx_setters = set_offset_def set_rgb_def set_x_def set_y_def set_user_def set_pitch_def
lemmas achieves_intros = achieves_nothing achieves_default achieves_fallback

lemma achieves_fill:
  assumes "cm \<in> {0, 1, 2, 3}"
  shows "achieves b (wanted_fill b r x y w h color m cm) s (fill_rect_accel b r x y w h color m cm s)"
proof (cases "bd_zorro3 b")
  case True
  then show ?thesis
    apply (simp add: fill_rect_accel_def wanted_fill_def Let_def del: command.simps)
    apply (rule achieves_z3)
     apply ((rule told_intros)+)[1]
    apply (simp add: Let_def gfx_setters pitch_of_def colormode_bytes [OF assms])
    done
next
  case False
  then show ?thesis
    apply (cases "tiny w h")
     apply (simp add: fill_rect_accel_def wanted_fill_def Let_def achieves_intros)
    apply (simp add: fill_rect_accel_def wanted_fill_def Let_def)
    apply (rule achieves_z2)
     apply ((rule told_intros)+)[1]
    apply (simp add: Let_def pitch_of_def colormode_bytes [OF assms])
    done
qed

lemma hook_invert: "achieves b (wanted b (Req_Invert r x y w h m format)) s (run_req b (Req_Invert r x y w h m format) s)"
proof (cases "mnt_colormode format = COLOR_NO_USE")
  case True
  then show ?thesis by (simp add: Invert_Rect_def Let_def achieves_intros)
next
  case False
  note cm = colormode_bytes [OF colormode_cases [OF False]]
  consider "bd_zorro3 b" | "\<not> bd_zorro3 b" "tiny w h" | "\<not> bd_zorro3 b" "\<not> tiny w h" by blast
  then show ?thesis
  proof cases
    case 1
    with False show ?thesis
      apply (simp add: Invert_Rect_def Let_def del: command.simps)
      apply (rule achieves_z3)
       apply ((rule told_intros)+)[1]
      apply (simp add: Let_def gfx_setters pitch_of_def cm)
      done
  next
    case 2
    with False show ?thesis by (simp add: Invert_Rect_def Let_def achieves_intros)
  next
    case 3
    with False show ?thesis
      apply (simp add: Invert_Rect_def Let_def del: command.simps)
      apply (rule achieves_z2)
       apply ((rule told_intros)+)[1]
      apply (simp add: Let_def pitch_of_def cm)
      done
  qed
qed

lemma hook_copy:
  "achieves b (wanted b (Req_Copy r x y dx dy w h m format)) s (run_req b (Req_Copy r x y dx dy w h m format) s)"
proof (cases "no_area w h \<or> mnt_colormode format = COLOR_NO_USE")
  case True
  then show ?thesis by (auto simp: Blit_Rect_def Let_def achieves_intros)
next
  case False
  then have no: "mnt_colormode format \<noteq> COLOR_NO_USE" by blast
  note cm = colormode_bytes [OF colormode_cases [OF no]]
  show ?thesis
  proof (cases "bd_zorro3 b")
    case True
    with False show ?thesis
      apply (simp add: Blit_Rect_def Let_def del: command.simps)
      apply (rule achieves_z3)
       apply ((rule told_intros)+)[1]
      apply (simp add: Let_def gfx_setters pitch_of_def cm)
      done
  next
    case z2: False
    with False show ?thesis
      apply (simp add: Blit_Rect_def Let_def del: command.simps)
      apply (rule achieves_z2)
       apply ((rule told_intros)+)[1]
      apply (simp add: Let_def pitch_of_def cm)
      done
  qed
qed

lemma hook_combine:
  "achieves b (wanted b (Req_Combine rs rt x y dx dy w h minterm format)) s
     (run_req b (Req_Combine rs rt x y dx dy w h minterm format) s)"
proof (cases "no_area w h \<or> mnt_colormode format = COLOR_NO_USE")
  case True
  then show ?thesis by (auto simp: Blit_Rect_No_Mask_Complete_def Let_def achieves_intros)
next
  case False
  then have no: "mnt_colormode format \<noteq> COLOR_NO_USE" by blast
  note cm = colormode_bytes [OF colormode_cases [OF no]]
  show ?thesis
  proof (cases "bd_zorro3 b")
    case True
    with False show ?thesis
      apply (simp add: Blit_Rect_No_Mask_Complete_def Let_def del: command.simps)
      apply (rule achieves_z3)
       apply ((rule told_intros)+)[1]
      apply (simp add: Let_def gfx_setters pitch_of_def cm)
      done
  next
    case z2: False
    with False show ?thesis
      apply (simp add: Blit_Rect_No_Mask_Complete_def Let_def del: command.simps)
      apply (rule achieves_z2)
       apply ((rule told_intros)+)[1]
      apply (simp add: Let_def pitch_of_def cm)
      done
  qed
qed

lemma hook_fill:
  "achieves b (wanted b (Req_Fill r x y w h color m format)) s (run_req b (Req_Fill r x y w h color m format) s)"
proof (cases "no_area w h \<or> mnt_colormode format = COLOR_NO_USE")
  case True
  then show ?thesis by (auto simp: Fill_Rect_def Let_def achieves_intros)
next
  case False
  then have no: "mnt_colormode format \<noteq> COLOR_NO_USE" by blast
  show ?thesis using False achieves_fill [OF colormode_cases [OF no]] by (simp add: Fill_Rect_def Let_def)
qed

lemma bit_8000: "n < 16 \<Longrightarrow> bit (0x8000 :: u16) n \<longleftrightarrow> n = 15"
  using bit_exp_iff [where 'a = "16 word", of 15 n] by simp

lemma template_mask: "ucast (m :: u8) AND (0x8000 :: u16) = 0"
proof (rule bit_word_eqI)
  fix n assume "n < LENGTH(16)"
  then show "bit (ucast m AND (0x8000 :: u16)) n = bit (0 :: u16) n"
    using bit_imp_le_length [of m n] bit_8000 [of n] by (auto simp: bit_simps)
qed

lemma ucast_chain:
  "ucast (ucast (m :: u8) :: u16) = (ucast m :: u32)" "ucast (ucast (m :: u8) :: u32) = (ucast m :: u16)"
  by (rule bit_word_eqI; auto simp: bit_simps dest: bit_imp_le_length)+

lemma template_cmd:
  "command (Issue_Z2 Op_Template (ucast (m :: u8)) R) =
    Cmd_Template (R R_Dst) (R R_Src) (R R_Row_Pitch) (R R_Src_Pitch) (R R_Rgb) (R R_Rgb2)
      (lo8 (R R_Color_Mode)) (hi8 (R R_Color_Mode)) (ucast m) (R R_X1) (R R_Y1) (R R_X2) (R R_Y2) (R R_X3)"
  by (simp add: template_mask)

lemma hook_template:
  "achieves b (wanted b (Req_Template r t x y w h m format)) s (run_req b (Req_Template r t x y w h m format) s)"
proof (cases "no_area w h \<or> mnt_colormode format = COLOR_NO_USE")
  case True
  then show ?thesis by (auto simp: Blit_Template_def Let_def achieves_intros)
next
  case False
  then have no: "mnt_colormode format \<noteq> COLOR_NO_USE" by blast
  note cm = colormode_bytes [OF colormode_cases [OF no]]
  consider "bd_zorro3 b" | "\<not> bd_zorro3 b" "\<not> template_fits b t h" | "\<not> bd_zorro3 b" "template_fits b t h" by blast
  then show ?thesis
  proof cases
    case 1
    with False show ?thesis
      apply (simp add: Blit_Template_def template_fits_def staging_of_def Let_def del: command.simps)
      apply (rule achieves_z3)
       apply ((rule told_intros)+)[1]
      apply (simp add: Let_def gfx_setters cm ucast_chain)
      done
  next
    case 2
    then have "run_req b (Req_Template r t x y w h m format) s =
        default_or_nothing b Fn_Template (write_dst_offset (bd_registers b) (card_offset b r) s)"
      using False by (auto simp: Blit_Template_def template_fits_def z2_template_fits_def Let_def)
    then show ?thesis
      using achieves_after [OF tells_writers(2) [THEN told_step, OF told_refl] achieves_fallback] 2 False
      by (simp add: Let_def)
  next
    case 3
    with False show ?thesis
      apply (simp add: Blit_Template_def template_fits_def z2_template_fits_def staging_of_def Let_def leD del: command.simps)
      apply (rule achieves_z2)
       apply ((rule told_intros)+)[1]
      apply (simp add: template_cmd cm ucast_chain del: command.simps)
      done
  qed
qed

lemma pattern_cmd:
  "command (Issue_Z2 Op_Template (n OR 0x8000) R) =
    Cmd_Pattern (R R_Dst) (R R_Src) (R R_Row_Pitch) (R R_Rgb) (R R_Rgb2)
      (lo8 (R R_Color_Mode)) (hi8 (R R_Color_Mode)) (ucast (R R_User1)) (n OR 0x8000) (R R_X1) (R R_Y1) (R R_X2) (R R_Y2)
      (R R_X3) (R R_Y3)"
  by (simp add: bit.conj_disj_distrib2)

lemma hook_pattern:
  "achieves b (wanted b (Req_Pattern r p x y w h m format)) s (run_req b (Req_Pattern r p x y w h m format) s)"
proof (cases "no_area w h \<or> mnt_colormode format = COLOR_NO_USE")
  case True
  then show ?thesis by (auto simp: Blit_Pattern_def Let_def achieves_intros)
next
  case False
  then have no: "mnt_colormode format \<noteq> COLOR_NO_USE" by blast
  note cm = colormode_bytes [OF colormode_cases [OF no]]
  consider "pt_size p > 15" | "\<not> pt_size p > 15" "bd_zorro3 b" | "\<not> pt_size p > 15" "\<not> bd_zorro3 b" by blast
  then show ?thesis
  proof cases
    case 1
    with False show ?thesis
      using achieves_told [OF tells_writers(2) [THEN told_step, OF told_refl]]
      by (simp add: Blit_Pattern_def Let_def achieves_nothing)
  next
    case 2
    with False show ?thesis
      apply (simp add: Blit_Pattern_def staging_of_def Let_def del: command.simps)
      apply (rule achieves_z3)
       apply ((rule told_intros)+)[1]
      apply (simp add: Let_def gfx_setters cm ucast_chain)
      done
  next
    case 3
    with False show ?thesis
      apply (simp add: Blit_Pattern_def staging_of_def Let_def del: command.simps)
      apply (rule achieves_z2)
       apply ((rule told_intros)+)[1]
      apply (simp add: pattern_cmd cm ucast_chain del: command.simps)
      done
  qed
qed

lemma straight_mask_cases: "straight l m \<Longrightarrow> ln_draw_mode l = 0 \<and> ln_pattern l = 0xFFFF \<and> m = 0xFF"
  by (simp add: straight_def)

lemma achieves_hline: "achieves b [] s (draw_hline_z2 fb x y w color bpr cm s)"
  by (simp add: achieves_def draw_hline_z2_def Let_def synced_def)

lemma achieves_vline: "achieves b [] s (draw_vline_z2 fb x y h color bpr cm s)"
  by (simp add: achieves_def draw_vline_z2_def Let_def synced_def)

lemma keeps_bytes_pairs:
  "keeps_bytes (\<lambda>gd. gd\<lparr>gd_x := descriptor_pair i v w (gd_x gd)\<rparr>)"
  "keeps_bytes (\<lambda>gd. gd\<lparr>gd_y := descriptor_pair i v w (gd_y gd)\<rparr>)"
  "keeps_bytes (\<lambda>gd. gd\<lparr>gd_user := descriptor_pair i v w (gd_user gd)\<rparr>)"
  by (simp_all add: keeps_bytes_def)

lemma descriptor_pair_words: "descriptor_pair i v w vs = vs(i := v, i + 1 := w)"
proof -
  have "ucast (push_bit 16 (ucast v) OR ucast w :: u32) = w" "ucast (drop_bit 16 (push_bit 16 (ucast v) OR ucast w :: u32)) = v"
    by (rule bit_word_eqI; auto simp: bit_simps dest: bit_imp_le_length)+
  then show ?thesis by (simp add: descriptor_pair_def Let_def)
qed

lemma ucast_narrow_eq:
  "ucast (p :: u16) = (0xFFFF :: u32) \<longleftrightarrow> p = 0xFFFF" "ucast (m :: u8) = (0xFF :: u16) \<longleftrightarrow> m = 0xFF"
  "ucast (mode :: u8) AND (6 :: u16) = 0 \<longleftrightarrow> mode AND 6 = 0"
proof -
  show "ucast p = (0xFFFF :: u32) \<longleftrightarrow> p = 0xFFFF"
    by transfer simp
  show "ucast m = (0xFF :: u16) \<longleftrightarrow> m = 0xFF"
    by transfer simp
  have "ucast mode AND (6 :: u16) = ucast (mode AND 6)" by (simp add: unsigned_and_eq)
  moreover have "(ucast w :: u16) = 0 \<longleftrightarrow> w = 0" for w :: u8 by transfer simp
  ultimately show "ucast mode AND (6 :: u16) = 0 \<longleftrightarrow> mode AND 6 = 0" by simp
qed

text \<open>The mode the Zorro III path submits stands for the same line.\<close>

lemma line_mode_submitted:
  "line_cmd dst pitch fg bg cm (ucast m) (ucast (if p = 0xFFFF \<and> m = 0xFF \<and> mode AND 6 = 0 then 0 else mode :: u8)) (ucast p)
     x y dx dy len seed off padding =
   line_cmd dst pitch fg bg cm (ucast (m :: u8)) (ucast mode) (ucast (p :: u16)) x y dx dy len seed off padding"
  by (simp add: line_cmd_def Let_def ucast_narrow_eq)

lemma line_plain_unused:
  "p = 0xFFFF \<Longrightarrow> m = 0xFF \<Longrightarrow>
   line_cmd dst pitch fg bg cm (ucast (m :: u8)) 0 (ucast (p :: u16)) x y dx dy len seed off padding =
   line_cmd dst pitch fg bg' cm (ucast m) 0 (ucast p) x y dx dy len seed off' padding'"
  by (simp add: line_cmd_def Let_def ucast_narrow_eq)

lemma pat_off_small: "line_pat_off l AND 0xFF = line_pat_off l" "line_pat_off l AND 0xF = line_pat_off l"
  by (simp_all add: line_pat_off_def and.assoc)

lemma y3_fields:
  assumes "q AND 0xFF = (q :: u16)"
  shows "ucast (ucast q :: u8) = (ucast q :: u32)"
    "ucast (q OR push_bit 8 (ucast (v :: u8))) AND (0xFF :: u32) = ucast q"
    "drop_bit 8 (ucast (q OR push_bit 8 (ucast (v :: u8))) :: u32) = ucast v"
proof -
  have m: "(0xFF :: u32) = mask 8" "(0xFF :: u16) = mask 8" by (simp_all add: mask_eq_exp_minus_1)
  have small: "n < 8" if "bit q n" for n
    using that assms unfolding m by (metis bit_and_iff bit_mask_iff)
  show "ucast (ucast q :: u8) = (ucast q :: u32)"
    by (rule bit_word_eqI) (auto simp: bit_simps dest: small bit_imp_le_length)
  show "ucast (q OR push_bit 8 (ucast v)) AND (0xFF :: u32) = ucast q" unfolding m
    by (rule bit_word_eqI) (auto simp: bit_simps dest: small bit_imp_le_length)
  show "drop_bit 8 (ucast (q OR push_bit 8 (ucast (v :: u8))) :: u32) = ucast v"
    by (rule bit_word_eqI) (auto simp: bit_simps dest: small bit_imp_le_length)
qed

lemma line_z3:
  assumes cm: "cm \<in> {0, 1, 2, 3}"
    and mode: "mode = (if ln_pattern l = 0xFFFF \<and> m = 0xFF \<and> ln_draw_mode l AND 6 = 0 then 0 else ln_draw_mode l)"
  shows "achieves b [line_cmd (card_offset b r) (pitch_of r) (ln_fg l) (ln_bg l) cm (ucast m) (ucast (ln_draw_mode l)) (ucast (ln_pattern l))
      (ucast (ln_x l)) (ucast (ln_y l)) (ucast (ln_dx l)) (ucast (ln_dy l)) (ucast (ln_length l)) (ucast (line_seed l))
      (ucast (line_pat_off l)) (ucast (ln_pad l))] s
    (issue_z3 (bd_gfxdata b) Dma_Draw_Line (write_gfx_mask (bd_gfxdata b) m
      (upd_gfx (bd_gfxdata b) (\<lambda>gd. gd\<lparr>gd_user := descriptor_pair 2 (push_bit 8 (line_pat_off l) OR scast (ln_pad l)) (line_seed l) (gd_user gd)\<rparr>)
      (upd_gfx (bd_gfxdata b) (\<lambda>gd. gd\<lparr>gd_user := descriptor_pair 0 (ln_length l) (ln_pattern l) (gd_user gd)\<rparr>)
      (upd_gfx (bd_gfxdata b) (\<lambda>gd. gd\<lparr>gd_y := descriptor_pair 0 (ln_y l) (ln_dy l) (gd_y gd)\<rparr>)
      (upd_gfx (bd_gfxdata b) (\<lambda>gd. gd\<lparr>gd_x := descriptor_pair 0 (ln_x l) (ln_dx l) (gd_x gd)\<rparr>)
      (upd_gfx (bd_gfxdata b) (set_rgb 1 (ln_bg l) \<circ> set_rgb 0 (ln_fg l))
      (upd_gfx (bd_gfxdata b) (\<lambda>gd. gd\<lparr>gd_u8 := (gd_u8 gd)(2 := ucast (line_pat_off l), 3 := ln_pad l)\<rparr>)
      (write_gfx_u8 (bd_gfxdata b) 1 mode (write_gfx_u8 (bd_gfxdata b) 0 (ucast cm)
      (upd_gfx (bd_gfxdata b) (set_pitch 0 (shift2 (ri_bytes_per_row r)) \<circ> set_offset 0 (card_offset b r)) s)))))))))))"
  apply (simp only: One_nat_def)
  apply (rule achieves_z3)
   apply ((rule told_intros keeps_bytes_pairs)+)[1]
  apply (simp add: Let_def gfx_setters colormode_bytes [OF cm] descriptor_pair_words pitch_of_def y3_fields [OF pat_off_small(1)])
  apply (simp only: mode line_mode_submitted)
  done

lemma line_z2:
  assumes cm: "cm \<in> {0, 1, 2, 3}" and plain: "plain \<longleftrightarrow> ln_draw_mode l = 0 \<and> ln_pattern l = 0xFFFF \<and> (m :: u8) = 0xFF"
  shows "achieves b [line_cmd (card_offset b r) (pitch_of r) (ln_fg l) (ln_bg l) cm (ucast m) (ucast (ln_draw_mode l)) (ucast (ln_pattern l))
      (ucast (ln_x l)) (ucast (ln_y l)) (ucast (ln_dx l)) (ucast (ln_dy l)) (ucast (ln_length l)) (ucast (line_seed l))
      (ucast (line_pat_off l)) (ucast (ln_pad l))] s
    (issue_z2 (bd_registers b) Op_Line (ucast m)
      ((if plain then \<lambda>s. s else write_y3 (bd_registers b) (line_pat_off l OR push_bit 8 (ucast (ln_pad l))))
      (write_x3 (bd_registers b) (ln_pattern l) (write_user3 (bd_registers b) (line_seed l) (write_user1 (bd_registers b) (ln_length l)
      (write_y2 (bd_registers b) (ln_dy l) (write_x2 (bd_registers b) (ln_dx l) (write_y1 (bd_registers b) (ln_y l) (write_x1 (bd_registers b) (ln_x l)
      ((if plain then \<lambda>s. s else write_rgb2 (bd_registers b) (ln_bg l)) (write_rgb (bd_registers b) (ln_fg l)
      (write_color_mode (bd_registers b) (with_high cm (ln_draw_mode l))
      (write_dst_pitch (bd_registers b) (shift2 (ri_bytes_per_row r)) (write_dst_offset (bd_registers b) (card_offset b r) s))))))))))))))"
proof (cases plain)
  case True
  with plain have p: "ln_draw_mode l = 0" "ln_pattern l = 0xFFFF" "m = 0xFF" by simp_all
  show ?thesis
    unfolding if_P [OF True]
    apply (rule achieves_z2)
     apply ((rule told_intros)+)[1]
    apply (simp add: Let_def colormode_bytes [OF cm] pitch_of_def)
    apply (simp add: p line_cmd_def)
    done
next
  case False
  then show ?thesis
    unfolding if_not_P [OF False]
    apply (rule_tac achieves_z2)
     apply ((rule told_intros)+)[1]
    apply (simp add: Let_def colormode_bytes [OF cm] pitch_of_def y3_fields [OF pat_off_small(1)])
    done
qed

lemma hook_line: "achieves b (wanted b (Req_Line r l m format)) s (run_req b (Req_Line r l m format) s)"
proof (cases "ln_draw_mode l AND 2 \<noteq> 0 \<or> mnt_colormode format = COLOR_NO_USE")
  case True
  then show ?thesis by (auto simp: Draw_Line_def Let_def achieves_intros)
next
  case False
  then have no: "mnt_colormode format \<noteq> COLOR_NO_USE" by blast
  note cm = colormode_cases [OF no]
  let ?m = "direct_color_mask (mnt_colormode format) m"
  from False have nm: "(ln_draw_mode l AND 2 \<noteq> 0) = False" by blast
  have n: "\<not> ((ln_draw_mode l = 0 \<and> ln_pattern l = 0xFFFF \<and> ?m = 0xFF) \<and> ln_dy l = 0)"
    "\<not> ((ln_draw_mode l = 0 \<and> ln_pattern l = 0xFFFF \<and> ?m = 0xFF) \<and> ln_dx l = 0)" if "\<not> straight l ?m"
    using that by (auto simp: straight_def)
  consider "ln_length l = 0" | "ln_length l \<noteq> 0" "straight l ?m" | "ln_length l \<noteq> 0" "\<not> straight l ?m" "bd_zorro3 b"
    | "ln_length l \<noteq> 0" "\<not> straight l ?m" "\<not> bd_zorro3 b" by blast
  then show ?thesis
  proof cases
    case 1
    with False show ?thesis by (simp add: Draw_Line_def Let_def achieves_intros)
  next
    case 2
    with False show ?thesis
      by (auto simp: Draw_Line_def straight_def Let_def intro: achieves_hline achieves_vline achieves_fill [OF cm])
  next
    case 3
    show ?thesis
      unfolding run_req.simps wanted.simps Draw_Line_def Let_def if_not_P [OF n(1) [OF 3(2)]] if_not_P [OF n(2) [OF 3(2)]]
      apply (simp only: 3 no nm simp_thms if_True if_False o_apply)
      apply (rule line_z3 [OF cm refl])
      done
  next
    case 4
    show ?thesis
      unfolding run_req.simps wanted.simps Draw_Line_def Let_def if_not_P [OF n(1) [OF 4(2)]] if_not_P [OF n(2) [OF 4(2)]]
      apply (simp only: 4 no nm simp_thms if_True if_False o_apply)
      apply (rule line_z2 [OF cm refl])
      done
  qed
qed

lemma hook_feature: "achieves b (wanted b (Req_Feature f)) s (run_req b (Req_Feature f) s)"
  by (auto simp: achieves_def synced_def select_card_feature_def put_reg_def cache_invalidate_def cache_select_def
    cache_in_step_def once_regs_def Let_def flag_facts)

lemma hook_refines: "achieves b (wanted b req) s (run_req b req s)"
  by (cases req) (simp_all only: hook_fill hook_invert hook_copy hook_combine hook_template hook_pattern hook_line hook_feature)

text \<open>The drawing hooks refine what was asked of them. From a state in which the caches agree with the card, any sequence of
  drawing requests and feature writes makes the card execute exactly the operations the requests stand for, in order, each with the
  operands of its own request, whichever bus the board is on and whatever register, descriptor and byte writes the caches suppressed on
  the way; and the caches agree with the card again afterwards.\<close>

theorem draw_commands_refine:
  assumes "synced b s"
  shows "synced b (fold (run_req b) reqs s) \<and>
    map command (st_issued (fold (run_req b) reqs s)) = map command (st_issued s) @ concat (map (wanted b) reqs)"
  using assms
proof (induction reqs arbitrary: s)
  case (Cons req reqs)
  with hook_refines [of b req s] show ?case by (simp add: achieves_def)
qed simp

text \<open>What the driver assumes at start: the last values of the writers are the initialisers of their static variables, and the card
  comes up with just these.\<close>

definition boot_state :: rtg where
  "boot_state = (let start = \<lambda>r. if r = R_Color_Mode then 2 else 0 in
     \<lparr>st_regs = (\<lambda>_. start), st_old = start,
      st_cache = cache_reset \<lparr>bc_registers = 0, bc_valid = 0, bc_src_pitch = 0, bc_user1 = 0, bc_user2 = 0, bc_rgb2 = 0\<rparr>,
      st_gfx = (\<lambda>_. \<lparr>gd_offset = \<lambda>_. 0, gd_rgb = \<lambda>_. 0, gd_x = \<lambda>_. 0, gd_y = \<lambda>_. 0, gd_user = \<lambda>_. 0, gd_pitch = \<lambda>_. 0,
        gd_u8 = \<lambda>_. 0, gd_mask = 0, gd_minterm = 0, gd_u8offset = 0, gd_u32 = \<lambda>_. 0, gd_clut1 = \<lambda>_. 0\<rparr>),
      st_bytes = byte_cache_reset \<lparr>by_owner = 0, by_value = \<lambda>_. 0, by_valid = 0\<rparr>,
      st_mem = (\<lambda>_. 0), st_issued = [], st_desk = boot_desk\<rparr>)"

lemma boot_synced: "synced b boot_state"
  by (simp add: synced_def boot_state_def cache_in_step_def bytes_in_step_def cache_reset_def byte_cache_reset_def Let_def)

theorem draw_commands_refine_witness:
  "let b = \<lparr>bd_registers = 0x40000000, bd_memory_base = 0x40010000, bd_memory_size = 0x3000000, bd_gfxdata = 0x43200000,
         bd_zorro3 = True, bd_aperture_info = 0, bd_template_offset = 0, bd_default = \<lambda>_. True\<rparr>;
       r = \<lparr>ri_memory = 0x40020000, ri_bytes_per_row = 1280\<rparr>
   in map command (st_issued (fold (run_req b) [Req_Fill r 0 0 640 400 0xF800 0xFF 10, Req_Invert r 8 8 16 16 0xFF 2] boot_state)) =
      [Cmd_Fill 0x10000 320 1 0xFF 0xF800 0 0 640 400, Cmd_Default Fn_Invert_Rect]"
  unfolding Let_def
  by (subst draw_commands_refine [OF boot_synced, THEN conjunct2])
    (simp add: boot_state_def wanted_fill_def no_area_def mnt_colormode_def rtg_to_mnt_def fallback_def card_offset_def pitch_of_def
    shift2_def direct_color_mask_def COLOR_NO_USE_def COLOR_16BIT565_def COLOR_8BIT_def COLOR_32BIT_def COLOR_15BIT_def Let_def del: command.simps)

section \<open>Lines\<close>

definition stair :: "int \<Rightarrow> int \<Rightarrow> int \<Rightarrow> int" where
  "stair L S k = (S * k + L div 2) div L"

text \<open>C33: A clipped line resumes its staircase. If the segment starts on the full line, \<open>k\<close> pixels along the longer
  axis and \<open>stair L S k\<close> along the shorter one, the error seed is the remainder of the full line's division there, it fits 16 bits, and a
  renderer that adds the shorter distance per pixel from that seed visits exactly the pixels of the unclipped line from \<open>k\<close> on.\<close>

theorem line_seed_resumes:
  fixes l :: line
  defines "dxa \<equiv> \<bar>sint (ln_dx l)\<bar>" and "dya \<equiv> \<bar>sint (ln_dy l)\<bar>"
    and "ox \<equiv> \<bar>sint (ln_x l) - sint (ln_xorigin l)\<bar>" and "oy \<equiv> \<bar>sint (ln_y l) - sint (ln_yorigin l)\<bar>"
  assumes "0 < max dxa dya"
    and "(if dya \<le> dxa then oy else ox) = stair (max dxa dya) (min dxa dya) (if dya \<le> dxa then ox else oy)"
  shows "uint (line_seed l) = (min dxa dya * (if dya \<le> dxa then ox else oy) + max dxa dya div 2) mod max dxa dya \<and>
    (\<forall>i :: nat. (if dya \<le> dxa then oy else ox) + (min dxa dya * int i + uint (line_seed l)) div max dxa dya =
       stair (max dxa dya) (min dxa dya) ((if dya \<le> dxa then ox else oy) + int i))"
proof -
  define L where "L = max dxa dya"
  define S where "S = min dxa dya"
  define k where "k = (if dya \<le> dxa then ox else oy)"
  define m where "m = (if dya \<le> dxa then oy else ox)"
  have L: "0 < L" "L < 2 ^ 16"
    using assms(5) sint_range_size [of "ln_dx l"] sint_range_size [of "ln_dy l"]
    by (auto simp: L_def dxa_def dya_def word_size)
  have m: "m = stair L S k" using assms(6) by (simp add: L_def S_def k_def m_def)
  have "line_seed l = word_of_int (S * k - L * m + L div 2)"
    by (auto simp: line_seed_def Let_def L_def S_def k_def m_def dxa_def dya_def ox_def oy_def abs_minus_commute)
  moreover have r: "S * k - L * m + L div 2 = (S * k + L div 2) mod L"
    unfolding m stair_def by (simp add: minus_mult_div_eq_mod [symmetric])
  moreover have "0 \<le> (S * k + L div 2) mod L" using L(1) by simp
  moreover have "(S * k + L div 2) mod L < 2 ^ 16"
    using pos_mod_bound [OF L(1), of "S * k + L div 2"] L(2) by (rule less_trans)
  ultimately have seed: "uint (line_seed l) = (S * k + L div 2) mod L"
    by (simp add: uint_word_of_int take_bit_int_eq_self)
  have "m + (S * int i + uint (line_seed l)) div L = stair L S (k + int i)" for i
  proof -
    have "S * (k + int i) + L div 2 = (S * int i + (S * k + L div 2) mod L) + m * L"
      using r by (simp add: algebra_simps)
    then show ?thesis using L by (simp add: seed stair_def)
  qed
  with seed show ?thesis unfolding L_def S_def k_def m_def by blast
qed

theorem line_seed_resumes_witness:
  "line_seed \<lparr>ln_x = 3, ln_y = 1, ln_length = 5, ln_dx = 8, ln_dy = 3, ln_pattern = 0xFFFF, ln_pattern_shift = 15, ln_fg = 1, ln_bg = 0,
     ln_draw_mode = 0, ln_pad = 0, ln_xorigin = 0, ln_yorigin = 0\<rparr> = 5"
  using line_seed_resumes [where l = "\<lparr>ln_x = 3, ln_y = 1, ln_length = 5, ln_dx = 8, ln_dy = 3, ln_pattern = 0xFFFF, ln_pattern_shift = 15,
     ln_fg = 1, ln_bg = 0, ln_draw_mode = 0, ln_pad = 0, ln_xorigin = 0, ln_yorigin = 0\<rparr>"]
  by (simp add: stair_def word_uint_eq_iff)

text \<open>The unrolled vertical line of the Zorro II path stores exactly one pixel per row, as the plain loop does.\<close>

theorem vline_unrolled:
  "vline_loop colormode color stride h p m =
     fold (\<lambda>i. put_pixel colormode color (p + of_nat i * stride)) [0..<h] m"
proof (induction colormode color stride h p m rule: vline_loop.induct)
  case (1 colormode color stride h p m)
  let ?put = "\<lambda>p i. put_pixel colormode color (p + of_nat i * stride)"
  have shift: "fold (?put p) [n..<n + k] m' = fold (?put (p + of_nat n * stride)) [0..<k] m'" for n k m'
    by (induction k) (simp_all add: algebra_simps)
  consider "h \<ge> 4" | "0 < h" "h < 4" | "h = 0" by linarith
  then show ?case
  proof cases
    case 1
    have "[0..<4] = [0, 1, 2, 3 :: nat]" by (simp add: numeral_eq_Suc)
    with 1 have "[0..<h] = [0, 1, 2, 3] @ [4..<4 + (h - 4)]"
      using upt_add_eq_append [of 0 4 "h - 4"] by simp
    with 1 "1.IH"(1) [OF 1] shift [of 4 "h - 4"] show ?thesis
      by (subst vline_loop.simps) (simp add: algebra_simps del: vline_loop.simps)
  next
    case 2
    then have "[0..<h] = 0 # [1..<1 + (h - 1)]" by (simp add: upt_rec [of 0])
    with 2 "1.IH"(2) shift [of 1 "h - 1"] show ?thesis
      by (subst vline_loop.simps) (simp del: vline_loop.simps)
  next
    case 3
    then show ?thesis by (subst vline_loop.simps) simp
  qed
qed

end
