(* ===== verification/RtgSprite.thy ===== *)
theory RtgSprite
  imports RtgDraw RtgMemory
begin

text \<open>
  The hooks of \<^verbatim>\<open>rtg/mntgfx-gcc.c\<close> that stage data for the card: the planar blits \<^verbatim>\<open>BlitPlanar2Chunky\<close> and
  \<^verbatim>\<open>BlitPlanar2Direct\<close>, the pointer sprite and the screen split. NULL arguments return at once in every hook; they are not
  represented.
\<close>

section \<open>Planar bitmaps\<close>

record bit_map =
  bm_bytes_per_row :: u16
  bm_depth :: u8
  bm_planes :: "nat \<Rightarrow> u32"

record color_mapping =
  cl_color_mask :: u32
  cl_colors :: u32

definition planar_line_bytes :: "u16 \<Rightarrow> u16 \<Rightarrow> u16" where
  "planar_line_bytes x w = ucast (drop_bit 3 ((ucast x AND 7) + ucast w + 7 :: u32))"

definition planar_line_bytes_padded :: "u16 \<Rightarrow> u16" where
  "planar_line_bytes_padded w = ucast (drop_bit 3 (ucast w :: u32) + 2)"

definition fill_mem :: "u32 \<Rightarrow> u8 \<Rightarrow> nat \<Rightarrow> rtg \<Rightarrow> rtg" where
  "fill_mem dst v n s = s\<lparr>st_mem := fold (\<lambda>i m. m(dst + of_nat i := v)) [0..<n] (st_mem s)\<rparr>"

text \<open>The row loop copies \<open>h\<close> lines; the plane loop runs it for every plane that exists, fills the staging area of an all-ones plane and takes
  the bit of an absent plane out of the plane mask.\<close>

fun copy_rows :: "nat \<Rightarrow> u32 \<Rightarrow> u32 \<Rightarrow> u16 \<Rightarrow> u16 \<Rightarrow> rtg \<Rightarrow> rtg" where
  "copy_rows 0 dst src line_size bpr s = s"
| "copy_rows (Suc n) dst src line_size bpr s =
     copy_rows n (dst + ucast line_size) (src + ucast bpr) line_size bpr (copy_mem dst src (unat line_size) s)"

definition stage_plane :: "bit_map \<Rightarrow> u16 \<Rightarrow> u16 \<Rightarrow> u16 \<Rightarrow> u16 \<Rightarrow> u32 \<Rightarrow> u32 \<Rightarrow> nat \<Rightarrow> rtg \<times> u16 \<times> u8 \<Rightarrow> rtg \<times> u16 \<times> u8" where
  "stage_plane bm x y h line_size plane_size dst i = (\<lambda>(s, zz_mask, cur_plane).
     let p = bm_planes bm i; x_offset = (word_of_int (sint x div 8) :: u16) in
     if p = 0xFFFFFFFF then (fill_mem dst 0xFF (unat plane_size) s, zz_mask, push_bit 1 cur_plane)
     else if p \<noteq> 0 then
       (copy_rows (unat h) dst (p + scast y * ucast (bm_bytes_per_row bm) + ucast x_offset) line_size (bm_bytes_per_row bm) s,
        zz_mask, push_bit 1 cur_plane)
     else (s, zz_mask AND ucast (cur_plane XOR 0xFF), push_bit 1 cur_plane))"

definition stage_planes :: "bit_map \<Rightarrow> u16 \<Rightarrow> u16 \<Rightarrow> u16 \<Rightarrow> u16 \<Rightarrow> u32 \<Rightarrow> u32 \<Rightarrow> u16 \<Rightarrow> rtg \<Rightarrow> rtg \<times> u16" where
  "stage_planes bm x y h line_size plane_size addr m s =
     (case fold (\<lambda>i. stage_plane bm x y h line_size plane_size (addr + of_nat i * plane_size) i) [0..<unat (bm_depth bm)] (s, m, 1) of
        (s1, zz_mask, _) \<Rightarrow> (s1, zz_mask))"

section \<open>Planar blits\<close>

definition staging_addr :: "board \<Rightarrow> u32" where
  "staging_addr b = (if bd_zorro3 b then Z3_TEMPLATE_ADDR else z2_template_offset b)"

text \<open>\<open>format\<close> is the format of the render-info structure. The two defaults are called unconditionally, as in the code.\<close>

definition Blit_Planar2Chunky ::
  "board \<Rightarrow> bit_map \<Rightarrow> render_info \<Rightarrow> u16 \<Rightarrow> u16 \<Rightarrow> u16 \<Rightarrow> u16 \<Rightarrow> u16 \<Rightarrow> u16 \<Rightarrow> u8 \<Rightarrow> u8 \<Rightarrow> u16 \<Rightarrow> rtg \<Rightarrow> rtg" where
  "Blit_Planar2Chunky b bm r x y dx dy w h minterm m format s =
     (if no_area w h then s
      else let g = bd_gfxdata b; base = bd_registers b; line_size = planar_line_bytes_padded w;
               plane_size = ucast line_size * scast h :: u32; addr = staging_addr b in
        if \<not> bd_zorro3 b \<and> \<not> staging_fits 0 plane_size (ucast (bm_depth bm)) then call_default Fn_P2C s
        else if bd_zorro3 b then
          let s1 = (write_gfx_minterm g minterm \<circ> write_gfx_mask g m
                \<circ> upd_gfx g (set_pitch 1 line_size \<circ> set_pitch 0 (shift2 (ri_bytes_per_row r)) \<circ> set_offset 1 addr
                    \<circ> set_offset 0 (card_offset b r))) s
          in case stage_planes bm x y h line_size plane_size (bd_memory_base b + addr) (ucast m) s1 of (s2, zz_mask) \<Rightarrow>
            (issue_z3 g Dma_P2C \<circ> upd_gfx g (set_user 1 (ucast (bm_depth bm)) \<circ> set_user 0 zz_mask \<circ> set_y 2 h \<circ> set_y 1 dy
                \<circ> set_x 2 w \<circ> set_x 1 dx \<circ> set_x 0 (x AND 7))) s2
        else
          let s1 = (write_src_pitch base line_size \<circ> write_src_offset base addr \<circ> write_color_mode base (with_high (mnt_colormode format) minterm)
                \<circ> write_dst_pitch base (shift2 (ri_bytes_per_row r)) \<circ> write_dst_offset base (card_offset b r)) s
          in case stage_planes bm x y h line_size plane_size (bd_memory_base b + addr) (ucast m) s1 of (s2, zz_mask) \<Rightarrow>
            (issue_z2 base Op_P2C (with_high (ucast m) (bm_depth bm)) \<circ> write_user2 base zz_mask
              \<circ> write_y3 base h \<circ> write_x3 base w \<circ> write_y2 base dy \<circ> write_x2 base dx \<circ> write_x1 base (x AND 7)) s2)"

definition Blit_Planar2Direct ::
  "board \<Rightarrow> bit_map \<Rightarrow> render_info \<Rightarrow> color_mapping \<Rightarrow> u16 \<Rightarrow> u16 \<Rightarrow> u16 \<Rightarrow> u16 \<Rightarrow> u16 \<Rightarrow> u16 \<Rightarrow> u8 \<Rightarrow> u8 \<Rightarrow> u16 \<Rightarrow> rtg \<Rightarrow> rtg" where
  "Blit_Planar2Direct b bm r clut x y dx dy w h minterm m format s =
     (if no_area w h then s
      else let g = bd_gfxdata b; base = bd_registers b; line_size = planar_line_bytes x w;
               plane_size = ucast line_size * scast h :: u32; addr = staging_addr b in
        if \<not> bd_zorro3 b \<and> \<not> staging_fits 1024 plane_size (ucast (bm_depth bm)) then call_default Fn_P2D s
        else if bd_zorro3 b then
          let s1 = (copy_mem (bd_memory_base b + addr) (cl_colors clut) 1024 \<circ> write_gfx_minterm g minterm \<circ> write_gfx_mask g m
                \<circ> write_gfx_u8 g 0 (ucast (mnt_colormode format))
                \<circ> upd_gfx g (set_rgb 0 (cl_color_mask clut) \<circ> set_pitch 1 line_size \<circ> set_pitch 0 (shift2 (ri_bytes_per_row r))
                    \<circ> set_offset 1 addr \<circ> set_offset 0 (card_offset b r))) s
          in case stage_planes bm x y h line_size plane_size (bd_memory_base b + addr + 1024) (ucast m) s1 of (s2, zz_mask) \<Rightarrow>
            (issue_z3 g Dma_P2D \<circ> upd_gfx g (set_user 1 (ucast (bm_depth bm)) \<circ> set_user 0 zz_mask \<circ> set_y 2 h \<circ> set_y 1 dy
                \<circ> set_x 2 w \<circ> set_x 1 dx \<circ> set_x 0 (x AND 7))) s2
        else
          let s1 = (copy_mem (bd_memory_base b + addr) (cl_colors clut) 1024 \<circ> write_rgb base (cl_color_mask clut)
                \<circ> write_src_pitch base line_size \<circ> write_src_offset base addr
                \<circ> write_color_mode base (with_high (mnt_colormode format) minterm)
                \<circ> write_dst_pitch base (shift2 (ri_bytes_per_row r)) \<circ> write_dst_offset base (card_offset b r)) s
          in case stage_planes bm x y h line_size plane_size (bd_memory_base b + addr + 1024) (ucast m) s1 of (s2, zz_mask) \<Rightarrow>
            (issue_z2 base Op_P2D (with_high (ucast m) (bm_depth bm)) \<circ> write_user2 base zz_mask
              \<circ> write_y3 base h \<circ> write_x3 base w \<circ> write_y2 base dy \<circ> write_x2 base dx \<circ> write_x1 base (x AND 7)) s2)"

section \<open>The pointer sprite\<close>

definition Set_Sprite :: "board \<Rightarrow> bool \<Rightarrow> u16 \<Rightarrow> rtg \<Rightarrow> rtg" where
  "Set_Sprite b what format s =
     (if \<not> what \<and> format = 0 then issue_z2 (bd_registers b) Op_Sprite_Bitmap 2 s
      else issue_z2 (bd_registers b) Op_Sprite_Bitmap 1 s)"

definition Set_Sprite_Position :: "board \<Rightarrow> u16 \<Rightarrow> u16 \<Rightarrow> rtg \<Rightarrow> rtg" where
  "Set_Sprite_Position b x y s =
     (let s1 = upd_desk (\<lambda>d. d\<lparr>dk_mouse_x := x, dk_mouse_y := y\<rparr>) s; y' = y + dk_y_split (st_desk s);
          g = bd_gfxdata b; base = bd_registers b in
      if bd_zorro3 b then (issue_z3 g Dma_Sprite_XY \<circ> upd_gfx g (set_y 0 y' \<circ> set_x 0 x)) s1
      else (issue_z2 base Op_Sprite_XY 1 \<circ> write_y1 base y' \<circ> write_x1 base x) s1)"

record mouse_image =
  ms_width :: u8
  ms_height :: u8
  ms_image :: u32
  ms_hires :: bool
  ms_doubled :: bool

definition mouse_bytes :: "mouse_image \<Rightarrow> u32" where
  "mouse_bytes ms = (ucast (drop_bit 3 (ms_width ms)) * 2 * (if ms_hires ms then 2 else 1)) * ucast (ms_height ms)"

definition Set_Sprite_Image :: "board \<Rightarrow> mouse_image \<Rightarrow> rtg \<Rightarrow> rtg" where
  "Set_Sprite_Image b ms s =
     (let addr = staging_addr b; hires = (if ms_hires ms then 2 else 1 :: u32); doubled = (if ms_doubled ms then 1 else 0 :: u8);
          n = mouse_bytes ms; g = bd_gfxdata b; base = bd_registers b;
          wf = with_high (ucast (ms_width ms)) doubled; hf = with_high (ucast (ms_height ms)) (ucast (hires - 1)) in
      if \<not> bd_zorro3 b \<and> \<not> z2_template_fits n then s
      else let s1 = copy_mem (bd_memory_base b + addr) (ms_image ms + 2 * 2 * hires) (unat n) s;
               xo = dk_x_offset (st_desk s); yo = dk_y_offset (st_desk s) in
        if bd_zorro3 b then
          (issue_z3 g Dma_Sprite_Bitmap \<circ> upd_gfx g (set_y 1 hf \<circ> set_y 0 yo \<circ> set_x 1 wf \<circ> set_x 0 xo \<circ> set_offset 1 addr)) s1
        else
          (issue_z2 base Op_Sprite_Bitmap 0 \<circ> write_y2 base hf \<circ> write_y1 base yo \<circ> write_x2 base wf \<circ> write_x1 base xo
            \<circ> write_src_offset base addr) s1)"

text \<open>On the big-endian host the four bytes stored through the \<^verbatim>\<open>char\<close> pointer are blue, green, red and zero from the top.\<close>

definition Set_Sprite_Color :: "board \<Rightarrow> u8 \<Rightarrow> u8 \<Rightarrow> u8 \<Rightarrow> u8 \<Rightarrow> rtg \<Rightarrow> rtg" where
  "Set_Sprite_Color b idx red green blue s =
     (let g = bd_gfxdata b; base = bd_registers b in
      if bd_zorro3 b then
        (issue_z3 g Dma_Sprite_Color \<circ> upd_gfx g (\<lambda>gd. gd\<lparr>gd_u8offset := idx + 1\<rparr>) \<circ> upd_gfx g (set_rgb 0 (be32_of blue green red 0))) s
      else
        (issue_z2 base Op_Sprite_Colors (ucast idx + 1) \<circ> write_user2 base (with_high (ucast blue) green) \<circ> write_user1 base (ucast red)) s)"

text \<open>\<open>visible\<close>: the first plane of the visible bitmap, 0 when there is none.\<close>

definition Set_Split_Position :: "board \<Rightarrow> u16 \<Rightarrow> u32 \<Rightarrow> rtg \<Rightarrow> rtg" where
  "Set_Split_Position b pos0 visible s =
     (let g = bd_gfxdata b; base = bd_registers b; pos = (if pos0 \<noteq> 0 \<and> visible = 0 then 0 else pos0);
          offset = (if pos \<noteq> 0 then visible - bd_memory_base b else 0);
          s1 = upd_desk (\<lambda>d. d\<lparr>dk_y_split := pos\<rparr>) s in
      if bd_zorro3 b then (issue_z3 g Dma_Set_Split_Pos \<circ> upd_gfx g (set_y 0 pos \<circ> set_offset 0 offset)) s1
      else (issue_z2 base Op_Split_Pos pos \<circ> write_src_offset base offset) s1)"

end
