(* ===== verification/RtgDisplay.thy ===== *)
theory RtgDisplay
  imports RtgDraw RtgOverlay RtgMemory
begin

text \<open>
  The display hooks of \<^verbatim>\<open>rtg/mntgfx-gcc.c\<close>: programming a mode, switching between the native and the RTG screen
  (with \<^verbatim>\<open>rtg/videocap_mode.h\<close>), panning, palettes, pixel clocks, bytes per row and power management. NULL board pointers return at once; they
  are not represented.
\<close>

section \<open>Video capture modes\<close>

definition VMODE_800x600 :: u16 where "VMODE_800x600 = 1"
definition VMODE_CENTERED_60 :: u16 where "VMODE_CENTERED_60 = 5"
definition VMODE_720x576 :: u16 where "VMODE_720x576 = 6"
definition VMODE_CENTERED_50 :: u16 where "VMODE_CENTERED_50 = 7"
definition VMODE_CENTERED_MATCH :: u16 where "VMODE_CENTERED_MATCH = 0x100"
definition CAP_CENTERED :: u16 where "CAP_CENTERED = 8"
definition CAP_CENTERED_50 :: u16 where "CAP_CENTERED_50 = 16"
definition CAP_SOURCE_SYNC :: u16 where "CAP_SOURCE_SYNC = 32"
definition CAP_SCANOUT_ORIGIN :: u16 where "CAP_SCANOUT_ORIGIN = 64"

definition vcap_mode_is_centered :: "u16 \<Rightarrow> bool" where
  "vcap_mode_is_centered mode = (mode = VMODE_CENTERED_60 \<or> mode = VMODE_CENTERED_50 \<or> mode = VMODE_CENTERED_MATCH)"

definition vcap_mode_sanitize :: "u16 \<Rightarrow> u16 \<Rightarrow> u16" where
  "vcap_mode_sanitize mode caps =
     (if mode = VMODE_720x576 then VMODE_720x576
      else if mode = VMODE_CENTERED_60 \<and> caps AND CAP_CENTERED \<noteq> 0 then VMODE_CENTERED_60
      else if mode = VMODE_CENTERED_50 \<and> caps AND (CAP_CENTERED OR CAP_CENTERED_50) = CAP_CENTERED OR CAP_CENTERED_50
      then VMODE_CENTERED_50
      else if mode = VMODE_CENTERED_MATCH \<and> caps AND (CAP_CENTERED OR CAP_CENTERED_50 OR CAP_SOURCE_SYNC) =
                CAP_CENTERED OR CAP_CENTERED_50 OR CAP_SOURCE_SYNC
      then VMODE_CENTERED_MATCH
      else VMODE_800x600)"

definition vcap_native_pan_offset :: "u16 \<Rightarrow> u16 \<Rightarrow> u32" where
  "vcap_native_pan_offset mode caps =
     (if vcap_mode_is_centered mode then 0x00dff2f8
      else if mode = VMODE_800x600 \<and> caps AND CAP_SCANOUT_ORIGIN = 0 then 0x00dff2f8
      else 0x00e00000)"

section \<open>Formats and pitches\<close>

definition SUPPORTED_RGB_FORMATS :: u32 where
  "SUPPORTED_RGB_FORMATS = push_bit 0 1 OR push_bit 1 1 OR push_bit 9 1 OR push_bit 10 1 OR push_bit 11 1"

definition OVERLAY_SOURCE_FORMATS :: u32 where
  "OVERLAY_SOURCE_FORMATS = push_bit 14 1 OR push_bit 17 1 OR push_bit 18 1"

definition supported_rgb_format :: "u32 \<Rightarrow> bool" where
  "supported_rgb_format format = (if format \<ge> 32 then False else SUPPORTED_RGB_FORMATS AND push_bit (unat format) 1 \<noteq> 0)"

definition calc_pitch_bytes :: "u16 \<Rightarrow> u16 \<Rightarrow> u16" where
  "calc_pitch_bytes w colormode =
     (if colormode = COLOR_8BIT then w
      else if colormode = COLOR_16BIT565 \<or> colormode = COLOR_15BIT then push_bit 1 w
      else if colormode = COLOR_32BIT then push_bit 2 w else 0)"

definition Calculate_Bytes_Per_Row :: "bool \<Rightarrow> u16 \<Rightarrow> u32 \<Rightarrow> u16" where
  "Calculate_Bytes_Per_Row overlay_hooks width format =
     (if overlay_hooks \<and> overlay_variant format \<ge> 0 then ucast (bytes_per_row format (ucast width))
      else if \<not> supported_rgb_format format then 0
      else calc_pitch_bytes width (mnt_colormode (ucast format)))"

definition Calculate_Memory :: "bool \<Rightarrow> u32 \<Rightarrow> u32 \<Rightarrow> u32" where
  "Calculate_Memory overlay_hooks addr format =
     (if \<not> supported_rgb_format format \<and> \<not> (overlay_hooks \<and> overlay_variant format \<ge> 0) then 0 else addr)"

definition Get_Compatible_Formats :: "bool \<Rightarrow> u32 \<Rightarrow> u32 \<Rightarrow> u32" where
  "Get_Compatible_Formats overlay_hooks formats format =
     (let m = (if overlay_hooks then formats OR OVERLAY_SOURCE_FORMATS else formats) in
      if format \<ge> 32 \<or> m AND push_bit (unat format) 1 = 0 then 0 else m)"

section \<open>Pixel clocks\<close>

definition p96_mode_of :: "mode_info \<Rightarrow> u32 \<Rightarrow> p96_mode" where
  "p96_mode_of mi pixel_clock =
     \<lparr>p_width = mi_width mi, p_height = mi_height mi, p_hor_total = mi_hor_total mi, p_hor_sync_start = mi_hor_sync_start mi,
      p_hor_sync_size = mi_hor_sync_size mi, p_ver_total = mi_ver_total mi, p_ver_sync_start = mi_ver_sync_start mi,
      p_ver_sync_size = mi_ver_sync_size mi, p_flags = ucast (mi_flags mi), p_pixel_clock = pixel_clock\<rparr>"

definition sanitize_mode_flags :: "mode_info \<Rightarrow> mode_info" where
  "sanitize_mode_flags mi = mi\<lparr>mi_flags := mi_flags mi AND NOT (0x02 OR 0x01)\<rparr>"

text \<open>The plan structure is uninitialised on entry; \<open>plan0\<close> is what the stack holds.\<close>

definition Resolve_Pixel_Clock :: "u16 \<Rightarrow> modeline_plan \<Rightarrow> mode_info option \<Rightarrow> u32 \<Rightarrow> u32 \<Rightarrow> int \<times> mode_info option" where
  "Resolve_Pixel_Clock caps plan0 mode_info pixel_clock format =
     (case mode_info of
        None \<Rightarrow> (- 1, None)
      | Some mi \<Rightarrow>
          if \<not> supported_rgb_format format then (- 1, Some mi)
          else case negotiate_pixel_clock (p96_mode_of mi pixel_clock) caps plan0 of
            (False, plan) \<Rightarrow> (- 1, Some mi)
          | (True, plan) \<Rightarrow>
              let mi1 = (case (mp_action plan, mp_preset plan) of
                           (Modeline_Preset, Some t) \<Rightarrow> (sanitize_mode_flags mi)\<lparr>mi_pixel_clock := mt_clock t\<rparr>
                         | _ \<Rightarrow> mi\<lparr>mi_pixel_clock := mp_achieved plan\<rparr>)
              in (0, Some (mi1\<lparr>mi_pll1_clock := 0, mi_pll2_divide := 1\<rparr>)))"

definition Get_Pixel_Clock :: "u16 \<Rightarrow> modeline_plan \<Rightarrow> mode_info option \<Rightarrow> u32 \<Rightarrow> u32 \<Rightarrow> u32" where
  "Get_Pixel_Clock caps plan0 mode_info index format =
     (case mode_info of
        None \<Rightarrow> 0
      | Some mi \<Rightarrow>
          if index \<noteq> 0 \<or> \<not> supported_rgb_format format then 0
          else case negotiate_pixel_clock (p96_mode_of mi (mi_pixel_clock mi)) caps plan0 of
            (False, plan) \<Rightarrow> 0
          | (True, plan) \<Rightarrow>
              (case (mp_action plan, mp_preset plan) of
                 (Modeline_Preset, Some t) \<Rightarrow> mt_clock t
               | _ \<Rightarrow> mp_achieved plan))"

section \<open>Modes, the native screen and panning\<close>

text \<open>
  What stays fixed after initialisation besides the \<open>board\<close>: its pixel format, the firmware capabilities, the capture mode, and how the
  firmware answers a custom-mode commit after what it was told so far.
\<close>

record screen =
  sc_format :: u32
  sc_caps :: u16
  sc_vcap_mode :: u16
  sc_commit_status :: "issued list \<Rightarrow> u16"
  sc_plan0 :: modeline_plan

definition custom_reg_write :: "u16 \<Rightarrow> u16 \<Rightarrow> rtg \<Rightarrow> rtg" where
  "custom_reg_write off v = emit (Issue_Reg off v)"

definition custom_reg_status :: "screen \<Rightarrow> rtg \<Rightarrow> u16 \<times> rtg" where
  "custom_reg_status c s = (sc_commit_status c (st_issued s), s)"

definition Set_GC :: "screen \<Rightarrow> u32 \<Rightarrow> bool \<Rightarrow> rtg \<Rightarrow> rtg" where
  "Set_GC c mode border s =
     (let s1 = upd_desk (\<lambda>d. d\<lparr>dk_gc_rejected := True\<rparr>) s in
      if mode = 0 then s1
      else let mi = dk_modes (st_desk s) mode in
        if mi_width mi < 320 \<or> mi_height mi < 200 then s1
        else let colormode = mnt_colormode (ucast (sc_format c)) in
          if colormode = COLOR_NO_USE then s1
          else case plan_modeline (p96_mode_of mi (mi_pixel_clock mi)) (sc_caps c) (sc_plan0 c) of
            (False, plan) \<Rightarrow> s1
          | (True, plan) \<Rightarrow>
              let accept = upd_desk (\<lambda>d. d\<lparr>dk_mode_info := mode, dk_border := border, dk_gc_rejected := False\<rparr>) in
              case (mp_action plan, mp_preset plan) of
                (Modeline_Custom, _) \<Rightarrow>
                  (case stage_and_commit (mp_custom plan) (ucast colormode) custom_reg_write (custom_reg_status c) s1 of
                     (ok, s2) \<Rightarrow> if ok then accept s2 else s2)
              | (_, Some t) \<Rightarrow>
                  let s2 = upd_desk (\<lambda>d. d\<lparr>dk_modes := (dk_modes d)(mode := sanitize_mode_flags mi)\<rparr>) s1 in
                  accept (emit (Issue_Mode (mt_mode_id t OR push_bit 8 colormode OR push_bit 12 (ucast (mp_scale plan)))) s2)
              | (_, None) \<Rightarrow> s1)"

definition Set_Switch :: "screen \<Rightarrow> u16 \<Rightarrow> rtg \<Rightarrow> u16 \<times> rtg" where
  "Set_Switch c enabled s =
     (let old = dk_monitor_switch (st_desk s); v = (if enabled \<noteq> 0 then 1 else 0);
          s1 = upd_desk (\<lambda>d. d\<lparr>dk_monitor_switch := v, dk_moni_switch := v\<rparr>) s in
      (old,
       if enabled = 0 then
         let pan = vcap_native_pan_offset (sc_vcap_mode c) (sc_caps c)
         in emit (Issue_Capture 1) (emit (Issue_Origin (ucast (drop_bit 16 pan)) (ucast pan)) s1)
       else
         let s2 = emit (Issue_Capture 0) s1; d = st_desk s2
         in if dk_mode_info d \<noteq> 0 then Set_GC c (dk_mode_info d) (dk_border d) s2 else s2))"

definition Set_Panning :: "board \<Rightarrow> u32 \<Rightarrow> u16 \<Rightarrow> u16 \<Rightarrow> u16 \<Rightarrow> u16 \<Rightarrow> rtg \<Rightarrow> rtg" where
  "Set_Panning b addr width x_offset y_offset format s =
     (if dk_gc_rejected (st_desk s) then s
      else let s1 = upd_desk (\<lambda>d. d\<lparr>dk_x_offset := x_offset, dk_y_offset := y_offset\<rparr>) s;
               offset = addr - bd_memory_base b; cm = panning_colormode (mnt_colormode (format AND 0xFF));
               g = bd_gfxdata b; base = bd_registers b in
        if bd_zorro3 b then
          (issue_z3 g Dma_Pan \<circ> write_gfx_u8 g 0 (ucast cm)
            \<circ> upd_gfx g (set_x 1 width \<circ> set_y 0 y_offset \<circ> set_x 0 x_offset \<circ> set_offset 0 offset)) s1
        else
          let s2 = (write_color_mode base cm \<circ> write_x2 base width \<circ> write_y1 base y_offset \<circ> write_x1 base x_offset) s1
          in emit (Issue_Pan offset (st_regs s2 base)) s2)"

section \<open>Palettes\<close>

text \<open>A palette is a function from the entry to red, green and blue.\<close>

type_synonym palette = "u8 \<Rightarrow> u8 \<times> u8 \<times> u8"

definition color_index :: "u16 \<Rightarrow> nat \<Rightarrow> u8" where
  "color_index start i = ucast (start + of_nat i)"

definition clut_bytes :: "palette \<Rightarrow> u16 \<Rightarrow> nat \<Rightarrow> (nat \<Rightarrow> u8) \<Rightarrow> nat \<Rightarrow> u8" where
  "clut_bytes clut start i m =
     (case clut (color_index start i) of (red, green, blue) \<Rightarrow> m(i * 3 := red, i * 3 + 1 := green, i * 3 + 2 := blue))"

definition xrgb :: "palette \<Rightarrow> u16 \<Rightarrow> nat \<Rightarrow> u32" where
  "xrgb clut start i =
     (case clut (color_index start i) of (red, green, blue) \<Rightarrow> be32_of (color_index start i) red green blue)"

definition Set_Color_Array :: "board \<Rightarrow> palette \<Rightarrow> palette \<Rightarrow> u16 \<Rightarrow> u16 \<Rightarrow> rtg \<Rightarrow> rtg" where
  "Set_Color_Array b primary secondary start num s =
     (if num = 0 then s
      else let clut = (if start \<ge> 256 then secondary else primary); n = (if num > 256 then 256 else num);
               g = bd_gfxdata b; base = bd_registers b;
               s1 = (if start \<ge> 256 \<and> \<not> dk_secondary_palette (st_desk s)
                     then upd_desk (\<lambda>d. d\<lparr>dk_secondary_palette := True\<rparr>) (write_feature base 1 1 s) else s) in
        if bd_zorro3 b then
          (issue_z3 g Dma_Set_Palette \<circ> write_gfx_u8 g 0 (if start \<ge> 256 then 1 else 0)
            \<circ> upd_gfx g (set_user 1 n \<circ> set_user 0 start)
            \<circ> upd_gfx g (\<lambda>gd. gd\<lparr>gd_clut1 := fold (clut_bytes clut start) [0..<unat n] (gd_clut1 gd)\<rparr>)) s1
        else fold (\<lambda>i. emit (Issue_Color (xrgb clut start i) (if start \<ge> 256 then 19 else 3))) [0..<unat n] s1)"

section \<open>Display state\<close>

definition Set_Display :: "u16 \<Rightarrow> rtg \<Rightarrow> u16 \<times> rtg" where
  "Set_Display enabled s =
     (dk_display_enabled (st_desk s), upd_desk (\<lambda>d. d\<lparr>dk_display_enabled := if enabled \<noteq> 0 then 1 else 0\<rparr>) s)"

definition DPMS_OFF :: u32 where "DPMS_OFF = 3"

definition Set_DPMS_Level :: "board \<Rightarrow> u32 \<Rightarrow> rtg \<Rightarrow> rtg" where
  "Set_DPMS_Level b level s = (if level > DPMS_OFF then s else write_feature (bd_registers b) 4 (ucast level) s)"

text \<open>\<open>vblank i\<close>: the status register at the \<open>i\<close>-th read. The loops return the number of reads; the guard starts at 200000.\<close>

fun vsync_loop :: "(nat \<Rightarrow> bool) \<Rightarrow> bool \<Rightarrow> nat \<Rightarrow> nat \<Rightarrow> nat" where
  "vsync_loop vblank while_state i 0 = i"
| "vsync_loop vblank while_state i (Suc guard) =
     (if vblank i = while_state \<and> guard \<noteq> 0 then vsync_loop vblank while_state (i + 1) guard else i + 1)"

definition Wait_Vertical_Sync :: "(nat \<Rightarrow> bool) \<Rightarrow> bool \<Rightarrow> nat" where
  "Wait_Vertical_Sync vblank until_end = vsync_loop vblank until_end 0 200000"

end
