(* ===== verification/RtgScreen_Correct.thy ===== *)
theory RtgScreen_Correct
  imports RtgDraw_Correct RtgSprite RtgDisplay RtgMemory_Correct
begin

text \<open>
  The staging, pointer, panning and palette hooks join the drawing hooks in one refinement over the driver's own state; what
  they stage for a Zorro II card stays inside the staging area, and a refused mode never reaches the screen.
\<close>

section \<open>Staged planes\<close>

definition plane_mask :: "bit_map \<Rightarrow> u8 \<Rightarrow> u16" where
  "plane_mask bm m = fold (\<lambda>i v. if bm_planes bm i = 0 then unset_bit i v else v) [0..<unat (bm_depth bm)] (ucast m)"

lemma synced_updates:
  "synced b (s\<lparr>st_mem := v\<rparr>) = synced b s" "synced b (s\<lparr>st_desk := d\<rparr>) = synced b s" "synced b (s\<lparr>st_issued := i\<rparr>) = synced b s"
  by (simp_all add: synced_def)

lemma byte_wide: "ucast (m :: u8) AND 0xFF = (ucast m :: u16)"
proof -
  have m: "(0xFF :: u16) = mask 8" by (simp add: mask_eq_exp_minus_1)
  show ?thesis unfolding m by (rule bit_word_eqI) (auto simp: bit_simps dest: bit_imp_le_length)
qed

lemma mem_writers_told:
  "told b s f g s1 \<Longrightarrow> told b s f g (fill_mem dst v n s1)"
  "told b s f g s1 \<Longrightarrow> told b s f g (copy_mem dst src n s1)"
  by (simp_all add: told_def fill_mem_def copy_mem_def synced_updates)

lemma copy_rows_told: "told b s f g s1 \<Longrightarrow> told b s f g (copy_rows n dst src line_size bpr s1)"
  by (induction n arbitrary: dst src s1) (simp_all add: mem_writers_told)

lemma stage_plane_told:
  "told b s f g (fst st) \<Longrightarrow> told b s f g (fst (stage_plane bm x y h line_size plane_size dst i st))"
  by (auto simp: stage_plane_def Let_def mem_writers_told copy_rows_told split: prod.split)

lemma stage_planes_told:
  assumes "told b s f g s1"
  shows "told b s f g (fst (stage_planes bm x y h line_size plane_size addr m s1))"
proof -
  have "told b s f g (fst (fold (\<lambda>i. stage_plane bm x y h line_size plane_size (addr + of_nat i * plane_size) i) xs st))"
    if "told b s f g (fst st)" for xs st
    using that by (induction xs arbitrary: st) (simp_all add: stage_plane_told)
  with assms show ?thesis by (simp add: stage_planes_def split_beta)
qed

lemma clear_plane_bit:
  assumes "v AND 0xFF = (v :: u16)"
  shows "v AND ucast (push_bit i 1 XOR 0xFF :: u8) = unset_bit i v"
proof -
  have m: "(0xFF :: u8) = mask 8" "(0xFF :: u16) = mask 8" by (simp_all add: mask_eq_exp_minus_1)
  have small: "n < 8" if "bit v n" for n
    using that assms unfolding m by (metis bit_and_iff bit_mask_iff)
  show ?thesis unfolding m
    by (rule bit_word_eqI) (auto simp: bit_simps dest: small)
qed

lemma stage_planes_mask:
  "snd (stage_planes bm x y h line_size plane_size addr (ucast m) s) = plane_mask bm m"
proof -
  let ?st = "\<lambda>n. fold (\<lambda>i. stage_plane bm x y h line_size plane_size (addr + of_nat i * plane_size) i) [0..<n] (s, ucast m, 1)"
  let ?v = "\<lambda>n. fold (\<lambda>i v. if bm_planes bm i = 0 then unset_bit i v else v) [0..<n] (ucast m :: u16)"
  have low: "?v n AND 0xFF = ?v n" for n
  proof (induction n)
    case 0
    show ?case by (simp add: byte_wide)
  next
    case (Suc n)
    then show ?case by (auto simp: bit_eq_iff bit_simps)
  qed
  have "fst (snd (?st n)) = ?v n \<and> snd (snd (?st n)) = push_bit n 1" for n
    by (induction n) (auto simp: stage_plane_def Let_def clear_plane_bit [unfolded push_bit_of_1] low push_bit_Suc split: prod.split)
  then show ?thesis by (simp add: stage_planes_def plane_mask_def split_beta)
qed

section \<open>Requests and what they stand for\<close>

datatype screen_req =
    Draw draw_req
  | Req_P2C bit_map render_info u16 u16 u16 u16 u16 u16 u8 u8 u16
  | Req_P2D bit_map render_info color_mapping u16 u16 u16 u16 u16 u16 u8 u8 u16
  | Req_Sprite bool u16
  | Req_Sprite_Position u16 u16
  | Req_Sprite_Image mouse_image
  | Req_Sprite_Color u8 u8 u8 u8
  | Req_Split u16 u32
  | Req_Panning u32 u16 u16 u16 u16
  | Req_Colors palette palette u16 u16
  | Req_DPMS u32

fun run_screen :: "board \<Rightarrow> screen_req \<Rightarrow> rtg \<Rightarrow> rtg" where
  "run_screen b (Draw req) = run_req b req"
| "run_screen b (Req_P2C bm r x y dx dy w h minterm m format) = Blit_Planar2Chunky b bm r x y dx dy w h minterm m format"
| "run_screen b (Req_P2D bm r cl x y dx dy w h minterm m format) = Blit_Planar2Direct b bm r cl x y dx dy w h minterm m format"
| "run_screen b (Req_Sprite what format) = Set_Sprite b what format"
| "run_screen b (Req_Sprite_Position x y) = Set_Sprite_Position b x y"
| "run_screen b (Req_Sprite_Image ms) = Set_Sprite_Image b ms"
| "run_screen b (Req_Sprite_Color idx red green blue) = Set_Sprite_Color b idx red green blue"
| "run_screen b (Req_Split pos visible) = Set_Split_Position b pos visible"
| "run_screen b (Req_Panning addr w xo yo format) = Set_Panning b addr w xo yo format"
| "run_screen b (Req_Colors p1 p2 start n) = Set_Color_Array b p1 p2 start n"
| "run_screen b (Req_DPMS level) = Set_DPMS_Level b level"

text \<open>The driver's own state after a request.\<close>

definition split_used :: "u16 \<Rightarrow> u32 \<Rightarrow> u16" where
  "split_used pos visible = (if visible = 0 then 0 else pos)"

fun desk_after :: "screen_req \<Rightarrow> desk \<Rightarrow> desk" where
  "desk_after (Req_Sprite_Position x y) d = d\<lparr>dk_mouse_x := x, dk_mouse_y := y\<rparr>"
| "desk_after (Req_Split pos visible) d = d\<lparr>dk_y_split := split_used pos visible\<rparr>"
| "desk_after (Req_Panning addr w xo yo format) d = (if dk_gc_rejected d then d else d\<lparr>dk_x_offset := xo, dk_y_offset := yo\<rparr>)"
| "desk_after (Req_Colors p1 p2 start n) d = (if n \<noteq> 0 \<and> start \<ge> 256 then d\<lparr>dk_secondary_palette := True\<rparr> else d)"
| "desk_after _ d = d"

text \<open>The commands a request stands for in a given state. The staged images of both planar blits are the card's to read; the command names where
  they are, how wide a plane row is and which planes take part.\<close>

definition colors_from :: "palette \<Rightarrow> u16 \<Rightarrow> nat \<Rightarrow> (u8 \<times> u8 \<times> u8) list" where
  "colors_from clut start n = map (\<lambda>i. clut (color_index start i)) [0..<n]"

fun asked :: "board \<Rightarrow> desk \<Rightarrow> screen_req \<Rightarrow> draw_cmd list" where
  "asked b d (Draw req) = wanted b req"
| "asked b d (Req_P2C bm r x y dx dy w h minterm m format) =
    (let line = planar_line_bytes_padded w in
     if no_area w h then []
     else if \<not> bd_zorro3 b \<and> \<not> staging_fits 0 (ucast line * scast h) (ucast (bm_depth bm)) then [Cmd_Default Fn_P2C]
     else [Cmd_P2C (card_offset b r) (staging_addr b) (pitch_of r) (ucast line) (ucast m) (ucast minterm) (ucast (bm_depth bm))
             (plane_mask bm m) (ucast (x AND 7)) (ucast dx) (ucast dy) (ucast w) (ucast h)])"
| "asked b d (Req_P2D bm r cl x y dx dy w h minterm m format) =
    (let line = planar_line_bytes x w in
     if no_area w h then []
     else if \<not> bd_zorro3 b \<and> \<not> staging_fits 1024 (ucast line * scast h) (ucast (bm_depth bm)) then [Cmd_Default Fn_P2D]
     else [Cmd_P2D (card_offset b r) (staging_addr b) (pitch_of r) (ucast line) (ucast m) (ucast minterm) (ucast (bm_depth bm))
             (plane_mask bm m) (ucast (x AND 7)) (ucast dx) (ucast dy) (ucast w) (ucast h) (mnt_colormode format) (cl_color_mask cl)])"
| "asked b d (Req_Sprite what format) = [Cmd_Sprite_Visible (what \<or> format \<noteq> 0)]"
| "asked b d (Req_Sprite_Position x y) = [Cmd_Sprite_Position (ucast x) (ucast (y + dk_y_split d))]"
| "asked b d (Req_Sprite_Image ms) =
    (if \<not> bd_zorro3 b \<and> mouse_bytes ms > 0x10000 then []
     else [Cmd_Sprite_Image (staging_addr b) (ucast (dk_x_offset d)) (ucast (dk_y_offset d))
             (ucast (with_high (ucast (ms_width ms)) (if ms_doubled ms then 1 else 0)))
             (ucast (with_high (ucast (ms_height ms)) (if ms_hires ms then 1 else 0)))])"
| "asked b d (Req_Sprite_Color idx red green blue) = [Cmd_Sprite_Color (idx + 1) red green blue]"
| "asked b d (Req_Split pos visible) =
    (let p = split_used pos visible in [Cmd_Split p (if p = 0 then 0 else visible - bd_memory_base b)])"
| "asked b d (Req_Panning addr w xo yo format) =
    (if dk_gc_rejected d then []
     else [Cmd_Pan (addr - bd_memory_base b) (ucast xo) (ucast yo) (ucast w) (panning_colormode (mnt_colormode (format AND 0xFF)))])"
| "asked b d (Req_Colors p1 p2 start n) =
    (let clut = (if start \<ge> 256 then p2 else p1); k = unat (min n 256) in
     if n = 0 then []
     else (if start \<ge> 256 \<and> \<not> dk_secondary_palette d then [Cmd_Feature 1 1] else []) @
       (if bd_zorro3 b then [Cmd_Palette (start \<ge> 256) start (colors_from clut start k)]
        else map (\<lambda>i. Cmd_Color (xrgb clut start i) (if start \<ge> 256 then 19 else 3)) [0..<k]))"
| "asked b d (Req_DPMS level) = (if level > 3 then [] else [Cmd_Feature 4 (ucast level)])"

definition reaches :: "board \<Rightarrow> desk \<Rightarrow> draw_cmd list \<Rightarrow> rtg \<Rightarrow> rtg \<Rightarrow> bool" where
  "reaches b d cmds s s' =
     (synced b s \<longrightarrow> synced b s' \<and> st_desk s' = d \<and> map command (st_issued s') = map command (st_issued s) @ cmds)"

lemma reaches_achieves: "achieves b cmds s s' \<Longrightarrow> reaches b (st_desk s) cmds s s'"
  by (simp add: achieves_def reaches_def)

lemma reaches_upd: "achieves b cmds (upd_desk f s) s' \<Longrightarrow> reaches b (f (st_desk s)) cmds s s'"
  by (simp add: achieves_def reaches_def upd_desk_def synced_updates)

lemma achieves_emit:
  "command i = c \<Longrightarrow> achieves b [c] s (emit i s)"
  by (simp add: achieves_def emit_def synced_updates)

lemma with_high_fields:
  assumes "q AND 0xFF = (q :: u16)"
  shows "lo8 (ucast (with_high q h)) = q" "hi8 (ucast (with_high q h)) = ucast h"
    "with_high q h AND 0xFF = q" "drop_bit 8 (with_high q h) = ucast h"
proof -
  have m: "(0xFF :: u16) = mask 8" "(0xFF :: u32) = mask 8" by (simp_all add: mask_eq_exp_minus_1)
  have small: "n < 8" if "bit q n" for n
    using that assms unfolding m by (metis bit_and_iff bit_mask_iff)
  show "lo8 (ucast (with_high q h)) = q" unfolding m
    by (rule bit_word_eqI) (auto simp: with_high_def bit_simps dest: small bit_imp_le_length)
  show "hi8 (ucast (with_high q h)) = ucast h"
    by (rule bit_word_eqI) (auto simp: with_high_def bit_simps dest: small bit_imp_le_length)
  show "with_high q h AND 0xFF = q" unfolding m
    by (rule bit_word_eqI) (auto simp: with_high_def bit_simps dest: small bit_imp_le_length)
  show "drop_bit 8 (with_high q h) = ucast h"
    by (rule bit_word_eqI) (auto simp: with_high_def bit_simps dest: small bit_imp_le_length)
qed

lemma ucast_back: "ucast (ucast (v :: u16) :: u32) = v"
  by (rule bit_word_eqI) (auto simp: bit_simps)

lemma mode_byte: "mnt_colormode f AND 0xFF = mnt_colormode f" "panning_colormode (mnt_colormode f) AND 0xFF = panning_colormode (mnt_colormode f)"
proof -
  have "mnt_colormode f \<in> {0, 1, 2, 3, 255}"
    using colormode_cases [of f] by (cases "mnt_colormode f = COLOR_NO_USE") (auto simp: COLOR_NO_USE_def)
  then show "mnt_colormode f AND 0xFF = mnt_colormode f" "panning_colormode (mnt_colormode f) AND 0xFF = panning_colormode (mnt_colormode f)"
    by (auto simp: panning_colormode_def COLOR_16BIT565_def)
qed

lemma byte_modes:
  "ucast (ucast (mnt_colormode f) :: u8) = mnt_colormode f"
  "ucast (ucast (panning_colormode (mnt_colormode f)) :: u8) = panning_colormode (mnt_colormode f)"
proof -
  have c: "ucast (ucast q :: u8) = q" if "q AND 0xFF = (q :: u16)" for q
  proof -
    have m: "(0xFF :: u16) = mask 8" by (simp add: mask_eq_exp_minus_1)
    show ?thesis by (rule bit_word_eqI) (use that in \<open>auto simp: m bit_simps bit_eq_iff dest: bit_imp_le_length\<close>)
  qed
  show "ucast (ucast (mnt_colormode f) :: u8) = mnt_colormode f"
    "ucast (ucast (panning_colormode (mnt_colormode f)) :: u8) = panning_colormode (mnt_colormode f)"
    by (simp_all add: c mode_byte)
qed

section \<open>Each hook does what it was asked\<close>

lemma keeps_bytes_others:
  "keeps_bytes (gd_u8offset_update fu)" "keeps_bytes (gd_clut1_update fc)"
  by (simp_all add: keeps_bytes_def)

lemma be32_fields:
  "ucast (drop_bit 24 (be32_of v1 v2 v3 v4)) = v1" "ucast (drop_bit 16 (be32_of v1 v2 v3 v4)) = v2"
  "ucast (drop_bit 8 (be32_of v1 v2 v3 v4)) = v3"
  unfolding be32_of_def by (rule bit_word_eqI; auto simp: bit_simps dest: bit_imp_le_length)+

lemma achieves_pan:
  assumes "told b s f g s'" "\<And>R. command (Issue_Pan v (f R)) = c"
  shows "achieves b [c] s (emit (Issue_Pan v (st_regs s' (bd_registers b))) s')"
  using assms by (auto simp: achieves_def told_def emit_def synced_updates simp del: command.simps)

lemma achieves_feature: "achieves b [Cmd_Feature feature v] s (write_feature (bd_registers b) feature v s)"
proof -
  let ?s = "select_card_feature (bd_registers b) feature s"
  have "achieves b [] s ?s" using hook_feature [of b feature s] by simp
  moreover have "st_regs ?s (bd_registers b) R_User1 = ucast feature"
    by (simp add: select_card_feature_def put_reg_def)
  ultimately show ?thesis
    by (auto simp: achieves_def write_feature_def emit_def Let_def synced_updates ucast_back)
qed

lemma split_used_if: "(if pos \<noteq> 0 \<and> visible = 0 then 0 else pos) = split_used pos visible"
  by (simp add: split_used_def)

lemmas staged_intros = keeps_bytes_others told_intros stage_planes_told mem_writers_told

lemma hook_p2c:
  "achieves b (asked b d (Req_P2C bm r x y dx dy w h minterm m format)) s
     (run_screen b (Req_P2C bm r x y dx dy w h minterm m format) s)"
proof -
  let ?fits = "staging_fits 0 (ucast (planar_line_bytes_padded w) * scast h) (ucast (bm_depth bm))"
  consider "no_area w h" | "\<not> no_area w h" "\<not> bd_zorro3 b" "\<not> ?fits" | "\<not> no_area w h" "bd_zorro3 b"
    | "\<not> no_area w h" "\<not> bd_zorro3 b" "?fits" by blast
  then show ?thesis
  proof cases
    case 1
    then show ?thesis by (simp add: Blit_Planar2Chunky_def achieves_intros)
  next
    case 2
    then show ?thesis by (simp add: Blit_Planar2Chunky_def Let_def achieves_intros)
  next
    case 3
    then show ?thesis
      apply (simp add: Blit_Planar2Chunky_def Let_def split_beta stage_planes_mask del: command.simps)
      apply (rule achieves_z3)
       apply ((rule staged_intros)+)[1]
      apply (simp add: Let_def gfx_setters pitch_of_def)
      done
  next
    case 4
    then show ?thesis
      apply (simp add: Blit_Planar2Chunky_def Let_def split_beta stage_planes_mask del: command.simps)
      apply (rule achieves_z2)
       apply ((rule staged_intros)+)[1]
      apply (simp add: Let_def pitch_of_def with_high_fields mode_byte byte_wide ucast_back)
      done
  qed
qed

lemma hook_p2d:
  "achieves b (asked b d (Req_P2D bm r cl x y dx dy w h minterm m format)) s
     (run_screen b (Req_P2D bm r cl x y dx dy w h minterm m format) s)"
proof -
  let ?fits = "staging_fits 1024 (ucast (planar_line_bytes x w) * scast h) (ucast (bm_depth bm))"
  consider "no_area w h" | "\<not> no_area w h" "\<not> bd_zorro3 b" "\<not> ?fits" | "\<not> no_area w h" "bd_zorro3 b"
    | "\<not> no_area w h" "\<not> bd_zorro3 b" "?fits" by blast
  then show ?thesis
  proof cases
    case 1
    then show ?thesis by (simp add: Blit_Planar2Direct_def achieves_intros)
  next
    case 2
    then show ?thesis by (simp add: Blit_Planar2Direct_def Let_def achieves_intros)
  next
    case 3
    then show ?thesis
      apply (simp add: Blit_Planar2Direct_def Let_def split_beta stage_planes_mask del: command.simps)
      apply (rule achieves_z3)
       apply ((rule staged_intros)+)[1]
      apply (simp add: Let_def gfx_setters pitch_of_def byte_modes)
      done
  next
    case 4
    then show ?thesis
      apply (simp add: Blit_Planar2Direct_def Let_def split_beta stage_planes_mask del: command.simps)
      apply (rule achieves_z2)
       apply ((rule staged_intros)+)[1]
      apply (simp add: Let_def pitch_of_def with_high_fields mode_byte byte_wide ucast_back)
      done
  qed
qed

lemma hook_sprite: "achieves b (asked b d (Req_Sprite what format)) s (run_screen b (Req_Sprite what format) s)"
  unfolding run_screen.simps asked.simps Set_Sprite_def
  by (auto intro!: achieves_z2 [OF told_refl])

lemma hook_sprite_position:
  "reaches b (desk_after (Req_Sprite_Position x y) (st_desk s)) (asked b (st_desk s) (Req_Sprite_Position x y)) s
     (run_screen b (Req_Sprite_Position x y) s)"
  unfolding run_screen.simps asked.simps desk_after.simps Set_Sprite_Position_def Let_def
  apply (rule reaches_upd)
  apply (cases "bd_zorro3 b"; simp del: command.simps)
   apply (rule achieves_z3, ((rule staged_intros)+)[1], simp add: Let_def gfx_setters)
  apply (rule achieves_z2, ((rule staged_intros)+)[1], simp add: Let_def)
  done

lemma hook_sprite_image:
  "achieves b (asked b (st_desk s) (Req_Sprite_Image ms)) s (run_screen b (Req_Sprite_Image ms) s)"
proof -
  consider "\<not> bd_zorro3 b" "mouse_bytes ms > 0x10000" | "bd_zorro3 b" | "\<not> bd_zorro3 b" "\<not> mouse_bytes ms > 0x10000" by blast
  then show ?thesis
  proof cases
    case 1
    moreover from 1 have "\<not> z2_template_fits (mouse_bytes ms)" by (simp add: z2_template_fits_def)
    ultimately show ?thesis by (simp add: Set_Sprite_Image_def Let_def achieves_intros)
  next
    case 2
    then show ?thesis
      apply (cases "ms_hires ms"; cases "ms_doubled ms"; simp add: Set_Sprite_Image_def Let_def del: command.simps)
         apply (rule achieves_z3, ((rule staged_intros)+)[1], simp add: Let_def gfx_setters)+
      done
  next
    case 3
    moreover from 3 have "z2_template_fits (mouse_bytes ms)" by (simp add: z2_template_fits_def)
    ultimately show ?thesis
      apply (cases "ms_hires ms"; cases "ms_doubled ms"; simp add: Set_Sprite_Image_def Let_def del: command.simps)
         apply (rule achieves_z2, ((rule staged_intros)+)[1], simp add: Let_def)+
      done
  qed
qed

lemma color_fields:
  "ucast (ucast idx + 1 :: u16) = idx + (1 :: u8)" "ucast (ucast v :: u16) = (v :: u8)" "ucast (ucast (ucast v :: u16) :: u32) = (v :: u8)"
  "ucast (drop_bit 8 (ucast (with_high (ucast v) w) :: u32)) = w" "ucast (ucast (with_high (ucast v) w) :: u32) = (v :: u8)"
proof -
  show "ucast (ucast idx + 1 :: u16) = idx + (1 :: u8)"
  proof transfer
    fix k :: int
    have "take_bit 8 (take_bit 16 (take_bit 8 k + 1)) = take_bit 8 (take_bit 8 k + 1)" by (simp add: take_bit_take_bit)
    also have "\<dots> = take_bit 8 (k + 1)" by (simp add: take_bit_eq_mod mod_simps)
    finally show "take_bit LENGTH(8) (take_bit LENGTH(16) (take_bit LENGTH(8) k + 1)) = take_bit LENGTH(8) (k + 1)" by simp
  qed
  show "ucast (ucast v :: u16) = (v :: u8)" "ucast (ucast (ucast v :: u16) :: u32) = (v :: u8)"
    "ucast (drop_bit 8 (ucast (with_high (ucast v) w) :: u32)) = w" "ucast (ucast (with_high (ucast v) w) :: u32) = (v :: u8)"
    by (rule bit_word_eqI; auto simp: with_high_def bit_simps dest: bit_imp_le_length)+
qed

lemma hook_sprite_color:
  "achieves b (asked b d (Req_Sprite_Color idx red green blue)) s (run_screen b (Req_Sprite_Color idx red green blue) s)"
  apply (cases "bd_zorro3 b"; simp add: Set_Sprite_Color_def Let_def del: command.simps)
   apply (rule achieves_z3, ((rule staged_intros)+)[1], simp add: Let_def gfx_setters be32_fields)
  apply (rule achieves_z2, ((rule staged_intros)+)[1], simp add: Let_def color_fields)
  done

lemma hook_split:
  "reaches b (desk_after (Req_Split pos visible) (st_desk s)) (asked b (st_desk s) (Req_Split pos visible)) s
     (run_screen b (Req_Split pos visible) s)"
  unfolding run_screen.simps asked.simps desk_after.simps Set_Split_Position_def Let_def split_used_if
  apply (rule reaches_upd)
  apply (cases "bd_zorro3 b"; cases "split_used pos visible = 0"; simp del: command.simps)
     apply (rule achieves_z3, ((rule staged_intros)+)[1], simp add: Let_def gfx_setters)+
   apply (rule achieves_z2, ((rule staged_intros)+)[1], simp add: Let_def)+
  done

lemma hook_panning:
  "reaches b (desk_after (Req_Panning addr w xo yo format) (st_desk s)) (asked b (st_desk s) (Req_Panning addr w xo yo format)) s
     (run_screen b (Req_Panning addr w xo yo format) s)"
proof (cases "dk_gc_rejected (st_desk s)")
  case True
  then show ?thesis using reaches_achieves [OF achieves_nothing] by (simp add: Set_Panning_def)
next
  case False
  show ?thesis
    unfolding run_screen.simps asked.simps desk_after.simps Set_Panning_def Let_def if_not_P [OF False]
    apply (rule reaches_upd)
    apply (cases "bd_zorro3 b"; simp del: command.simps)
     apply (rule achieves_z3, ((rule staged_intros)+)[1], simp add: Let_def gfx_setters byte_modes)
    apply (rule achieves_pan, ((rule staged_intros)+)[1], simp add: Let_def ucast_back)
    done
qed

lemma achieves_trans: "achieves b c1 s s1 \<Longrightarrow> achieves b c2 s1 s' \<Longrightarrow> achieves b (c1 @ c2) s s'"
  by (simp add: achieves_def)

lemma reaches_trans: "reaches b d c1 s s1 \<Longrightarrow> achieves b c2 s1 s' \<Longrightarrow> reaches b d (c1 @ c2) s s'"
  by (simp add: achieves_def reaches_def)

lemma achieves_emits: "achieves b (map (\<lambda>i. command (f i)) xs) s (fold (\<lambda>i. emit (f i)) xs s)"
proof (induction xs arbitrary: s)
  case (Cons x xs)
  with achieves_trans [OF achieves_emit [OF refl]] show ?case by fastforce
qed (simp add: achieves_nothing)

lemma clut_bytes_at:
  "i < n \<Longrightarrow> (let m' = fold (clut_bytes clut start) [0..<n] m in (m' (i * 3), m' (i * 3 + 1), m' (i * 3 + 2))) = clut (color_index start i)"
proof (induction n)
  case (Suc n)
  have other: "clut_bytes clut start n m' j = m' j" if "j < n * 3" for m' j
    using that by (auto simp: clut_bytes_def split: prod.split)
  have here: "(let m'' = clut_bytes clut start n m' in (m'' (n * 3), m'' (n * 3 + 1), m'' (n * 3 + 2))) = clut (color_index start n)" for m'
    by (simp add: clut_bytes_def split: prod.split)
  show ?case
  proof (cases "i = n")
    case True
    then show ?thesis using here by simp
  next
    case False
    with Suc.prems have "i < n" by simp
    with Suc.IH other show ?thesis by (simp add: Let_def)
  qed
qed simp

lemma palette_list:
  "map (\<lambda>i. (fold (clut_bytes clut start) [0..<n] m (i * 3), fold (clut_bytes clut start) [0..<n] m (i * 3 + 1),
      fold (clut_bytes clut start) [0..<n] m (i * 3 + 2))) [0..<n] = colors_from clut start n"
  unfolding colors_from_def using clut_bytes_at [of _ n clut start m] by (simp add: Let_def)

lemma secondary_first:
  assumes "num \<noteq> 0"
  shows "reaches b (desk_after (Req_Colors p1 p2 start num) (st_desk s))
    (if start \<ge> 256 \<and> \<not> dk_secondary_palette (st_desk s) then [Cmd_Feature 1 1] else []) s
    (if start \<ge> 256 \<and> \<not> dk_secondary_palette (st_desk s)
     then upd_desk (\<lambda>d. d\<lparr>dk_secondary_palette := True\<rparr>) (write_feature (bd_registers b) 1 1 s) else s)"
proof -
  have same: "d\<lparr>dk_secondary_palette := True\<rparr> = d" if "dk_secondary_palette d" for d :: desk
    using that by (cases d) simp
  have "achieves b [Cmd_Feature 1 1] s (write_feature (bd_registers b) 1 1 s)" by (rule achieves_feature)
  then show ?thesis using assms same
    by (auto simp: reaches_def achieves_def upd_desk_def synced_updates)
qed

lemma hook_colors:
  "reaches b (desk_after (Req_Colors p1 p2 start n) (st_desk s)) (asked b (st_desk s) (Req_Colors p1 p2 start n)) s
     (run_screen b (Req_Colors p1 p2 start n) s)"
proof (cases "n = 0")
  case True
  then show ?thesis using reaches_achieves [OF achieves_nothing] by (simp add: Set_Color_Array_def)
next
  case False
  let ?clut = "if start \<ge> 256 then p2 else p1" and ?n = "if n > 256 then 256 else n :: u16"
  let ?s1 = "if start \<ge> 256 \<and> \<not> dk_secondary_palette (st_desk s)
     then upd_desk (\<lambda>d. d\<lparr>dk_secondary_palette := True\<rparr>) (write_feature (bd_registers b) 1 1 s) else s"
  have k: "unat ?n = unat (min n 256)" by (auto simp: min_def)
  have keep: "keeps_bytes (\<lambda>gd. gd\<lparr>gd_clut1 := fold (clut_bytes ?clut start) [0..<unat ?n] (gd_clut1 gd)\<rparr>)"
    by (simp add: keeps_bytes_def)
  have z3: "achieves b [Cmd_Palette (start \<ge> 256) start (colors_from ?clut start (unat ?n))] ?s1
    (issue_z3 (bd_gfxdata b) Dma_Set_Palette (write_gfx_u8 (bd_gfxdata b) 0 (if start \<ge> 256 then 1 else 0)
      (upd_gfx (bd_gfxdata b) (set_user 1 ?n \<circ> set_user 0 start)
        (upd_gfx (bd_gfxdata b) (\<lambda>gd. gd\<lparr>gd_clut1 := fold (clut_bytes ?clut start) [0..<unat ?n] (gd_clut1 gd)\<rparr>) ?s1))))"
    apply (rule achieves_z3, (rule keep staged_intros)+)
    apply (simp add: Let_def gfx_setters palette_list [simplified])
    done
  have z2: "achieves b (map (\<lambda>i. Cmd_Color (xrgb ?clut start i) (if start \<ge> 256 then 19 else 3)) [0..<unat ?n]) ?s1
    (fold (\<lambda>i. emit (Issue_Color (xrgb ?clut start i) (if start \<ge> 256 then 19 else 3))) [0..<unat ?n] ?s1)"
    using achieves_emits [of b "\<lambda>i. Issue_Color (xrgb ?clut start i) (if start \<ge> 256 then 19 else 3)"] by simp
  show ?thesis
    unfolding run_screen.simps asked.simps Set_Color_Array_def Let_def k [symmetric]
    using reaches_trans [OF secondary_first [OF False] z3] reaches_trans [OF secondary_first [OF False] z2] False
    by (cases "bd_zorro3 b") (simp_all only: if_True if_False o_apply simp_thms)
qed

lemma hook_dpms: "achieves b (asked b d (Req_DPMS level)) s (run_screen b (Req_DPMS level) s)"
  by (simp add: Set_DPMS_Level_def DPMS_OFF_def achieves_nothing achieves_feature)

lemma screen_hook_refines:
  "reaches b (desk_after req (st_desk s)) (asked b (st_desk s) req) s (run_screen b req s)"
proof (cases req)
  case (Draw r)
  with reaches_achieves [OF hook_refines] show ?thesis by simp
next
  case Req_P2C
  with reaches_achieves [OF hook_p2c] show ?thesis by (simp only: desk_after.simps)
next
  case Req_P2D
  with reaches_achieves [OF hook_p2d] show ?thesis by (simp only: desk_after.simps)
next
  case Req_Sprite
  with reaches_achieves [OF hook_sprite] show ?thesis by (simp only: desk_after.simps)
next
  case Req_Sprite_Image
  with reaches_achieves [OF hook_sprite_image] show ?thesis by (simp only: desk_after.simps)
next
  case Req_Sprite_Color
  with reaches_achieves [OF hook_sprite_color] show ?thesis by (simp only: desk_after.simps)
next
  case Req_DPMS
  with reaches_achieves [OF hook_dpms] show ?thesis by (simp only: desk_after.simps)
qed (simp_all only: hook_sprite_position hook_split hook_panning hook_colors)

fun asked_all :: "board \<Rightarrow> desk \<Rightarrow> screen_req list \<Rightarrow> draw_cmd list" where
  "asked_all b d [] = []"
| "asked_all b d (req # reqs) = asked b d req @ asked_all b (desk_after req d) reqs"

text \<open>C34: The hooks refine what they are asked. From a state in which the caches agree with the card, any sequence of drawing, planar
  blit, pointer, split, panning, palette and power requests makes the card execute exactly the operations the requests stand for, in
  order, each with the operands of its own request, whichever bus the board is on and whatever register, descriptor and byte writes
  were suppressed on the way. The driver's own state follows the requests, and the caches agree with the card again afterwards.\<close>

theorem screen_commands_refine:
  assumes "synced b s"
  shows "synced b (fold (run_screen b) reqs s) \<and>
    st_desk (fold (run_screen b) reqs s) = fold desk_after reqs (st_desk s) \<and>
    map command (st_issued (fold (run_screen b) reqs s)) = map command (st_issued s) @ asked_all b (st_desk s) reqs"
  using assms
proof (induction reqs arbitrary: s)
  case (Cons req reqs)
  with screen_hook_refines [of b req s] show ?case by (simp add: reaches_def)
qed simp

section \<open>The staging area\<close>

definition confined :: "u32 \<Rightarrow> rtg \<Rightarrow> rtg \<Rightarrow> bool" where
  "confined d s s' = (\<forall>a. 0x10000 \<le> unat (a - d) \<longrightarrow> st_mem s' a = st_mem s a)"

lemma st_mem_writers:
  "st_mem (write_src_offset base v s) = st_mem s" "st_mem (write_dst_offset base v s) = st_mem s" "st_mem (write_rgb base v s) = st_mem s"
  "st_mem (write_dst_pitch base n s) = st_mem s" "st_mem (write_color_mode base n s) = st_mem s" "st_mem (write_x1 base n s) = st_mem s"
  "st_mem (write_y1 base n s) = st_mem s" "st_mem (write_x2 base n s) = st_mem s" "st_mem (write_y2 base n s) = st_mem s"
  "st_mem (write_x3 base n s) = st_mem s" "st_mem (write_y3 base n s) = st_mem s" "st_mem (write_src_pitch base n s) = st_mem s"
  "st_mem (write_rgb2 base v s) = st_mem s" "st_mem (write_user1 base n s) = st_mem s" "st_mem (write_user2 base n s) = st_mem s"
  "st_mem (select_card_feature base n s) = st_mem s"
  by (simp_all add: write_src_offset_def write_dst_offset_def write_rgb_def write_dst_pitch_def write_color_mode_def
    write_x1_def write_y1_def write_x2_def write_y2_def write_x3_def write_y3_def put_once_def put_reg_def write_src_pitch_def
    write_rgb2_def write_user1_def write_user2_def select_card_feature_def Let_def split: prod.split)

lemma st_mem_effects:
  "st_mem (issue_z2 base op v s) = st_mem s" "st_mem (call_default fn s) = st_mem s" "st_mem (default_or_nothing b fn s) = st_mem s"
  "st_mem (upd_desk fd s) = st_mem s" "st_mem (emit i s) = st_mem s" "st_mem (write_feature base n v s) = st_mem s"
  "st_mem (fold (\<lambda>i. emit (f i)) xs s) = st_mem s"
proof -
  show "st_mem (fold (\<lambda>i. emit (f i)) xs s) = st_mem s" by (induction xs arbitrary: s) (simp_all add: emit_def)
qed (simp_all add: issue_z2_def call_default_def default_or_nothing_def upd_desk_def emit_def write_feature_def Let_def st_mem_writers)

lemma confined_trans: "confined d s s1 \<Longrightarrow> confined d s1 s' \<Longrightarrow> confined d s s'"
  by (simp add: confined_def)

lemma confined_same: "st_mem s' = st_mem s \<Longrightarrow> confined d s s'"
  by (simp add: confined_def)

lemma fold_store_other: "a \<notin> f ` set xs \<Longrightarrow> fold (\<lambda>i m. m(f i := v i)) xs m a = m a"
  by (induction xs arbitrary: m) auto

lemma outside_staging:
  fixes a d off :: u32
  assumes "unat off + n \<le> 0x10000" "0x10000 \<le> unat (a - d)"
  shows "a \<notin> (\<lambda>i. d + off + of_nat i) ` set [0..<n]"
proof
  assume "a \<in> (\<lambda>i. d + off + of_nat i) ` set [0..<n]"
  then obtain i where i: "i < n" "a = d + off + of_nat i" by auto
  then have "a - d = off + of_nat i" by simp
  moreover have "unat (off + of_nat i) = unat off + i"
    using i(1) assms(1) by (simp add: unat_word_ariths unat_of_nat)
  ultimately show False using i(1) assms by simp
qed

lemma confined_copy: "unat off + n \<le> 0x10000 \<Longrightarrow> confined d s (copy_mem (d + off) src n s)"
  by (simp add: confined_def copy_mem_def fold_store_other [OF outside_staging])

lemma confined_fill: "unat off + n \<le> 0x10000 \<Longrightarrow> confined d s (fill_mem (d + off) v n s)"
  by (simp add: confined_def fill_mem_def fold_store_other [OF outside_staging])

lemma confined_rows:
  "unat off + rows * unat line_size \<le> 0x10000 \<Longrightarrow> confined d s (copy_rows rows (d + off) src line_size bpr s)"
proof (induction rows arbitrary: off src s)
  case (Suc rows)
  have "unat (off + ucast line_size) = unat off + unat line_size"
    using Suc.prems by (simp add: unat_word_ariths)
  with Suc have "confined d (copy_mem (d + off) src (unat line_size) s)
      (copy_rows rows (d + (off + ucast line_size)) (src + ucast bpr) line_size bpr (copy_mem (d + off) src (unat line_size) s))"
    by simp
  moreover have "confined d s (copy_mem (d + off) src (unat line_size) s)"
    using Suc.prems by (intro confined_copy) simp
  ultimately show ?case using confined_trans by (simp add: add.assoc)
qed (simp add: confined_def)

lemma sint_nonneg: "0 \<le> sint (h :: u16) \<Longrightarrow> sint h = int (unat h)"
proof -
  assume "0 \<le> sint h"
  then have b: "\<not> bit (uint h) 15" using bit_last_iff [of h] by (simp add: bit_uint_iff)
  have "uint h = take_bit (Suc 15) (uint h)"
    by (rule take_bit_int_eq_self [symmetric]) (use uint_bounded [of h] in simp_all)
  also have "\<dots> = take_bit 15 (uint h)" using b by (simp only: take_bit_Suc_from_most) simp
  finally show ?thesis using b by (simp add: sint_uint signed_take_bit_eq_if_positive)
qed

lemma plane_bytes:
  assumes "\<not> no_area w h"
  shows "unat (ucast line_size * scast h :: u32) = unat (line_size :: u16) * unat h"
proof -
  have "0 \<le> sint h" using assms by (simp add: no_area_def)
  then have "(scast h :: u32) = of_nat (unat h)" by (simp add: scast_eq sint_nonneg)
  then have "(scast h :: u32) = ucast h" by (simp only: of_nat_unat)
  moreover have "unat line_size * unat h < 2 ^ 32"
    using mult_strict_mono [OF unat_lt [of line_size] unat_lt [of h]] by simp
  ultimately show ?thesis by (simp add: unat_word_ariths unat_ucast_up)
qed

lemma confined_plane:
  assumes "unat off + unat line_size * unat h \<le> 0x10000" "unat plane_size = unat line_size * unat h"
  shows "confined d s (fst (stage_plane bm x y h line_size plane_size (d + off) i (s, m, c)))"
  using assms by (auto simp: stage_plane_def Let_def mult.commute intro: confined_fill confined_rows confined_same)

lemma confined_planes:
  assumes "unat off + unat (bm_depth bm) * unat plane_size \<le> 0x10000" "unat plane_size = unat line_size * unat h"
  shows "confined d s (fst (stage_planes bm x y h line_size plane_size (d + off) m s))"
proof -
  let ?st = "\<lambda>n. fold (\<lambda>i. stage_plane bm x y h line_size plane_size (d + off + of_nat i * plane_size) i) [0..<n] (s, m, 1)"
  have "confined d s (fst (?st n))" if "n \<le> unat (bm_depth bm)" for n
    using that
  proof (induction n)
    case (Suc n)
    have "Suc n * unat plane_size \<le> unat (bm_depth bm) * unat plane_size" using Suc.prems by (intro mult_le_mono1) simp
    then have le: "unat off + n * unat plane_size + unat plane_size \<le> 0x10000" using assms(1) by simp
    have "unat (of_nat n * plane_size) = n * unat plane_size"
      using le Suc.prems unat_lt [of "bm_depth bm"] by (simp add: unat_word_ariths unat_of_nat)
    then have "unat (off + of_nat n * plane_size) = unat off + n * unat plane_size"
      using le by (simp add: unat_word_ariths)
    with le assms(2) have "confined d (fst (?st n)) (fst (?st (Suc n)))"
      using confined_plane [of "off + of_nat n * plane_size" line_size h plane_size d "fst (?st n)" bm x y n "fst (snd (?st n))" "snd (snd (?st n))"]
      by (simp add: add.assoc)
    with Suc show ?case using confined_trans by simp
  qed (simp add: confined_def)
  then show ?thesis by (simp add: stage_planes_def split_beta)
qed

lemma confined_simps:
  "confined d s (write_src_offset base v s1) = confined d s s1" "confined d s (write_dst_offset base v s1) = confined d s s1"
  "confined d s (write_rgb base v s1) = confined d s s1" "confined d s (write_rgb2 base v s1) = confined d s s1"
  "confined d s (write_dst_pitch base n s1) = confined d s s1" "confined d s (write_src_pitch base n s1) = confined d s s1"
  "confined d s (write_color_mode base n s1) = confined d s s1" "confined d s (write_user1 base n s1) = confined d s s1"
  "confined d s (write_user2 base n s1) = confined d s s1" "confined d s (write_x1 base n s1) = confined d s s1"
  "confined d s (write_y1 base n s1) = confined d s s1" "confined d s (write_x2 base n s1) = confined d s s1"
  "confined d s (write_y2 base n s1) = confined d s s1" "confined d s (write_x3 base n s1) = confined d s s1"
  "confined d s (write_y3 base n s1) = confined d s s1" "confined d s (issue_z2 base op n s1) = confined d s s1"
  "confined d s (call_default fn s1) = confined d s s1" "confined d s (default_or_nothing b fn s1) = confined d s s1"
  by (simp_all add: confined_def st_mem_writers st_mem_effects)

lemma confined_refl: "confined d s s"
  by (simp add: confined_def)

lemma confined_copy_after:
  "confined d s s1 \<Longrightarrow> n \<le> 0x10000 \<Longrightarrow> confined d s (copy_mem d src n s1)"
  using confined_trans confined_copy [of 0 n d s1 src] by simp

lemma confined_planes_after:
  assumes "\<not> no_area w h" "staging_fits off (ucast line_size * scast h) (ucast (bm_depth bm))" "confined d s s1"
  shows "confined d s (fst (stage_planes bm x y h line_size (ucast line_size * scast h) (d + off) m s1))"
proof -
  have "unat off + unat (bm_depth bm) * unat (ucast line_size * scast h :: u32) \<le> 0x10000"
    using assms(2) by (simp add: staging_fits_exact mult.commute)
  then show ?thesis
    using confined_planes plane_bytes [OF assms(1)] confined_trans [OF assms(3)] by blast
qed

lemma confined_p2c:
  assumes "\<not> bd_zorro3 b"
  shows "confined (bd_memory_base b + z2_template_offset b) s (Blit_Planar2Chunky b bm r x y dx dy w h minterm m format s)"
  using assms confined_planes_after [where off = 0]
  by (auto simp: Blit_Planar2Chunky_def Let_def split_beta staging_addr_def confined_simps confined_refl)

lemma confined_p2d:
  assumes "\<not> bd_zorro3 b"
  shows "confined (bd_memory_base b + z2_template_offset b) s (Blit_Planar2Direct b bm r cl x y dx dy w h minterm m format s)"
  using assms
  by (auto simp: Blit_Planar2Direct_def Let_def split_beta staging_addr_def confined_simps confined_refl
    intro!: confined_planes_after [where off = 1024] confined_copy_after)

lemma confined_template:
  assumes "\<not> bd_zorro3 b"
  shows "confined (bd_memory_base b + z2_template_offset b) s (Blit_Template b r t x y w h m format s)"
  using assms
  by (auto simp: Blit_Template_def Let_def z2_template_fits_def word_le_nat_alt confined_simps confined_refl intro!: confined_copy_after)

lemma confined_pattern:
  assumes "\<not> bd_zorro3 b"
  shows "confined (bd_memory_base b + z2_template_offset b) s (Blit_Pattern b r p x y w h m format s)"
proof -
  have "2 * 2 ^ unat (pt_size p) \<le> (0x10000 :: nat)" if "\<not> pt_size p > 15"
  proof -
    have "unat (pt_size p) \<le> 15" using that by (simp add: word_le_nat_alt not_less)
    then have "(2 :: nat) ^ unat (pt_size p) \<le> 2 ^ 15" by (rule power_increasing) simp
    then show ?thesis by simp
  qed
  with assms show ?thesis
    by (auto simp: Blit_Pattern_def Let_def confined_simps confined_refl intro!: confined_copy_after)
qed

lemma confined_sprite:
  assumes "\<not> bd_zorro3 b"
  shows "confined (bd_memory_base b + z2_template_offset b) s (Set_Sprite_Image b ms s)"
  using assms
  by (auto simp: Set_Sprite_Image_def Let_def z2_template_fits_def staging_addr_def word_le_nat_alt confined_simps confined_refl
    intro!: confined_copy_after)

text \<open>
  The lines whose pixels the driver stores itself on Zorro II: solid horizontal and vertical lines in one pen. Their addresses come from
  the request and are not checked.
\<close>

definition stored_line :: "line \<Rightarrow> u8 \<Rightarrow> u16 \<Rightarrow> bool" where
  "stored_line l m format =
     (ln_draw_mode l = 0 \<and> ln_pattern l = 0xFFFF \<and> direct_color_mask (mnt_colormode format) m = 0xFF \<and> (ln_dy l = 0 \<or> ln_dx l = 0))"

lemma confined_line:
  assumes "\<not> bd_zorro3 b" "\<not> stored_line l m format"
  shows "confined d s (Draw_Line b r l m format s)"
proof -
  have u: "st_mem (write_user3 base n s1) = st_mem s1" for base n s1
    by (simp add: write_user3_def put_once_def put_reg_def Let_def split: prod.split)
  from assms show ?thesis
    by (intro confined_same) (auto simp: Draw_Line_def stored_line_def Let_def st_mem_writers st_mem_effects u)
qed

lemma confined_draw:
  assumes "\<not> bd_zorro3 b" "\<forall>r l m format. req = Req_Line r l m format \<longrightarrow> \<not> stored_line l m format"
  shows "confined (bd_memory_base b + z2_template_offset b) s (run_req b req s)"
  using assms
  by (cases req) (auto simp: confined_template confined_pattern confined_line Fill_Rect_def fill_rect_accel_def Invert_Rect_def Blit_Rect_def
    Blit_Rect_No_Mask_Complete_def Let_def confined_simps confined_refl
    confined_same st_mem_writers)

text \<open>C35: On a Zorro II board, where the staging area is 64 KiB between the picture memory and somebody else's windows, a drawing or screen
  request writes no byte of the card outside it, whatever the sizes, offsets and plane counts it is called with: the hooks that stage data (templates,
  patterns, both planar blits, the pointer image) stay inside, and the others, patterned and sloped lines among them, store nothing themselves. The
  solid horizontal and vertical lines, whose pixels the driver stores itself at unchecked addresses, are not covered.\<close>

theorem staging_confined:
  assumes "\<not> bd_zorro3 b" "\<forall>r l m format. req = Draw (Req_Line r l m format) \<longrightarrow> \<not> stored_line l m format"
    "st_mem (run_screen b req s) a \<noteq> st_mem s a"
  shows "unat (a - (bd_memory_base b + z2_template_offset b)) < 0x10000"
proof (rule ccontr)
  let ?d = "bd_memory_base b + z2_template_offset b"
  assume out: "\<not> unat (a - ?d) < 0x10000"
  have "confined ?d s (run_screen b req s)"
  proof (cases req)
    case (Draw r)
    then show ?thesis using assms(1,2) confined_draw by auto
  qed (use assms(1) confined_p2c confined_p2d confined_sprite in \<open>simp_all add: confined_same st_mem_writers st_mem_effects Set_Sprite_def Set_Sprite_Position_def Set_Sprite_Color_def
      Set_Split_Position_def Set_Panning_def Set_Color_Array_def Set_DPMS_Level_def Let_def\<close>)
  with out assms(3) show False by (simp add: confined_def)
qed

definition sample_z2 :: board where
  "sample_z2 = \<lparr>bd_registers = 0x200000, bd_memory_base = 0x210000, bd_memory_size = 0x1c0000, bd_gfxdata = 0, bd_zorro3 = False,
     bd_aperture_info = 0x5a020502, bd_template_offset = 0x1c0000, bd_default = \<lambda>_. True\<rparr>"

theorem staging_confined_witness:
  "let s = boot_state\<lparr>st_mem := \<lambda>a. if a = 0x1004 then 7 else 0\<rparr>;
       ms = \<lparr>ms_width = 8, ms_height = 1, ms_image = 0x1000, ms_hires = False, ms_doubled = False\<rparr>;
       a = 0x3D0000 :: u32
   in st_mem (run_screen sample_z2 (Req_Sprite_Image ms) s) a = 7 \<and> unat (a - (0x210000 + 0x1c0000)) < 0x10000"
proof -
  let ?s = "boot_state\<lparr>st_mem := \<lambda>a. if a = 0x1004 then 7 else 0\<rparr>"
  let ?req = "Req_Sprite_Image \<lparr>ms_width = 8, ms_height = 1, ms_image = 0x1000, ms_hires = False, ms_doubled = False\<rparr>"
  have two: "[0..<2] = [0, 1 :: nat]" by (simp add: upt_rec)
  have m: "st_mem (run_screen sample_z2 ?req ?s) 0x3D0000 = 7"
    by (simp add: Set_Sprite_Image_def sample_z2_def mouse_bytes_def z2_template_fits_def staging_addr_def z2_template_offset_def
      z2_layout_active_def st_mem_writers st_mem_effects copy_mem_def Let_def two)
  have "unat ((0x3D0000 :: u32) - (bd_memory_base sample_z2 + z2_template_offset sample_z2)) < 0x10000"
    by (rule staging_confined [where req = ?req and s = ?s]) (use m in \<open>simp_all add: sample_z2_def\<close>)
  with m show ?thesis by (simp add: sample_z2_def z2_template_offset_def z2_layout_active_def Let_def)
qed

theorem screen_commands_refine_witness:
  "map command (st_issued (fold (run_screen sample_z2) [Req_Split 8 0x220000, Req_Sprite_Position 100 50, Req_DPMS 1] boot_state)) =
     [Cmd_Split 8 0x10000, Cmd_Sprite_Position 100 58, Cmd_Feature 4 1]"
  by (subst screen_commands_refine [OF boot_synced, THEN conjunct2, THEN conjunct2])
    (simp add: boot_state_def boot_desk_def split_used_def sample_z2_def Let_def del: command.simps)

end
