(* ===== verification/RtgDisplay_Correct.thy ===== *)
theory RtgDisplay_Correct
  imports RtgMode_Correct RtgScreen_Correct
begin

text \<open>
  The pixel clock that Picasso96 is promised is the one the card is given, a mode is programmed as a whole or leaves the
  screen alone, and the sizes the driver reports are those it allocates with.
\<close>

section \<open>Clocks\<close>













section \<open>Programming a mode\<close>

definition custom_log :: "custom_mode \<Rightarrow> u8 \<Rightarrow> issued list" where
  "custom_log m colormode =
     [Issue_Reg REG_SELECT CUSTOM_MODE_SLOT] @ concat (map (\<lambda>(f, v). [Issue_Reg REG_PARAM f, Issue_Reg REG_VALUE v]) (staged_fields m)) @
     [Issue_Reg REG_COMMIT (CUSTOM_MODE_SLOT OR push_bit 8 (ucast colormode))]"

lemma fold_reg_pairs:
  "fold (\<lambda>(f, v). custom_reg_write REG_VALUE v \<circ> custom_reg_write REG_PARAM f) fs s =
     s\<lparr>st_issued := st_issued s @ concat (map (\<lambda>(f, v). [Issue_Reg REG_PARAM f, Issue_Reg REG_VALUE v]) fs)\<rparr>"
  by (induction fs arbitrary: s) (auto simp: custom_reg_write_def emit_def)

lemma stage_issues:
  "stage_and_commit m colormode custom_reg_write (custom_reg_status c) s =
     (sc_commit_status c (st_issued s @ custom_log m colormode) = 1, s\<lparr>st_issued := st_issued s @ custom_log m colormode\<rparr>)"
  by (simp add: stage_and_commit_def fold_reg_pairs custom_log_def custom_reg_status_def Let_def)
    (simp add: custom_reg_write_def emit_def)

lemma preset_outcome:
  "preset_for_dimensions p 0 = (Some t, sc) \<Longrightarrow> t \<in> set mode_timings \<and> sc \<in> {0, 3}"
  by (auto simp: preset_for_dimensions_def timing_for_logical_size_def timing_for_output_size_def find_Some_iff split: if_splits)

lemma matching_outcome: "matching_preset p 0 = (Some t, sc) \<Longrightarrow> t \<in> set mode_timings \<and> sc \<in> {0, 3}"
  using preset_outcome [of p t sc] by (auto simp: matching_preset_def split: prod.splits option.splits if_splits)

lemma resolved_valid:
  assumes "resolve_clock r m = (hz, m1)" "hz \<noteq> 0" "custom_geometry_valid m"
  shows "custom_mode_valid m1"
proof -
  let ?b = "resolve_search r"
  have e: "hz = pb_hz ?b" "m1 = m\<lparr>cm_mul := pb_mul ?b, cm_div := pb_div ?b, cm_div2 := pb_div2 ?b\<rparr>"
    using assms(1,2) by (auto simp: resolve_clock_def Let_def split: if_splits)
  with assms(2) resolve_search_ok [of r] have "hz = custom_clock_hz (pb_mul ?b) (pb_div ?b) (pb_div2 ?b)"
      "MIN_CLOCK_HZ \<le> hz" "hz \<le> MAX_CLOCK_HZ"
    by (auto simp: pll_ok_def)
  with e assms(3) show ?thesis by (simp add: custom_mode_valid_def custom_geometry_valid_def Let_def)
qed

lemma plan_outcome:
  assumes "plan_modeline p caps plan0 = (True, plan)"
  shows "(mp_action plan = Modeline_Preset \<and> (\<exists>t. mp_preset plan = Some t \<and> t \<in> set mode_timings) \<and> mp_scale plan \<in> {0, 3}) \<or>
    (mp_action plan = Modeline_Custom \<and> custom_mode_valid (mp_custom plan))"
proof (cases "caps AND FW_CAP_CUSTOM_MODE = 0")
  case True
  with assms show ?thesis
    using preset_outcome [of p]
    by (cases "preset_for_dimensions p 0"; cases "fst (preset_for_dimensions p 0)")
      (fastforce simp: plan_modeline_def plan_core_def Let_def)+
next
  case False
  show ?thesis
  proof (cases "matching_preset p 0")
    case (Pair t0 sc)
    show ?thesis
    proof (cases t0)
      case (Some t)
      with Pair assms False matching_outcome [of p t sc] show ?thesis
        by (auto simp: plan_modeline_def plan_core_def Let_def)
    next
      case None
      obtain ok m where c: "to_custom_mode p (mp_custom plan0) = (ok, m)" by fastforce
      obtain hz m1 where r: "resolve_clock (p_pixel_clock p) m = (hz, m1)" by fastforce
      from assms False Pair None c r have "ok" "hz \<noteq> 0" "mp_action plan = Modeline_Custom" "mp_custom plan = m1"
        by (auto simp: plan_modeline_def plan_core_def Let_def split: if_splits)
      moreover have "custom_geometry_valid m" using to_custom_fields(1) [of p _ m] c \<open>ok\<close> by simp
      ultimately show ?thesis using resolved_valid [OF r] by simp
    qed
  qed
qed

text \<open>C36: A mode is programmed as a whole or not at all. When \<^verbatim>\<open>SetGC\<close> refuses a mode, the board keeps its accepted
  mode and border, no mode register was written (at most a custom-mode transaction that the firmware itself refused), nothing
  else changed, and no later panning call has any effect. When it accepts, the board points to the
  new mode and the card was told either one preset of the table with the screen's pixel format, or one complete custom-mode transaction that
  the firmware acknowledged.\<close>

theorem set_gc_all_or_nothing:
  "(let s' = Set_GC c mode border s; cm = mnt_colormode (ucast (sc_format c)) in
    if dk_gc_rejected (st_desk s') then
      st_desk s' = (st_desk s)\<lparr>dk_gc_rejected := True\<rparr> \<and>
      (st_issued s' = st_issued s \<or> (\<exists>m. st_issued s' = st_issued s @ custom_log m (ucast cm) \<and> sc_commit_status c (st_issued s') \<noteq> 1)) \<and>
      s'\<lparr>st_issued := st_issued s, st_desk := st_desk s\<rparr> = s \<and>
      (\<forall>b addr w xo yo format. Set_Panning b addr w xo yo format s' = s')
    else
      dk_mode_info (st_desk s') = mode \<and> dk_border (st_desk s') = border \<and> mode \<noteq> 0 \<and>
      s'\<lparr>st_issued := st_issued s, st_desk := st_desk s\<rparr> = s \<and>
      ((\<exists>t scale. t \<in> set mode_timings \<and> scale \<in> {0, 3} \<and>
          st_issued s' = st_issued s @ [Issue_Mode (mt_mode_id t OR push_bit 8 cm OR push_bit 12 scale)]) \<or>
       (\<exists>m. st_issued s' = st_issued s @ custom_log m (ucast cm) \<and> sc_commit_status c (st_issued s') = 1 \<and> custom_mode_valid m)))"
proof -
  let ?s1 = "upd_desk (\<lambda>d. d\<lparr>dk_gc_rejected := True\<rparr>) s"
  let ?cm = "mnt_colormode (ucast (sc_format c))"
  let ?mi = "dk_modes (st_desk s) mode"
  obtain ok plan where p: "plan_modeline (p96_mode_of ?mi (mi_pixel_clock ?mi)) (sc_caps c) (sc_plan0 c) = (ok, plan)" by fastforce
  have pan: "Set_Panning b addr w xo yo format s' = s'" if "dk_gc_rejected (st_desk s')" for b addr w xo yo format s'
    using that by (simp add: Set_Panning_def)
  have refused: ?thesis if "Set_GC c mode border s = ?s1"
    unfolding that Let_def by (simp add: pan upd_desk_def)
  show ?thesis
  proof (cases "mode = 0 \<or> mi_width ?mi < 320 \<or> mi_height ?mi < 200 \<or> ?cm = COLOR_NO_USE \<or> \<not> ok")
    case True
    then show ?thesis by (intro refused) (auto simp: Set_GC_def p Let_def)
  next
    case False
    then have g: "Set_GC c mode border s = (case (mp_action plan, mp_preset plan) of
        (Modeline_Custom, _) \<Rightarrow> (case stage_and_commit (mp_custom plan) (ucast ?cm) custom_reg_write (custom_reg_status c) ?s1 of
          (ok, s2) \<Rightarrow> if ok then upd_desk (\<lambda>d. d\<lparr>dk_mode_info := mode, dk_border := border, dk_gc_rejected := False\<rparr>) s2 else s2)
      | (_, Some t) \<Rightarrow> upd_desk (\<lambda>d. d\<lparr>dk_mode_info := mode, dk_border := border, dk_gc_rejected := False\<rparr>)
          (emit (Issue_Mode (mt_mode_id t OR push_bit 8 ?cm OR push_bit 12 (ucast (mp_scale plan))))
            (upd_desk (\<lambda>d. d\<lparr>dk_modes := (dk_modes d)(mode := sanitize_mode_flags ?mi)\<rparr>) ?s1))
      | (_, None) \<Rightarrow> ?s1)"
      unfolding Set_GC_def Let_def by (simp add: p)
    from False have "ok" "mode \<noteq> 0" by simp_all
    from plan_outcome [of "p96_mode_of ?mi (mi_pixel_clock ?mi)" "sc_caps c" "sc_plan0 c" plan] p \<open>ok\<close>
    consider (preset) t where "mp_action plan = Modeline_Preset" "mp_preset plan = Some t" "t \<in> set mode_timings" "mp_scale plan \<in> {0, 3}"
      | (custom) "mp_action plan = Modeline_Custom" "custom_mode_valid (mp_custom plan)" by auto
    then show ?thesis
    proof cases
      case preset
      then have "ucast (mp_scale plan) \<in> {0, 3 :: u16}" by auto
      with preset \<open>mode \<noteq> 0\<close> show ?thesis unfolding g Let_def by (auto simp: upd_desk_def emit_def)
    next
      case custom
      with \<open>mode \<noteq> 0\<close> pan show ?thesis unfolding g Let_def by (auto simp: stage_issues upd_desk_def)
    qed
  qed
qed

section \<open>Sizes, capture modes and waiting\<close>

text \<open>The pitch Picasso96 is told for a screen is the one a bitmap of that width and format is allocated with before padding.\<close>

lemma pitch_agrees:
  assumes "format \<in> {1, 9, 10, 11}" "unat width * 4 < 2 ^ 16"
  shows "Calculate_Bytes_Per_Row hooks width format = ucast (bytes_per_row format (ucast width))"
proof -
  have u: "unat (ucast width :: u32) = unat width" by simp
  have w: "(ucast (ucast width * k :: u32) :: u16) = width * ucast k" for k
    by (rule word_unat_eq_iff [THEN iffD2]) (simp add: unat_word_ariths unsigned_ucast_eq take_bit_eq_mod mod_mod_cancel mod_mult_right_eq
      mod_less less_trans [OF unat_lt [of width]])
  have p: "push_bit 1 width = width * 2" "push_bit 2 width = width * 4" by (simp_all add: push_bit_eq_mult)
  have m: "unat (- 1 :: u32) = 4294967295" by (simp add: unsigned_minus_1_eq_mask mask_eq_exp_minus_1)
  have bound: "\<not> (- 1 :: u32) div k < ucast width" if "k \<in> {1, 2, 4}" for k
    using that assms(2) u by (auto simp: word_less_nat_alt unat_div m)
  have "supported_rgb_format 1" "supported_rgb_format 9" "supported_rgb_format 10" "supported_rgb_format 11" by code_simp+
  with assms(1) have f: "supported_rgb_format format" by auto
  have v: "overlay_variant format < 0" using assms(1) by (auto simp: overlay_variant_def)
  have c: "calc_pitch_bytes width (mnt_colormode (ucast format)) = width * ucast (format_bytes format)"
    using assms(1) by (auto simp: calc_pitch_bytes_def mnt_colormode_def rtg_to_mnt_def p format_bytes_def
      COLOR_8BIT_def COLOR_16BIT565_def COLOR_32BIT_def COLOR_15BIT_def COLOR_NO_USE_def)
  have "format_bytes format \<in> {1, 2, 4}" using assms(1) by (auto simp: format_bytes_def)
  moreover from this have "format_bytes format \<noteq> 0" by auto
  ultimately have "bytes_per_row format (ucast width) = ucast width * format_bytes format"
    using bound [of "format_bytes format"] unfolding bytes_per_row_def Let_def by simp
  with v f have "Calculate_Bytes_Per_Row hooks width format = calc_pitch_bytes width (mnt_colormode (ucast format))"
    by (simp add: Calculate_Bytes_Per_Row_def)
  then show ?thesis unfolding c \<open>bytes_per_row format (ucast width) = _\<close> w .
qed

lemma and_or_all: "(w AND (a OR b) = a OR b) = (w AND a = a \<and> w AND b = b)" for w :: u16
  by (auto simp: bit_eq_iff bit_simps)

lemma and_one_bit:
  fixes w :: u16
  assumes "n < 16"
  shows "(w AND push_bit n 1 \<noteq> 0) = bit w n" "(w AND push_bit n 1 = push_bit n 1) = bit w n"
proof -
  show e: "(w AND push_bit n 1 \<noteq> 0) = bit w n" by (simp add: bit_iff_and_push_bit_not_eq_0)
  have "w AND push_bit n 1 = push_bit n 1" if "bit w n"
    by (rule bit_word_eqI) (use that in \<open>auto simp: bit_simps\<close>)
  moreover have "push_bit n 1 \<noteq> (0 :: u16)" using assms by simp
  ultimately show "(w AND push_bit n 1 = push_bit n 1) = bit w n" using e by metis
qed

lemma capability_bits:
  "(caps AND CAP_CENTERED \<noteq> 0) = bit caps 3" "(caps AND CAP_CENTERED_50 \<noteq> 0) = bit caps 4"
  "(caps AND CAP_SOURCE_SYNC \<noteq> 0) = bit caps 5"
  "(caps AND (CAP_CENTERED OR CAP_CENTERED_50) = CAP_CENTERED OR CAP_CENTERED_50) = (bit caps 3 \<and> bit caps 4)"
  "(caps AND (CAP_CENTERED OR CAP_CENTERED_50 OR CAP_SOURCE_SYNC) = CAP_CENTERED OR CAP_CENTERED_50 OR CAP_SOURCE_SYNC) =
    (bit caps 3 \<and> bit caps 4 \<and> bit caps 5)"
  using and_one_bit [of 3 caps] and_one_bit [of 4 caps] and_one_bit [of 5 caps]
  by (simp_all only: CAP_CENTERED_def CAP_CENTERED_50_def CAP_SOURCE_SYNC_def and_or_all conj_assoc push_bit_of_1 power_numeral mult_1 refl) simp_all

text \<open>The capture mode is always one the firmware can do: a sanitised mode needs no capability beyond those reported, sanitising it again
  changes nothing, and a mode the firmware can do is kept.\<close>

lemma vcap_mode_supported:
  defines "able \<equiv> \<lambda>m caps. m = VMODE_720x576 \<or> m = VMODE_800x600 \<or> m = VMODE_CENTERED_60 \<and> bit caps 3 \<or>
      m = VMODE_CENTERED_50 \<and> bit caps 3 \<and> bit caps 4 \<or> m = VMODE_CENTERED_MATCH \<and> bit caps 3 \<and> bit caps 4 \<and> bit caps 5"
  shows "able (vcap_mode_sanitize mode caps) caps" "able mode caps \<Longrightarrow> vcap_mode_sanitize mode caps = mode"
    "vcap_mode_sanitize (vcap_mode_sanitize mode caps) caps = vcap_mode_sanitize mode caps"
  unfolding able_def vcap_mode_sanitize_def capability_bits
  by (auto simp: VMODE_800x600_def VMODE_CENTERED_60_def VMODE_720x576_def VMODE_CENTERED_50_def VMODE_CENTERED_MATCH_def)

text \<open>The wait for the raster returns after at most the guard's number of reads, and ends early exactly at the first read that differs.\<close>

lemma vsync_loop_bounded: "vsync_loop vblank w i guard \<le> i + guard"
proof (induction guard arbitrary: i)
  case (Suc guard)
  show ?case using Suc [of "i + 1"] by auto
qed simp

lemma vsync_loop_reads:
  assumes "i \<le> j" "j + 1 < vsync_loop vblank w i guard"
  shows "vblank j = w"
  using assms
proof (induction guard arbitrary: i)
  case (Suc guard)
  show ?case
  proof (cases "i = j")
    case True
    with Suc.prems show ?thesis by (simp split: if_splits)
  next
    case False
    with Suc.prems have "i + 1 \<le> j" "j + 1 < vsync_loop vblank w (i + 1) guard" by (simp_all split: if_splits)
    then show ?thesis by (rule Suc.IH)
  qed
qed simp

end
