(* ===== verification/RtgSurface.thy ===== *)
theory RtgSurface
  imports RtgSprite RtgOverlay RtgMemory
begin

text \<open>
  Bitmaps in card memory and the video window of \<^verbatim>\<open>rtg/mntgfx-gcc.c\<close>: \<^verbatim>\<open>ZZ_AllocBitMap\<close>, \<^verbatim>\<open>ZZ_FreeBitMap\<close>,
  \<^verbatim>\<open>ZZ_GetBitMapAttr\<close> and the feature hooks. The firmware's allocator, the system's memory allocator and Picasso96 are parameters (the record
  \<open>host\<close>); every allocation request, release and overlay command the card gets is in the log of the drawing state.
\<close>

section \<open>Tag lists\<close>

text \<open>A tag list is a chain in memory: \<open>items p\<close> is the tag and the data of the item of eight bytes at \<open>p\<close>, and 0 is NULL.\<close>

type_synonym tag_items = "u32 \<Rightarrow> u32 \<times> u32"

definition TAG_DONE :: u32 where "TAG_DONE = 0"
definition TAG_IGNORE :: u32 where "TAG_IGNORE = 1"
definition TAG_MORE :: u32 where "TAG_MORE = 2"
definition TAG_SKIP :: u32 where "TAG_SKIP = 3"

text \<open>The loop of the feature hooks, with its guard.\<close>

fun tag_loop :: "nat \<Rightarrow> tag_items \<Rightarrow> (u32 \<Rightarrow> u32 \<Rightarrow> 'a \<Rightarrow> 'a) \<Rightarrow> u32 \<Rightarrow> 'a \<Rightarrow> 'a" where
  "tag_loop 0 items f p acc = acc"
| "tag_loop (Suc guard) items f p acc =
     (if p = 0 \<or> fst (items p) = TAG_DONE then acc
      else let (tag, d) = items p in
        if tag = TAG_IGNORE then tag_loop guard items f (p + 8) acc
        else if tag = TAG_SKIP then tag_loop guard items f (p + d * 8 + 8) acc
        else if tag = TAG_MORE then tag_loop guard items f d acc
        else tag_loop guard items f (p + 8) (f tag d acc))"

section \<open>State\<close>

text \<open>The public part of a bitmap as the system sees it, and the driver's private part.\<close>

record plain_bitmap =
  pb_bytes_per_row :: u16
  pb_rows :: u16
  pb_depth :: u8
  pb_plane :: u32

record zz_bitmap =
  zb_addr :: u32
  zb_magic :: u32
  zb_card_offset :: u32
  zb_allocation_size :: u32
  zb_rgbformat :: u32
  zb_width :: u16
  zb_height :: u16

record pip_request =
  pr_pending :: bool
  pr_pitch :: u32
  pr_size :: u32
  pr_width :: u32
  pr_height :: u32
  pr_format :: u32

text \<open>
  \<open>sf_list\<close> is the list of the driver's bitmaps, newest first; \<open>sf_bm\<close> the public structures by address (a driver's bitmap has the address of its
  public part); \<open>sf_pip\<close> and \<open>sf_bitmap\<close> are \<^verbatim>\<open>zz_z2_pip_bitmap\<close> and \<^verbatim>\<open>zz_overlay_bitmap\<close>.
\<close>

record surfaces =
  sf_rtg :: rtg
  sf_list :: "zz_bitmap list"
  sf_bm :: "u32 \<Rightarrow> plain_bitmap"
  sf_request :: pip_request
  sf_pip :: u32
  sf_overlay :: overlay_state
  sf_bitmap :: u32

text \<open>
  What surrounds the hooks: the board, the decoded window, the Zorro II pool for the video window, the format of the screen, whether the
  bitmap hook and Picasso96's library are there, what the firmware answers to the last entry of the log (the offset of a surface, the status of
  an overlay command), the system's allocator, Picasso96's bitmap functions, and the addresses of the feature record and its rastport.
\<close>

record host =
  ho_board :: board
  ho_window :: u32
  ho_pip_offset :: u32
  ho_pip_size :: u32
  ho_format :: u32
  ho_alloc_hook :: bool
  ho_p96 :: bool
  ho_surface :: "issued list \<Rightarrow> u32"
  ho_status :: "issued list \<Rightarrow> u32"
  ho_alloc_mem :: "surfaces \<Rightarrow> u32"
  ho_p96_alloc :: "u32 \<Rightarrow> u32 \<Rightarrow> u32 \<Rightarrow> surfaces \<Rightarrow> u32 \<times> surfaces"
  ho_p96_free :: "u32 \<Rightarrow> surfaces \<Rightarrow> surfaces"
  ho_feature :: u32
  ho_rport :: u32

definition upd_rtg :: "(rtg \<Rightarrow> rtg) \<Rightarrow> surfaces \<Rightarrow> surfaces" where
  "upd_rtg f s = s\<lparr>sf_rtg := f (sf_rtg s)\<rparr>"

definition set_u8 :: "nat \<Rightarrow> u8 \<Rightarrow> gfx_data \<Rightarrow> gfx_data" where "set_u8 i v g = g\<lparr>gd_u8 := (gd_u8 g)(i := v)\<rparr>"
definition set_u32 :: "nat \<Rightarrow> u32 \<Rightarrow> gfx_data \<Rightarrow> gfx_data" where "set_u32 i v g = g\<lparr>gd_u32 := (gd_u32 g)(i := v)\<rparr>"

section \<open>Allocation\<close>

definition bitmap_ours :: "host \<Rightarrow> surfaces \<Rightarrow> u32 \<Rightarrow> zz_bitmap option" where
  "bitmap_ours h s bm =
     (if bm = 0 then None
      else case find (\<lambda>z. zb_addr z = bm) (sf_list s) of
        None \<Rightarrow> None
      | Some z \<Rightarrow>
          if \<not> range_is_ours (zb_magic z) (pb_plane (sf_bm s bm)) (zb_allocation_size z) (bd_memory_base (ho_board h))
               (if ho_window h \<noteq> 0 then ho_window h else bd_memory_size (ho_board h)) then None
          else Some z)"

record alloc_request =
  ar_format :: u32
  ar_mode_width :: u32
  ar_alignment :: u32
  ar_constant :: bool
  ar_clear :: bool

definition no_request :: alloc_request where
  "no_request = \<lparr>ar_format = 1, ar_mode_width = 0, ar_alignment = 0, ar_constant = False, ar_clear = False\<rparr>"

text \<open>One tag of a request: \<open>None\<close> is the return of NULL, so that Picasso96 uses system memory.\<close>

definition alloc_tag :: "u32 \<Rightarrow> u32 \<Rightarrow> alloc_request \<Rightarrow> alloc_request option" where
  "alloc_tag tag d r =
     (if tag = 0x80000002 then Some (r\<lparr>ar_format := d\<rparr>)
      else if tag = 0x80000006 then None
      else if tag = 0x80000010 then Some (r\<lparr>ar_constant := d \<noteq> 0\<rparr>)
      else if tag = 0x8000000A then Some (r\<lparr>ar_mode_width := d\<rparr>)
      else if tag = 0x8000000F then Some (r\<lparr>ar_alignment := d\<rparr>)
      else if tag = 0x80000011 \<or> tag = 0x80000016 \<or> tag = 0x80000013 \<or> tag = 0x80000012 then (if d \<noteq> 0 then None else Some r)
      else if tag = 0x80000003 then Some (r\<lparr>ar_clear := d \<noteq> 0\<rparr>)
      else Some r)"

text \<open>The loop over the tags has no guard: a chain that never ends is the outer \<open>None\<close>.\<close>

partial_function (option) alloc_tags :: "tag_items \<Rightarrow> u32 \<Rightarrow> alloc_request \<Rightarrow> alloc_request option option" where
  "alloc_tags items p r =
     (if p = 0 \<or> fst (items p) = TAG_DONE then Some (Some r)
      else if fst (items p) = TAG_IGNORE then alloc_tags items (p + 8) r
      else if fst (items p) = TAG_SKIP then alloc_tags items (p + snd (items p) * 8 + 8) r
      else if fst (items p) = TAG_MORE then alloc_tags items (snd (items p)) r
      else case alloc_tag (fst (items p)) (snd (items p)) r of
        None \<Rightarrow> Some None
      | Some r' \<Rightarrow> alloc_tags items (p + 8) r')"

definition alloc_pitch :: "alloc_request \<Rightarrow> u32 \<Rightarrow> u32" where
  "alloc_pitch r width =
     pad_pitch_to (bytes_per_row (ar_format r) (if ar_constant r \<and> ar_mode_width r > width then ar_mode_width r else width))
       (if ar_alignment r > 4 then ar_alignment r else 4)"

definition alloc_refused :: "alloc_request \<Rightarrow> u32 \<Rightarrow> u32 \<Rightarrow> bool" where
  "alloc_refused r width height =
     (if format_bytes (ar_format r) = 0 then True
      else if ar_alignment r \<noteq> 0 \<and> \<not> align_valid (ar_alignment r) then True
      else let row_bytes = alloc_pitch r width in
        row_bytes = 0 \<or> height = 0 \<or> row_bytes > 0xFFFF \<or> height > (- 1) div row_bytes)"

definition add_bitmap :: "host \<Rightarrow> u32 \<Rightarrow> u32 \<Rightarrow> u32 \<Rightarrow> u16 \<Rightarrow> u32 \<Rightarrow> u32 \<Rightarrow> u32 \<Rightarrow> surfaces \<Rightarrow> surfaces" where
  "add_bitmap h z off n bpr width height format s =
     s\<lparr>sf_bm := (sf_bm s)(z := \<lparr>pb_bytes_per_row = bpr, pb_rows = ucast height, pb_depth = ucast (format_depth format),
           pb_plane = bd_memory_base (ho_board h) + off\<rparr>),
       sf_list := \<lparr>zb_addr = z, zb_magic = OFFSCREEN_MAGIC, zb_card_offset = off, zb_allocation_size = n, zb_rgbformat = format,
           zb_width = ucast width, zb_height = ucast height\<rparr> # sf_list s\<rparr>"

definition free_surface :: "board \<Rightarrow> u32 \<Rightarrow> rtg \<Rightarrow> rtg" where
  "free_surface b off = issue_acc (bd_gfxdata b) Acc_Free_Surface \<circ> write_gfx_u8 (bd_gfxdata b) 0 0 \<circ> upd_gfx (bd_gfxdata b) (set_offset 0 off)"

definition alloc_surface :: "host \<Rightarrow> alloc_request \<Rightarrow> u32 \<Rightarrow> u32 \<Rightarrow> surfaces \<Rightarrow> u32 \<times> surfaces" where
  "alloc_surface h r width height s =
     (let b = ho_board h; g = bd_gfxdata b; row_bytes = alloc_pitch r width; q = sf_request s in
      if alloc_refused r width height then (0, s)
      else if \<not> bd_zorro3 b then
        if \<not> z2_layout_active b \<or> \<not> pr_pending q \<or> sf_pip s \<noteq> 0 \<or> ho_pip_size h = 0 \<or> height \<noteq> pr_height q \<or>
           pr_pitch q > 0xFFFF \<or> pr_size q > ho_pip_size h then (0, s)
        else let z = ho_alloc_mem h s in
          if z = 0 then (0, s)
          else (z, (add_bitmap h z (ho_pip_offset h) (pr_size q) (ucast (pr_pitch q)) (pr_width q) (pr_height q) (pr_format q)
                 (upd_rtg (fill_mem (bd_memory_base b + ho_pip_offset h) 0 (unat (pr_size q))) s))\<lparr>sf_pip := z\<rparr>)
      else
        let s1 = upd_rtg (issue_acc g Acc_Alloc_Surface \<circ> upd_gfx g (set_offset 1 (row_bytes * height))
                   \<circ> upd_gfx g (set_u8 3 (if ar_clear r then 0 else 1)) \<circ> write_gfx_u8 g 1 1) s;
            off = ho_surface h (st_issued (sf_rtg s1));
            s2 = upd_rtg (upd_gfx g (set_offset 0 off)) s1 in
        if off = 0 then (0, s2)
        else let z = ho_alloc_mem h s2 in
          if z = 0 then (0, upd_rtg (free_surface b off) s2)
          else (z, add_bitmap h z off (row_bytes * height) (ucast row_bytes) width height (ar_format r) s2))"

definition ZZ_AllocBitMap :: "host \<Rightarrow> u32 \<Rightarrow> u32 \<Rightarrow> tag_items \<Rightarrow> u32 \<Rightarrow> surfaces \<Rightarrow> (u32 \<times> surfaces) option" where
  "ZZ_AllocBitMap h width height items tags s =
     (case alloc_tags items tags no_request of
        None \<Rightarrow> None
      | Some None \<Rightarrow> Some (0, s)
      | Some (Some r) \<Rightarrow> Some (alloc_surface h r width height s))"

fun unlink :: "u32 \<Rightarrow> zz_bitmap list \<Rightarrow> zz_bitmap list" where
  "unlink a [] = []"
| "unlink a (z # zs) = (if zb_addr z = a then zs else z # unlink a zs)"

definition ZZ_FreeBitMap :: "host \<Rightarrow> u32 \<Rightarrow> surfaces \<Rightarrow> bool \<times> surfaces" where
  "ZZ_FreeBitMap h bm s =
     (case bitmap_ours h s bm of
        None \<Rightarrow> (False, s)
      | Some z \<Rightarrow>
          let s1 = s\<lparr>sf_list := unlink (zb_addr z) (sf_list s)\<rparr>; b = ho_board h in
          (True,
           if bd_zorro3 b then upd_rtg (free_surface b (zb_card_offset z)) s1
           else if z2_layout_active b \<and> zb_card_offset z = ho_pip_offset h then
             (if sf_pip s1 = zb_addr z then s1\<lparr>sf_pip := 0\<rparr> else s1)
           else s1))"

definition ZZ_GetBitMapAttr :: "host \<Rightarrow> u32 \<Rightarrow> u32 \<Rightarrow> surfaces \<Rightarrow> u32" where
  "ZZ_GetBitMapAttr h bm attr s =
     (if bm = 0 then 0
      else let p = sf_bm s bm; membase = bd_memory_base (ho_board h) in
        offscreen_attr
          (case bitmap_ours h s bm of
             Some z \<Rightarrow>
               \<lparr>ba_memory = pb_plane p, ba_basememory = membase, ba_bytesperrow = ucast (pb_bytes_per_row p),
                ba_bytesperpixel = format_bytes (zb_rgbformat z), ba_bitsperpixel = format_storage_bits (zb_rgbformat z),
                ba_rgbformat = zb_rgbformat z, ba_width = ucast (zb_width z), ba_height = ucast (zb_height z),
                ba_depth = format_depth (zb_rgbformat z)\<rparr>
           | None \<Rightarrow>
               \<lparr>ba_memory = pb_plane p, ba_basememory = membase, ba_bytesperrow = ucast (pb_bytes_per_row p),
                ba_bytesperpixel = 1, ba_bitsperpixel = ucast (pb_depth p), ba_rgbformat = 0,
                ba_width = ucast (pb_bytes_per_row p) * 8, ba_height = ucast (pb_rows p), ba_depth = ucast (pb_depth p)\<rparr>)
          attr)"

section \<open>The video window\<close>

definition SFT_MEMORYWINDOW :: u32 where "SFT_MEMORYWINDOW = 4"
definition OVERLAY_MAGIC :: u32 where "OVERLAY_MAGIC = 0x5A5A4F56"

definition no_overlay :: overlay_state where
  "no_overlay = \<lparr>ov_magic = 0, ov_rgbformat = 0, ov_src_w = 0, ov_src_h = 0, ov_dst_x = 0, ov_dst_y = 0, ov_dst_w = 0, ov_dst_h = 0,
     ov_color_key = 0, ov_pen = 0, ov_occlusion = 0, ov_active = 0, ov_clip_l = 0, ov_clip_t = 0, ov_clip_w = 0, ov_clip_h = 0,
     ov_brightness = 0\<rparr>"

definition set_pending :: "bool \<Rightarrow> surfaces \<Rightarrow> surfaces" where
  "set_pending v s = s\<lparr>sf_request := (sf_request s)\<lparr>pr_pending := v\<rparr>\<rparr>"

text \<open>Reclaim the wrapper of the fixed pool when Picasso96 did not.\<close>

definition reclaim_pip :: "host \<Rightarrow> surfaces \<Rightarrow> surfaces" where
  "reclaim_pip h s = (if sf_pip s \<noteq> 0 then snd (ZZ_FreeBitMap h (sf_pip s) s) else s)"

definition overlay_free_source :: "host \<Rightarrow> surfaces \<Rightarrow> surfaces" where
  "overlay_free_source h s =
     (let s1 = set_pending False s in
      if sf_bitmap s1 = 0 then s1
      else reclaim_pip h ((ho_p96_free h (sf_bitmap s1) s1)\<lparr>sf_bitmap := 0\<rparr>))"

definition overlay_fields :: "host \<Rightarrow> surfaces \<Rightarrow> gfx_data \<Rightarrow> gfx_data" where
  "overlay_fields h s =
     (let ov = sf_overlay s; p = sf_bm s (sf_bitmap s) in
      set_u32 1 (ov_color_key ov) \<circ> set_user 0 ((if ov_occlusion ov \<noteq> 0 then 1 else 0) OR (if ov_active ov \<noteq> 0 then 2 else 0))
      \<circ> set_y 2 (ov_src_h ov) \<circ> set_x 2 (ov_src_w ov) \<circ> set_y 1 (ov_dst_h ov) \<circ> set_x 1 (ov_dst_w ov)
      \<circ> set_y 0 (ov_dst_y ov) \<circ> set_x 0 (ov_dst_x ov) \<circ> set_pitch 1 (pb_bytes_per_row p)
      \<circ> set_offset 1 (pb_plane p - bd_memory_base (ho_board h)) \<circ> set_u8 4 (word_of_int (overlay_variant (ov_rgbformat ov)))
      \<circ> set_u8 5 0)"

definition overlay_push :: "host \<Rightarrow> bool \<Rightarrow> surfaces \<Rightarrow> u32 \<times> surfaces" where
  "overlay_push h off s =
     (let g = bd_gfxdata (ho_board h) in
      if g = 0 \<or> \<not> off \<and> sf_bitmap s = 0 then (1, s)
      else
        let s1 = upd_rtg (issue_z3 g Dma_Video_Overlay \<circ> upd_gfx g (if off then set_u8 5 1 else overlay_fields h s)) s;
            st = ho_status h (st_issued (sf_rtg s1))
        in (st, upd_rtg (upd_gfx g (set_u32 0 st)) s1))"

text \<open>The source Picasso96 allocated is taken over: its public stride is made the packed one, and it must lie in the card's window.\<close>

definition source_on_board :: "host \<Rightarrow> u16 \<Rightarrow> surfaces \<Rightarrow> bool" where
  "source_on_board h pitch s =
     (let b = ho_board h; src_h = ucast (ov_src_h (sf_overlay s)); plane = pb_plane (sf_bm s (sf_bitmap s));
          size_ok = (pitch \<noteq> 0 \<and> src_h \<le> (- 1) div (ucast pitch :: u32)) in
      \<not> (\<not> size_ok \<or> \<not> range_within plane (if size_ok then ucast pitch * src_h else 0) (bd_memory_base b) (ho_window h) \<or>
         \<not> bd_zorro3 b \<and> plane \<noteq> bd_memory_base b + ho_pip_offset h))"

definition open_feature :: "host \<Rightarrow> surfaces \<Rightarrow> u32 \<times> surfaces" where
  "open_feature h s =
     (let p = sf_bm s (sf_bitmap s); pitch = pb_bytes_per_row p in
      case overlay_tighten_pitch (ucast (ov_src_w (sf_overlay s))) (Some pitch) of
        (True, Some tight) \<Rightarrow>
          let s1 = s\<lparr>sf_bm := (sf_bm s)(sf_bitmap s := p\<lparr>pb_bytes_per_row := tight\<rparr>)\<rparr> in
          if \<not> source_on_board h pitch s1 then (0, overlay_free_source h s1)
          else
            let s2 = upd_rtg (write_feature (bd_registers (ho_board h)) 3 1) s1;
                s3 = s2\<lparr>sf_overlay := (sf_overlay s2)\<lparr>ov_magic := OVERLAY_MAGIC\<rparr>\<rparr>
            in (case overlay_push h False s3 of
                  (st, s4) \<Rightarrow>
                    if st \<noteq> 0 then (0, overlay_free_source h (s4\<lparr>sf_overlay := (sf_overlay s4)\<lparr>ov_magic := 0\<rparr>\<rparr>))
                    else (ho_feature h, s4))
      | _ \<Rightarrow> (0, overlay_free_source h s))"

definition z2_feature_request :: "host \<Rightarrow> surfaces \<Rightarrow> surfaces option" where
  "z2_feature_request h s =
     (if bd_zorro3 (ho_board h) then Some s
      else let ov = sf_overlay s; w = ucast (ov_src_w ov); src_h = ucast (ov_src_h ov) in
        case overlay_surface_size w src_h of
          None \<Rightarrow> None
        | Some n \<Rightarrow>
            if n > ho_pip_size h then None
            else Some (s\<lparr>sf_request := (sf_request s)\<lparr>pr_pitch := overlay_line_bytes w, pr_size := n, pr_width := w, pr_height := src_h,
                   pr_format := ov_rgbformat ov\<rparr>\<rparr>))"

definition ZZ_CreateFeature :: "host \<Rightarrow> u32 \<Rightarrow> tag_items \<Rightarrow> u32 \<Rightarrow> surfaces \<Rightarrow> u32 \<times> surfaces" where
  "ZZ_CreateFeature h ty items tags s =
     (let b = ho_board h in
      if ty \<noteq> SFT_MEMORYWINDOW then (0, s)
      else if sf_bitmap s \<noteq> 0 then (0, s)
      else if \<not> ho_alloc_hook h \<or> \<not> bd_zorro3 b \<and> (\<not> z2_layout_active b \<or> ho_pip_size h = 0 \<or> bd_gfxdata b = 0) then (0, s)
      else
        let s1 = s\<lparr>sf_overlay := tag_loop 64 items (\<lambda>tag d ov. snd (overlay_apply_tag ov tag d)) tags no_overlay\<rparr>; ov = sf_overlay s1 in
        if \<not> overlay_source_valid (ucast (ov_src_w ov)) (ucast (ov_src_h ov)) (ov_rgbformat ov) then (0, s1)
        else case z2_feature_request h s1 of
          None \<Rightarrow> (0, s1)
        | Some s2 \<Rightarrow>
            let alloc_width = overlay_friend_width (ucast (ov_src_w ov)) (format_bytes (ho_format h)) in
            if \<not> ho_p96 h \<or> alloc_width = 0 then (0, s2)
            else case ho_p96_alloc h alloc_width (ucast (ov_src_h ov)) (ov_rgbformat ov)
                        (if bd_zorro3 b then s2 else set_pending True s2) of
              (bm, s3) \<Rightarrow>
                let s4 = set_pending False (s3\<lparr>sf_bitmap := bm\<rparr>) in
                if bm = 0 then (0, reclaim_pip h s4) else open_feature h s4)"

definition overlay_cookie_ok :: "host \<Rightarrow> u32 \<Rightarrow> surfaces \<Rightarrow> bool" where
  "overlay_cookie_ok h fd s = (fd = ho_feature h \<and> ov_magic (sf_overlay s) = OVERLAY_MAGIC \<and> sf_bitmap s \<noteq> 0)"

definition set_feature_tag :: "u32 \<Rightarrow> u32 \<Rightarrow> overlay_state \<times> bool \<times> u32 \<Rightarrow> overlay_state \<times> bool \<times> u32" where
  "set_feature_tag tag d = (\<lambda>(ov, dirty, count).
     if overlay_tag_create_only tag then (ov, dirty, count + 1)
     else case overlay_apply_tag ov tag d of (changed, ov') \<Rightarrow> (ov', dirty \<or> changed, count + 1))"

definition ZZ_SetFeatureAttrs :: "host \<Rightarrow> u32 \<Rightarrow> tag_items \<Rightarrow> u32 \<Rightarrow> surfaces \<Rightarrow> u32 \<times> surfaces" where
  "ZZ_SetFeatureAttrs h fd items tags s =
     (if \<not> overlay_cookie_ok h fd s then (0, s)
      else case tag_loop 64 items set_feature_tag tags (sf_overlay s, False, 0) of
        (ov, dirty, count) \<Rightarrow>
          let s1 = s\<lparr>sf_overlay := ov\<rparr> in (count, if dirty then snd (overlay_push h False s1) else s1))"

text \<open>The answers are stored through the pointers in the tags: the second component is the list of stores, in order.\<close>

definition get_feature_tag ::
  "host \<Rightarrow> bool \<Rightarrow> surfaces \<Rightarrow> u32 \<Rightarrow> u32 \<Rightarrow> u32 \<times> (u32 \<times> u32) list \<Rightarrow> u32 \<times> (u32 \<times> u32) list" where
  "get_feature_tag h have_feature s tag d = (\<lambda>(count, stores).
     let answer = (if have_feature \<and> tag = 0x80030062 then Some (sf_bitmap s)
                   else if have_feature \<and> tag = 0x80030063 then Some (ho_rport h)
                   else overlay_query_tag (sf_overlay s) have_feature (sf_bitmap s) tag)
     in case answer of
          None \<Rightarrow> (count, stores)
        | Some v \<Rightarrow> (count + 1, if d \<noteq> 0 then stores @ [(d, v)] else stores))"

definition ZZ_GetFeatureAttrs :: "host \<Rightarrow> u32 \<Rightarrow> tag_items \<Rightarrow> u32 \<Rightarrow> surfaces \<Rightarrow> u32 \<times> (u32 \<times> u32) list" where
  "ZZ_GetFeatureAttrs h fd items tags s = tag_loop 64 items (get_feature_tag h (overlay_cookie_ok h fd s) s) tags (0, [])"

definition ZZ_DeleteFeature :: "host \<Rightarrow> u32 \<Rightarrow> u32 \<Rightarrow> surfaces \<Rightarrow> bool \<times> surfaces" where
  "ZZ_DeleteFeature h fd ty s =
     (if ty \<noteq> SFT_MEMORYWINDOW \<or> \<not> overlay_cookie_ok h fd s then (False, s)
      else let s1 = snd (overlay_push h True s)
        in (True, overlay_free_source h (s1\<lparr>sf_overlay := (sf_overlay s1)\<lparr>ov_magic := 0\<rparr>\<rparr>)))"

end
