(* ===== verification/RtgSurface_Correct.thy ===== *)
theory RtgSurface_Correct
  imports RtgScreen_Correct RtgSurface "HOL-Library.Multiset"
begin

text \<open>
  The driver's books on card memory agree with the firmware's allocator whatever is drawn in between, and the firmware only ever
  composes a video window from the memory of the driver's current source, on the board, while the system leaves that source alone.
\<close>

section \<open>What drawing adds to the log\<close>

fun plain_issue :: "issued \<Rightarrow> bool" where
  "plain_issue (Issue_Acc op g) = False"
| "plain_issue (Issue_Z3 op g) = (op \<noteq> Dma_Video_Overlay)"
| "plain_issue _ = True"

definition drawn :: "rtg \<Rightarrow> rtg \<Rightarrow> bool" where
  "drawn s s' = (\<exists>xs. st_issued s' = st_issued s @ xs \<and> list_all plain_issue xs)"

lemma drawn_refl: "drawn s s"
  by (simp add: drawn_def)

lemma drawn_trans: "drawn s s1 \<Longrightarrow> drawn s1 s2 \<Longrightarrow> drawn s s2"
  unfolding drawn_def by fastforce

lemma drawn_same: "drawn s s1 \<Longrightarrow> st_issued s2 = st_issued s1 \<Longrightarrow> drawn s s2"
  by (simp add: drawn_def)

lemma drawn_one: "drawn s s1 \<Longrightarrow> st_issued s2 = st_issued s1 @ [i] \<Longrightarrow> plain_issue i \<Longrightarrow> drawn s s2"
  unfolding drawn_def by fastforce

lemma st_issued_writers:
  "st_issued (write_src_offset base v s) = st_issued s" "st_issued (write_dst_offset base v s) = st_issued s"
  "st_issued (write_rgb base v s) = st_issued s" "st_issued (write_dst_pitch base n s) = st_issued s"
  "st_issued (write_color_mode base n s) = st_issued s" "st_issued (write_x1 base n s) = st_issued s"
  "st_issued (write_y1 base n s) = st_issued s" "st_issued (write_x2 base n s) = st_issued s" "st_issued (write_y2 base n s) = st_issued s"
  "st_issued (write_x3 base n s) = st_issued s" "st_issued (write_y3 base n s) = st_issued s" "st_issued (write_src_pitch base n s) = st_issued s"
  "st_issued (write_rgb2 base v s) = st_issued s" "st_issued (write_user1 base n s) = st_issued s"
  "st_issued (write_user2 base n s) = st_issued s" "st_issued (write_user3 base n s) = st_issued s"
  "st_issued (select_card_feature base n s) = st_issued s"
  by (simp_all add: write_src_offset_def write_dst_offset_def write_rgb_def write_dst_pitch_def write_color_mode_def
    write_x1_def write_y1_def write_x2_def write_y2_def write_x3_def write_y3_def put_once_def put_reg_def write_src_pitch_def
    write_rgb2_def write_user1_def write_user2_def write_user3_def select_card_feature_def Let_def split: prod.split)

lemma st_issued_gfx:
  "st_issued (upd_gfx p fg s) = st_issued s" "st_issued (write_gfx_u8 p i v s) = st_issued s" "st_issued (write_gfx_mask p v s) = st_issued s"
  "st_issued (write_gfx_minterm p v s) = st_issued s" "st_issued (copy_mem d a n s) = st_issued s" "st_issued (fill_mem d v n s) = st_issued s"
  "st_issued (upd_desk fd s) = st_issued s"
  by (simp_all add: upd_gfx_def write_gfx_u8_def write_gfx_mask_def write_gfx_minterm_def write_gfx_byte_def copy_mem_def fill_mem_def
    upd_desk_def Let_def)

lemmas drawn_writers = st_issued_writers [THEN drawn_same [rotated]] st_issued_gfx [THEN drawn_same [rotated]]

lemma drawn_issues:
  "drawn s s1 \<Longrightarrow> drawn s (issue_z2 base o1 v s1)" "drawn s s1 \<Longrightarrow> o2 \<noteq> Dma_Video_Overlay \<Longrightarrow> drawn s (issue_z3 p o2 s1)"
  "drawn s s1 \<Longrightarrow> drawn s (call_default fn s1)" "drawn s s1 \<Longrightarrow> drawn s (default_or_nothing b fn s1)"
  "drawn s s1 \<Longrightarrow> plain_issue i \<Longrightarrow> drawn s (emit i s1)" "drawn s s1 \<Longrightarrow> drawn s (write_feature base n k s1)"
  by (auto intro: drawn_one simp: issue_z2_def issue_z3_def call_default_def default_or_nothing_def emit_def write_feature_def Let_def
    st_issued_writers)

lemma st_issued_rows: "st_issued (copy_rows n d a l bpr s) = st_issued s"
  by (induction n arbitrary: d a s) (simp_all add: st_issued_gfx)

lemma st_issued_planes: "st_issued (fst (stage_planes bm x y h l n d m s)) = st_issued s"
proof -
  let ?f = "\<lambda>i. stage_plane bm x y h l n (d + of_nat i * n) i"
  have one: "st_issued (fst (stage_plane bm x y h l n a i (s', m', c))) = st_issued s'" for a i s' m' c
    by (simp add: stage_plane_def Let_def st_issued_gfx st_issued_rows)
  have "st_issued (fst (fold ?f xs (s', m', c))) = st_issued s'" for xs s' m' c
  proof (induction xs arbitrary: s' m' c)
    case (Cons i xs)
    show ?case using Cons [of "fst (?f i (s', m', c))" "fst (snd (?f i (s', m', c)))" "snd (snd (?f i (s', m', c)))"] by (simp add: one)
  qed simp
  then show ?thesis by (simp add: stage_planes_def split_beta)
qed

lemma drawn_emits: "drawn s s1 \<Longrightarrow> (\<And>i. plain_issue (f i)) \<Longrightarrow> drawn s (fold (\<lambda>i. emit (f i)) xs s1)"
  by (induction xs arbitrary: s1) (simp_all add: drawn_issues)

lemmas drawn_intros = drawn_writers drawn_issues drawn_refl drawn_emits st_issued_planes [THEN drawn_same [rotated]]

lemma drawn_lines:
  "st_issued (draw_hline_z2 fb x y w color bpr cm s) = st_issued s" "st_issued (draw_vline_z2 fb x y h color bpr cm s) = st_issued s"
  by (simp_all add: draw_hline_z2_def draw_vline_z2_def Let_def)

lemma drawn_fill: "drawn s (fill_rect_accel b r x y w h color m cm s)"
  by (simp add: fill_rect_accel_def Let_def drawn_intros)

lemma drawn_req: "drawn s (run_req b req s)"
proof (cases req)
  case (Req_Line r l m format)
  then show ?thesis
    by (simp add: Draw_Line_def Let_def drawn_fill drawn_intros drawn_lines [THEN drawn_same [OF drawn_refl]])
qed (simp_all add: Fill_Rect_def fill_rect_accel_def Invert_Rect_def Blit_Rect_def Blit_Rect_No_Mask_Complete_def Blit_Template_def
  Blit_Pattern_def Let_def drawn_intros)

lemma drawn_screen: "drawn s (run_screen b req s)"
  by (cases req) (simp_all add: drawn_req Blit_Planar2Chunky_def Blit_Planar2Direct_def Set_Sprite_def Set_Sprite_Position_def
    Set_Sprite_Image_def Set_Sprite_Color_def Set_Split_Position_def Set_Panning_def Set_Color_Array_def Set_DPMS_Level_def Let_def
    split_beta drawn_intros)

section \<open>The books of the allocator\<close>

text \<open>The surfaces the firmware has handed out and not been given back, read off the log (newest entry first), and that every release names one of them.\<close>

fun live_after :: "host \<Rightarrow> issued list \<Rightarrow> u32 multiset" where
  "live_after h [] = {#}"
| "live_after h (Issue_Acc Acc_Alloc_Surface g # log) =
     (let off = ho_surface h (rev (Issue_Acc Acc_Alloc_Surface g # log)) in
      if off = 0 then live_after h log else add_mset off (live_after h log))"
| "live_after h (Issue_Acc Acc_Free_Surface g # log) = live_after h log - {#gd_offset g 0#}"
| "live_after h (i # log) = live_after h log"

fun releases_live :: "host \<Rightarrow> issued list \<Rightarrow> bool" where
  "releases_live h [] = True"
| "releases_live h (Issue_Acc Acc_Free_Surface g # log) = (gd_offset g 0 \<in># live_after h log \<and> releases_live h log)"
| "releases_live h (i # log) = releases_live h log"

definition accounted :: "host \<Rightarrow> surfaces \<Rightarrow> bool" where
  "accounted h s =
     (let log = rev (st_issued (sf_rtg s)) in releases_live h log \<and>
      (if bd_zorro3 (ho_board h) then mset (map zb_card_offset (sf_list s)) = live_after h log
       else live_after h log = {#} \<and>
         (sf_list s = [] \<and> sf_pip s = 0 \<or>
          (\<exists>z. sf_list s = [z] \<and> sf_pip s = zb_addr z \<and> zb_addr z \<noteq> 0 \<and> zb_card_offset z = ho_pip_offset h \<and>
             zb_allocation_size z \<le> ho_pip_size h \<and> z2_layout_active (ho_board h)))))"

lemma plain_log:
  assumes "list_all plain_issue xs"
  shows "live_after h (rev xs @ log) = live_after h log" "releases_live h (rev xs @ log) = releases_live h log"
proof -
  have "live_after h (xs @ log) = live_after h log \<and> releases_live h (xs @ log) = releases_live h log" if "list_all plain_issue xs" for xs
    using that
  proof (induction xs)
    case (Cons i xs)
    then show ?case by (cases i) simp_all
  qed simp
  from this [of "rev xs"] assms show "live_after h (rev xs @ log) = live_after h log" "releases_live h (rev xs @ log) = releases_live h log"
    by simp_all
qed

lemma accounted_drawn:
  assumes "accounted h s" "drawn (sf_rtg s) (sf_rtg s')" "sf_list s' = sf_list s" "sf_pip s' = sf_pip s"
  shows "accounted h s'"
  using assms by (auto simp: accounted_def drawn_def Let_def plain_log)

lemma drawn_overlay:
  assumes "st_issued s' = st_issued s @ [Issue_Z3 Dma_Video_Overlay g]"
  shows "live_after h (rev (st_issued s')) = live_after h (rev (st_issued s))"
    "releases_live h (rev (st_issued s')) = releases_live h (rev (st_issued s))"
  using assms by simp_all

lemma keeps_bytes_surface: "2 \<le> i \<Longrightarrow> keeps_bytes (set_u8 i v)" "keeps_bytes (set_u32 i w)"
  by (auto simp: keeps_bytes_def set_u8_def set_u32_def)

lemma issued_synced: "synced b s1 \<Longrightarrow> st_regs s2 = st_regs s1 \<Longrightarrow> st_gfx s2 = st_gfx s1 \<Longrightarrow> st_old s2 = st_old s1 \<Longrightarrow>
    st_cache s2 = st_cache s1 \<Longrightarrow> st_bytes s2 = st_bytes s1 \<Longrightarrow> synced b s2"
  by (simp add: synced_def)

lemma issue_synced: "synced b (issue_acc p o1 s) = synced b s" "synced b (issue_z3 p o2 s) = synced b s" "synced b (fill_mem d v n s) = synced b s"
  by (simp_all add: synced_def issue_acc_def issue_z3_def fill_mem_def)

lemma synced_gfx: "synced b s \<Longrightarrow> keeps_bytes f \<Longrightarrow> synced b (upd_gfx (bd_gfxdata b) f s)"
  using tells_gfx [of f b] by (simp add: tells_def)

lemma synced_u8: "synced b s \<Longrightarrow> i \<le> 1 \<Longrightarrow> synced b (write_gfx_u8 (bd_gfxdata b) i v s)"
  using tells_bytes(1) [of i b v] by (simp add: tells_def)

lemma gd_offset_u8: "gd_offset (st_gfx (write_gfx_u8 p i v s) p) = gd_offset (st_gfx s p)"
  by (simp add: write_gfx_u8_def write_gfx_byte_def upd_gfx_def Let_def)

lemma free_surface_effect:
  "\<exists>g. st_issued (free_surface b off s) = st_issued s @ [Issue_Acc Acc_Free_Surface g] \<and> gd_offset g 0 = off"
  by (auto simp: free_surface_def issue_acc_def gd_offset_u8 upd_gfx_def set_offset_def st_issued_gfx)

lemma free_surface_synced: "synced b s \<Longrightarrow> synced b (free_surface b off s)"
  by (simp add: free_surface_def issue_synced synced_u8 synced_gfx keeps_bytes_intros)

section \<open>Every hook keeps the books\<close>

lemma find_unlink:
  assumes "find (\<lambda>z. zb_addr z = a) zs = Some z"
  shows "zb_addr z = a" "mset (map zb_card_offset zs) = add_mset (zb_card_offset z) (mset (map zb_card_offset (unlink a zs)))" "z \<in> set zs"
  using assms by (induction zs) (auto split: if_splits)

definition booked :: "host \<Rightarrow> surfaces \<Rightarrow> bool" where
  "booked h s = (synced (ho_board h) (sf_rtg s) \<and> accounted h s)"

lemma booked_alloc:
  assumes "booked h s"
  shows "booked h (snd (alloc_surface h r width height s))"
proof (cases "alloc_refused r width height")
  case True
  with assms show ?thesis by (simp add: alloc_surface_def Let_def)
next
  case False
  note request = this
  let ?b = "ho_board h"
  show ?thesis
  proof (cases "bd_zorro3 ?b")
    case False
    with assms request show ?thesis
      by (auto simp: alloc_surface_def Let_def booked_def accounted_def add_bitmap_def upd_rtg_def issue_synced st_issued_gfx not_less)
  next
    case True
    let ?g = "bd_gfxdata ?b"
    define n where "n = alloc_pitch r width * height"
    define u where "u = (upd_gfx ?g (set_offset 1 n) \<circ> upd_gfx ?g (set_u8 3 (if ar_clear r then 0 else 1)) \<circ> write_gfx_u8 ?g 1 1) (sf_rtg s)"
    define gd where "gd = st_gfx u ?g"
    define off where "off = ho_surface h (st_issued (sf_rtg s) @ [Issue_Acc Acc_Alloc_Surface gd])"
    define r2 where "r2 = upd_gfx ?g (set_offset 0 off) (issue_acc ?g Acc_Alloc_Surface u)"
    have u: "st_issued u = st_issued (sf_rtg s)" "synced ?b u"
      using assms by (simp_all add: u_def st_issued_gfx booked_def synced_gfx synced_u8 keeps_bytes_intros keeps_bytes_surface)
    have r2: "st_issued r2 = st_issued (sf_rtg s) @ [Issue_Acc Acc_Alloc_Surface gd]"
      by (simp add: r2_def st_issued_gfx issue_acc_def u gd_def)
    have sync2: "synced ?b r2"
      by (simp add: r2_def u issue_synced synced_gfx keeps_bytes_intros)
    define s2 where "s2 = s\<lparr>sf_rtg := r2\<rparr>"
    have e: "alloc_surface h r width height s = (if off = 0 then (0, s2) else let z = ho_alloc_mem h s2 in
        if z = 0 then (0, upd_rtg (free_surface ?b off) s2) else (z, add_bitmap h z off n (ucast (alloc_pitch r width)) width height (ar_format r) s2))"
      using True request
      by (simp add: alloc_surface_def Let_def upd_rtg_def s2_def r2_def u_def off_def gd_def n_def issue_acc_def st_issued_gfx)
    obtain gf where f: "st_issued (free_surface ?b off r2) = st_issued r2 @ [Issue_Acc Acc_Free_Surface gf]" "gd_offset gf 0 = off"
      using free_surface_effect by blast
    show ?thesis
      using assms True r2 sync2 f free_surface_synced [OF sync2]
      by (auto simp: e s2_def booked_def accounted_def add_bitmap_def upd_rtg_def Let_def off_def)
  qed
qed

lemma booked_free:
  assumes "booked h s"
  shows "booked h (snd (ZZ_FreeBitMap h bm s))"
proof (cases "bitmap_ours h s bm")
  case None
  with assms show ?thesis by (simp add: ZZ_FreeBitMap_def)
next
  case (Some z)
  then have z: "find (\<lambda>z. zb_addr z = bm) (sf_list s) = Some z"
    by (auto simp: bitmap_ours_def split: if_splits option.splits)
  obtain gf where f: "st_issued (free_surface (ho_board h) (zb_card_offset z) (sf_rtg s)) = st_issued (sf_rtg s) @ [Issue_Acc Acc_Free_Surface gf]"
      "gd_offset gf 0 = zb_card_offset z"
    using free_surface_effect by blast
  have l: "mset (map zb_card_offset (sf_list s)) = add_mset (zb_card_offset z) (mset (map zb_card_offset (unlink bm (sf_list s))))"
    and a: "zb_addr z = bm" "z \<in> set (sf_list s)" using find_unlink [OF z] by simp_all
  show ?thesis
  proof (cases "bd_zorro3 (ho_board h)")
    case True
    have e: "snd (ZZ_FreeBitMap h bm s) =
        s\<lparr>sf_list := unlink bm (sf_list s), sf_rtg := free_surface (ho_board h) (zb_card_offset z) (sf_rtg s)\<rparr>"
      using True Some a by (simp add: ZZ_FreeBitMap_def Let_def upd_rtg_def)
    have "live_after h (rev (st_issued (sf_rtg s))) = add_mset (zb_card_offset z) (mset (map zb_card_offset (unlink bm (sf_list s))))"
      using assms True l by (simp add: booked_def accounted_def Let_def)
    with assms True f free_surface_synced show ?thesis
      unfolding e by (simp add: booked_def accounted_def Let_def)
  next
    case False
    with assms Some a show ?thesis
      by (auto simp: ZZ_FreeBitMap_def Let_def booked_def accounted_def split: if_splits)
  qed
qed

section \<open>Requests\<close>

definition request_width :: "alloc_request \<Rightarrow> u32 \<Rightarrow> u32" where
  "request_width r width = (if ar_constant r \<and> ar_mode_width r > width then ar_mode_width r else width)"

lemma bytes_per_row_nat:
  "unat (bytes_per_row f w) = (if unat w * unat (format_bytes f) < 2 ^ 32 then unat w * unat (format_bytes f) else 0)"
proof (cases "format_bytes f = 0")
  case False
  then have pos: "0 < unat (format_bytes f)" by (simp add: unat_gt_0)
  have "w > (- 1) div format_bytes f \<longleftrightarrow> (2 ^ 32 - 1) div unat (format_bytes f) < unat w"
    by (simp add: word_less_nat_alt unat_div unsigned_minus_1_eq_mask mask_eq_exp_minus_1)
  also have "\<dots> \<longleftrightarrow> \<not> unat w * unat (format_bytes f) < 2 ^ 32"
    using pos by (simp add: div_less_iff_less_mult not_less) linarith
  finally show ?thesis using False by (simp add: bytes_per_row_def Let_def unat_word_ariths)
qed (simp add: bytes_per_row_def)

text \<open>C40: A bitmap is refused exactly when it cannot exist. The stride is the row of the requested width (of the mode, when a constant stride
  is asked for) rounded up to the alignment, computed without wrap-around, and an allocation is refused before the card is asked
  exactly when the format has no pixels in card memory, the alignment is none the card can honour, the picture is empty, the stride does not
  fit its 16 bits or the whole does not fit 32 bits. Otherwise the size asked of the card is that stride times the height.\<close>

theorem alloc_request_exact:
  "let n = unat (request_width r width) * unat (format_bytes (ar_format r)); al = max 4 (unat (ar_alignment r)); row = (n + al - 1) div al * al in
   alloc_refused r width height =
     (format_bytes (ar_format r) = 0 \<or> ar_alignment r \<noteq> 0 \<and> \<not> align_valid (ar_alignment r) \<or> request_width r width = 0 \<or> height = 0 \<or>
      65535 < row \<or> 2 ^ 32 \<le> row * unat height) \<and>
   (\<not> alloc_refused r width height \<longrightarrow> unat (alloc_pitch r width) = row \<and> unat (alloc_pitch r width * height) = row * unat height)"
proof (cases "format_bytes (ar_format r) = 0 \<or> ar_alignment r \<noteq> 0 \<and> \<not> align_valid (ar_alignment r)")
  case True
  then show ?thesis by (auto simp: alloc_refused_def Let_def)
next
  case False
  let ?a = "if ar_alignment r > 4 then ar_alignment r else 4"
  let ?n = "unat (request_width r width) * unat (format_bytes (ar_format r))"
  let ?al = "max 4 (unat (ar_alignment r))"
  define row where "row = (?n + ?al - 1) div ?al * ?al"
  define bytes where "bytes = bytes_per_row (ar_format r) (request_width r width)"
  have "align_valid ?a" using False by (auto simp: align_valid_def)
  moreover have "max 4 (unat ?a) = ?al" by (auto simp: word_less_nat_alt max_def)
  ultimately have pad: "unat (pad_pitch_to bytes ?a) = (let m = (unat bytes + ?al - 1) div ?al * ?al in if m < 4294967296 then m else 0)"
    using pitch_padding_least [of ?a bytes] by (simp add: Let_def)
  have pitch: "alloc_pitch r width = pad_pitch_to bytes ?a"
    by (simp add: alloc_pitch_def bytes_def request_width_def)
  have b: "unat bytes = (if ?n < 2 ^ 32 then ?n else 0)" unfolding bytes_def by (rule bytes_per_row_nat)
  have n_row: "?n \<le> row" unfolding row_def by (rule round_up_least(1)) simp
  have fits: "unat (alloc_pitch r width) = (if row < 2 ^ 32 then row else 0)"
  proof (cases "?n < 2 ^ 32")
    case True
    then show ?thesis using pad b by (simp add: pitch Let_def row_def)
  next
    case False
    then show ?thesis using pad b n_row by (simp add: pitch Let_def)
  qed
  have pos: "?n = 0 \<longleftrightarrow> request_width r width = 0" using False by (simp add: word_unat_eq_iff)
  have zero: "row = 0 \<longleftrightarrow> ?n = 0" using n_row by (auto simp: row_def)
  have fit32: "height > (- 1) div p \<longleftrightarrow> 2 ^ 32 \<le> unat p * unat height" if "p \<noteq> 0" for p :: u32
  proof -
    have "0 < unat p" using that by (simp add: unat_gt_0)
    then show ?thesis
      by (simp add: word_less_nat_alt unat_div unsigned_minus_1_eq_mask mask_eq_exp_minus_1 div_less_iff_less_mult mult.commute) linarith
  qed
  have refused: "alloc_refused r width height \<longleftrightarrow> request_width r width = 0 \<or> height = 0 \<or> 65535 < row \<or> 2 ^ 32 \<le> row * unat height"
  proof (cases "row = 0 \<or> 65535 < row")
    case True
    then show ?thesis using False fits pos zero by (auto simp: alloc_refused_def Let_def word_less_nat_alt word_unat_eq_iff [of "alloc_pitch r width"])
  next
    case small: False
    then have "alloc_pitch r width \<noteq> 0" using fits by (auto simp: word_unat_eq_iff)
    then show ?thesis using False fits fit32 [of "alloc_pitch r width"] small pos zero by (auto simp: alloc_refused_def Let_def word_less_nat_alt)
  qed
  have "unat (alloc_pitch r width * height) = row * unat height" if "row \<le> 65535" "row * unat height < 2 ^ 32"
    using that fits by (simp add: unat_word_ariths)
  with False refused fits show ?thesis unfolding Let_def row_def [symmetric] by (auto simp: not_less not_le)
qed

theorem alloc_request_exact_witness:
  "\<not> alloc_refused no_request 641 480 \<and> unat (alloc_pitch no_request 641 * 480) = 644 * 480"
proof -
  have "\<not> alloc_refused no_request 641 480" by code_simp
  then show ?thesis using alloc_request_exact [of no_request 641 480]
    by (simp add: Let_def no_request_def request_width_def format_bytes_def)
qed

section \<open>Runs of the hooks\<close>

text \<open>
  What the system does between the feature calls: it allocates and releases bitmaps, draws, and keeps bitmaps of its own, whose public
  structures are wherever they are.
\<close>

inductive host_step :: "host \<Rightarrow> surfaces \<Rightarrow> surfaces \<Rightarrow> bool" for h where
  step_alloc: "ZZ_AllocBitMap h width height items tags s = Some (z, s') \<Longrightarrow> host_step h s s'"
| step_free: "host_step h s (snd (ZZ_FreeBitMap h bm s))"
| step_screen: "host_step h s (upd_rtg (run_screen (ho_board h) req) s)"
| step_system: "host_step h s (s\<lparr>sf_bm := m\<rparr>)"

text \<open>Picasso96 acts on the driver through the hooks only: its own bitmap functions are such steps.\<close>

definition p96_by_hooks :: "host \<Rightarrow> bool" where
  "p96_by_hooks h = ((\<forall>w ht f s. (host_step h)\<^sup>*\<^sup>* s (snd (ho_p96_alloc h w ht f s))) \<and> (\<forall>bm s. (host_step h)\<^sup>*\<^sup>* s (ho_p96_free h bm s)))"

text \<open>A run: feature calls with any arguments, and steps of the system that leave the public structure of a live source alone.\<close>

inductive window_run :: "host \<Rightarrow> surfaces \<Rightarrow> surfaces \<Rightarrow> bool" for h s0 where
  run_start: "window_run h s0 s0"
| run_host: "window_run h s0 s \<Longrightarrow> host_step h s s' \<Longrightarrow> sf_bitmap s = 0 \<or> sf_bm s' (sf_bitmap s) = sf_bm s (sf_bitmap s) \<Longrightarrow>
    window_run h s0 s'"
| run_create: "window_run h s0 s \<Longrightarrow> window_run h s0 (snd (ZZ_CreateFeature h ty items tags s))"
| run_set: "window_run h s0 s \<Longrightarrow> window_run h s0 (snd (ZZ_SetFeatureAttrs h fd items tags s))"
| run_delete: "window_run h s0 s \<Longrightarrow> window_run h s0 (snd (ZZ_DeleteFeature h fd ty s))"

lemma booked_step: "host_step h s s' \<Longrightarrow> booked h s \<Longrightarrow> booked h s'"
proof (induction rule: host_step.induct)
  case (step_alloc width height items tags s z s')
  then show ?case using booked_alloc [of h s _ width height]
    by (auto simp: ZZ_AllocBitMap_def split: option.splits) (metis snd_conv)
next
  case (step_free s bm)
  then show ?case by (rule booked_free)
next
  case (step_screen s req)
  have "drawn (sf_rtg s) (sf_rtg (upd_rtg (run_screen (ho_board h) req) s))" by (simp add: upd_rtg_def drawn_screen)
  moreover have "synced (ho_board h) (run_screen (ho_board h) req (sf_rtg s))"
    using step_screen screen_hook_refines [of "ho_board h" req "sf_rtg s"] by (simp add: booked_def reaches_def)
  ultimately show ?case using step_screen accounted_drawn [of h s] by (simp add: booked_def upd_rtg_def)
next
  case (step_system s m)
  then show ?case by (simp add: booked_def accounted_def Let_def split: if_splits)
qed

lemma booked_steps: "(host_step h)\<^sup>*\<^sup>* s s' \<Longrightarrow> booked h s \<Longrightarrow> booked h s'"
  by (induction rule: rtranclp_induct) (auto intro: booked_step)

lemma booked_private [simp]:
  "booked h (s\<lparr>sf_bitmap := bm\<rparr>) = booked h s" "booked h (s\<lparr>sf_overlay := ov\<rparr>) = booked h s" "booked h (set_pending v s) = booked h s"
  "booked h (s\<lparr>sf_bm := m\<rparr>) = booked h s" "booked h (s\<lparr>sf_request := q\<rparr>) = booked h s"
  by (simp_all add: booked_def accounted_def set_pending_def)

lemma booked_reclaim: "booked h s \<Longrightarrow> booked h (reclaim_pip h s)"
  by (simp add: reclaim_pip_def booked_free)

lemma booked_p96:
  assumes "p96_by_hooks h" "booked h s"
  shows "booked h (snd (ho_p96_alloc h w ht f s))" "booked h (ho_p96_free h bm s)"
  using assms booked_steps unfolding p96_by_hooks_def by blast+

lemma booked_free_source: "p96_by_hooks h \<Longrightarrow> booked h s \<Longrightarrow> booked h (overlay_free_source h s)"
  by (simp add: overlay_free_source_def Let_def booked_reclaim booked_p96)

lemma keeps_overlay_fields: "keeps_bytes (overlay_fields h s)"
  unfolding overlay_fields_def Let_def by (intro keeps_bytes_intros keeps_bytes_surface) simp_all

lemma overlay_push_effect:
  assumes "overlay_push h off s = (st, s')" "\<not> (bd_gfxdata (ho_board h) = 0 \<or> \<not> off \<and> sf_bitmap s = 0)"
  defines "g \<equiv> (if off then set_u8 5 1 else overlay_fields h s) (st_gfx (sf_rtg s) (bd_gfxdata (ho_board h)))"
  shows "st_issued (sf_rtg s') = st_issued (sf_rtg s) @ [Issue_Z3 Dma_Video_Overlay g]" "st = ho_status h (st_issued (sf_rtg s'))"
    "synced (ho_board h) (sf_rtg s) \<Longrightarrow> synced (ho_board h) (sf_rtg s')" "s'\<lparr>sf_rtg := sf_rtg s\<rparr> = s"
proof -
  from assms(1,2) have s': "s' = upd_rtg (upd_gfx (bd_gfxdata (ho_board h)) (set_u32 0 st)) (upd_rtg (issue_z3 (bd_gfxdata (ho_board h)) Dma_Video_Overlay \<circ>
      upd_gfx (bd_gfxdata (ho_board h)) (if off then set_u8 5 1 else overlay_fields h s)) s)"
    and st: "st = ho_status h (st_issued (issue_z3 (bd_gfxdata (ho_board h)) Dma_Video_Overlay
      (upd_gfx (bd_gfxdata (ho_board h)) (if off then set_u8 5 1 else overlay_fields h s) (sf_rtg s))))"
    by (auto simp: overlay_push_def Let_def upd_rtg_def)
  show i: "st_issued (sf_rtg s') = st_issued (sf_rtg s) @ [Issue_Z3 Dma_Video_Overlay g]"
    unfolding s' by (simp add: upd_rtg_def st_issued_gfx issue_z3_def g_def) (simp add: upd_gfx_def)
  show "st = ho_status h (st_issued (sf_rtg s'))" unfolding st s' by (simp add: upd_rtg_def st_issued_gfx)
  show "s'\<lparr>sf_rtg := sf_rtg s\<rparr> = s" unfolding s' by (simp add: upd_rtg_def)
  show "synced (ho_board h) (sf_rtg s')" if "synced (ho_board h) (sf_rtg s)"
    unfolding s' using that by (simp add: upd_rtg_def issue_synced synced_gfx keeps_bytes_surface keeps_overlay_fields)
qed

lemma overlay_push_cases:
  assumes "overlay_push h off s = (st, s')"
  obtains (not_sent) "s' = s" "st = 1" "bd_gfxdata (ho_board h) = 0 \<or> \<not> off \<and> sf_bitmap s = 0"
  | (sent) "\<not> (bd_gfxdata (ho_board h) = 0 \<or> \<not> off \<and> sf_bitmap s = 0)"
  using assms by (fastforce simp: overlay_push_def)

lemma booked_push: "booked h s \<Longrightarrow> booked h (snd (overlay_push h off s))"
proof -
  assume b: "booked h s"
  obtain st s' where e: "overlay_push h off s = (st, s')" by fastforce
  from e show ?thesis
  proof (cases rule: overlay_push_cases)
    case sent
    note f = overlay_push_effect [OF e sent]
    from f(4) have "sf_list s' = sf_list s" "sf_pip s' = sf_pip s" by (metis surfaces.select_convs surfaces.surjective surfaces.update_convs)+
    with b f(1,3) show ?thesis by (simp add: e booked_def accounted_def Let_def split: if_splits)
  qed (use b e in simp)
qed

lemma booked_feature: "booked h s \<Longrightarrow> booked h (upd_rtg (write_feature (bd_registers (ho_board h)) n v) s)"
proof -
  assume b: "booked h s"
  have "drawn (sf_rtg s) (sf_rtg (upd_rtg (write_feature (bd_registers (ho_board h)) n v) s))"
    by (simp add: upd_rtg_def drawn_issues drawn_refl)
  moreover have "synced (ho_board h) (write_feature (bd_registers (ho_board h)) n v (sf_rtg s))"
    using b achieves_feature [of "ho_board h" n v "sf_rtg s"] by (simp add: booked_def achieves_def)
  ultimately show ?thesis using b accounted_drawn [of h s] by (simp add: booked_def upd_rtg_def)
qed

lemma booked_open: "p96_by_hooks h \<Longrightarrow> booked h s \<Longrightarrow> booked h (snd (open_feature h s))"
  unfolding open_feature_def Let_def
  by (auto split: prod.splits option.splits bool.splits intro!: booked_free_source simp: booked_feature)
    (metis booked_feature booked_private(2,4) booked_push snd_conv)+

lemma booked_create: "p96_by_hooks h \<Longrightarrow> booked h s \<Longrightarrow> booked h (snd (ZZ_CreateFeature h ty items tags s))"
  unfolding ZZ_CreateFeature_def Let_def
  by (auto split: prod.splits option.splits simp: z2_feature_request_def Let_def intro!: booked_reclaim booked_open)
    (metis booked_p96(1) booked_private snd_conv)+

lemma booked_set: "booked h s \<Longrightarrow> booked h (snd (ZZ_SetFeatureAttrs h fd items tags s))"
  by (auto simp: ZZ_SetFeatureAttrs_def Let_def split_beta booked_push)

lemma booked_delete: "p96_by_hooks h \<Longrightarrow> booked h s \<Longrightarrow> booked h (snd (ZZ_DeleteFeature h fd ty s))"
  by (auto simp: ZZ_DeleteFeature_def Let_def booked_push intro!: booked_free_source)

text \<open>C38: The driver's books on card memory agree with the firmware's allocator. From boot, after any sequence of allocations, releases, drawing and
  video-window calls, on Zorro III the bitmaps the driver keeps are exactly the surfaces the firmware has handed out and not been given
  back, each as often as it was handed out, every release names a surface that is out at that moment (also when the system has no memory
  for the bitmap, and when a feature call fails half-way), and on Zorro II at most one bitmap exists: the owner of the fixed pool, which fits it. The
  write caches still agree with the card.\<close>

theorem surfaces_accounted:
  assumes "p96_by_hooks h" "sf_rtg s0 = boot_state" "sf_list s0 = []" "sf_pip s0 = 0" "window_run h s0 s"
  shows "synced (ho_board h) (sf_rtg s) \<and> accounted h s"
proof -
  from assms(5) have "booked h s"
  proof (induction rule: window_run.induct)
    case run_start
    show ?case using assms boot_synced by (simp add: booked_def accounted_def Let_def boot_state_def)
  qed (use assms(1) booked_step booked_create booked_set booked_delete in blast)+
  then show ?thesis by (simp add: booked_def)
qed

section \<open>The video window\<close>

text \<open>What the firmware is composing from, read off the log (newest entry first): the last accepted command says so.\<close>

fun shown :: "host \<Rightarrow> issued list \<Rightarrow> gfx_data option" where
  "shown h [] = None"
| "shown h (Issue_Z3 op g # log) =
     (if op \<noteq> Dma_Video_Overlay then shown h log
      else if gd_u8 g 5 = 1 then None
      else if ho_status h (rev (Issue_Z3 op g # log)) = 0 then Some g
      else shown h log)"
| "shown h (i # log) = shown h log"

abbreviation composing :: "host \<Rightarrow> issued list \<Rightarrow> bool" where
  "composing h log \<equiv> shown h log \<noteq> None"

text \<open>The descriptor names the memory of the source that the driver holds.\<close>

definition names_source :: "host \<Rightarrow> surfaces \<Rightarrow> gfx_data \<Rightarrow> bool" where
  "names_source h s g =
     (sf_bitmap s \<noteq> 0 \<and> gd_offset g 1 = pb_plane (sf_bm s (sf_bitmap s)) - bd_memory_base (ho_board h) \<and>
      gd_pitch g 1 = pb_bytes_per_row (sf_bm s (sf_bitmap s)))"

text \<open>A source the firmware may read: a legal packed 4:2:2 surface, its rows tight, wholly inside the window.\<close>

definition good_source :: "host \<Rightarrow> gfx_data \<Rightarrow> bool" where
  "good_source h g =
     (16 \<le> unat (gd_x g 2) \<and> unat (gd_x g 2) \<le> 4096 \<and> even (unat (gd_x g 2)) \<and> 16 \<le> unat (gd_y g 2) \<and> unat (gd_y g 2) \<le> 4096 \<and>
      unat (gd_pitch g 1) = 2 * unat (gd_x g 2) \<and> gd_u8 g 4 \<in> {0, 1, 2} \<and>
      unat (gd_offset g 1) + unat (gd_pitch g 1) * unat (gd_y g 2) \<le> unat (ho_window h))"

definition sources_ok :: "host \<Rightarrow> rtg \<Rightarrow> bool" where
  "sources_ok h r = (\<forall>g. Issue_Z3 Dma_Video_Overlay g \<in> set (st_issued r) \<longrightarrow> gd_u8 g 5 = 1 \<or> good_source h g)"

definition source_live :: "host \<Rightarrow> surfaces \<Rightarrow> bool" where
  "source_live h s =
     (let ov = sf_overlay s; p = sf_bm s (sf_bitmap s); w = unat (ov_src_w ov); ht = unat (ov_src_h ov) in
      16 \<le> w \<and> w \<le> 4096 \<and> even w \<and> 16 \<le> ht \<and> ht \<le> 4096 \<and> unat (pb_bytes_per_row p) = 2 * w \<and> overlay_variant (ov_rgbformat ov) \<in> {0, 1, 2} \<and>
      unat (pb_plane p - bd_memory_base (ho_board h)) + 2 * w * ht \<le> unat (ho_window h))"

definition windowed :: "host \<Rightarrow> surfaces \<Rightarrow> bool" where
  "windowed h s = (sources_ok h (sf_rtg s) \<and> (\<forall>g. shown h (rev (st_issued (sf_rtg s))) = Some g \<longrightarrow> names_source h s g \<and> bd_gfxdata (ho_board h) \<noteq> 0) \<and>
     (sf_bitmap s \<noteq> 0 \<longrightarrow> source_live h s))"

text \<open>What the hooks other than the feature calls leave alone.\<close>

definition apart :: "host \<Rightarrow> surfaces \<Rightarrow> surfaces \<Rightarrow> bool" where
  "apart h s s' = (sf_overlay s' = sf_overlay s \<and> sf_bitmap s' = sf_bitmap s \<and> (sources_ok h (sf_rtg s) \<longrightarrow> sources_ok h (sf_rtg s')) \<and>
     shown h (rev (st_issued (sf_rtg s'))) = shown h (rev (st_issued (sf_rtg s))))"

fun silent :: "issued \<Rightarrow> bool" where
  "silent (Issue_Z3 op g) = (op \<noteq> Dma_Video_Overlay)"
| "silent _ = True"

lemma shown_silent: "list_all silent xs \<Longrightarrow> shown h (rev xs @ log) = shown h log"
proof -
  have "list_all silent xs \<Longrightarrow> shown h (xs @ log) = shown h log" for xs
  proof (induction xs)
    case (Cons i xs)
    then show ?case by (cases i) simp_all
  qed simp
  then show "list_all silent xs \<Longrightarrow> shown h (rev xs @ log) = shown h log" by simp
qed

lemma apart_silent:
  assumes "st_issued (sf_rtg s') = st_issued (sf_rtg s) @ xs" "list_all silent xs" "sf_overlay s' = sf_overlay s" "sf_bitmap s' = sf_bitmap s"
  shows "apart h s s'"
  using assms by (auto simp: apart_def sources_ok_def shown_silent list_all_iff)

lemma plain_silent: "plain_issue i \<Longrightarrow> silent i"
  by (cases i) simp_all

lemma apart_drawn:
  assumes "drawn (sf_rtg s) (sf_rtg s')" "sf_overlay s' = sf_overlay s" "sf_bitmap s' = sf_bitmap s"
  shows "apart h s s'"
  using assms apart_silent [of s' s] by (auto simp: drawn_def list_all_iff plain_silent)

lemma apart_refl: "apart h s s" and apart_trans: "apart h s s1 \<Longrightarrow> apart h s1 s2 \<Longrightarrow> apart h s s2"
  by (auto simp: apart_def)

definition silently :: "rtg \<Rightarrow> rtg \<Rightarrow> bool" where
  "silently r r' = (\<exists>xs. st_issued r' = st_issued r @ xs \<and> list_all silent xs)"

lemma silently_refl: "silently r r"
  by (simp add: silently_def)

lemma silently_step: "silently r r1 \<Longrightarrow> st_issued r2 = st_issued r1 @ xs \<Longrightarrow> list_all silent xs \<Longrightarrow> silently r r2"
  unfolding silently_def by fastforce

lemma silently_intros:
  "silently r r1 \<Longrightarrow> silently r (upd_gfx p f r1)" "silently r r1 \<Longrightarrow> silently r (write_gfx_u8 p i v r1)"
  "silently r r1 \<Longrightarrow> silently r (fill_mem d v n r1)" "silently r r1 \<Longrightarrow> silently r (issue_acc p o1 r1)"
  "silently r r1 \<Longrightarrow> silently r (free_surface b off r1)" "silently r r1 \<Longrightarrow> silently r (write_feature base feature k r1)"
  using free_surface_effect(1) [of b off r1]
  by (auto elim!: silently_step simp: st_issued_gfx issue_acc_def write_feature_def Let_def emit_def st_issued_writers)

lemma apart_silently:
  "silently (sf_rtg s) (sf_rtg s') \<Longrightarrow> sf_overlay s' = sf_overlay s \<Longrightarrow> sf_bitmap s' = sf_bitmap s \<Longrightarrow> apart h s s'"
  unfolding silently_def using apart_silent by blast

lemma apart_alloc: "apart h s (snd (alloc_surface h r width height s))"
  by (auto simp: alloc_surface_def Let_def add_bitmap_def upd_rtg_def intro!: apart_silently silently_intros silently_refl)

lemma apart_free: "apart h s (snd (ZZ_FreeBitMap h bm s))"
  by (auto simp: ZZ_FreeBitMap_def Let_def upd_rtg_def split: option.splits intro!: apart_silently silently_intros silently_refl)

lemma apart_step: "host_step h s s' \<Longrightarrow> apart h s s'"
proof (induction rule: host_step.induct)
  case (step_alloc width height items tags s z s')
  then show ?case using apart_alloc [of h s _ width height] apart_refl
    by (auto simp: ZZ_AllocBitMap_def split: option.splits) (metis snd_conv)
qed (auto simp: apart_free upd_rtg_def intro!: apart_drawn drawn_screen drawn_refl)

lemma apart_p96:
  assumes "p96_by_hooks h"
  shows "apart h s (snd (ho_p96_alloc h w ht f s))" "apart h s (ho_p96_free h bm s)"
proof -
  have "apart h s s'" if "(host_step h)\<^sup>*\<^sup>* s s'" for s'
    using that by (induction rule: rtranclp_induct) (auto intro: apart_refl apart_trans apart_step)
  with assms show "apart h s (snd (ho_p96_alloc h w ht f s))" "apart h s (ho_p96_free h bm s)"
    unfolding p96_by_hooks_def by blast+
qed

section \<open>Feature calls keep the window safe\<close>

definition dark :: "host \<Rightarrow> surfaces \<Rightarrow> bool" where
  "dark h s = (sources_ok h (sf_rtg s) \<and> \<not> composing h (rev (st_issued (sf_rtg s))))"

lemma dark_apart: "apart h s s' \<Longrightarrow> dark h s \<Longrightarrow> dark h s'"
  by (simp add: apart_def dark_def)

lemma dark_private [simp]:
  "dark h (s\<lparr>sf_bitmap := bm\<rparr>) = dark h s" "dark h (s\<lparr>sf_overlay := ov\<rparr>) = dark h s" "dark h (set_pending v s) = dark h s"
  "dark h (s\<lparr>sf_bm := m\<rparr>) = dark h s" "dark h (s\<lparr>sf_request := q\<rparr>) = dark h s"
  by (simp_all add: dark_def set_pending_def)

lemma dark_free_source:
  assumes "p96_by_hooks h" "dark h s"
  shows "dark h (overlay_free_source h s) \<and> sf_bitmap (overlay_free_source h s) = 0"
proof (cases "sf_bitmap s = 0")
  case True
  with assms show ?thesis by (simp add: overlay_free_source_def Let_def) (simp add: set_pending_def)
next
  case False
  let ?s1 = "(ho_p96_free h (sf_bitmap s) (set_pending False s))\<lparr>sf_bitmap := 0\<rparr>"
  have d: "dark h ?s1" using assms dark_apart [OF apart_p96(2)] by simp
  have a: "apart h ?s1 (reclaim_pip h ?s1)" by (simp add: reclaim_pip_def apart_free apart_refl)
  have "dark h (reclaim_pip h ?s1)" by (rule dark_apart [OF a d])
  moreover have "sf_bitmap (reclaim_pip h ?s1) = 0" using a by (simp add: apart_def)
  moreover have "overlay_free_source h s = reclaim_pip h ?s1" using False by (simp add: overlay_free_source_def Let_def set_pending_def)
  ultimately show ?thesis by simp
qed

lemma dark_windowed: "dark h s \<Longrightarrow> sf_bitmap s = 0 \<Longrightarrow> windowed h s"
  by (simp add: dark_def windowed_def)

text \<open>Pushing the state of a live source tells the firmware of a good one.\<close>

lemma live_good:
  assumes "source_live h s"
  shows "good_source h (overlay_fields h s gd)" "gd_u8 (overlay_fields h s gd) 5 = 0"
    "sf_bitmap s \<noteq> 0 \<Longrightarrow> names_source h s (overlay_fields h s gd)"
proof -
  let ?ov = "sf_overlay s"
  let ?p = "sf_bm s (sf_bitmap s)"
  have f: "gd_x (overlay_fields h s gd) 2 = ov_src_w ?ov" "gd_y (overlay_fields h s gd) 2 = ov_src_h ?ov"
    "gd_pitch (overlay_fields h s gd) 1 = pb_bytes_per_row ?p"
    "gd_offset (overlay_fields h s gd) 1 = pb_plane ?p - bd_memory_base (ho_board h)"
    "gd_u8 (overlay_fields h s gd) 4 = word_of_int (overlay_variant (ov_rgbformat ?ov))" "gd_u8 (overlay_fields h s gd) 5 = 0"
    by (simp_all add: overlay_fields_def Let_def set_u8_def set_u32_def set_x_def set_y_def set_user_def set_pitch_def set_offset_def)
  from f(6) show "gd_u8 (overlay_fields h s gd) 5 = 0" .
  show "sf_bitmap s \<noteq> 0 \<Longrightarrow> names_source h s (overlay_fields h s gd)" by (simp add: names_source_def f del: One_nat_def)
  from assms show "good_source h (overlay_fields h s gd)"
    by (auto simp: good_source_def f source_live_def Let_def simp del: One_nat_def)
qed

lemma push_on:
  assumes "source_live h s" "sf_bitmap s \<noteq> 0" "sources_ok h (sf_rtg s)" "overlay_push h False s = (st, s')"
  shows "sources_ok h (sf_rtg s') \<and> s'\<lparr>sf_rtg := sf_rtg s\<rparr> = s \<and> (st \<noteq> 0 \<longrightarrow> dark h s \<longrightarrow> dark h s') \<and>
    (\<forall>g. shown h (rev (st_issued (sf_rtg s'))) = Some g \<longrightarrow> names_source h s g \<or> shown h (rev (st_issued (sf_rtg s))) = Some g)"
  using assms(4)
proof (cases rule: overlay_push_cases)
  case not_sent
  then show ?thesis using assms by simp
next
  case sent
  note f = overlay_push_effect [OF assms(4) sent]
  define g where "g = overlay_fields h s (st_gfx (sf_rtg s) (bd_gfxdata (ho_board h)))"
  have g: "good_source h g" "gd_u8 g 5 = 0" unfolding g_def by (rule live_good [OF assms(1)])+
  have n: "names_source h s g" unfolding g_def by (rule live_good(3) [OF assms(1,2)])
  have i: "st_issued (sf_rtg s') = st_issued (sf_rtg s) @ [Issue_Z3 Dma_Video_Overlay g]" using f(1) by (simp add: g_def)
  have "sources_ok h (sf_rtg s')" using assms(3) g i by (auto simp: sources_ok_def)
  then show ?thesis using f(2,4) i g n by (auto simp: dark_def)
qed

lemma same_but_rtg:
  assumes "s'\<lparr>sf_rtg := sf_rtg s\<rparr> = s"
  shows "sf_bitmap s' = sf_bitmap s" "sf_overlay s' = sf_overlay s" "sf_bm s' = sf_bm s"
  by (metis assms surfaces.select_convs(3,6,7) surfaces.surjective surfaces.update_convs(1))+

lemma line_bytes_even:
  fixes w :: u16
  assumes "16 \<le> unat w" "unat w \<le> 4096" "even (unat w)"
  shows "overlay_line_bytes (ucast w) = 2 * ucast w" "unat (overlay_line_bytes (ucast w)) = 2 * unat w"
proof -
  obtain k where k: "unat w = 2 * k" "8 \<le> k" "k \<le> 2048" using assms by (auto elim!: evenE)
  have w: "(ucast w :: u32) = of_nat (2 * k)" by (simp add: ucast_of_unat k)
  have "unat ((of_nat (2 * k) + 1) div 2 :: u32) = (2 * k + 1) div 2"
    using k by (simp add: unat_div unat_word_ariths unat_of_nat)
  then have d: "(of_nat (2 * k) + 1) div 2 = (of_nat k :: u32)" using k by (intro word_unat_eq_iff [THEN iffD2]) (simp add: unat_of_nat)
  have "\<not> (of_nat (2 * k) = (0 :: u32) \<or> of_nat (2 * k) > (4096 :: u32))"
    using k by (simp add: word_less_nat_alt unat_of_nat word_unat_eq_iff unat_word_ariths)
  then show e: "overlay_line_bytes (ucast w) = 2 * ucast w"
    unfolding overlay_line_bytes_def w d by simp
  show "unat (overlay_line_bytes (ucast w)) = 2 * unat w"
    unfolding e using assms by (simp add: unat_word_ariths)
qed

lemma valid_dims:
  fixes w ht :: u16
  assumes "overlay_source_valid (ucast w) (ucast ht) f"
  shows "16 \<le> unat w" "unat w \<le> 4096" "even (unat w)" "16 \<le> unat ht" "unat ht \<le> 4096" "overlay_variant f \<in> {0, 1, 2}"
proof -
  from assms show "16 \<le> unat w" "unat w \<le> 4096" "16 \<le> unat ht" "unat ht \<le> 4096"
    by (simp_all add: overlay_source_valid_def word_le_nat_alt)
  from assms show "overlay_variant f \<in> {0, 1, 2}" by (auto simp: overlay_source_valid_def overlay_variant_def split: if_splits)
  from assms have "(ucast w :: u32) mod 2 = 0" by (simp add: overlay_source_valid_def and_one_eq)
  then have "unat ((ucast w :: u32) mod 2) = 0" by simp
  then show "even (unat w)" by (simp add: unat_mod even_iff_mod_2_eq_zero)
qed

lemma on_board_bytes:
  assumes "source_on_board h pitch s"
  shows "unat (pb_plane (sf_bm s (sf_bitmap s)) - bd_memory_base (ho_board h)) + unat pitch * unat (ov_src_h (sf_overlay s)) \<le> unat (ho_window h)"
proof -
  let ?p = "pb_plane (sf_bm s (sf_bitmap s))"
  let ?h = "ov_src_h (sf_overlay s)"
  have "unat pitch * unat ?h < 2 ^ 32" using mult_strict_mono [OF unat_lt [of pitch] unat_lt [of ?h]] by simp
  then have n: "unat (ucast pitch * ucast ?h :: u32) = unat pitch * unat ?h" by (simp add: unat_word_ariths)
  from assms have "range_within ?p (ucast pitch * ucast ?h) (bd_memory_base (ho_board h)) (ho_window h)"
    by (auto simp: source_on_board_def Let_def split: if_splits)
  then have r: "unat (bd_memory_base (ho_board h)) \<le> unat ?p" "unat ?p + unat pitch * unat ?h \<le> unat (bd_memory_base (ho_board h)) + unat (ho_window h)"
    unfolding range_within_exact n by simp_all
  then have "unat (?p - bd_memory_base (ho_board h)) = unat ?p - unat (bd_memory_base (ho_board h))"
    by (intro unat_minus_le) (simp add: word_le_nat_alt)
  with r show ?thesis by simp
qed

lemma windowed_open:
  assumes "p96_by_hooks h" "dark h s" "sf_bitmap s \<noteq> 0"
    "overlay_source_valid (ucast (ov_src_w (sf_overlay s))) (ucast (ov_src_h (sf_overlay s))) (ov_rgbformat (sf_overlay s))"
  shows "windowed h (snd (open_feature h s))"
proof -
  let ?ov = "sf_overlay s"
  let ?p = "sf_bm s (sf_bitmap s)"
  let ?pitch = "pb_bytes_per_row ?p"
  note dims = valid_dims [OF assms(4)]
  note lb = line_bytes_even [OF dims(1-3)]
  have closed: "windowed h (overlay_free_source h s')" if "dark h s'" for s'
    using dark_free_source [OF assms(1) that] by (intro dark_windowed) simp_all
  show ?thesis
  proof (cases "unat ?pitch < 2 * unat (ov_src_w ?ov)")
    case True
    then have "overlay_tighten_pitch (ucast (ov_src_w ?ov)) (Some ?pitch) = (False, Some ?pitch)"
      by (simp add: overlay_tighten_pitch_def Let_def word_less_nat_alt lb(2))
    then show ?thesis using closed [OF assms(2)] by (simp add: open_feature_def Let_def)
  next
    case False
    define tight :: u16 where "tight = ucast (overlay_line_bytes (ucast (ov_src_w ?ov)))"
    have tight: "unat tight = 2 * unat (ov_src_w ?ov)"
      unfolding tight_def using lb(2) dims(2) by (simp add: unat_ucast_down)
    have "overlay_line_bytes (ucast (ov_src_w ?ov)) \<noteq> 0" using lb(2) dims(1) by auto
    then have t: "overlay_tighten_pitch (ucast (ov_src_w ?ov)) (Some ?pitch) = (True, Some tight)"
      using False by (simp add: overlay_tighten_pitch_def Let_def word_less_nat_alt lb(2) tight_def)
    define s1 where "s1 = s\<lparr>sf_bm := (sf_bm s)(sf_bitmap s := ?p\<lparr>pb_bytes_per_row := tight\<rparr>)\<rparr>"
    define s2 where "s2 = upd_rtg (write_feature (bd_registers (ho_board h)) 3 1) s1"
    define s3 where "s3 = s2\<lparr>sf_overlay := (sf_overlay s2)\<lparr>ov_magic := OVERLAY_MAGIC\<rparr>\<rparr>"
    obtain st s4 where push: "overlay_push h False s3 = (st, s4)" by fastforce
    have o: "open_feature h s = (if \<not> source_on_board h ?pitch s1 then (0, overlay_free_source h s1)
        else if st \<noteq> 0 then (0, overlay_free_source h (s4\<lparr>sf_overlay := (sf_overlay s4)\<lparr>ov_magic := 0\<rparr>\<rparr>)) else (ho_feature h, s4))"
      using push by (simp add: open_feature_def Let_def t s1_def s2_def s3_def)
    have d1: "dark h s1" using assms(2) by (simp add: s1_def)
    have "apart h s1 s2" by (simp add: s2_def upd_rtg_def apart_silently silently_intros silently_refl)
    with d1 have d3: "dark h s3" by (simp add: s3_def dark_apart)
    have m: "2 * unat (ov_src_w ?ov) * unat (ov_src_h ?ov) \<le> unat ?pitch * unat (ov_src_h ?ov)"
      using False by (intro mult_le_mono1) simp
    have fits: "unat (pb_plane ?p - bd_memory_base (ho_board h)) + 2 * unat (ov_src_w ?ov) * unat (ov_src_h ?ov) \<le> unat (ho_window h)"
      if "source_on_board h ?pitch s1"
      by (rule order_trans [OF add_left_mono [OF m]]) (use on_board_bytes [OF that] in \<open>simp add: s1_def\<close>)
    have live: "source_live h s3" if "source_on_board h ?pitch s1"
      using fits [OF that] dims tight
      by (simp add: source_live_def s1_def s2_def s3_def upd_rtg_def Let_def)
    have b3: "sf_bitmap s3 \<noteq> 0" using assms(3) by (simp add: s1_def s2_def s3_def upd_rtg_def)
    show ?thesis
    proof (cases "source_on_board h ?pitch s1")
      case False
      with closed [OF d1] show ?thesis by (simp add: o)
    next
      case True
      have p: "sources_ok h (sf_rtg s4)" "s4\<lparr>sf_rtg := sf_rtg s3\<rparr> = s3" "st \<noteq> 0 \<Longrightarrow> dark h s4"
        "shown h (rev (st_issued (sf_rtg s4))) = Some g \<Longrightarrow> names_source h s3 g" for g
        using push_on [OF live [OF True] b3 _ push] d3 by (auto simp: dark_def)
      have "windowed h s4" if "st = 0"
      proof -
        from push that have "bd_gfxdata (ho_board h) \<noteq> 0" by (auto simp: overlay_push_def split: if_splits)
        moreover have "source_live h s4" using live [OF True] same_but_rtg [OF p(2)] by (simp add: source_live_def)
        ultimately show ?thesis using p(1,4) b3 same_but_rtg [OF p(2)] by (simp add: windowed_def names_source_def)
      qed
      with True p(3) closed show ?thesis by (simp add: o)
    qed
  qed
qed

lemma windowed_create:
  assumes "p96_by_hooks h" "windowed h s"
  shows "windowed h (snd (ZZ_CreateFeature h ty items tags s))"
proof (cases "sf_bitmap s = 0")
  case False
  with assms(2) show ?thesis by (simp add: ZZ_CreateFeature_def Let_def)
next
  case True
  with assms(2) have d: "dark h s" by (auto simp: windowed_def dark_def names_source_def)
  define s1 where "s1 = s\<lparr>sf_overlay := tag_loop 64 items (\<lambda>tag d ov. snd (overlay_apply_tag ov tag d)) tags no_overlay\<rparr>"
  have s1: "windowed h s1" "dark h s1" "sf_bitmap s1 = 0" using d True by (simp_all add: s1_def dark_windowed)
  show ?thesis
  proof (cases "overlay_source_valid (ucast (ov_src_w (sf_overlay s1))) (ucast (ov_src_h (sf_overlay s1))) (ov_rgbformat (sf_overlay s1))")
    case False
    with assms(2) s1(1) show ?thesis by (simp add: ZZ_CreateFeature_def Let_def s1_def [symmetric])
  next
    case valid: True
    show ?thesis
    proof (cases "z2_feature_request h s1")
      case None
      with assms(2) s1(1) show ?thesis by (simp add: ZZ_CreateFeature_def Let_def s1_def [symmetric])
    next
      case (Some s2)
      then have s2: "dark h s2" "sf_bitmap s2 = 0" "sf_overlay s2 = sf_overlay s1"
        using s1 by (auto simp: z2_feature_request_def Let_def split: if_splits option.splits)
      define s2' where "s2' = (if bd_zorro3 (ho_board h) then s2 else set_pending True s2)"
      define w where "w = overlay_friend_width (ucast (ov_src_w (sf_overlay s1))) (format_bytes (ho_format h))"
      obtain bm s3 where p: "ho_p96_alloc h w (ucast (ov_src_h (sf_overlay s1))) (ov_rgbformat (sf_overlay s1)) s2' = (bm, s3)" by fastforce
      have a: "apart h s2' s3" using apart_p96(1) [OF assms(1)] p by (metis snd_conv)
      have d2: "dark h s2'" "sf_overlay s2' = sf_overlay s1" using s2 by (simp_all add: s2'_def) (simp add: set_pending_def)
      have s3: "dark h s3" by (rule dark_apart [OF a d2(1)])
      have s3': "sf_overlay s3 = sf_overlay s1" using a d2(2) by (simp add: apart_def)
      define s4 where "s4 = set_pending False (s3\<lparr>sf_bitmap := bm\<rparr>)"
      have s4: "dark h s4" "sf_overlay s4 = sf_overlay s1" "sf_bitmap s4 = bm"
        using s3 s3' by (simp_all add: s4_def) (simp_all add: set_pending_def)
      have e: "snd (ZZ_CreateFeature h ty items tags s) \<in> {s, s1, s2, if bm = 0 then reclaim_pip h s4 else snd (open_feature h s4)}"
        using True Some valid p
        by (cases "bm = 0") (simp_all add: ZZ_CreateFeature_def Let_def s1_def [symmetric] s2'_def [symmetric] w_def [symmetric] s4_def)
      have "windowed h (reclaim_pip h s4)" if "bm = 0"
      proof -
        have "apart h s4 (reclaim_pip h s4)" by (simp add: reclaim_pip_def apart_free apart_refl)
        then show ?thesis using dark_apart s4 that by (intro dark_windowed) (blast, simp add: apart_def)
      qed
      moreover have "windowed h (snd (open_feature h s4))" if "bm \<noteq> 0"
        using windowed_open [OF assms(1) s4(1)] that s4 valid by simp
      ultimately show ?thesis using e assms(2) s1(1) dark_windowed [OF s2(1,2)] by auto
    qed
  qed
qed

lemma tag_loop_inv:
  assumes "\<And>tag d acc. keep acc \<Longrightarrow> keep (f tag d acc)" "keep acc"
  shows "keep (tag_loop n items f p acc)"
  using assms(2) by (induction n arbitrary: p acc) (simp_all add: Let_def split_beta assms(1))

text \<open>The attributes of a live feature never change what describes its source.\<close>

definition source_kept :: "overlay_state \<Rightarrow> overlay_state \<Rightarrow> bool" where
  "source_kept ov ov' = (ov_src_w ov' = ov_src_w ov \<and> ov_src_h ov' = ov_src_h ov \<and> ov_rgbformat ov' = ov_rgbformat ov)"

lemma set_tag_keeps: "source_kept ov (fst acc) \<Longrightarrow> source_kept ov (fst (set_feature_tag tag d acc))"
  by (cases acc) (auto simp: set_feature_tag_def source_kept_def overlay_tag_create_only_def overlay_apply_tag_def split: if_splits)

lemma windowed_set: "windowed h s \<Longrightarrow> windowed h (snd (ZZ_SetFeatureAttrs h fd items tags s))"
proof (cases "overlay_cookie_ok h fd s")
  case True
  assume w: "windowed h s"
  obtain ov dirty count where l: "tag_loop 64 items set_feature_tag tags (sf_overlay s, False, 0) = (ov, dirty, count)"
    by (metis prod_cases3)
  have "source_kept (sf_overlay s) (fst (tag_loop 64 items set_feature_tag tags (sf_overlay s, False, 0)))"
    by (rule tag_loop_inv [where keep = "\<lambda>acc. source_kept (sf_overlay s) (fst acc)"]) (rule set_tag_keeps, assumption, simp add: source_kept_def)
  then have k: "source_kept (sf_overlay s) ov" using l by simp
  define s1 where "s1 = s\<lparr>sf_overlay := ov\<rparr>"
  have b: "sf_bitmap s \<noteq> 0" using True by (simp add: overlay_cookie_ok_def)
  have live: "source_live h s1" using w b k by (simp add: windowed_def source_live_def source_kept_def s1_def Let_def)
  have w1: "windowed h s1" using w live by (simp add: windowed_def names_source_def s1_def)
  have "windowed h (snd (overlay_push h False s1))"
  proof -
    obtain st s' where push: "overlay_push h False s1 = (st, s')" by fastforce
    have b1: "sf_bitmap s1 \<noteq> 0" "sources_ok h (sf_rtg s1)" using b w1 by (simp_all add: s1_def windowed_def)
    from push show ?thesis
    proof (cases rule: overlay_push_cases)
      case not_sent
      with push w1 show ?thesis by simp
    next
      case sent
      have p: "sources_ok h (sf_rtg s')" "s'\<lparr>sf_rtg := sf_rtg s1\<rparr> = s1"
        "shown h (rev (st_issued (sf_rtg s'))) = Some g \<Longrightarrow> names_source h s1 g" for g
        using push_on [OF live b1 push] w1 by (auto simp: windowed_def)
      have "source_live h s'" using live same_but_rtg [OF p(2)] by (simp add: source_live_def)
      with sent p b1 same_but_rtg [OF p(2)] push show ?thesis by (simp add: windowed_def names_source_def)
    qed
  qed
  with True w1 l show ?thesis by (simp add: ZZ_SetFeatureAttrs_def s1_def Let_def)
qed (simp add: ZZ_SetFeatureAttrs_def)

lemma delete_dark:
  assumes "p96_by_hooks h" "windowed h s" "fst (ZZ_DeleteFeature h fd ty s)"
  shows "dark h (snd (ZZ_DeleteFeature h fd ty s)) \<and> sf_bitmap (snd (ZZ_DeleteFeature h fd ty s)) = 0"
proof -
  obtain st s1 where push: "overlay_push h True s = (st, s1)" by fastforce
  have "dark h s1"
    using push
  proof (cases rule: overlay_push_cases)
    case not_sent
    then show ?thesis using assms(2) by (simp add: windowed_def dark_def)
  next
    case sent
    note f = overlay_push_effect [OF push sent]
    have "gd_u8 (set_u8 5 1 gd) 5 = 1" for gd by (simp add: set_u8_def)
    with f(1) assms(2) show ?thesis by (auto simp: dark_def windowed_def sources_ok_def)
  qed
  then show ?thesis
    using assms(3) push dark_free_source [OF assms(1)] by (auto simp: ZZ_DeleteFeature_def Let_def split: if_splits)
qed

text \<open>
  A run in which the system leaves the source of an open feature alone: it does not release it (whether it is one of the driver's own surfaces does not
  change), and does not rewrite its public structure. Picasso96 gives a bitmap back only to the one who asked for it, here the driver.
\<close>

definition source_left_alone :: "host \<Rightarrow> surfaces \<Rightarrow> surfaces \<Rightarrow> bool" where
  "source_left_alone h s s' =
     (sf_bitmap s \<noteq> 0 \<longrightarrow> sf_bm s' (sf_bitmap s) = sf_bm s (sf_bitmap s) \<and> bitmap_ours h s' (sf_bitmap s) = bitmap_ours h s (sf_bitmap s))"

inductive respectful_run :: "host \<Rightarrow> surfaces \<Rightarrow> surfaces \<Rightarrow> bool" for h s0 where
  resp_start: "respectful_run h s0 s0"
| resp_host: "respectful_run h s0 s \<Longrightarrow> host_step h s s' \<Longrightarrow> source_left_alone h s s' \<Longrightarrow> respectful_run h s0 s'"
| resp_create: "respectful_run h s0 s \<Longrightarrow> respectful_run h s0 (snd (ZZ_CreateFeature h ty items tags s))"
| resp_set: "respectful_run h s0 s \<Longrightarrow> respectful_run h s0 (snd (ZZ_SetFeatureAttrs h fd items tags s))"
| resp_delete: "respectful_run h s0 s \<Longrightarrow> respectful_run h s0 (snd (ZZ_DeleteFeature h fd ty s))"

lemma respectful_booked:
  assumes "p96_by_hooks h" "booked h s0" "respectful_run h s0 s"
  shows "booked h s"
  using assms(3,2)
  by (induction rule: respectful_run.induct) (use assms(1) booked_step booked_create booked_set booked_delete in blast)+

lemma respectful_windowed:
  assumes "p96_by_hooks h" "windowed h s0" "respectful_run h s0 s"
  shows "windowed h s"
  using assms(3,2)
proof (induction rule: respectful_run.induct)
  case (resp_host s s')
  then have w: "windowed h s" and a: "apart h s s'" and l: "source_left_alone h s s'" using apart_step by blast+
  then show ?case
    by (auto simp: windowed_def apart_def source_live_def names_source_def source_left_alone_def)
next
  case (resp_delete s fd ty)
  show ?case
  proof (cases "fst (ZZ_DeleteFeature h fd ty s)")
    case True
    with delete_dark [OF assms(1) _ True] resp_delete show ?thesis by (blast intro: dark_windowed)
  next
    case False
    then have "snd (ZZ_DeleteFeature h fd ty s) = s" by (auto simp: ZZ_DeleteFeature_def Let_def split: if_splits)
    with resp_delete show ?thesis by simp
  qed
qed (use assms(1) windowed_create windowed_set in blast)+

text \<open>C39: The firmware never composes a video window from memory the driver does not hold for it. Take any run of feature calls with any arguments,
  with drawing, allocations and releases by the system in between, in which the system leaves the source bitmap of an open feature alone. Then every
  surface the firmware was told to show is a legal packed 4:2:2 picture with tight rows that lies wholly inside the card's window; what the firmware composes from at the end is
  the memory of the source bitmap that the driver holds at that moment, with its row length; and if that bitmap is one of the driver's own card surfaces
  on Zorro III, the firmware has not been given it back. A call that deletes the feature leaves the firmware dark and the driver without a source.\<close>

theorem video_window_confined:
  assumes "p96_by_hooks h" "sf_rtg s0 = boot_state" "sf_bitmap s0 = 0" "sf_list s0 = []" "sf_pip s0 = 0" "respectful_run h s0 s"
  shows "(\<forall>g. Issue_Z3 Dma_Video_Overlay g \<in> set (st_issued (sf_rtg s)) \<longrightarrow> gd_u8 g 5 = 1 \<or> good_source h g) \<and>
    (\<forall>g. shown h (rev (st_issued (sf_rtg s))) = Some g \<longrightarrow> names_source h s g \<and>
       (\<forall>z. bd_zorro3 (ho_board h) \<and> bitmap_ours h s (sf_bitmap s) = Some z \<longrightarrow>
          zb_card_offset z \<in># live_after h (rev (st_issued (sf_rtg s))))) \<and>
    (\<forall>fd ty. fst (ZZ_DeleteFeature h fd ty s) \<longrightarrow>
       shown h (rev (st_issued (sf_rtg (snd (ZZ_DeleteFeature h fd ty s))))) = None \<and> sf_bitmap (snd (ZZ_DeleteFeature h fd ty s)) = 0)"
proof -
  have "windowed h s0" using assms(2,3) by (simp add: windowed_def sources_ok_def boot_state_def Let_def)
  from respectful_windowed [OF assms(1) this assms(6)] have w: "windowed h s" .
  have "booked h s0" using assms(2,4,5) boot_synced by (simp add: booked_def accounted_def Let_def boot_state_def)
  from respectful_booked [OF assms(1) this assms(6)] have a: "accounted h s" by (simp add: booked_def)
  have "zb_card_offset z \<in># live_after h (rev (st_issued (sf_rtg s)))"
    if "bd_zorro3 (ho_board h)" "bitmap_ours h s (sf_bitmap s) = Some z" for z
  proof -
    from that(2) have "find (\<lambda>z. zb_addr z = sf_bitmap s) (sf_list s) = Some z"
      by (auto simp: bitmap_ours_def split: if_splits option.splits)
    then have "z \<in> set (sf_list s)" by (rule find_unlink(3))
    then have "zb_card_offset z \<in># mset (map zb_card_offset (sf_list s))" by simp
    then show ?thesis using a that(1) by (simp only: accounted_def Let_def if_True)
  qed
  with w delete_dark [OF assms(1) w] show ?thesis by (auto simp: windowed_def sources_ok_def dark_def)
qed

section \<open>A sample session\<close>

text \<open>A Zorro III board whose firmware hands out one surface and accepts every overlay, and a Picasso96 that takes its bitmaps from the hook.\<close>

definition sample_board :: board where
  "sample_board = \<lparr>bd_registers = 0x40000000, bd_memory_base = 0x40010000, bd_memory_size = 0x3000000, bd_gfxdata = 0x43200000, bd_zorro3 = True,
     bd_aperture_info = 0, bd_template_offset = 0, bd_default = \<lambda>_. True\<rparr>"

definition sample_base :: host where
  "sample_base = \<lparr>ho_board = sample_board, ho_window = 0x7FF0000, ho_pip_offset = 0, ho_pip_size = 0, ho_format = 10, ho_alloc_hook = True, ho_p96 = True,
     ho_surface = \<lambda>_. 0x3400000, ho_status = \<lambda>_. 0, ho_alloc_mem = \<lambda>_. 0x1000,
     ho_p96_alloc = \<lambda>w ht f s. (0, s), ho_p96_free = \<lambda>bm s. s, ho_feature = 0x2000, ho_rport = 0x2100\<rparr>"

definition sample_host :: host where
  "sample_host = sample_base\<lparr>ho_p96_alloc := \<lambda>w ht f s. alloc_surface sample_base no_request (2 * w) ht s\<rparr>"

definition sample_tags :: tag_items where
  "sample_tags p = (if p = 0x100 then (0x8000000A, 320) else if p = 0x108 then (0x8000000B, 200) else if p = 0x110 then (0x80000007, 14) else (0, 0))"

definition sample_start :: surfaces where
  "sample_start = \<lparr>sf_rtg = boot_state, sf_list = [], sf_bm = \<lambda>_. \<lparr>pb_bytes_per_row = 0, pb_rows = 0, pb_depth = 0, pb_plane = 0\<rparr>,
     sf_request = \<lparr>pr_pending = False, pr_pitch = 0, pr_size = 0, pr_width = 0, pr_height = 0, pr_format = 0\<rparr>, sf_pip = 0,
     sf_overlay = no_overlay, sf_bitmap = 0\<rparr>"

lemma sample_by_hooks: "p96_by_hooks sample_host"
proof -
  have a: "alloc_surface sample_base = alloc_surface sample_host"
  proof -
    have f: "ho_board sample_host = ho_board sample_base" "ho_pip_size sample_host = ho_pip_size sample_base"
      "ho_pip_offset sample_host = ho_pip_offset sample_base" "ho_surface sample_host = ho_surface sample_base"
      "ho_alloc_mem sample_host = ho_alloc_mem sample_base" by (simp_all add: sample_host_def)
    have "add_bitmap sample_host = add_bitmap sample_base" by (intro ext) (simp add: add_bitmap_def f)
    then show ?thesis by (intro ext) (simp only: alloc_surface_def f)
  qed
  have n: "alloc_tags items 0 r = Some (Some r)" for items r by (subst alloc_tags.simps) simp
  have "host_step sample_host s (snd (alloc_surface sample_host no_request w ht s))" for w ht s
    by (rule step_alloc [where tags = 0 and items = sample_tags and width = w and height = ht and z = "fst (alloc_surface sample_host no_request w ht s)"])
      (simp add: ZZ_AllocBitMap_def n)
  note step = r_into_rtranclp [of "host_step sample_host", OF this]
  have p: "ho_p96_alloc sample_host w ht f s = alloc_surface sample_base no_request (2 * w) ht s" for w ht f s
    by (simp add: sample_host_def)
  have q: "ho_p96_free sample_host bm s = s" for bm s by (simp add: sample_host_def sample_base_def)
  show ?thesis unfolding p96_by_hooks_def p q a using step by blast
qed

lemma sample_session:
  defines "s \<equiv> snd (ZZ_CreateFeature sample_host 4 sample_tags 0x100 sample_start)"
  shows "composing sample_host (rev (st_issued (sf_rtg s)))" "map zb_card_offset (sf_list s) = [0x3400000]"
  unfolding s_def by code_simp+

lemma sample_zorro3: "bd_zorro3 (ho_board sample_host)"
  by (simp add: sample_host_def sample_base_def sample_board_def)

lemma sample_clean: "sf_rtg sample_start = boot_state" "sf_list sample_start = []" "sf_pip sample_start = 0" "sf_bitmap sample_start = 0"
  by (simp_all add: sample_start_def)

lemma sample_run: "window_run sample_host sample_start (snd (ZZ_CreateFeature sample_host 4 sample_tags 0x100 sample_start))"
  by (intro run_create run_start)

theorem surfaces_accounted_witness:
  "live_after sample_host (rev (st_issued (sf_rtg (snd (ZZ_CreateFeature sample_host 4 sample_tags 0x100 sample_start))))) = {#0x3400000#}"
  using surfaces_accounted [OF sample_by_hooks sample_clean(1-3) sample_run] sample_session(2) sample_zorro3
  by (simp add: accounted_def Let_def)

lemma sample_respectful: "respectful_run sample_host sample_start (snd (ZZ_CreateFeature sample_host 4 sample_tags 0x100 sample_start))"
  by (intro resp_create resp_start)

lemma sample_ours:
  "map_option zb_card_offset (bitmap_ours sample_host (snd (ZZ_CreateFeature sample_host 4 sample_tags 0x100 sample_start))
     (sf_bitmap (snd (ZZ_CreateFeature sample_host 4 sample_tags 0x100 sample_start)))) = Some 0x3400000"
  by code_simp

theorem video_window_confined_witness:
  "let s = snd (ZZ_CreateFeature sample_host 4 sample_tags 0x100 sample_start); log = rev (st_issued (sf_rtg s))
   in (\<exists>g. shown sample_host log = Some g \<and> names_source sample_host s g) \<and> 0x3400000 \<in># live_after sample_host log"
  using video_window_confined [OF sample_by_hooks sample_clean(1,4,2,3) sample_respectful] sample_session(1) sample_ours sample_zorro3
  by (fastforce simp: Let_def)

end
