(* ===== verification/Spec2Isabelle.thy ===== *)
theory Spec2Isabelle
  imports UsbRequest_Correct UsbDiag_Correct UsbStream_Correct UsbPolicy NetRx_Correct NetTx
    NetMcast_Correct FwZip_Progress FwVersion_Correct FwJson_Correct FwHttp_Correct
    FwupClient_Correct VcapLive_Correct VcapCal_Correct VcapClient_Correct RtgMode_Correct RtgMemory_Correct
    RtgOverlay RtgDraw_Correct RtgScreen_Correct RtgDisplay_Correct RtgSurface_Correct
begin

text \<open>
  A model of the host-side drivers of the ZZ9000, an FPGA graphics, network and USB card for
  68k Amigas, and the theorems that make its decision-making parts correct. The drivers run
  under AmigaOS; the card is reached through registers, a mailbox and shared memory.

  \<^bold>\<open>Conventions.\<close> A C integer is a word of its width; \<^verbatim>\<open>unsigned\<close>, \<^verbatim>\<open>unsigned long\<close> and \<^verbatim>\<open>size_t\<close> have 32 bits.
  A struct is a record, an enum a datatype, a pointer whose NULL guard is code an option. An operation
  takes the old state and returns the new one with its result; errors and early returns are values. Code outside
  the repository's own C (the card's firmware, AmigaOS, Picasso96, the vendored inflater) is a
  parameter; what is relied on of it is a named hypothesis or the assumption of a locale, and each
  has an interpretation or a witness. \<open>Prelude\<close> has the shared types, codecs and interfaces
  (\<open>invariant_machine\<close>, \<open>stream_consumer\<close>, \<open>codec\<close>), \<open>Pipeline\<close> the bounded pipeline of jobs.

  \<^bold>\<open>USB\<close> (\<^verbatim>\<open>usb-poseidon/\<close>). \<open>UsbEngine\<close> is \<^verbatim>\<open>zzusb_engine.c\<close>: the life cycle of a request and the
  diagnostic ring with its critical section and generation count. \<open>UsbRequest_Correct\<close>: the request
  invariant, at most one reply and one release, over any calls. \<open>UsbDiag_Correct\<close>: the ring refines an
  unbounded history, a snapshot taken between arbitrary mutations is consistent. \<open>UsbIso\<close> is
  \<^verbatim>\<open>zzusb_iso.c\<close>: packet plans, the wire format and the real-time streams; \<open>UsbIso_Correct\<close> and
  \<open>UsbStream_Correct\<close>: round trip, layout, conservation of batches, removal. \<open>UsbPolicy\<close> is \<^verbatim>\<open>zzusb_policy.c\<close> with its lemmas.

  \<^bold>\<open>Network\<close> (\<^verbatim>\<open>net/\<close>). \<open>NetRx\<close> (\<^verbatim>\<open>rx.c\<close>): classification of receive slots, exact accounting of missed frames.
  \<open>NetTx\<close> (\<^verbatim>\<open>tx.c\<close>): slots owned by the card are never reused, over interleavings with the card.
  \<open>NetMcast\<close> (\<^verbatim>\<open>mcast.c\<close>): the membership table refines a multiset of joins.

  \<^bold>\<open>Firmware update\<close> (\<^verbatim>\<open>common/\<close>). From \<^verbatim>\<open>fw_release.c\<close>: \<open>FwDigest\<close> (CRC-32, SHA-256, boot header),
  \<open>FwZip\<close> (the streaming archive reader), \<open>FwVersion\<close> (tags, variants, asset names), \<open>FwJson\<close>, \<open>FwHttp\<close> (URLs, response head,
  chunked coding). The theories \<open>_Correct\<close> and \<open>FwZip_Progress\<close> show that digests and decoders do not depend on the
  pieces the network delivers, that only verified images are reported complete, and that the reader
  returns. \<open>FwupClient\<close> is \<^verbatim>\<open>fwup_client.c\<close>, the push protocol and the bundle installer, against the
  interface \<open>fwup_card\<close> of card and host.

  \<^bold>\<open>Video capture\<close> (\<^verbatim>\<open>common/zz_vcap_*.c\<close>, \<^verbatim>\<open>include/*_calibration.h\<close>). \<open>VcapLive\<close>: control, status and
  phase words and staged edits. \<open>VcapCal\<close>: the measurements. \<open>VcapClient\<close>: phase and window
  requests and frozen fields over the register seam; its properties speak of the log of register writes (\<open>register_log\<close>, \<open>window_log\<close>).

  \<^bold>\<open>Graphics\<close> (\<^verbatim>\<open>rtg/\<close>). \<open>RtgMode\<close>: timing table, PLL and the mode decision. \<open>RtgMemory\<close>, \<open>RtgOverlay\<close>: the
  card's memory and the video window's attributes. The Picasso96 hooks of \<^verbatim>\<open>mntgfx-gcc.c\<close> share one
  state, introduced in \<open>RtgBlitter\<close> (card, driver data, write caches, and the log of what the card was told):
  \<open>RtgDraw\<close> (drawing), \<open>RtgSprite\<close> (staged data, pointer, palette), \<open>RtgDisplay\<close> (modes), \<open>RtgSurface\<close> (bitmaps and video
  windows). \<open>RtgDraw_Correct\<close> and \<open>RtgScreen_Correct\<close>: the write caches are invisible, staging stays in its area;
  \<open>RtgDisplay_Correct\<close>: modes are programmed whole or not at all, a resolved clock is the programmed one;
  \<open>RtgSurface_Correct\<close>: the driver's books agree with the firmware's allocator.

  \<^bold>\<open>Bounds.\<close> Loops that the code bounds (8 stable reads, 150 or 250 waits, the drain budgets) recurse on that
  bound. Loops it does not bound are partial functions: the archive reader and the copy loop of the
  installer return under the documented behaviour of the inflater and of the host files (\<open>zip_feed_terminates\<close>,
  \<open>install_bundle_order\<close>), a walk over a tag list may not end when the list is circular. No fuel is used elsewhere.

  \<^bold>\<open>Not modelled.\<close> The Exec device shells around these modules (\<^verbatim>\<open>zzusbhw_device.c\<close>, \<^verbatim>\<open>net/device.c\<close>), the sound
  drivers, the settings file, the tools, ZZTop and the SD boot code: mostly operating-system glue or subsystems of their own. Of
  \<^verbatim>\<open>mntgfx-gcc.c\<close>, \<^verbatim>\<open>FindCard\<close>, \<^verbatim>\<open>InitCard\<close> and the tooltypes. Time, interrupts and the compiler barrier are represented only where
  a theorem quantifies over interleavings.
\<close>

end
